(* ===== verification/Relay_Prelude.thy ===== *)
theory Relay_Prelude
  imports Complex_Main "HOL-Library.AList" "HOL-Library.Sublist" "HOL-Library.Char_ord"
    "HOL-Library.List_Lexorder"
begin

text \<open>
  Shared vocabulary of the development: Python dictionaries as association lists in insertion
  order, Python string helpers on \<^typ>\<open>string\<close>, results as sums, the model's type synonyms
  and the collections of simplification rules the component theories use.

  A Python \<open>str\<close> is modelled by its UTF-8 encoding, one \<^typ>\<open>char\<close> per byte. Equality,
  concatenation, splitting at an ASCII separator, prefix, suffix and substring tests and the
  order used by \<open>sorted\<close> agree with Python's on that representation. Python floats that hold
  times and durations are exact rationals (rounding is not modelled), unbounded Python integers
  are \<^typ>\<open>int\<close>.
\<close>

named_theorems relay_defs \<open>unfolding equations of the model's one-line definitions\<close>
named_theorems isolation \<open>an operation for one device leaves another device's state alone\<close>

type_synonym bytes = string
type_synonym device_id = string
type_synonym seconds = rat
type_synonym ('k, 'v) dict = "('k \<times> 'v) list"

section \<open>Dictionaries\<close>

text \<open>
  Assignment keeps the position of an existing key and appends a new one, as a Python
  dictionary does; \<^const>\<open>AList.update\<close> is exactly that.
\<close>

abbreviation dict_get :: "('k, 'v) dict \<Rightarrow> 'k \<Rightarrow> 'v option" where
  "dict_get d k \<equiv> map_of d k"

abbreviation dict_set :: "'k \<Rightarrow> 'v \<Rightarrow> ('k, 'v) dict \<Rightarrow> ('k, 'v) dict" where
  "dict_set k v d \<equiv> AList.update k v d"

abbreviation dict_pop :: "'k \<Rightarrow> ('k, 'v) dict \<Rightarrow> ('k, 'v) dict" where
  "dict_pop k d \<equiv> AList.delete k d"

definition dict_wf :: "('k, 'v) dict \<Rightarrow> bool" where
  "dict_wf d \<longleftrightarrow> distinct (map fst d)"

text \<open>\<open>{**a, **b}\<close> and \<open>a.update(b)\<close>: the right dictionary wins.\<close>

fun dict_merge :: "('k, 'v) dict \<Rightarrow> ('k, 'v) dict \<Rightarrow> ('k, 'v) dict" where
  "dict_merge a [] = a"
| "dict_merge a ((k, v) # b) = dict_merge (dict_set k v a) b"

lemma dict_get_set [simp]: "dict_get (dict_set k v d) k' = (if k' = k then Some v else dict_get d k')"
  by (simp add: update_conv')

lemma dict_get_pop [simp]: "dict_get (dict_pop k d) k' = (if k' = k then None else dict_get d k')"
  by (simp add: delete_conv')

lemma dict_wf_Nil [simp]: "dict_wf []"
  by (simp add: dict_wf_def)

lemma dict_wf_Cons [simp]: "dict_wf ((k, v) # d) \<longleftrightarrow> k \<notin> fst ` set d \<and> dict_wf d"
  by (simp add: dict_wf_def)

lemma dict_wf_set [simp]: "dict_wf d \<Longrightarrow> dict_wf (dict_set k v d)"
  by (simp add: dict_wf_def distinct_update)

lemma dict_wf_pop [simp]: "dict_wf d \<Longrightarrow> dict_wf (dict_pop k d)"
  by (simp add: dict_wf_def distinct_delete)

lemma dict_wf_merge [simp]: "dict_wf a \<Longrightarrow> dict_wf (dict_merge a b)"
  by (induction a b rule: dict_merge.induct) simp_all

lemma dict_wf_filter [simp]: "dict_wf d \<Longrightarrow> dict_wf (filter P d)"
  by (induction d) (auto simp: dict_wf_def)

lemma dict_get_merge: "dict_wf b \<Longrightarrow>
    dict_get (dict_merge a b) k = (case dict_get b k of None \<Rightarrow> dict_get a k | Some v \<Rightarrow> Some v)"
proof (induction a b rule: dict_merge.induct)
  case (1 a)
  then show ?case by simp
next
  case (2 a k' v b)
  then have "dict_get b k' = None" by (simp add: map_of_eq_None_iff)
  with "2" show ?case by (cases "dict_get b k") auto
qed

lemma dict_get_filter: "dict_wf d \<Longrightarrow> dict_get (filter P d) k =
    (case dict_get d k of None \<Rightarrow> None | Some v \<Rightarrow> if P (k, v) then Some v else None)"
proof (induction d)
  case (Cons e d)
  obtain k' v where e: "e = (k', v)" by (cases e)
  from Cons have "k' \<notin> fst ` set d" by (simp add: e)
  then have "dict_get d k' = None" "dict_get (filter P d) k' = None" by (auto simp: map_of_eq_None_iff)
  with Cons show ?case by (auto simp: e split: option.splits)
qed simp

lemma dict_wf_mem: "dict_wf d \<Longrightarrow> (k, v) \<in> set d \<longleftrightarrow> dict_get d k = Some v"
  by (simp add: dict_wf_def map_of_eq_Some_iff)

lemma dict_get_Some_mem: "dict_get d k = Some v \<Longrightarrow> (k, v) \<in> set d"
  by (rule map_of_SomeD)

lemma dict_set_fresh: "k \<notin> fst ` set d \<Longrightarrow> dict_set k v d = d @ [(k, v)]"
  by (induction d) auto

lemma dict_pop_filter: "dict_pop k d = filter (\<lambda>p. fst p \<noteq> k) d"
  by (auto simp: AList.delete_eq case_prod_beta' intro: filter_cong)

section \<open>Strings\<close>

fun split_on :: "'a \<Rightarrow> 'a list \<Rightarrow> 'a list list" where
  "split_on c [] = [[]]"
| "split_on c (x # xs) =
     (if x = c then [] # split_on c xs
      else (case split_on c xs of [] \<Rightarrow> [[x]] | y # ys \<Rightarrow> (x # y) # ys))"

fun join :: "'a list \<Rightarrow> 'a list list \<Rightarrow> 'a list" where
  "join sep [] = []"
| "join sep [x] = x"
| "join sep (x # y # ys) = x @ sep @ join sep (y # ys)"

lemma split_on_not_Nil [simp]: "split_on c xs \<noteq> []"
  by (induction xs) (auto split: list.splits)

lemma split_on_free: "part \<in> set (split_on c xs) \<Longrightarrow> c \<notin> set part"
  by (induction xs arbitrary: part) (auto split: list.splits if_splits)

lemma join_split_on: "join [c] (split_on c xs) = xs"
proof (induction xs)
  case Nil
  then show ?case by simp
next
  case (Cons x xs)
  obtain y ys where s: "split_on c xs = y # ys" by (cases "split_on c xs") auto
  with Cons show ?case by (cases ys) auto
qed

lemma split_on_single: "c \<notin> set xs \<Longrightarrow> split_on c xs = [xs]"
  by (induction xs) auto

lemma split_on_append: "c \<notin> set xs \<Longrightarrow> split_on c (xs @ c # ys) = xs # split_on c ys"
  by (induction xs) auto

lemma split_on_join:
  "parts \<noteq> [] \<Longrightarrow> (\<And>p. p \<in> set parts \<Longrightarrow> c \<notin> set p) \<Longrightarrow> split_on c (join [c] parts) = parts"
proof (induction "[c]" parts rule: join.induct)
  case (3 x y ys)
  then show ?case by (simp add: split_on_append)
qed (simp_all add: split_on_single)

text \<open>\<open>str.lower\<close> on the ASCII letters; other bytes are left alone.\<close>

definition lower_char :: "char \<Rightarrow> char" where
  "lower_char c = (if CHR ''A'' \<le> c \<and> c \<le> CHR ''Z'' then char_of (of_char c + 32 :: nat) else c)"

definition lower :: "string \<Rightarrow> string" where
  "lower s = map lower_char s"

definition is_py_space :: "char \<Rightarrow> bool" where
  "is_py_space c \<longleftrightarrow> c \<in> set [CHR '' '', CHR 0x09, CHR 0x0A, CHR 0x0B, CHR 0x0C, CHR 0x0D,
     CHR 0x1C, CHR 0x1D, CHR 0x1E, CHR 0x1F]"

definition lstrip_on :: "('a \<Rightarrow> bool) \<Rightarrow> 'a list \<Rightarrow> 'a list" where
  "lstrip_on P s = dropWhile P s"

definition rstrip_on :: "('a \<Rightarrow> bool) \<Rightarrow> 'a list \<Rightarrow> 'a list" where
  "rstrip_on P s = rev (dropWhile P (rev s))"

definition strip :: "string \<Rightarrow> string" where
  "strip s = rstrip_on is_py_space (lstrip_on is_py_space s)"

section \<open>Bounded history and counters\<close>

text \<open>\<open>deque(maxlen=n).append\<close> drops from the left; \<open>collections.Counter\<close> counts from zero.\<close>

definition deque_append :: "nat \<Rightarrow> 'a \<Rightarrow> 'a list \<Rightarrow> 'a list" where
  "deque_append n x xs = drop (Suc (length xs) - n) (xs @ [x])"

lemma deque_append_length: "length xs \<le> n \<Longrightarrow> length (deque_append n x xs) = min n (Suc (length xs))"
  by (auto simp: deque_append_def)

lemma deque_append_suffix: "suffix (deque_append n x xs) (xs @ [x])"
  unfolding deque_append_def by (rule suffix_drop)

lemma deque_append_set: "set (deque_append n x xs) \<subseteq> insert x (set xs)"
  unfolding deque_append_def by (metis set_drop_subset list.set(2) rotate1.simps(2) set_rotate1)

text \<open>What a deque holds after a history of appends: the last \<open>n\<close> of them.\<close>

lemma deque_fold: "fold (deque_append n) ys [] = drop (length ys - n) ys"
proof (induction ys rule: rev_induct)
  case (snoc y ys)
  show ?case
  proof (cases "length ys < n")
    case True
    with snoc show ?thesis by (simp add: deque_append_def)
  next
    case False
    with snoc show ?thesis by (auto simp: deque_append_def Suc_diff_le)
  qed
qed simp

definition counter_add :: "string \<Rightarrow> nat \<Rightarrow> (string, nat) dict \<Rightarrow> (string, nat) dict" where
  "counter_add key n d = dict_set key ((case dict_get d key of None \<Rightarrow> 0 | Some m \<Rightarrow> m) + n) d"

section \<open>Options and results\<close>

text \<open>\<open>x or y\<close> on an optional string: the empty string is false.\<close>

definition opt_str_or :: "string option \<Rightarrow> string option \<Rightarrow> string option" where
  "opt_str_or a b = (case a of None \<Rightarrow> b | Some s \<Rightarrow> if s = [] then b else Some s)"

fun bind_res :: "'e + 'a \<Rightarrow> ('a \<Rightarrow> 'e + 'b) \<Rightarrow> 'e + 'b" where
  "bind_res (Inl e) f = Inl e"
| "bind_res (Inr x) f = f x"

lemma bind_res_Inr: "bind_res r f = Inr y \<longleftrightarrow> (\<exists>x. r = Inr x \<and> f x = Inr y)"
  by (cases r) auto

lemma bind_res_Inl: "bind_res r f = Inl e \<longleftrightarrow> r = Inl e \<or> (\<exists>x. r = Inr x \<and> f x = Inl e)"
  by (cases r) auto

section \<open>Lists\<close>

lemma filter_filter_conj: "filter P (filter Q xs) = filter (\<lambda>x. Q x \<and> P x) xs"
  by simp

lemma filter_replace_irrelevant:
  "(\<And>x. x \<in> set xs \<Longrightarrow> P (f x) = P x) \<Longrightarrow> (\<And>x. x \<in> set xs \<Longrightarrow> P x \<Longrightarrow> f x = x) \<Longrightarrow>
   filter P (map f xs) = filter P xs"
  by (induction xs) auto

lemma sorted_map_filter: "sorted (map f xs) \<Longrightarrow> sorted (map f (filter P xs))"
  by (rule sorted_filter)

end
