(* ===== verification/Json.thy ===== *)
theory Json
  imports Relay_Prelude
begin

text \<open>
  What the relay uses of Python's \<^verbatim>\<open>json\<close> module: the values it exchanges with the feeder and
  the cloud, \<open>json.dumps\<close> (with the default and with the compact separators, ASCII output) and
  \<open>json.loads\<close> on a byte string.

  \<open>json_loads\<close> returns \<^const>\<open>None\<close> where Python raises \<open>JSONDecodeError\<close> or
  \<open>UnicodeDecodeError\<close>, the two exceptions every caller in the relay handles together. Payloads are
  read as UTF-8 (the detection of UTF-16 and UTF-32 payloads is not modelled), with the
  \<open>surrogatepass\<close> handler Python uses there. A number with a fraction or an exponent is a decimal
  \<open>JFloat m e\<close> of value \<open>m * 10 ^ e\<close>; Python rounds it to a double.
\<close>

datatype json =
    JNull
  | JBool bool
  | JInt int
  | JFloat int int
  | JNaN
  | JInf bool
  | JStr string
  | JList "json list"
  | JObj "(string \<times> json) list"

type_synonym json_obj = "(string \<times> json) list"

section \<open>Digits\<close>

definition digit_char :: "nat \<Rightarrow> char" where
  "digit_char d = char_of (48 + d)"

definition is_digit :: "char \<Rightarrow> bool" where
  "is_digit c \<longleftrightarrow> 48 \<le> (of_char c :: nat) \<and> (of_char c :: nat) \<le> 57"

definition digit_val :: "char \<Rightarrow> nat" where
  "digit_val c = of_char c - 48"

fun show_nat :: "nat \<Rightarrow> string" where
  "show_nat n = (if n < 10 then [digit_char n] else show_nat (n div 10) @ [digit_char (n mod 10)])"

declare show_nat.simps [simp del]

definition show_int :: "int \<Rightarrow> string" where
  "show_int i = (if i < 0 then CHR ''-'' # show_nat (nat (- i)) else show_nat (nat i))"

definition read_nat :: "string \<Rightarrow> nat" where
  "read_nat s = foldl (\<lambda>n c. 10 * n + digit_val c) 0 s"

lemma of_char_digit_char [simp]: "d < 10 \<Longrightarrow> of_char (digit_char d) = 48 + d"
  by (simp add: digit_char_def)

lemma digit_char_props [simp]:
  assumes "d < 10"
  shows "is_digit (digit_char d)" and "digit_val (digit_char d) = d"
  using assms by (simp_all add: is_digit_def digit_val_def)

lemma show_nat_not_Nil [simp]: "show_nat n \<noteq> []" "[] \<noteq> show_nat n"
  by (subst show_nat.simps, simp)+

lemma show_nat_digits: "c \<in> set (show_nat n) \<Longrightarrow> is_digit c"
proof (induction n rule: show_nat.induct)
  case (1 n)
  then show ?case by (cases "n < 10") (auto simp: show_nat.simps [of n])
qed

lemma read_nat_snoc [simp]: "read_nat (s @ [c]) = 10 * read_nat s + digit_val c"
  by (simp add: read_nat_def)

lemma read_show_nat [simp]: "read_nat (show_nat n) = n"
proof (induction n rule: show_nat.induct)
  case (1 n)
  show ?case
  proof (cases "n < 10")
    case True
    then show ?thesis by (simp add: show_nat.simps [of n] read_nat_def)
  next
    case False
    with "1" have "read_nat (show_nat (n div 10)) = n div 10" by simp
    with False show ?thesis by (simp add: show_nat.simps [of n])
  qed
qed

lemma hd_show_nat: "0 < n \<Longrightarrow> hd (show_nat n) \<noteq> CHR ''0''"
proof (induction n rule: show_nat.induct)
  case (1 n)
  show ?case
  proof (cases "n < 10")
    case True
    with "1.prems" have "(of_char (hd (show_nat n)) :: nat) = 48 + n"
      by (simp add: show_nat.simps [of n])
    with "1.prems" show ?thesis by auto
  next
    case False
    with "1" have "hd (show_nat (n div 10)) \<noteq> CHR ''0''" by simp
    with False show ?thesis by (simp add: show_nat.simps [of n])
  qed
qed

section \<open>UTF-8\<close>

fun utf8_encode_cp :: "nat \<Rightarrow> string" where
  "utf8_encode_cp n =
     (if n < 128 then [char_of n]
      else if n < 2048 then [char_of (192 + n div 64), char_of (128 + n mod 64)]
      else if n < 65536 then
        [char_of (224 + n div 4096), char_of (128 + n div 64 mod 64), char_of (128 + n mod 64)]
      else [char_of (240 + n div 262144), char_of (128 + n div 4096 mod 64),
        char_of (128 + n div 64 mod 64), char_of (128 + n mod 64)])"

declare utf8_encode_cp.simps [simp del]

definition is_cont :: "char \<Rightarrow> bool" where
  "is_cont c \<longleftrightarrow> 128 \<le> (of_char c :: nat) \<and> (of_char c :: nat) < 192"

definition cont_val :: "char \<Rightarrow> nat" where
  "cont_val c = of_char c - 128"

text \<open>
  One code point off the front; \<^const>\<open>None\<close> on an ill-formed sequence. Surrogates are
  accepted, as the \<open>surrogatepass\<close> handler does.
\<close>

fun utf8_next :: "string \<Rightarrow> (nat \<times> string) option" where
  "utf8_next [] = None"
| "utf8_next (a # s) =
     (let n = (of_char a :: nat) in
      if n < 128 then Some (n, s)
      else if 194 \<le> n \<and> n < 224 then
        (case s of b # s' \<Rightarrow> if is_cont b then Some ((n - 192) * 64 + cont_val b, s') else None
         | _ \<Rightarrow> None)
      else if 224 \<le> n \<and> n < 240 then
        (case s of b # c # s' \<Rightarrow>
           let cp = (n - 224) * 4096 + cont_val b * 64 + cont_val c in
           if is_cont b \<and> is_cont c \<and> 2048 \<le> cp then Some (cp, s') else None
         | _ \<Rightarrow> None)
      else if 240 \<le> n \<and> n < 245 then
        (case s of b # c # d # s' \<Rightarrow>
           let cp = (n - 240) * 262144 + cont_val b * 4096 + cont_val c * 64 + cont_val d in
           if is_cont b \<and> is_cont c \<and> is_cont d \<and> 65536 \<le> cp \<and> cp < 1114112 then Some (cp, s')
           else None
         | _ \<Rightarrow> None)
      else None)"

lemma utf8_next_shorter [termination_simp]:
  "utf8_next s = Some (n, r) \<Longrightarrow> length r < length s"
  by (cases s) (auto simp: Let_def split: list.splits if_splits)

fun utf8_decode :: "string \<Rightarrow> nat list option" where
  "utf8_decode s =
     (if s = [] then Some []
      else (case utf8_next s of
        None \<Rightarrow> None
      | Some (n, r) \<Rightarrow> map_option (Cons n) (utf8_decode r)))"

declare utf8_decode.simps [simp del]

definition utf8_valid :: "bytes \<Rightarrow> bool" where
  "utf8_valid s \<longleftrightarrow> utf8_decode s \<noteq> None"

definition is_ascii :: "string \<Rightarrow> bool" where
  "is_ascii s \<longleftrightarrow> list_all (\<lambda>c. (of_char c :: nat) < 128) s"

lemma is_ascii_simps [simp]:
  "is_ascii []" "is_ascii (c # s) \<longleftrightarrow> (of_char c :: nat) < 128 \<and> is_ascii s"
  "is_ascii (s @ t) \<longleftrightarrow> is_ascii s \<and> is_ascii t"
  by (auto simp: is_ascii_def)

lemma utf8_decode_ascii: "is_ascii s \<Longrightarrow> utf8_decode s = Some (map of_char s)"
  by (induction s) (simp_all add: utf8_decode.simps)

text \<open>
  \<open>bytes.decode("utf-8", errors="replace")\<close>: every maximal ill-formed piece becomes one
  replacement character U+FFFD (its three UTF-8 bytes here).
\<close>

definition utf8_lead :: "nat \<Rightarrow> (nat \<times> nat \<times> nat) option" where
  "utf8_lead n =
     (if 0xC2 \<le> n \<and> n \<le> 0xDF then Some (1, 0x80, 0xBF)
      else if n = 0xE0 then Some (2, 0xA0, 0xBF)
      else if n = 0xED then Some (2, 0x80, 0x9F)
      else if 0xE1 \<le> n \<and> n \<le> 0xEF then Some (2, 0x80, 0xBF)
      else if n = 0xF0 then Some (3, 0x90, 0xBF)
      else if 0xF1 \<le> n \<and> n \<le> 0xF3 then Some (3, 0x80, 0xBF)
      else if n = 0xF4 then Some (3, 0x80, 0x8F)
      else None)"

fun utf8_conts :: "nat \<Rightarrow> nat \<Rightarrow> nat \<Rightarrow> string \<Rightarrow> nat" where
  "utf8_conts (Suc k) lo hi (b # s) =
     (if lo \<le> of_char b \<and> of_char b \<le> hi then Suc (utf8_conts k 0x80 0xBF s) else 0)"
| "utf8_conts _ _ _ _ = 0"

definition replacement_char :: string where
  "replacement_char = [CHR 0xEF, CHR 0xBF, CHR 0xBD]"

fun decode_replace :: "bytes \<Rightarrow> string" where
  "decode_replace [] = []"
| "decode_replace (a # s) =
     (if (of_char a :: nat) < 128 then a # decode_replace s
      else (case utf8_lead (of_char a) of
        None \<Rightarrow> replacement_char @ decode_replace s
      | Some (k, lo, hi) \<Rightarrow>
          let m = utf8_conts k lo hi s in
          if m = k then a # take k s @ decode_replace (drop k s)
          else replacement_char @ decode_replace (drop m s)))"

lemma decode_replace_ascii: "is_ascii s \<Longrightarrow> decode_replace s = s"
  by (induction s) simp_all

section \<open>Printing: \<open>json.dumps\<close>\<close>

definition hex_digit :: "nat \<Rightarrow> char" where
  "hex_digit d = (if d < 10 then char_of (48 + d) else char_of (87 + d))"

definition hex4 :: "nat \<Rightarrow> string" where
  "hex4 n = [hex_digit (n div 4096 mod 16), hex_digit (n div 256 mod 16),
     hex_digit (n div 16 mod 16), hex_digit (n mod 16)]"

definition u_escape :: "nat \<Rightarrow> string" where
  "u_escape n = CHR 0x5C # CHR ''u'' # hex4 n"

definition escape_cp :: "nat \<Rightarrow> string" where
  "escape_cp n =
     (if n = 34 then [CHR 0x5C, CHR 0x22] else if n = 92 then [CHR 0x5C, CHR 0x5C]
      else if n = 10 then [CHR 0x5C, CHR ''n''] else if n = 13 then [CHR 0x5C, CHR ''r'']
      else if n = 9 then [CHR 0x5C, CHR ''t''] else if n = 12 then [CHR 0x5C, CHR ''f'']
      else if n = 8 then [CHR 0x5C, CHR ''b'']
      else if 32 \<le> n \<and> n \<le> 126 then [char_of n]
      else if n < 65536 then u_escape n
      else u_escape (55296 + (n - 65536) div 1024) @ u_escape (56320 + (n - 65536) mod 1024))"

definition dump_str :: "string \<Rightarrow> string" where
  "dump_str s = CHR 0x22 # concat (map escape_cp
     (case utf8_decode s of Some cps \<Rightarrow> cps | None \<Rightarrow> map of_char s)) @ [CHR 0x22]"

text \<open>
  \<open>float.__repr__\<close> of the decimal \<open>m * 10 ^ e\<close>: fixed notation while the decimal point lands
  within sixteen digits, scientific notation otherwise.
\<close>

definition dump_exp :: "int \<Rightarrow> string" where
  "dump_exp x = CHR ''e'' # (if x < 0 then CHR ''-'' else CHR ''+'') #
     (let d = show_nat (nat \<bar>x\<bar>) in if length d < 2 then CHR ''0'' # d else d)"

definition dump_float :: "int \<Rightarrow> int \<Rightarrow> string" where
  "dump_float m e =
     (let d = show_nat (nat \<bar>m\<bar>); p = int (length d) + e in
      (if m < 0 then ''-'' else []) @
      (if m = 0 then ''0.0''
       else if -4 < p \<and> p \<le> 16 then
         (if 0 \<le> e then d @ replicate (nat e) (CHR ''0'') @ ''.0''
          else if 0 < p then take (nat p) d @ ''.'' @ drop (nat p) d
          else ''0.'' @ replicate (nat (- p)) (CHR ''0'') @ d)
       else [hd d] @ (if tl d = [] then [] else ''.'' @ tl d) @ dump_exp (p - 1)))"

fun dumps_sep :: "string \<Rightarrow> string \<Rightarrow> json \<Rightarrow> string" where
  "dumps_sep item key JNull = ''null''"
| "dumps_sep item key (JBool b) = (if b then ''true'' else ''false'')"
| "dumps_sep item key (JInt i) = show_int i"
| "dumps_sep item key (JFloat m e) = dump_float m e"
| "dumps_sep item key JNaN = ''NaN''"
| "dumps_sep item key (JInf neg) = (if neg then ''-Infinity'' else ''Infinity'')"
| "dumps_sep item key (JStr s) = dump_str s"
| "dumps_sep item key (JList xs) = ''['' @ join item (map (dumps_sep item key) xs) @ '']''"
| "dumps_sep item key (JObj kvs) =
     ''{'' @ join item (map (\<lambda>kv. dump_str (fst kv) @ key @ dumps_sep item key (snd kv)) kvs) @ ''}''"

definition json_dumps :: "json \<Rightarrow> bytes" where
  "json_dumps = dumps_sep '', '' '': ''"

definition json_dumps_compact :: "json \<Rightarrow> bytes" where
  "json_dumps_compact = dumps_sep '','' '':''"

section \<open>Parsing: \<open>json.loads\<close>\<close>

definition is_json_ws :: "char \<Rightarrow> bool" where
  "is_json_ws c \<longleftrightarrow> c = CHR '' '' \<or> c = CHR 0x09 \<or> c = CHR 0x0A \<or> c = CHR 0x0D"

definition skip_ws :: "string \<Rightarrow> string" where
  "skip_ws s = dropWhile is_json_ws s"

definition hex_val :: "char \<Rightarrow> nat option" where
  "hex_val c = (let n = (of_char c :: nat) in
     if 48 \<le> n \<and> n \<le> 57 then Some (n - 48)
     else if 97 \<le> n \<and> n \<le> 102 then Some (n - 87)
     else if 65 \<le> n \<and> n \<le> 70 then Some (n - 55) else None)"

fun read_hex4 :: "string \<Rightarrow> (nat \<times> string) option" where
  "read_hex4 (a # b # c # d # s) =
     (case (hex_val a, hex_val b, hex_val c, hex_val d) of
       (Some w, Some x, Some y, Some z) \<Rightarrow> Some (w * 4096 + x * 256 + y * 16 + z, s)
     | _ \<Rightarrow> None)"
| "read_hex4 _ = None"

text \<open>
  The code point a backslash-u escape denotes; a high surrogate directly followed by an escaped
  low surrogate makes one code point.
\<close>

definition read_unicode :: "string \<Rightarrow> (string \<times> string) option" where
  "read_unicode s =
     (case read_hex4 s of
       None \<Rightarrow> None
     | Some (u, r) \<Rightarrow>
         if 55296 \<le> u \<and> u < 56320 then
           (case r of
             b # c # r' \<Rightarrow>
               if b = CHR 0x5C \<and> c = CHR ''u'' then
                 (case read_hex4 r' of
                   None \<Rightarrow> None
                 | Some (u2, r2) \<Rightarrow>
                     if 56320 \<le> u2 \<and> u2 < 57344
                     then Some (utf8_encode_cp (65536 + (u - 55296) * 1024 + (u2 - 56320)), r2)
                     else Some (utf8_encode_cp u, r))
               else Some (utf8_encode_cp u, r)
           | _ \<Rightarrow> Some (utf8_encode_cp u, r))
         else Some (utf8_encode_cp u, r))"

text \<open>One character or escape of a string literal; control characters are refused.\<close>

fun str_item :: "string \<Rightarrow> (string \<times> string) option" where
  "str_item [] = None"
| "str_item (c # s) =
     (if c = CHR 0x5C then
        (case s of
          [] \<Rightarrow> None
        | e # r \<Rightarrow>
            if e = CHR 0x22 \<or> e = CHR 0x5C \<or> e = CHR ''/'' then Some ([e], r)
            else if e = CHR ''b'' then Some ([CHR 0x08], r)
            else if e = CHR ''f'' then Some ([CHR 0x0C], r)
            else if e = CHR ''n'' then Some ([CHR 0x0A], r)
            else if e = CHR ''r'' then Some ([CHR 0x0D], r)
            else if e = CHR ''t'' then Some ([CHR 0x09], r)
            else if e = CHR ''u'' then read_unicode r
            else None)
      else if (of_char c :: nat) < 32 then None
      else Some ([c], s))"

lemma read_hex4_length: "read_hex4 s = Some (n, r) \<Longrightarrow> length s = length r + 4"
  by (induction s rule: read_hex4.induct) (auto split: option.splits)

lemma read_unicode_shorter: "read_unicode s = Some (x, r) \<Longrightarrow> length r < length s"
  by (auto simp: read_unicode_def split: option.splits list.splits if_splits
      dest!: read_hex4_length)

lemma str_item_shorter [termination_simp]:
  "str_item s = Some (x, r) \<Longrightarrow> length r < length s"
  by (cases s) (auto split: list.splits if_splits dest: read_unicode_shorter)

text \<open>The rest of a string literal, after its opening quote.\<close>

fun read_str :: "string \<Rightarrow> (string \<times> string) option" where
  "read_str s =
     (if s \<noteq> [] \<and> hd s = CHR 0x22 then Some ([], tl s)
      else (case str_item s of
        None \<Rightarrow> None
      | Some (x, r) \<Rightarrow> map_option (\<lambda>(y, r'). (x @ y, r')) (read_str r)))"

declare read_str.simps [simp del]

lemma read_str_shorter: "read_str s = Some (x, r) \<Longrightarrow> length r < length s"
proof (induction s arbitrary: x r rule: read_str.induct)
  case (1 s)
  then show ?case
    by (subst (asm) (2) read_str.simps)
      (fastforce split: if_splits option.splits dest: str_item_shorter)
qed

subsection \<open>Numbers\<close>

fun norm_dec :: "nat \<Rightarrow> int \<Rightarrow> int \<Rightarrow> int \<times> int" where
  "norm_dec 0 m e = (m, e)"
| "norm_dec (Suc f) m e =
     (if m = 0 then (0, 0) else if m mod 10 = 0 then norm_dec f (m div 10) (e + 1) else (m, e))"

definition read_frac :: "string \<Rightarrow> string \<times> string" where
  "read_frac s = (case s of
     c # r \<Rightarrow> if c = CHR ''.'' \<and> takeWhile is_digit r \<noteq> [] then (takeWhile is_digit r, dropWhile is_digit r)
              else ([], s)
   | [] \<Rightarrow> ([], s))"

definition read_exp :: "string \<Rightarrow> int option \<times> string" where
  "read_exp s = (case s of
     [] \<Rightarrow> (None, s)
   | c # r \<Rightarrow>
       if c \<noteq> CHR ''e'' \<and> c \<noteq> CHR ''E'' then (None, s)
       else
         let signed = r \<noteq> [] \<and> (hd r = CHR ''-'' \<or> hd r = CHR ''+'');
             neg = r \<noteq> [] \<and> hd r = CHR ''-'';
             d = (if signed then tl r else r);
             ds = takeWhile is_digit d in
         if ds = [] then (None, s)
         else (Some (if neg then - int (read_nat ds) else int (read_nat ds)), dropWhile is_digit d))"

definition int_digits :: "string \<Rightarrow> string" where
  "int_digits s = (let ds = takeWhile is_digit s in
     if ds = [] then [] else if hd ds = CHR ''0'' then ''0'' else ds)"

definition mk_number :: "bool \<Rightarrow> string \<Rightarrow> string \<Rightarrow> int option \<Rightarrow> json" where
  "mk_number neg ip fr ex =
     (let m = int (read_nat (ip @ fr)); v = (if neg then - m else m) in
      if fr = [] \<and> ex = None then JInt v
      else (case norm_dec (length (ip @ fr)) v
              ((case ex of None \<Rightarrow> 0 | Some x \<Rightarrow> x) - int (length fr)) of
          (m', e') \<Rightarrow> JFloat m' e'))"

definition read_number :: "string \<Rightarrow> (json \<times> string) option" where
  "read_number s =
     (let neg = s \<noteq> [] \<and> hd s = CHR ''-''; s1 = (if neg then tl s else s); ip = int_digits s1 in
      if ip = [] then None
      else (case read_frac (drop (length ip) s1) of
          (fr, s3) \<Rightarrow> (case read_exp s3 of
            (ex, s4) \<Rightarrow> Some (mk_number neg ip fr ex, s4))))"

lemma read_frac_length: "read_frac s = (f, r) \<Longrightarrow> length r \<le> length s"
  by (auto simp: read_frac_def split: list.splits if_splits intro: le_SucI length_dropWhile_le)

lemma read_exp_length: "read_exp s = (x, r) \<Longrightarrow> length r \<le> length s"
proof -
  have tl_le: "length (dropWhile is_digit (tl u)) \<le> Suc (length u)" for u :: string
    by (rule order_trans [OF length_dropWhile_le]) simp
  show "read_exp s = (x, r) \<Longrightarrow> length r \<le> length s"
    by (auto simp: read_exp_def Let_def tl_le split: list.splits if_splits
        intro: le_SucI length_dropWhile_le)
qed

lemma int_digits_length: "int_digits s \<noteq> [] \<Longrightarrow> s \<noteq> []"
  by (auto simp: int_digits_def)

lemma read_number_shorter: "read_number s = Some (v, r) \<Longrightarrow> length r < length s"
proof -
  assume a: "read_number s = Some (v, r)"
  define s1 where "s1 = (if s \<noteq> [] \<and> hd s = CHR ''-'' then tl s else s)"
  define ip where "ip = int_digits s1"
  from a obtain fr s3 ex where ne: "ip \<noteq> []" and f: "read_frac (drop (length ip) s1) = (fr, s3)"
    and x: "read_exp s3 = (ex, r)"
    by (auto simp: read_number_def Let_def s1_def ip_def split: if_splits prod.splits)
  moreover from ne have "s1 \<noteq> []" by (auto simp: ip_def dest: int_digits_length)
  ultimately have "length (drop (length ip) s1) < length s1" by (cases ip; cases s1) auto
  moreover have "length s1 \<le> length s" by (simp add: s1_def)
  ultimately show ?thesis
    using read_frac_length [OF f] read_exp_length [OF x] by simp
qed

subsection \<open>Values\<close>

text \<open>Strings, the literals and numbers: the values without nested values.\<close>

definition parse_atom :: "string \<Rightarrow> (json \<times> string) option" where
  "parse_atom s =
     (if s \<noteq> [] \<and> hd s = CHR 0x22 then map_option (\<lambda>(x, r). (JStr x, r)) (read_str (tl s))
      else if prefix ''null'' s then Some (JNull, drop 4 s)
      else if prefix ''true'' s then Some (JBool True, drop 4 s)
      else if prefix ''false'' s then Some (JBool False, drop 5 s)
      else (case read_number s of
          Some res \<Rightarrow> Some res
        | None \<Rightarrow>
            if prefix ''NaN'' s then Some (JNaN, drop 3 s)
            else if prefix ''Infinity'' s then Some (JInf False, drop 8 s)
            else if prefix ''-Infinity'' s then Some (JInf True, drop 9 s)
            else None))"

lemma drop_shorter: "prefix (c # p) s \<Longrightarrow> 0 < n \<Longrightarrow> length (drop n s) < length s"
  by (cases s) auto

lemma parse_atom_shorter: "parse_atom s = Some (v, r) \<Longrightarrow> length r < length s"
  by (auto simp: parse_atom_def split: if_splits option.splits
      dest: read_str_shorter read_number_shorter intro: drop_shorter)


text \<open>
  The recursive descent. Fuel bounds the recursion: every call for a value consumes a character
  before it recurses, so twice the length of the text is enough (\<open>parse_enough_fuel\<close> below).
\<close>

fun parse_value :: "nat \<Rightarrow> string \<Rightarrow> (json \<times> string) option"
  and parse_items :: "nat \<Rightarrow> string \<Rightarrow> (json list \<times> string) option"
  and parse_pairs :: "nat \<Rightarrow> string \<Rightarrow> (json_obj \<times> string) option" where
  "parse_value 0 s = None"
| "parse_value (Suc f) s =
     (if s = [] then None
      else if hd s = CHR ''{'' then
        (let t = skip_ws (tl s) in
         if t \<noteq> [] \<and> hd t = CHR ''}'' then Some (JObj [], tl t)
         else map_option (\<lambda>(kvs, r). (JObj (dict_merge [] kvs), r)) (parse_pairs f t))
      else if hd s = CHR ''['' then
        (let t = skip_ws (tl s) in
         if t \<noteq> [] \<and> hd t = CHR '']'' then Some (JList [], tl t)
         else map_option (\<lambda>(xs, r). (JList xs, r)) (parse_items f t))
      else parse_atom s)"
| "parse_items 0 s = None"
| "parse_items (Suc f) s =
     (case parse_value f s of
       None \<Rightarrow> None
     | Some (x, r) \<Rightarrow>
         (case skip_ws r of
           [] \<Rightarrow> None
         | c # r' \<Rightarrow>
             if c = CHR '']'' then Some ([x], r')
             else if c = CHR '','' then
               map_option (\<lambda>(xs, r''). (x # xs, r'')) (parse_items f (skip_ws r'))
             else None))"
| "parse_pairs 0 s = None"
| "parse_pairs (Suc f) s =
     (if s = [] \<or> hd s \<noteq> CHR 0x22 then None
      else (case read_str (tl s) of
        None \<Rightarrow> None
      | Some (k, r) \<Rightarrow>
          (case skip_ws r of
            [] \<Rightarrow> None
          | c # r' \<Rightarrow>
              if c \<noteq> CHR '':'' then None
              else (case parse_value f (skip_ws r') of
                None \<Rightarrow> None
              | Some (v, r2) \<Rightarrow>
                  (case skip_ws r2 of
                    [] \<Rightarrow> None
                  | c2 # r3 \<Rightarrow>
                      if c2 = CHR ''}'' then Some ([(k, v)], r3)
                      else if c2 = CHR '','' then
                        map_option (\<lambda>(kvs, r4). ((k, v) # kvs, r4)) (parse_pairs f (skip_ws r3))
                      else None)))))"

definition json_fuel :: "string \<Rightarrow> nat" where
  "json_fuel s = 2 * length s + 1"

definition strip_bom :: "bytes \<Rightarrow> bytes" where
  "strip_bom s = (if prefix [CHR 0xEF, CHR 0xBB, CHR 0xBF] s then drop 3 s else s)"

definition json_loads :: "bytes \<Rightarrow> json option" where
  "json_loads bs =
     (let text = skip_ws (strip_bom bs) in
      if \<not> utf8_valid bs then None
      else (case parse_value (json_fuel text) text of
        None \<Rightarrow> None
      | Some (v, r) \<Rightarrow> if skip_ws r = [] then Some v else None))"

section \<open>Enough fuel\<close>

lemma skip_ws_length [simp]: "length (skip_ws s) \<le> length s"
  by (simp add: skip_ws_def length_dropWhile_le)

lemma skip_ws_Cons_length: "skip_ws s = c # r \<Longrightarrow> length r < length s"
  using skip_ws_length [of s] by simp

lemma less_skip_ws: "n < length (skip_ws s) \<Longrightarrow> n \<le> length s"
  using skip_ws_length [of s] by linarith

lemma tl_skip_ws_length: "skip_ws s \<noteq> [] \<Longrightarrow> length (tl (skip_ws s)) < length s"
  using skip_ws_length [of s] by (cases "skip_ws s") auto

lemma length_tl_less: "s \<noteq> [] \<Longrightarrow> length (tl s) < length s"
  by (cases s) auto

lemma parse_shorter:
  "parse_value f s = Some (v, r) \<Longrightarrow> length r < length s"
  "parse_items f s = Some (xs, r) \<Longrightarrow> length r < length s"
  "parse_pairs f s = Some (kvs, r) \<Longrightarrow> length r < length s"
proof (induction f s and f s and f s arbitrary: v r and xs r and kvs r
    rule: parse_value_parse_items_parse_pairs.induct)
  case (2 f s)
  from "2.prems" consider
    (close) "s \<noteq> []" "skip_ws (tl s) \<noteq> []" "r = tl (skip_ws (tl s))"
    | (sub) "s \<noteq> []" "length r < length (skip_ws (tl s))"
    | (atom) "parse_atom s = Some (v, r)"
    using "2.IH" by (auto simp: Let_def split: if_splits)
  then show ?case
  proof cases
    case close
    then show ?thesis using tl_skip_ws_length [of "tl s"] length_tl_less [of s] by simp
  next
    case sub
    then show ?thesis using skip_ws_length [of "tl s"] length_tl_less [of s] by linarith
  next
    case atom
    then show ?thesis by (rule parse_atom_shorter)
  qed
next
  case (4 f s)
  from "4.prems" obtain x r1 c r2 where v: "parse_value f s = Some (x, r1)"
    and w: "skip_ws r1 = c # r2"
    and e: "r = r2 \<or> c \<noteq> CHR '']'' \<and> c = CHR '','' \<and> (\<exists>ys. parse_items f (skip_ws r2) = Some (ys, r))"
    by (auto split: if_splits list.splits option.splits)
  have "length r \<le> length r2"
    using e "4.IH"(2) [OF v refl w] by (auto dest!: less_skip_ws)
  with "4.IH"(1) [OF v] skip_ws_Cons_length [OF w] show ?case by simp
next
  case (6 f s)
  from "6.prems" obtain k r1 c r2 v r3 c2 r4 where
    s: "\<not> (s = [] \<or> hd s \<noteq> CHR 0x22)" and k: "read_str (tl s) = Some (k, r1)"
    and w1: "skip_ws r1 = c # r2" and c: "\<not> c \<noteq> CHR '':''"
    and v: "parse_value f (skip_ws r2) = Some (v, r3)" and w2: "skip_ws r3 = c2 # r4"
    and e: "r = r4 \<or> c2 \<noteq> CHR ''}'' \<and> c2 = CHR '','' \<and> (\<exists>ys. parse_pairs f (skip_ws r4) = Some (ys, r))"
    by (auto split: if_splits list.splits option.splits)
  have "length r3 < length (skip_ws r2)" by (rule "6.IH"(1) [OF s k refl w1 c v])
  moreover have "length r \<le> length r4"
    using e "6.IH"(2) [OF s k refl w1 c v refl w2] by (auto dest!: less_skip_ws)
  ultimately show ?case
    using s read_str_shorter [OF k] length_tl_less [of s] skip_ws_Cons_length [OF w1]
      skip_ws_Cons_length [OF w2] skip_ws_length [of r2] by linarith
qed simp_all

declare parse_value.simps [simp del] parse_items.simps [simp del] parse_pairs.simps [simp del]

text \<open>
  Past twice the length of its input the parser's result no longer depends on the fuel.
\<close>

lemma parse_fuel_step:
  "2 * length s < f \<Longrightarrow> parse_value (Suc f) s = parse_value f s"
  "2 * length s + 1 < f \<Longrightarrow> parse_items (Suc f) s = parse_items f s"
  "2 * length s + 1 < f \<Longrightarrow> parse_pairs (Suc f) s = parse_pairs f s"
proof (induction f arbitrary: s)
  case (Suc f)
  {
    case 1
    show ?case
    proof (cases "s = []")
      case False
      then have b: "2 * length (skip_ws (tl s)) + 1 < f"
        using "1" skip_ws_length [of "tl s"] length_tl_less [of s] by linarith
      show ?thesis
        unfolding parse_value.simps(2) [of f s] parse_value.simps(2) [of "Suc f" s] Let_def
          Suc.IH(2) [OF b] Suc.IH(3) [OF b] by (rule refl)
    qed (simp add: parse_value.simps)
  next
    case 2
    then have v: "parse_value (Suc f) s = parse_value f s" by (intro Suc.IH(1)) simp
    have i: "parse_items (Suc f) (skip_ws r2) = parse_items f (skip_ws r2)"
      if "parse_value f s = Some (x, r1)" "skip_ws r1 = c # r2" for x r1 c r2
      using that "2" parse_shorter(1) [OF that(1)] skip_ws_Cons_length [OF that(2)]
        skip_ws_length [of r2] by (intro Suc.IH(2)) linarith
    show ?case
      by (auto simp: parse_items.simps(2) [of f s] parse_items.simps(2) [of "Suc f" s] v i
          split: option.splits list.splits)
  next
    case 3
    have v: "parse_value (Suc f) (skip_ws r2) = parse_value f (skip_ws r2)"
      if "s \<noteq> []" "read_str (tl s) = Some (k, r1)" "skip_ws r1 = c # r2" for k r1 c r2
      using that "3" read_str_shorter [OF that(2)] skip_ws_Cons_length [OF that(3)]
        skip_ws_length [of r2] length_tl_less [of s] by (intro Suc.IH(1)) linarith
    have i: "parse_pairs (Suc f) (skip_ws r4) = parse_pairs f (skip_ws r4)"
      if "s \<noteq> []" "read_str (tl s) = Some (k, r1)" "skip_ws r1 = c # r2"
        "parse_value f (skip_ws r2) = Some (v, r3)" "skip_ws r3 = c2 # r4" for k r1 c r2 v r3 c2 r4
      using that "3" read_str_shorter [OF that(2)] skip_ws_Cons_length [OF that(3)]
        parse_shorter(1) [OF that(4)] skip_ws_Cons_length [OF that(5)]
        skip_ws_length [of r2] skip_ws_length [of r4] length_tl_less [of s]
      by (intro Suc.IH(3)) linarith
    show ?case
      by (auto simp: parse_pairs.simps(2) [of f s] parse_pairs.simps(2) [of "Suc f" s] v i
          split: option.splits list.splits)
  }
qed simp_all

lemma parse_enough_fuel: "json_fuel s \<le> f \<Longrightarrow> parse_value f s = parse_value (json_fuel s) s"
proof (induction f rule: dec_induct)
  case (step n)
  then have "parse_value (Suc n) s = parse_value n s"
    by (intro parse_fuel_step(1)) (simp add: json_fuel_def)
  with step show ?case by simp
qed simp

section \<open>Round trip\<close>

lemma hex_val_digit: "d < 16 \<Longrightarrow> hex_val (hex_digit d) = Some d"
  by (simp add: hex_val_def hex_digit_def)

lemma read_hex4_hex4: "n < 65536 \<Longrightarrow> read_hex4 (hex4 n @ r) = Some (n, r)"
proof -
  assume "n < 65536"
  define a b c where "a = n div 16" and "b = a div 16" and "c = b div 16"
  have "n div 256 = b" "n div 4096 = c"
    by (simp_all add: a_def b_def c_def flip: div_mult2_eq)
  moreover have "c < 16" using \<open>n < 65536\<close> \<open>n div 4096 = c\<close> by auto
  moreover have "n = 16 * a + n mod 16" "a = 16 * b + a mod 16" "b = 16 * c + b mod 16"
    by (simp_all add: a_def b_def c_def)
  ultimately have "c * 4096 + b mod 16 * 256 + a mod 16 * 16 + n mod 16 = n" by linarith
  with \<open>n div 256 = b\<close> \<open>n div 4096 = c\<close> \<open>c < 16\<close> show ?thesis
    by (simp add: hex4_def hex_val_digit a_def)
qed

lemma char_eqI: "(of_char c :: nat) = of_char d \<Longrightarrow> c = d"
  by simp

lemma str_item_escape:
  assumes "(of_char c :: nat) < 128"
  shows "str_item (escape_cp (of_char c) @ r) = Some ([c], r)"
proof -
  let ?n = "of_char c :: nat"
  have u: "read_unicode (hex4 ?n @ r) = Some ([c], r)"
    using assms by (simp add: read_unicode_def read_hex4_hex4 utf8_encode_cp.simps)
  consider "?n = 34" | "?n = 92" | "?n = 10" | "?n = 13" | "?n = 9" | "?n = 12" | "?n = 8"
    | (pr) "32 \<le> ?n" "?n \<le> 126" "?n \<noteq> 34" "?n \<noteq> 92"
    | (ctl) "?n < 32 \<or> 126 < ?n" "?n \<notin> {10, 13, 9, 12, 8, 34, 92}" by fastforce
  then show ?thesis
  proof cases
    case pr
    then have "c \<noteq> CHR 0x5C" by auto
    with pr show ?thesis by (auto simp: escape_cp_def)
  next
    case ctl
    then have "escape_cp ?n = u_escape ?n" using assms by (auto simp: escape_cp_def)
    then show ?thesis using u by (simp add: u_escape_def)
  qed (auto simp: escape_cp_def intro!: char_eqI)
qed

lemma hd_escape_cp: "n < 128 \<Longrightarrow> escape_cp n \<noteq> [] \<and> hd (escape_cp n) \<noteq> CHR 0x22"
proof -
  assume n: "n < 128"
  have "n = 34" if "char_of n = CHR 0x22"
    using n arg_cong [OF that, of "of_char :: char \<Rightarrow> nat"] by simp
  with n show ?thesis by (auto simp: escape_cp_def u_escape_def)
qed

lemma read_str_step: "s \<noteq> [] \<Longrightarrow> hd s \<noteq> CHR 0x22 \<Longrightarrow> str_item s = Some (x, t) \<Longrightarrow>
    read_str t = Some (y, r) \<Longrightarrow> read_str s = Some (x @ y, r)"
  by (simp add: read_str.simps [of s])

lemma read_str_escaped:
  "is_ascii s \<Longrightarrow> read_str (concat (map escape_cp (map of_char s)) @ CHR 0x22 # r) = Some (s, r)"
proof (induction s)
  case Nil
  then show ?case by (simp add: read_str.simps)
next
  case (Cons c s)
  let ?e = "escape_cp (of_char c)" and ?t = "concat (map escape_cp (map of_char s)) @ CHR 0x22 # r"
  from Cons.prems have "?e \<noteq> [] \<and> hd ?e \<noteq> CHR 0x22" by (intro hd_escape_cp) simp
  then have "?e @ ?t \<noteq> []" "hd (?e @ ?t) \<noteq> CHR 0x22" by (cases ?e, simp, simp)+
  moreover have "str_item (?e @ ?t) = Some ([c], ?t)" using Cons.prems by (simp add: str_item_escape)
  moreover have "read_str ?t = Some (s, r)" using Cons by simp
  ultimately have "read_str (?e @ ?t) = Some ([c] @ s, r)" by (rule read_str_step)
  then show ?case by simp
qed

lemma dump_str_ascii: "is_ascii s \<Longrightarrow>
    dump_str s @ r = CHR 0x22 # concat (map escape_cp (map of_char s)) @ CHR 0x22 # r"
  by (simp add: dump_str_def utf8_decode_ascii)

text \<open>What may follow a value inside a document: nothing, or the next separator.\<close>

definition json_stop :: "string \<Rightarrow> bool" where
  "json_stop r \<longleftrightarrow> r = [] \<or> hd r \<in> {CHR '','', CHR '']'', CHR ''}''}"

lemma takeWhile_digits: "json_stop r \<Longrightarrow>
    takeWhile is_digit (show_nat n @ r) = show_nat n \<and> dropWhile is_digit (show_nat n @ r) = r"
proof -
  assume "json_stop r"
  then have "r = [] \<or> \<not> is_digit (hd r)" by (auto simp: json_stop_def is_digit_def)
  moreover have "\<forall>c\<in>set (show_nat n). is_digit c" by (simp add: show_nat_digits)
  ultimately show ?thesis by (cases r) (auto simp: takeWhile_append dropWhile_append)
qed

lemma int_digits_show: "json_stop r \<Longrightarrow> int_digits (show_nat n @ r) = show_nat n"
  using hd_show_nat [of n] takeWhile_digits [of r n]
  by (cases "n = 0") (auto simp: int_digits_def Let_def show_nat.simps [of 0] digit_char_def)

lemma json_stop_number: "json_stop r \<Longrightarrow> read_frac r = ([], r) \<and> read_exp r = (None, r)"
  by (auto simp: json_stop_def read_frac_def read_exp_def split: list.splits)

lemma hd_show_nat_sign: "hd (show_nat n @ r) \<noteq> CHR ''-''"
  using show_nat_digits [of "hd (show_nat n)" n] by (auto simp: is_digit_def)

lemma read_number_show_int:
  assumes "json_stop r"
  shows "read_number (show_int i @ r) = Some (JInt i, r)"
  using assms int_digits_show [OF assms, of "nat \<bar>i\<bar>"] json_stop_number [OF assms]
    hd_show_nat_sign [of "nat i" r]
  by (auto simp: read_number_def show_int_def Let_def mk_number_def)

text \<open>
  The values the round trip is proved for: ASCII strings, integers, no floats, objects with
  distinct keys. Everything the relay builds itself has this form.
\<close>

fun plain_json :: "json \<Rightarrow> bool" where
  "plain_json JNull = True"
| "plain_json (JBool b) = True"
| "plain_json (JInt i) = True"
| "plain_json (JFloat m e) = False"
| "plain_json JNaN = False"
| "plain_json (JInf b) = False"
| "plain_json (JStr s) = is_ascii s"
| "plain_json (JList xs) = list_all plain_json xs"
| "plain_json (JObj kvs) =
     (distinct (map fst kvs) \<and> list_all (\<lambda>kv. is_ascii (fst kv) \<and> plain_json (snd kv)) kvs)"

lemma dict_merge_Nil: "distinct (map fst acc @ map fst kvs) \<Longrightarrow> dict_merge acc kvs = acc @ kvs"
proof (induction acc kvs rule: dict_merge.induct)
  case (2 a k v b)
  then have "k \<notin> fst ` set a" by auto
  with "2" show ?case by (auto simp: dict_set_fresh)
qed simp

definition ws_only :: "string \<Rightarrow> bool" where
  "ws_only w \<longleftrightarrow> list_all is_json_ws w"

lemma skip_ws_append: "ws_only w \<Longrightarrow> skip_ws (w @ s) = skip_ws s"
  by (induction w) (auto simp: ws_only_def skip_ws_def)

lemma skip_ws_id: "s = [] \<or> \<not> is_json_ws (hd s) \<Longrightarrow> skip_ws s = s"
  by (cases s) (auto simp: skip_ws_def)

definition json_start :: "char \<Rightarrow> bool" where
  "json_start c \<longleftrightarrow> \<not> is_json_ws c \<and> c \<noteq> CHR ''}'' \<and> c \<noteq> CHR '']''"

lemma json_start_digit: "is_digit c \<Longrightarrow> json_start c"
  by (auto simp: is_digit_def json_start_def is_json_ws_def)

lemma hd_show_nat_digit: "is_digit (hd (show_nat n))"
  by (rule show_nat_digits [of _ n]) simp

lemma json_start_show_nat: "json_start (hd (show_nat n))"
  by (rule json_start_digit) (rule hd_show_nat_digit)

lemma hd_dumps: "dumps_sep i k v \<noteq> [] \<and> json_start (hd (dumps_sep i k v))"
proof -
  have c: "json_start (CHR ''-'')" "json_start (CHR ''0'')" "json_start (CHR 0x22)"
    "json_start (CHR ''n'')" "json_start (CHR ''t'')" "json_start (CHR ''f'')"
    "json_start (CHR ''N'')" "json_start (CHR ''I'')" "json_start (CHR ''['')"
    "json_start (CHR ''{'')"
    by (auto simp: json_start_def is_json_ws_def)
  have "hd (take n s @ t) = hd s" if "0 < n" "s \<noteq> []" for n :: nat and s t :: string
    using that by (cases s; cases n) auto
  then have "dump_float m e \<noteq> [] \<and> json_start (hd (dump_float m e))" for m e
    using c by (auto simp: dump_float_def Let_def hd_append json_start_show_nat)
  then show ?thesis
    using c by (cases v) (auto simp: show_int_def json_start_show_nat dump_str_def)
qed

lemma skip_ws_start: "s \<noteq> [] \<Longrightarrow> json_start (hd s) \<Longrightarrow> skip_ws (s @ r) = s @ r"
  by (rule skip_ws_id) (auto simp: json_start_def)

lemma skip_ws_stop: "json_stop r \<Longrightarrow> skip_ws r = r"
  by (rule skip_ws_id) (auto simp: json_stop_def is_json_ws_def)

lemma hd_join: "x \<noteq> [] \<Longrightarrow> join sep (x # xs) \<noteq> [] \<and> hd (join sep (x # xs)) = hd x"
  by (cases xs) auto

lemma parse_atom_dumps:
  assumes "json_stop r" "plain_json v" "\<not> (\<exists>xs. v = JList xs)" "\<not> (\<exists>kvs. v = JObj kvs)"
  shows "parse_value (Suc f) (dumps_sep i k v @ r) = Some (v, r)"
proof -
  let ?d = "dumps_sep i k v"
  have nd: "\<not> is_digit c \<Longrightarrow> c \<noteq> CHR ''-'' \<Longrightarrow> hd (show_int n @ r) \<noteq> c" for c n
    using hd_show_nat_digit [of "nat n"] by (auto simp: show_int_def)
  have hd: "hd (?d @ r) \<noteq> CHR ''{'' \<and> hd (?d @ r) \<noteq> CHR ''[''"
    using assms(3,4) plain_json.simps assms(2) nd [of "CHR ''{''"] nd [of "CHR ''[''"]
    by (cases v) (auto simp: dump_str_def is_digit_def)
  have pre: "\<not> prefix (c # p) (show_int n @ r)" if "\<not> is_digit c" "c \<noteq> CHR ''-''" for c p n
    using nd [OF that, of n] by (cases "show_int n @ r") auto
  have "parse_atom (?d @ r) = Some (v, r)"
  proof (cases v)
    case (JInt n)
    have "hd (show_int n @ r) \<noteq> CHR 0x22" by (rule nd) (simp_all add: is_digit_def)
    then show ?thesis using JInt read_number_show_int [OF assms(1), of n] pre
      by (simp add: parse_atom_def is_digit_def)
  next
    case (JStr s)
    then show ?thesis using assms(2) read_str_escaped [of s r]
      by (simp add: parse_atom_def dump_str_ascii)
  qed (use assms in \<open>auto simp: parse_atom_def\<close>)
  with hd hd_dumps [of i k v] show ?thesis by (simp add: parse_value.simps)
qed

text \<open>
  A value that prints and reads back, whatever follows it; the separators are a comma or a colon
  and white space.
\<close>

definition reads_back :: "string \<Rightarrow> string \<Rightarrow> json \<Rightarrow> bool" where
  "reads_back i k v \<longleftrightarrow> (\<forall>f r. json_stop r \<longrightarrow> 2 * length (dumps_sep i k v) < f \<longrightarrow>
     parse_value f (dumps_sep i k v @ r) = Some (v, r))"

lemma parse_items_dumps:
  assumes "ws_only w" and "\<forall>x\<in>set xs. reads_back (CHR '','' # w) k x" and "xs \<noteq> []"
    and "2 * length (join (CHR '','' # w) (map (dumps_sep (CHR '','' # w) k) xs)) + 1 < f"
  shows "parse_items f (join (CHR '','' # w) (map (dumps_sep (CHR '','' # w) k) xs) @ CHR '']'' # r)
    = Some (xs, r)"
  using assms(2-4)
proof (induction xs arbitrary: f)
  case (Cons x xs)
  let ?i = "CHR '','' # w" and ?d = "dumps_sep (CHR '','' # w) k"
  from Cons.prems(3) obtain g where f: "f = Suc g" by (cases f) auto
  have len: "2 * length (?d x) < g" using Cons.prems(3) f by (cases xs) auto
  have x: "parse_value g (?d x @ u) = Some (x, u)" if "json_stop u" for u
    using Cons.prems(1) len that by (simp add: reads_back_def)
  show ?case
  proof (cases xs)
    case Nil
    then show ?thesis using x [of "CHR '']'' # r"] f
      by (simp add: parse_items.simps json_stop_def skip_ws_stop)
  next
    case (Cons y ys)
    let ?j = "join ?i (map ?d xs)"
    have j: "?j \<noteq> [] \<and> json_start (hd ?j)"
      using hd_join [of "?d y" ?i "map ?d ys"] hd_dumps [of ?i k y] Cons by simp
    have "parse_items g (?j @ CHR '']'' # r) = Some (xs, r)"
      using Cons.IH [of g] Cons.prems Cons f len by simp
    moreover have "skip_ws (w @ ?j @ CHR '']'' # r) = ?j @ CHR '']'' # r"
      using assms(1) j by (simp add: skip_ws_append skip_ws_start)
    ultimately show ?thesis
      using x [of "?i @ ?j @ CHR '']'' # r"] f Cons
      by (simp add: parse_items.simps json_stop_def skip_ws_stop)
  qed
qed simp

lemma parse_pairs_dumps:
  assumes "ws_only w" and "ws_only u"
    and "\<forall>kv\<in>set kvs. is_ascii (fst kv) \<and> reads_back (CHR '','' # w) (CHR '':'' # u) (snd kv)"
    and "kvs \<noteq> []"
    and "2 * length (join (CHR '','' # w) (map (\<lambda>kv. dump_str (fst kv) @ CHR '':'' # u @
      dumps_sep (CHR '','' # w) (CHR '':'' # u) (snd kv)) kvs)) + 1 < f"
  shows "parse_pairs f (join (CHR '','' # w) (map (\<lambda>kv. dump_str (fst kv) @ CHR '':'' # u @
      dumps_sep (CHR '','' # w) (CHR '':'' # u) (snd kv)) kvs) @ CHR ''}'' # r) = Some (kvs, r)"
  using assms(3-5)
proof (induction kvs arbitrary: f)
  case (Cons kv kvs)
  let ?i = "CHR '','' # w" and ?d = "dumps_sep (CHR '','' # w) (CHR '':'' # u)"
  let ?p = "\<lambda>kv. dump_str (fst kv) @ CHR '':'' # u @ ?d (snd kv)"
  obtain k v where kv: "kv = (k, v)" by fastforce
  from Cons.prems(3) obtain g where f: "f = Suc g" by (cases f) auto
  have len: "2 * length (?d v) < g" using Cons.prems(3) f kv by (cases kvs) auto
  have v: "parse_value g (skip_ws (u @ ?d v @ t)) = Some (v, t)" if "json_stop t" for t
    using Cons.prems(1) len that kv assms(2) hd_dumps [of ?i "CHR '':'' # u" v]
    by (simp add: reads_back_def skip_ws_append skip_ws_start)
  have k: "\<exists>q. dump_str k @ t = CHR 0x22 # q \<and> read_str q = Some (k, t)" for t
    using Cons.prems(1) kv read_str_escaped [of k t] by (simp add: dump_str_ascii)
  show ?case
  proof (cases kvs)
    case Nil
    obtain q where "dump_str k @ CHR '':'' # u @ ?d v @ CHR ''}'' # r = CHR 0x22 # q"
      "read_str q = Some (k, CHR '':'' # u @ ?d v @ CHR ''}'' # r)" using k by blast
    then show ?thesis using v [of "CHR ''}'' # r"] f Nil kv
      by (simp add: parse_pairs.simps json_stop_def skip_ws_stop skip_ws_id is_json_ws_def)
  next
    case (Cons y ys)
    let ?j = "join ?i (map ?p kvs)"
    have j: "?j \<noteq> [] \<and> json_start (hd ?j)"
      using hd_join [of "?p y" ?i "map ?p ys"] Cons
      by (simp add: dump_str_def json_start_def is_json_ws_def)
    have "parse_pairs g (?j @ CHR ''}'' # r) = Some (kvs, r)"
      using Cons.IH [of g] Cons.prems Cons f len by simp
    moreover have "skip_ws (w @ ?j @ CHR ''}'' # r) = ?j @ CHR ''}'' # r"
      using assms(1) j by (simp add: skip_ws_append skip_ws_start)
    moreover obtain q where "dump_str k @ CHR '':'' # u @ ?d v @ ?i @ ?j @ CHR ''}'' # r = CHR 0x22 # q"
      "read_str q = Some (k, CHR '':'' # u @ ?d v @ ?i @ ?j @ CHR ''}'' # r)" using k by blast
    ultimately show ?thesis using v [of "?i @ ?j @ CHR ''}'' # r"] f Cons kv
      by (simp add: parse_pairs.simps json_stop_def skip_ws_stop skip_ws_id is_json_ws_def)
  qed
qed simp

lemma reads_back_atom:
  assumes "plain_json v" "\<not> (\<exists>xs. v = JList xs)" "\<not> (\<exists>kvs. v = JObj kvs)"
  shows "reads_back i k v"
  unfolding reads_back_def
proof (intro allI impI)
  fix f r
  assume "json_stop r" "2 * length (dumps_sep i k v) < f"
  then show "parse_value f (dumps_sep i k v @ r) = Some (v, r)"
    using parse_atom_dumps [OF _ assms, of r "f - 1" i k] by (cases f) auto
qed

lemma reads_back_list:
  assumes "ws_only w" and "\<forall>x\<in>set xs. reads_back (CHR '','' # w) k x"
  shows "reads_back (CHR '','' # w) k (JList xs)"
  unfolding reads_back_def
proof (intro allI impI)
  fix f and r :: string
  let ?i = "CHR '','' # w" and ?d = "dumps_sep (CHR '','' # w) k"
  let ?j = "join ?i (map ?d xs)"
  assume "2 * length (?d (JList xs)) < f"
  then obtain g where g: "f = Suc g" "2 * length ?j + 1 < g" by (cases f) auto
  show "parse_value f (?d (JList xs) @ r) = Some (JList xs, r)"
  proof (cases "xs = []")
    case True
    then show ?thesis by (simp add: g parse_value.simps skip_ws_id is_json_ws_def)
  next
    case False
    then have "?j \<noteq> [] \<and> json_start (hd ?j)"
      using hd_join [of "?d (hd xs)" ?i "map ?d (tl xs)"] hd_dumps [of ?i k "hd xs"] by (cases xs) auto
    then show ?thesis
      using parse_items_dumps [OF assms False g(2), of r] skip_ws_start [of ?j "CHR '']'' # r"]
      by (simp add: g parse_value.simps json_start_def Let_def hd_append)
  qed
qed

lemma reads_back_obj:
  assumes "ws_only w" and "ws_only u" and "distinct (map fst kvs)"
    and "\<forall>kv\<in>set kvs. is_ascii (fst kv) \<and> reads_back (CHR '','' # w) (CHR '':'' # u) (snd kv)"
  shows "reads_back (CHR '','' # w) (CHR '':'' # u) (JObj kvs)"
  unfolding reads_back_def
proof (intro allI impI)
  fix f and r :: string
  let ?i = "CHR '','' # w" and ?d = "dumps_sep (CHR '','' # w) (CHR '':'' # u)"
  let ?p = "\<lambda>kv. dump_str (fst kv) @ CHR '':'' # u @ ?d (snd kv)"
  let ?j = "join ?i (map ?p kvs)"
  assume "2 * length (?d (JObj kvs)) < f"
  then obtain g where g: "f = Suc g" "2 * length ?j + 1 < g" by (cases f) auto
  show "parse_value f (?d (JObj kvs) @ r) = Some (JObj kvs, r)"
  proof (cases "kvs = []")
    case True
    then show ?thesis by (simp add: g parse_value.simps skip_ws_id is_json_ws_def)
  next
    case False
    then have "?j \<noteq> [] \<and> json_start (hd ?j)"
      using hd_join [of "?p (hd kvs)" ?i "map ?p (tl kvs)"]
      by (cases kvs) (auto simp: dump_str_def json_start_def is_json_ws_def)
    then show ?thesis
      using parse_pairs_dumps [OF assms(1,2,4) False g(2), of r] assms(3)
        skip_ws_start [of ?j "CHR ''}'' # r"]
      by (simp add: g parse_value.simps json_start_def Let_def hd_append dict_merge_Nil)
  qed
qed

lemma reads_back_plain:
  assumes "ws_only w" and "ws_only u"
  shows "plain_json v \<Longrightarrow> reads_back (CHR '','' # w) (CHR '':'' # u) v"
proof (induction v)
  case (JList xs)
  then show ?case by (intro reads_back_list assms) (auto simp: list_all_iff)
next
  case (JObj kvs)
  then show ?case by (intro reads_back_obj assms) (auto simp: list_all_iff snds.simps)
qed (auto intro!: reads_back_atom)

lemma hex_digit_ascii: "d < 16 \<Longrightarrow> (of_char (hex_digit d) :: nat) < 128"
  by (simp add: hex_digit_def)

lemma escape_cp_ascii: "is_ascii (escape_cp n)"
  by (auto simp: escape_cp_def u_escape_def hex4_def hex_digit_ascii)

lemma is_ascii_concat: "is_ascii (concat xs) \<longleftrightarrow> list_all is_ascii xs"
  by (induction xs) auto

lemma is_ascii_join: "is_ascii sep \<Longrightarrow> list_all is_ascii xs \<Longrightarrow> is_ascii (join sep xs)"
  by (induction sep xs rule: join.induct) auto

lemma dump_str_is_ascii: "is_ascii (dump_str s)"
  by (auto simp: dump_str_def is_ascii_concat list_all_iff escape_cp_ascii split: option.splits)

lemma show_nat_ascii: "is_ascii (show_nat n)"
proof -
  have "(of_char c :: nat) < 128" if "c \<in> set (show_nat n)" for c
    using show_nat_digits [OF that] by (simp add: is_digit_def)
  then show ?thesis by (simp add: is_ascii_def list_all_iff)
qed

lemma dumps_ascii: "is_ascii i \<Longrightarrow> is_ascii k \<Longrightarrow> plain_json v \<Longrightarrow> is_ascii (dumps_sep i k v)"
proof (induction v)
  case (JList xs)
  then show ?case by (auto simp: list_all_iff intro!: is_ascii_join)
next
  case (JObj kvs)
  then show ?case
    by (auto simp: list_all_iff dump_str_is_ascii snds.simps intro!: is_ascii_join)
qed (auto simp: show_int_def show_nat_ascii dump_str_is_ascii)

lemma loads_dumps_sep:
  assumes "ws_only w" "ws_only u" "is_ascii w" "is_ascii u" "plain_json v"
  shows "json_loads (dumps_sep (CHR '','' # w) (CHR '':'' # u) v) = Some v"
proof -
  let ?d = "dumps_sep (CHR '','' # w) (CHR '':'' # u) v"
  have asc: "is_ascii ?d" using assms by (simp add: dumps_ascii)
  then have bom: "strip_bom ?d = ?d" by (cases ?d) (auto simp: strip_bom_def)
  have "parse_value (json_fuel ?d) (?d @ []) = Some (v, [])"
    using reads_back_plain [OF assms(1,2,5)] by (simp add: reads_back_def json_fuel_def json_stop_def)
  with asc bom skip_ws_start [of ?d "[]"] hd_dumps [of "CHR '','' # w" "CHR '':'' # u" v]
  show ?thesis
    by (simp add: json_loads_def utf8_valid_def utf8_decode_ascii skip_ws_def)
qed

theorem json_loads_dumps: "plain_json v \<Longrightarrow> json_loads (json_dumps v) = Some v"
  unfolding json_dumps_def
  by (rule loads_dumps_sep) (auto simp: ws_only_def is_json_ws_def)

theorem json_loads_dumps_compact: "plain_json v \<Longrightarrow> json_loads (json_dumps_compact v) = Some v"
  unfolding json_dumps_compact_def
  by (rule loads_dumps_sep) (auto simp: ws_only_def is_json_ws_def)

end
