(* ===== verification/Connect_Packet.thy ===== *)
theory Connect_Packet
  imports Json "HOL-Library.Word"
begin

unbundle bit_operations_syntax

text \<open>
  \<^verbatim>\<open>mqtt_connect_packet.py\<close>: reading one MQTT CONNECT packet from a socket. The socket is the list of
  segments in which the peer's bytes arrive; \<open>recv\<close> returns at most the requested number of bytes of
  the first segment, and nothing at the end of the stream. Every error carries the bytes consumed so far.

  The lemmas show that no byte is lost whatever arrives and however it is segmented, that the reader's
  result depends only on the byte stream, and that every well-formed CONNECT packet is parsed to its
  own fields with the bytes after it left in the socket.
\<close>

section \<open>Data\<close>

definition CONNECT_PACKET_TYPE :: nat where [relay_defs]: "CONNECT_PACKET_TYPE = 0x10"
definition CONNECT_PACKET_TYPE_MASK :: nat where [relay_defs]: "CONNECT_PACKET_TYPE_MASK = 0xF0"
definition USERNAME_FLAG_BIT :: nat where [relay_defs]: "USERNAME_FLAG_BIT = 0x80"
definition PASSWORD_FLAG_BIT :: nat where [relay_defs]: "PASSWORD_FLAG_BIT = 0x40"
definition WILL_FLAG_BIT :: nat where [relay_defs]: "WILL_FLAG_BIT = 0x04"
definition MAX_REMAINING_LENGTH_BYTES :: nat where [relay_defs]: "MAX_REMAINING_LENGTH_BYTES = 4"
definition CONTINUATION_BIT :: nat where [relay_defs]: "CONTINUATION_BIT = 0x80"
definition REMAINING_LENGTH_VALUE_MASK :: nat where [relay_defs]: "REMAINING_LENGTH_VALUE_MASK = 0x7F"

record MalformedConnectPacketError =
  mce_message :: string
  mce_raw_so_far :: bytes

record ConnectPacketFields =
  cpf_client_id :: string
  cpf_username :: "string option"
  cpf_password :: "string option"

type_synonym socket = "bytes list"

record TrackingReader =
  tr_sock :: socket
  tr_raw :: bytes

abbreviation byte :: "char \<Rightarrow> nat" where
  "byte c \<equiv> of_char c"

section \<open>Reading\<close>

fun sock_recv :: "nat \<Rightarrow> socket \<Rightarrow> bytes \<times> socket" where
  "sock_recv n [] = ([], [])"
| "sock_recv n (seg # segs) = (if length seg \<le> n then (seg, segs) else (take n seg, drop n seg # segs))"

text \<open>The loop of \<open>recv_exact\<close>: \<open>chunk_buffer\<close> grows to the requested length.\<close>

function recv_loop :: "nat \<Rightarrow> bytes \<Rightarrow> TrackingReader
    \<Rightarrow> (MalformedConnectPacketError \<times> socket) + (bytes \<times> TrackingReader)" where
  "recv_loop len chunk_buffer reader =
     (if length chunk_buffer < len then
        let (chunk, sock) = sock_recv (len - length chunk_buffer) (tr_sock reader)
        in if chunk = [] then
             Inl (\<lparr>mce_message = ''connection closed before a full packet was read'', mce_raw_so_far = tr_raw reader\<rparr>, sock)
           else recv_loop len (chunk_buffer @ chunk) (reader\<lparr>tr_sock := sock, tr_raw := tr_raw reader @ chunk\<rparr>)
      else Inr (chunk_buffer, reader))"
  by auto

termination
proof (relation "measure (\<lambda>(len, buf, reader). len - length buf)", goal_cases)
  case (2 len buf reader x chunk sock)
  then show ?case by (cases chunk) auto
qed simp

declare recv_loop.simps [simp del]

definition recv_exact :: "nat \<Rightarrow> TrackingReader \<Rightarrow> (MalformedConnectPacketError \<times> socket) + (bytes \<times> TrackingReader)" where
  "recv_exact len reader = recv_loop len [] reader"

fun remaining_length_loop :: "nat \<Rightarrow> nat \<Rightarrow> nat \<Rightarrow> TrackingReader
    \<Rightarrow> (MalformedConnectPacketError \<times> socket) + (nat \<times> TrackingReader)" where
  "remaining_length_loop 0 multiplier v reader =
     Inl (\<lparr>mce_message = ''remaining length field exceeds 4 bytes'', mce_raw_so_far = tr_raw reader\<rparr>, tr_sock reader)"
| "remaining_length_loop (Suc n) multiplier v reader =
     bind_res (recv_exact 1 reader) (\<lambda>(bs, reader').
       let byte_value = byte (bs ! 0);
           v' = v + (byte_value AND REMAINING_LENGTH_VALUE_MASK) * multiplier
       in if byte_value AND CONTINUATION_BIT = 0 then Inr (v', reader')
          else remaining_length_loop n (multiplier * 128) v' reader')"

definition read_remaining_length :: "TrackingReader \<Rightarrow> (MalformedConnectPacketError \<times> socket) + (nat \<times> TrackingReader)" where
  "read_remaining_length reader = remaining_length_loop MAX_REMAINING_LENGTH_BYTES 1 0 reader"

section \<open>Parsing\<close>

definition read_length_prefixed_string :: "bytes \<Rightarrow> nat \<Rightarrow> bytes \<Rightarrow> MalformedConnectPacketError + (string \<times> nat)" where
  "read_length_prefixed_string buffer offset raw_so_far =
     (if offset + 2 > length buffer then
        Inl \<lparr>mce_message = ''truncated length prefix'', mce_raw_so_far = raw_so_far\<rparr>
      else
        let field_length = push_bit 8 (byte (buffer ! offset)) OR byte (buffer ! (offset + 1));
            start = offset + 2;
            stop = start + field_length
        in if stop > length buffer then
             Inl \<lparr>mce_message = ''truncated field'', mce_raw_so_far = raw_so_far\<rparr>
           else Inr (decode_replace (take field_length (drop start buffer)), stop))"

definition read_optional_field :: "bool \<Rightarrow> bytes \<Rightarrow> nat \<Rightarrow> bytes \<Rightarrow> MalformedConnectPacketError + (string option \<times> nat)" where
  "read_optional_field present body offset raw =
     (if present then bind_res (read_length_prefixed_string body offset raw) (\<lambda>(s, offset'). Inr (Some s, offset'))
      else Inr (None, offset))"

text \<open>The variable header and payload of a packet whose bytes were all received.\<close>

definition parse_connect_body :: "bytes \<Rightarrow> bytes \<Rightarrow> MalformedConnectPacketError + ConnectPacketFields" where
  "parse_connect_body body raw_packet =
     bind_res (read_length_prefixed_string body 0 raw_packet) (\<lambda>(protocol_name, offset).
       if offset + 2 > length body then
         Inl \<lparr>mce_message = ''truncated protocol level / connect flags'', mce_raw_so_far = raw_packet\<rparr>
       else
         let connect_flags = byte (body ! (offset + 1))
         in bind_res (read_length_prefixed_string body (offset + 2 + 2) raw_packet) (\<lambda>(client_id, offset).
            bind_res (read_optional_field (connect_flags AND WILL_FLAG_BIT \<noteq> 0) body offset raw_packet) (\<lambda>(will_topic, offset).
            bind_res (read_optional_field (connect_flags AND WILL_FLAG_BIT \<noteq> 0) body offset raw_packet) (\<lambda>(will_message, offset).
            bind_res (read_optional_field (connect_flags AND USERNAME_FLAG_BIT \<noteq> 0) body offset raw_packet) (\<lambda>(username, offset).
            bind_res (read_optional_field (connect_flags AND PASSWORD_FLAG_BIT \<noteq> 0) body offset raw_packet) (\<lambda>(password, offset).
            Inr \<lparr>cpf_client_id = client_id, cpf_username = username, cpf_password = password\<rparr>))))))"

definition hex2 :: "nat \<Rightarrow> string" where
  "hex2 n = [hex_digit (n div 16 mod 16), hex_digit (n mod 16)]"

text \<open>Receiving the packet's bytes: type byte, remaining length, body.\<close>

definition receive_packet :: "TrackingReader \<Rightarrow> (MalformedConnectPacketError \<times> socket) + (bytes \<times> TrackingReader)" where
  "receive_packet reader =
     bind_res (recv_exact 1 reader) (\<lambda>(first_byte, reader).
       let t = byte (first_byte ! 0) AND CONNECT_PACKET_TYPE_MASK
       in if t \<noteq> CONNECT_PACKET_TYPE then
            Inl (\<lparr>mce_message = ''expected a CONNECT packet (0x10), got packet type 0x'' @ hex2 t,
                  mce_raw_so_far = tr_raw reader\<rparr>, tr_sock reader)
          else bind_res (read_remaining_length reader) (\<lambda>(remaining_length, reader).
               recv_exact remaining_length reader))"

text \<open>The result carries what is left in the socket, also when an error is raised.\<close>

definition read_connect_packet :: "socket \<Rightarrow> (MalformedConnectPacketError + (bytes \<times> ConnectPacketFields)) \<times> socket" where
  "read_connect_packet sock =
     (case receive_packet \<lparr>tr_sock = sock, tr_raw = []\<rparr> of
       Inl (e, sock') \<Rightarrow> (Inl e, sock')
     | Inr (body, reader) \<Rightarrow>
         (case parse_connect_body body (tr_raw reader) of
            Inl e \<Rightarrow> (Inl e, tr_sock reader)
          | Inr parsed \<Rightarrow> (Inr (tr_raw reader, parsed), tr_sock reader)))"

section \<open>No byte is lost\<close>

text \<open>What the caller can forward: the packet, or the bytes an error carries.\<close>

definition consumed :: "MalformedConnectPacketError + (bytes \<times> ConnectPacketFields) \<Rightarrow> bytes" where
  "consumed r = (case r of Inl e \<Rightarrow> mce_raw_so_far e | Inr (raw, parsed) \<Rightarrow> raw)"

definition keeps_stream :: "bytes \<Rightarrow> (MalformedConnectPacketError \<times> socket) + ('a \<times> TrackingReader) \<Rightarrow> bool" where
  "keeps_stream bs r \<longleftrightarrow> (case r of Inl (e, sock) \<Rightarrow> mce_raw_so_far e @ concat sock = bs
     | Inr (x, reader) \<Rightarrow> tr_raw reader @ concat (tr_sock reader) = bs)"

lemma keeps_bind:
  "keeps_stream bs r \<Longrightarrow> (\<And>x reader. r = Inr (x, reader) \<Longrightarrow> tr_raw reader @ concat (tr_sock reader) = bs \<Longrightarrow>
    keeps_stream bs (f (x, reader))) \<Longrightarrow> keeps_stream bs (bind_res r f)"
  by (cases r) (auto simp: keeps_stream_def)

lemma sock_recv_concat: "sock_recv n sock = (chunk, sock') \<Longrightarrow> chunk @ concat sock' = concat sock"
  by (cases sock) (auto split: if_splits)

lemma recv_loop_stream:
  "keeps_stream (tr_raw reader @ concat (tr_sock reader)) (recv_loop len buf reader)"
proof (induction len buf reader rule: recv_loop.induct)
  case (1 len buf reader)
  obtain chunk sock where c: "sock_recv (len - length buf) (tr_sock reader) = (chunk, sock)"
    by (cases "sock_recv (len - length buf) (tr_sock reader)")
  from "1" [OF _ c [symmetric]] c sock_recv_concat [OF c] show ?case
    by (subst recv_loop.simps) (auto simp: keeps_stream_def)
qed

lemma recv_exact_stream: "keeps_stream (tr_raw reader @ concat (tr_sock reader)) (recv_exact len reader)"
  by (simp add: recv_exact_def recv_loop_stream)

lemma remaining_length_stream:
  "keeps_stream (tr_raw reader @ concat (tr_sock reader)) (remaining_length_loop n mult v reader)"
proof (induction n arbitrary: mult v reader)
  case (Suc n)
  show ?case unfolding remaining_length_loop.simps
  proof (rule keeps_bind [OF recv_exact_stream])
    fix x and r :: TrackingReader
    assume "tr_raw r @ concat (tr_sock r) = tr_raw reader @ concat (tr_sock reader)"
    with Suc [of r] show "keeps_stream (tr_raw reader @ concat (tr_sock reader))
      (case (x, r) of (bs, reader') \<Rightarrow> let byte_value = byte (bs ! 0);
           v' = v + (byte_value AND REMAINING_LENGTH_VALUE_MASK) * mult
       in if byte_value AND CONTINUATION_BIT = 0 then Inr (v', reader')
          else remaining_length_loop n (mult * 128) v' reader')"
      by (simp add: Let_def) (simp add: keeps_stream_def)
  qed
qed (simp add: keeps_stream_def)

lemma parse_error_raw: "parse_connect_body body raw = Inl e \<Longrightarrow> mce_raw_so_far e = raw"
  by (auto simp: parse_connect_body_def read_length_prefixed_string_def read_optional_field_def bind_res_Inl Let_def
      split: if_splits prod.splits)

lemma receive_packet_stream: "keeps_stream (tr_raw reader @ concat (tr_sock reader)) (receive_packet reader)"
  (is "keeps_stream ?bs _")
  unfolding receive_packet_def
proof (rule keeps_bind [OF recv_exact_stream])
  fix x and r :: TrackingReader
  assume r: "tr_raw r @ concat (tr_sock r) = ?bs"
  have "keeps_stream ?bs (bind_res (read_remaining_length r) (\<lambda>(n, reader). recv_exact n reader))"
  proof (rule keeps_bind)
    show "keeps_stream ?bs (read_remaining_length r)"
      using remaining_length_stream [of r] r by (simp add: read_remaining_length_def)
  next
    fix n and r' :: TrackingReader
    assume "tr_raw r' @ concat (tr_sock r') = ?bs"
    then show "keeps_stream ?bs (case (n, r') of (n, reader) \<Rightarrow> recv_exact n reader)"
      using recv_exact_stream [of r' n] by simp
  qed
  with r show "keeps_stream ?bs (case (x, r) of (first_byte, reader) \<Rightarrow>
      let t = byte (first_byte ! 0) AND CONNECT_PACKET_TYPE_MASK
      in if t \<noteq> CONNECT_PACKET_TYPE then
           Inl (\<lparr>mce_message = ''expected a CONNECT packet (0x10), got packet type 0x'' @ hex2 t,
                 mce_raw_so_far = tr_raw reader\<rparr>, tr_sock reader)
         else bind_res (read_remaining_length reader) (\<lambda>(remaining_length, reader).
              recv_exact remaining_length reader))"
    by (simp add: Let_def) (simp add: keeps_stream_def)
qed

lemma read_connect_stream:
  "read_connect_packet sock = (r, sock') \<Longrightarrow> consumed r @ concat sock' = concat sock"
  using receive_packet_stream [of "\<lparr>tr_sock = sock, tr_raw = []\<rparr>"]
  by (auto simp: read_connect_packet_def keeps_stream_def consumed_def split: sum.splits prod.splits dest: parse_error_raw)

section \<open>Segmentation does not matter\<close>

definition segments_ok :: "socket \<Rightarrow> bool" where
  "segments_ok sock \<longleftrightarrow> [] \<notin> set sock"

lemma sock_recv_ok:
  assumes "segments_ok sock" "concat sock \<noteq> []" "0 < n" "sock_recv n sock = (chunk, sock')"
  shows "chunk \<noteq> []" "length chunk \<le> n" "segments_ok sock'"
  using assms by (cases sock; auto simp: segments_ok_def split: if_splits)+

lemma recv_loop_enough:
  "segments_ok (tr_sock reader) \<Longrightarrow> length buf \<le> len \<Longrightarrow> len - length buf \<le> length (concat (tr_sock reader)) \<Longrightarrow>
    \<exists>sock'. recv_loop len buf reader = Inr (buf @ take (len - length buf) (concat (tr_sock reader)),
        reader\<lparr>tr_sock := sock', tr_raw := tr_raw reader @ take (len - length buf) (concat (tr_sock reader))\<rparr>) \<and>
      concat sock' = drop (len - length buf) (concat (tr_sock reader)) \<and> segments_ok sock'"
proof (induction len buf reader rule: recv_loop.induct)
  case (1 len buf reader)
  show ?case
  proof (cases "length buf < len")
    case True
    let ?n = "len - length buf" and ?s = "concat (tr_sock reader)"
    obtain chunk sock where c: "sock_recv ?n (tr_sock reader) = (chunk, sock)" by force
    have "0 < length ?s" using True "1.prems" by linarith
    then have ne: "?s \<noteq> []" by (rule length_greater_0_conv [THEN iffD1])
    note ok = sock_recv_ok [OF "1.prems"(1) ne _ c] and cat = sock_recv_concat [OF c]
    define r1 where "r1 = reader\<lparr>tr_sock := sock, tr_raw := tr_raw reader @ chunk\<rparr>"
    have len1: "length (buf @ chunk) \<le> len" using ok True by simp
    have "\<exists>sock'. recv_loop len (buf @ chunk) r1 = Inr ((buf @ chunk) @ take (len - length (buf @ chunk)) (concat sock),
        r1\<lparr>tr_sock := sock', tr_raw := tr_raw r1 @ take (len - length (buf @ chunk)) (concat sock)\<rparr>) \<and>
      concat sock' = drop (len - length (buf @ chunk)) (concat sock) \<and> segments_ok sock'"
      using "1.IH" [OF True c [symmetric] refl] ok True "1.prems" len1
      by (simp add: r1_def flip: cat)
    moreover have "take ?n ?s = chunk @ take (len - length (buf @ chunk)) (concat sock)"
      "drop ?n ?s = drop (len - length (buf @ chunk)) (concat sock)"
      using len1 by (simp_all flip: cat)
    ultimately show ?thesis using True c ok by (subst recv_loop.simps) (auto simp: r1_def)
  next
    case False
    with "1.prems" show ?thesis by (subst recv_loop.simps) (auto intro!: exI [of _ "tr_sock reader"])
  qed
qed

lemma recv_exact_enough:
  assumes "segments_ok sock" "concat sock = a @ b" "length a = n"
  obtains sock' where "recv_exact n \<lparr>tr_sock = sock, tr_raw = raw\<rparr> = Inr (a, \<lparr>tr_sock = sock', tr_raw = raw @ a\<rparr>)"
    "concat sock' = b" "segments_ok sock'"
  using recv_loop_enough [of "\<lparr>tr_sock = sock, tr_raw = raw\<rparr>" "[]" n] assms by (auto simp: recv_exact_def)

section \<open>Well-formed packets\<close>

lemma or_high_low: "b < 256 \<Longrightarrow> push_bit 8 a OR b = a * 256 + (b :: nat)"
proof -
  assume b: "b < 256"
  then have "take_bit 8 b = b" by (simp add: take_bit_nat_eq_self)
  then have high: "\<not> bit b n" if "8 \<le> n" for n using that by (metis bit_take_bit_iff not_le)
  have "push_bit 8 a + b = push_bit 8 a OR b"
    by (rule disjunctive_add_eq_or) (rule bit_eqI, use high in \<open>auto simp: bit_and_iff bit_push_bit_iff\<close>)
  then show ?thesis by (simp add: push_bit_eq_mult)
qed

lemma and_bit_zero: "(n :: nat) AND 2 ^ k = 0 \<longleftrightarrow> even (n div 2 ^ k)"
  by (simp add: and_exp_eq_0_iff_not_bit bit_iff_odd)

lemma flag_bits:
  "n AND CONTINUATION_BIT = 0 \<longleftrightarrow> even (n div 128)" "n AND USERNAME_FLAG_BIT = 0 \<longleftrightarrow> even (n div 128)"
  "n AND PASSWORD_FLAG_BIT = 0 \<longleftrightarrow> even (n div 64)" "n AND WILL_FLAG_BIT = 0 \<longleftrightarrow> even (n div 4)"
  using and_bit_zero [of n 7] and_bit_zero [of n 6] and_bit_zero [of n 2] by (simp_all add: relay_defs)

lemma and_value_mask: "(n :: nat) AND REMAINING_LENGTH_VALUE_MASK = n mod 128"
  using take_bit_eq_mask [of 7 n] by (simp add: relay_defs take_bit_eq_mod mask_eq_exp_minus_1)

text \<open>The encodings of the MQTT specification.\<close>

definition encode_field :: "bytes \<Rightarrow> bytes" where
  "encode_field s = char_of (length s div 256) # char_of (length s mod 256) # s"

fun encode_length :: "nat \<Rightarrow> bytes" where
  "encode_length n = (if n < 128 then [char_of n] else char_of (n mod 128 + 128) # encode_length (n div 128))"

declare encode_length.simps [simp del]

record connect_packet =
  pk_protocol :: bytes
  pk_level :: char
  pk_low_flags :: nat
  pk_keep_alive :: "char \<times> char"
  pk_client_id :: bytes
  pk_will :: "(bytes \<times> bytes) option"
  pk_username :: "bytes option"
  pk_password :: "bytes option"

text \<open>The flags byte; \<open>pk_low_flags\<close> holds the clean-session, will-QoS and will-retain bits.\<close>

definition flags_byte :: "bool \<Rightarrow> bool \<Rightarrow> bool \<Rightarrow> nat \<Rightarrow> nat" where
  "flags_byte u p w low = (if u then 0x80 else 0) + (if p then 0x40 else 0) + (if w then 4 else 0) + low"

definition low_flags :: "nat list" where
  "low_flags = filter (\<lambda>n. even (n div 4)) [0..<0x40]"

definition encode_optional :: "bytes option \<Rightarrow> bytes" where
  "encode_optional f = (case f of None \<Rightarrow> [] | Some s \<Rightarrow> encode_field s)"

definition encode_body :: "connect_packet \<Rightarrow> bytes" where
  "encode_body k = encode_field (pk_protocol k) @
     [pk_level k, char_of (flags_byte (pk_username k \<noteq> None) (pk_password k \<noteq> None) (pk_will k \<noteq> None) (pk_low_flags k)),
      fst (pk_keep_alive k), snd (pk_keep_alive k)] @
     encode_field (pk_client_id k) @ encode_optional (map_option fst (pk_will k)) @
     encode_optional (map_option snd (pk_will k)) @ encode_optional (pk_username k) @ encode_optional (pk_password k)"

definition encode_connect :: "connect_packet \<Rightarrow> bytes" where
  "encode_connect k = char_of CONNECT_PACKET_TYPE # encode_length (length (encode_body k)) @ encode_body k"

definition field_ok :: "bytes \<Rightarrow> bool" where
  "field_ok s \<longleftrightarrow> length s < 65536"

definition connect_ok :: "connect_packet \<Rightarrow> bool" where
  "connect_ok k \<longleftrightarrow> field_ok (pk_protocol k) \<and> field_ok (pk_client_id k) \<and> pred_option field_ok (pk_username k) \<and>
     pred_option field_ok (pk_password k) \<and> pred_option (\<lambda>(t, m). field_ok t \<and> field_ok m) (pk_will k) \<and>
     pk_low_flags k \<in> set low_flags"

lemma flags_byte_bits:
  assumes "low \<in> set low_flags"
  shows "flags_byte u p w low < 256"
    "(flags_byte u p w low AND USERNAME_FLAG_BIT \<noteq> 0) = u"
    "(flags_byte u p w low AND PASSWORD_FLAG_BIT \<noteq> 0) = p"
    "(flags_byte u p w low AND WILL_FLAG_BIT \<noteq> 0) = w"
proof -
  from assms have low: "low < 64" "even (low div 4)" by (simp_all add: low_flags_def)
  show "flags_byte u p w low < 256" using low by (simp add: flags_byte_def) presburger
  define r where "r = (if w then 4 else 0) + low"
  have r: "r < 64" and w: "even (r div 4) = (\<not> w)" using low by (simp_all add: r_def) presburger+
  have f: "flags_byte u p w low = (if u then 128 else 0) + (if p then 64 else 0) + r" by (simp add: flags_byte_def r_def)
  have d128: "flags_byte u p w low div 128 = of_bool u"
    unfolding f by (rule div_nat_eqI) (use r in \<open>cases u; cases p; simp\<close>)+
  have d64: "flags_byte u p w low div 64 = 2 * of_bool u + of_bool p"
    unfolding f by (rule div_nat_eqI) (use r in \<open>cases u; cases p; simp\<close>)+
  have "flags_byte u p w low = r + (32 * of_bool u + 16 * of_bool p) * 4" by (simp add: f)
  then have d4: "flags_byte u p w low div 4 = (32 * of_bool u + 16 * of_bool p) + r div 4"
    by (simp only: div_mult_self1 [of 4])
  show "(flags_byte u p w low AND USERNAME_FLAG_BIT \<noteq> 0) = u" by (simp add: flag_bits d128)
  show "(flags_byte u p w low AND PASSWORD_FLAG_BIT \<noteq> 0) = p" by (simp add: flag_bits d64)
  show "(flags_byte u p w low AND WILL_FLAG_BIT \<noteq> 0) = w" by (simp add: flag_bits d4 w)
qed

lemma byte_char_of: "n < 256 \<Longrightarrow> byte (char_of n) = n"
  by simp

lemma read_field:
  assumes "field_ok s" "body = pre @ encode_field s @ post" "off = length pre"
  shows "read_length_prefixed_string body off raw = Inr (decode_replace s, off + 2 + length s)"
proof -
  have l: "length s div 256 < 256" using assms(1) by (simp add: field_ok_def less_mult_imp_div_less)
  then have hi: "byte (body ! off) = length s div 256"
    by (simp add: assms(2,3) encode_field_def nth_append byte_char_of)
  have lo: "byte (body ! (off + 1)) = length s mod 256"
    by (simp add: assms(2,3) encode_field_def nth_append byte_char_of)
  have fl: "push_bit 8 (byte (body ! off)) OR byte (body ! (off + 1)) = length s"
    unfolding hi lo by (simp add: or_high_low)
  have "take (length s) (drop (off + 2) body) = s" by (simp add: assms(2,3) encode_field_def)
  with fl show ?thesis
    by (simp add: read_length_prefixed_string_def Let_def) (simp add: assms(2,3) encode_field_def)
qed

lemma read_optional:
  assumes "pred_option field_ok f" "body = pre @ encode_optional f @ post" "off = length pre"
  shows "read_optional_field (f \<noteq> None) body off raw =
    Inr (map_option decode_replace f, length (pre @ encode_optional f))"
proof (cases f)
  case (Some s)
  with assms read_field [of s body pre post off raw] show ?thesis
    by (simp add: read_optional_field_def encode_optional_def encode_field_def)
qed (simp add: read_optional_field_def encode_optional_def assms)

lemma parse_body:
  assumes ok: "connect_ok k"
  shows "parse_connect_body (encode_body k) raw =
    Inr \<lparr>cpf_client_id = decode_replace (pk_client_id k), cpf_username = map_option decode_replace (pk_username k),
      cpf_password = map_option decode_replace (pk_password k)\<rparr>"
proof -
  let ?flags = "flags_byte (pk_username k \<noteq> None) (pk_password k \<noteq> None) (pk_will k \<noteq> None) (pk_low_flags k)"
  let ?h = "[pk_level k, char_of ?flags, fst (pk_keep_alive k), snd (pk_keep_alive k)]"
  let ?wt = "map_option fst (pk_will k)" and ?wm = "map_option snd (pk_will k)"
  define body where "body = encode_body k"
  define p1 where "p1 = encode_field (pk_protocol k)"
  define p2 where "p2 = p1 @ ?h"
  define p3 where "p3 = p2 @ encode_field (pk_client_id k)"
  define p4 where "p4 = p3 @ encode_optional ?wt"
  define p5 where "p5 = p4 @ encode_optional ?wm"
  define p6 where "p6 = p5 @ encode_optional (pk_username k)"
  note ps = body_def encode_body_def p1_def p2_def p3_def p4_def p5_def p6_def
  have low: "pk_low_flags k \<in> set low_flags" using ok by (simp add: connect_ok_def)
  note bits = flags_byte_bits [OF low, of "pk_username k \<noteq> None" "pk_password k \<noteq> None" "pk_will k \<noteq> None"]
  have f1: "read_length_prefixed_string body 0 raw = Inr (decode_replace (pk_protocol k), length p1)"
    using ok read_field [of "pk_protocol k" body "[]" "?h @ encode_field (pk_client_id k) @ encode_optional ?wt @
      encode_optional ?wm @ encode_optional (pk_username k) @ encode_optional (pk_password k)" 0 raw]
    by (simp add: ps connect_ok_def) (simp add: encode_field_def)
  have f2: "read_length_prefixed_string body (length p1 + 2 + 2) raw = Inr (decode_replace (pk_client_id k), length p3)"
    using ok read_field [of "pk_client_id k" body p2 "encode_optional ?wt @
      encode_optional ?wm @ encode_optional (pk_username k) @ encode_optional (pk_password k)" "length p1 + 2 + 2" raw]
    by (simp add: ps connect_ok_def) (simp add: encode_field_def)
  have will: "pred_option field_ok ?wt" "pred_option field_ok ?wm"
    using ok by (cases "pk_will k"; auto simp: connect_ok_def)+
  have f3: "read_optional_field (pk_will k \<noteq> None) body (length p3) raw = Inr (map_option decode_replace ?wt, length p4)"
    using read_optional [OF will(1), of body p3 "encode_optional ?wm @ encode_optional (pk_username k) @
      encode_optional (pk_password k)" "length p3" raw] by (simp add: ps)
  have f4: "read_optional_field (pk_will k \<noteq> None) body (length p4) raw = Inr (map_option decode_replace ?wm, length p5)"
    using read_optional [OF will(2), of body p4 "encode_optional (pk_username k) @
      encode_optional (pk_password k)" "length p4" raw] by (simp add: ps)
  have f5: "read_optional_field (pk_username k \<noteq> None) body (length p5) raw = Inr (map_option decode_replace (pk_username k), length p6)"
    using ok read_optional [of "pk_username k" body p5 "encode_optional (pk_password k)" "length p5" raw]
    by (simp add: ps connect_ok_def)
  have f6: "read_optional_field (pk_password k \<noteq> None) body (length p6) raw =
      Inr (map_option decode_replace (pk_password k), length (p6 @ encode_optional (pk_password k)))"
    using ok read_optional [of "pk_password k" body p6 "[]" "length p6" raw] by (simp add: ps connect_ok_def)
  have flags: "byte (body ! (length p1 + 1)) = ?flags" "length p1 + 2 \<le> length body"
    using byte_char_of [OF bits(1)] by (simp_all add: ps nth_append)
  show ?thesis
    unfolding body_def [symmetric] parse_connect_body_def f1
    using flags bits f2 f3 f4 f5 f6 by (simp add: Let_def del: not_None_eq)
qed

lemma read_length_loop:
  assumes "segments_ok sock" "concat sock = encode_length len @ rest" "len < 128 ^ n" "0 < n"
  shows "\<exists>sock'. remaining_length_loop n mult v \<lparr>tr_sock = sock, tr_raw = raw\<rparr> =
      Inr (v + len * mult, \<lparr>tr_sock = sock', tr_raw = raw @ encode_length len\<rparr>) \<and>
    concat sock' = rest \<and> segments_ok sock'"
  using assms
proof (induction n arbitrary: len mult v sock raw)
  case (Suc n)
  show ?case
  proof (cases "len < 128")
    case True
    then have e: "encode_length len = [char_of len]" by (simp add: encode_length.simps)
    from Suc.prems e recv_exact_enough [of sock "[char_of len]" rest 1 raw] obtain sock' where
      r: "recv_exact 1 \<lparr>tr_sock = sock, tr_raw = raw\<rparr> = Inr ([char_of len], \<lparr>tr_sock = sock', tr_raw = raw @ [char_of len]\<rparr>)"
      "concat sock' = rest" "segments_ok sock'" by auto
    from True have "byte (char_of len) = len" by simp
    with True r show ?thesis
      by (intro exI [of _ sock']) (simp add: e flag_bits and_value_mask Let_def)
  next
    case False
    let ?b = "len mod 128 + 128"
    have e: "encode_length len = char_of ?b # encode_length (len div 128)" using False by (simp add: encode_length.simps [of len])
    from Suc.prems e recv_exact_enough [of sock "[char_of ?b]" "encode_length (len div 128) @ rest" 1 raw] obtain sock1 where
      r: "recv_exact 1 \<lparr>tr_sock = sock, tr_raw = raw\<rparr> = Inr ([char_of ?b], \<lparr>tr_sock = sock1, tr_raw = raw @ [char_of ?b]\<rparr>)"
      "concat sock1 = encode_length (len div 128) @ rest" "segments_ok sock1" by auto
    have b: "byte (char_of ?b) = ?b" by simp
    have less: "len div 128 < 128 ^ n" using Suc.prems(3) by (simp add: less_mult_imp_div_less mult.commute)
    with False have "0 < n" by (cases n) auto
    from Suc.IH [OF r(3,2) less this, of "mult * 128" "v + len mod 128 * mult" "raw @ [char_of ?b]"] obtain sock' where
      "remaining_length_loop n (mult * 128) (v + len mod 128 * mult) \<lparr>tr_sock = sock1, tr_raw = raw @ [char_of ?b]\<rparr> =
        Inr (v + len mod 128 * mult + len div 128 * (mult * 128),
          \<lparr>tr_sock = sock', tr_raw = (raw @ [char_of ?b]) @ encode_length (len div 128)\<rparr>)"
      "concat sock' = rest" "segments_ok sock'" by auto
    moreover have "v + len mod 128 * mult + len div 128 * (mult * 128) = v + len * mult"
    proof -
      have "v + len mod 128 * mult + len div 128 * (mult * 128) = v + (len mod 128 + len div 128 * 128) * mult"
        by (simp only: distrib_right mult.assoc mult.commute mult.left_commute add.assoc add_mult_distrib2)
      then show ?thesis by simp
    qed
    ultimately show ?thesis
      using r(1) b by (intro exI [of _ sock']) (simp add: e flag_bits and_value_mask Let_def)
  qed
qed simp

lemma read_encoded:
  assumes ok: "connect_ok k" and len: "length (encode_body k) < 128 ^ 4"
    and segs: "segments_ok sock" "concat sock = encode_connect k @ rest"
  shows "\<exists>sock'. read_connect_packet sock =
      (Inr (encode_connect k, \<lparr>cpf_client_id = decode_replace (pk_client_id k),
          cpf_username = map_option decode_replace (pk_username k),
          cpf_password = map_option decode_replace (pk_password k)\<rparr>), sock') \<and> concat sock' = rest"
proof -
  let ?t = "char_of CONNECT_PACKET_TYPE" and ?b = "encode_body k"
  let ?l = "encode_length (length ?b)"
  from segs recv_exact_enough [of sock "[?t]" "?l @ ?b @ rest" 1 "[]"] obtain s1 where
    s1: "recv_exact 1 \<lparr>tr_sock = sock, tr_raw = []\<rparr> = Inr ([?t], \<lparr>tr_sock = s1, tr_raw = [?t]\<rparr>)"
    "concat s1 = ?l @ ?b @ rest" "segments_ok s1" by (auto simp: encode_connect_def)
  from read_length_loop [OF s1(3,2) len _, of 1 0 "[?t]"] obtain s2 where
    s2: "remaining_length_loop 4 1 0 \<lparr>tr_sock = s1, tr_raw = [?t]\<rparr> =
      Inr (length ?b, \<lparr>tr_sock = s2, tr_raw = [?t] @ ?l\<rparr>)" "concat s2 = ?b @ rest" "segments_ok s2" by auto
  from recv_exact_enough [OF s2(3,2) refl, of "[?t] @ ?l"] obtain s3 where
    s3: "recv_exact (length ?b) \<lparr>tr_sock = s2, tr_raw = [?t] @ ?l\<rparr> =
      Inr (?b, \<lparr>tr_sock = s3, tr_raw = ([?t] @ ?l) @ ?b\<rparr>)" "concat s3 = rest" by auto
  have "byte ?t AND CONNECT_PACKET_TYPE_MASK = CONNECT_PACKET_TYPE" by (simp add: relay_defs)
  then have "read_connect_packet sock = (Inr (([?t] @ ?l) @ ?b, \<lparr>cpf_client_id = decode_replace (pk_client_id k),
          cpf_username = map_option decode_replace (pk_username k),
          cpf_password = map_option decode_replace (pk_password k)\<rparr>), s3)"
    using s1(1) s2(1) s3(1) parse_body [OF ok]
    by (simp add: read_connect_packet_def receive_packet_def read_remaining_length_def MAX_REMAINING_LENGTH_BYTES_def Let_def)
  with s3(2) show ?thesis by (simp add: encode_connect_def)
qed

section \<open>Properties\<close>

text \<open>
  Whatever arrives on the socket, and however it is segmented, the bytes the reader reports as
  consumed (the packet on success, the error's \<open>raw_so_far\<close> otherwise) followed by what is left in the
  socket are exactly the incoming stream: nothing is lost, duplicated or reordered.
\<close>

theorem connect_reader_loses_no_byte:
  "consumed (fst (read_connect_packet sock)) @ concat (snd (read_connect_packet sock)) = concat sock"
  using read_connect_stream by (metis prod.collapse)

text \<open>
  C25: Every CONNECT packet of the MQTT layout, in any segmentation and followed by any bytes, is
  read completely: the raw packet is returned unchanged, client id, user name and password are its own
  fields (decoded with replacement characters for malformed UTF-8), and exactly the following bytes
  remain in the socket.
\<close>

theorem connect_packet_roundtrip:
  assumes "connect_ok k" "length (encode_body k) < 128 ^ 4" "segments_ok sock"
    "concat sock = encode_connect k @ rest"
  shows "\<exists>sock'. read_connect_packet sock =
      (Inr (encode_connect k, \<lparr>cpf_client_id = decode_replace (pk_client_id k),
          cpf_username = map_option decode_replace (pk_username k),
          cpf_password = map_option decode_replace (pk_password k)\<rparr>), sock') \<and> concat sock' = rest"
  using assms by (rule read_encoded)

definition demo_connect :: connect_packet where
  "demo_connect = \<lparr>pk_protocol = ''MQTT'', pk_level = CHR 0x04, pk_low_flags = 2, pk_keep_alive = (CHR 0x00, CHR ''<''),
     pk_client_id = ''AF03'', pk_will = None, pk_username = Some ''user'', pk_password = Some ''pw''\<rparr>"

theorem connect_packet_roundtrip_witness:
  "\<exists>sock'. read_connect_packet [take 5 (encode_connect demo_connect), drop 5 (encode_connect demo_connect) @ ''next''] =
      (Inr (encode_connect demo_connect, \<lparr>cpf_client_id = ''AF03'', cpf_username = Some ''user'', cpf_password = Some ''pw''\<rparr>), sock') \<and>
    concat sock' = ''next''"
proof -
  let ?e = "encode_connect demo_connect"
  have ok: "connect_ok demo_connect"
    by (simp add: connect_ok_def demo_connect_def field_ok_def low_flags_def)
  have len: "length (encode_body demo_connect) < 128 ^ 4"
    by (simp add: encode_body_def demo_connect_def encode_field_def encode_optional_def)
  have "length ?e > 5" by (simp add: encode_connect_def encode_body_def demo_connect_def encode_field_def encode_optional_def)
  then have "segments_ok [take 5 ?e, drop 5 ?e @ ''next'']" by (auto simp: segments_ok_def)
  moreover have "concat [take 5 ?e, drop 5 ?e @ ''next''] = ?e @ ''next''" by simp
  ultimately show ?thesis
    using connect_packet_roundtrip [OF ok len, of "[take 5 ?e, drop 5 ?e @ ''next'']" "''next''"]
    by (simp add: demo_connect_def decode_replace_ascii is_ascii_def)
qed

end
