(* ===== verification/Protocol.thy ===== *)
theory Protocol
  imports Relay_Prelude
begin

text \<open>
  \<^verbatim>\<open>protocol.py\<close>: the command names and the topic helpers. A topic names the device it belongs
  to, and all routing in the relay goes through \<open>parse_topic\<close>; the lemmas here characterise
  exactly which topics it accepts and that printing and parsing are inverse to each other.
\<close>

section \<open>Constants\<close>

definition PRODUCT_ID :: string where [relay_defs]: "PRODUCT_ID = ''PLAF203''"
definition POST_SUFFIX :: string where [relay_defs]: "POST_SUFFIX = ''post''"
definition SUB_SUFFIX :: string where [relay_defs]: "SUB_SUFFIX = ''sub''"
definition TOPIC_ROOT :: string where [relay_defs]: "TOPIC_ROOT = ''dl''"
definition DEVICE_SEGMENT :: string where [relay_defs]: "DEVICE_SEGMENT = ''device''"
definition TOPIC_SEGMENT_COUNT :: nat where [relay_defs]: "TOPIC_SEGMENT_COUNT = 6"

text \<open>The members of class \<open>Command\<close>, by name.\<close>

abbreviation cmd_NTP :: string where "cmd_NTP \<equiv> ''NTP''"
abbreviation cmd_NTP_SYNC :: string where "cmd_NTP_SYNC \<equiv> ''NTP_SYNC''"
abbreviation cmd_FEEDING_PLAN_SERVICE :: string where
  "cmd_FEEDING_PLAN_SERVICE \<equiv> ''FEEDING_PLAN_SERVICE''"
abbreviation cmd_DEVICE_FEEDING_PLAN_SERVICE :: string where
  "cmd_DEVICE_FEEDING_PLAN_SERVICE \<equiv> ''DEVICE_FEEDING_PLAN_SERVICE''"
abbreviation cmd_GET_FEEDING_PLAN_EVENT :: string where
  "cmd_GET_FEEDING_PLAN_EVENT \<equiv> ''GET_FEEDING_PLAN_EVENT''"
abbreviation cmd_ATTR_SET_SERVICE :: string where "cmd_ATTR_SET_SERVICE \<equiv> ''ATTR_SET_SERVICE''"
abbreviation cmd_ATTR_GET_SERVICE :: string where "cmd_ATTR_GET_SERVICE \<equiv> ''ATTR_GET_SERVICE''"
abbreviation cmd_ATTR_PUSH_EVENT :: string where "cmd_ATTR_PUSH_EVENT \<equiv> ''ATTR_PUSH_EVENT''"
abbreviation cmd_GET_CONFIG :: string where "cmd_GET_CONFIG \<equiv> ''GET_CONFIG''"
abbreviation cmd_SERVER_CONFIG_PUSH :: string where
  "cmd_SERVER_CONFIG_PUSH \<equiv> ''SERVER_CONFIG_PUSH''"
abbreviation cmd_DEVICE_CONFIG_SYNC :: string where
  "cmd_DEVICE_CONFIG_SYNC \<equiv> ''DEVICE_CONFIG_SYNC''"
abbreviation cmd_DEVICE_PROPERTIES_SERVICE :: string where
  "cmd_DEVICE_PROPERTIES_SERVICE \<equiv> ''DEVICE_PROPERTIES_SERVICE''"
abbreviation cmd_DEVICE_INFO_SERVICE :: string where
  "cmd_DEVICE_INFO_SERVICE \<equiv> ''DEVICE_INFO_SERVICE''"
abbreviation cmd_HEARTBEAT :: string where "cmd_HEARTBEAT \<equiv> ''HEARTBEAT''"
abbreviation cmd_DEVICE_START_EVENT :: string where
  "cmd_DEVICE_START_EVENT \<equiv> ''DEVICE_START_EVENT''"
abbreviation cmd_DEVICE_LOG_REPORT_EVENT :: string where
  "cmd_DEVICE_LOG_REPORT_EVENT \<equiv> ''DEVICE_LOG_REPORT_EVENT''"
abbreviation cmd_GRAIN_OUTPUT_EVENT :: string where
  "cmd_GRAIN_OUTPUT_EVENT \<equiv> ''GRAIN_OUTPUT_EVENT''"
abbreviation cmd_ERROR_EVENT :: string where "cmd_ERROR_EVENT \<equiv> ''ERROR_EVENT''"
abbreviation cmd_MANUAL_FEEDING_SERVICE :: string where
  "cmd_MANUAL_FEEDING_SERVICE \<equiv> ''MANUAL_FEEDING_SERVICE''"
abbreviation cmd_DEVICE_REBOOT :: string where "cmd_DEVICE_REBOOT \<equiv> ''DEVICE_REBOOT''"
abbreviation cmd_RESET :: string where "cmd_RESET \<equiv> ''RESET''"
abbreviation cmd_RESTORE :: string where "cmd_RESTORE \<equiv> ''RESTORE''"

definition Command :: "string list" where
  "Command = [cmd_NTP, cmd_NTP_SYNC, cmd_FEEDING_PLAN_SERVICE, cmd_DEVICE_FEEDING_PLAN_SERVICE,
     cmd_GET_FEEDING_PLAN_EVENT, cmd_ATTR_SET_SERVICE, cmd_ATTR_GET_SERVICE, cmd_ATTR_PUSH_EVENT,
     cmd_GET_CONFIG, cmd_SERVER_CONFIG_PUSH, cmd_DEVICE_CONFIG_SYNC, cmd_DEVICE_PROPERTIES_SERVICE,
     cmd_DEVICE_INFO_SERVICE, cmd_HEARTBEAT, cmd_DEVICE_START_EVENT, cmd_DEVICE_LOG_REPORT_EVENT,
     cmd_GRAIN_OUTPUT_EVENT, cmd_ERROR_EVENT, cmd_MANUAL_FEEDING_SERVICE, cmd_DEVICE_REBOOT,
     cmd_RESET, cmd_RESTORE]"

section \<open>Topics\<close>

record TopicAddress =
  ta_product_id :: string
  ta_device_id :: string
  ta_category :: string
  ta_direction :: string

definition ta_is_post :: "TopicAddress \<Rightarrow> bool" where
  [relay_defs]: "ta_is_post a \<longleftrightarrow> ta_direction a = POST_SUFFIX"

definition ta_is_sub :: "TopicAddress \<Rightarrow> bool" where
  [relay_defs]: "ta_is_sub a \<longleftrightarrow> ta_direction a = SUB_SUFFIX"

definition topic_prefix :: "string \<Rightarrow> string \<Rightarrow> string" where
  "topic_prefix device_id product_id = TOPIC_ROOT @ ''/'' @ product_id @ ''/'' @ device_id"

definition ta_prefix :: "TopicAddress \<Rightarrow> string" where
  "ta_prefix a = topic_prefix (ta_device_id a) (ta_product_id a)"

definition parse_topic :: "string \<Rightarrow> TopicAddress option" where
  "parse_topic topic =
     (let parts = split_on (CHR ''/'') topic in
      if length parts \<noteq> TOPIC_SEGMENT_COUNT then None
      else case parts of
        [root_segment, product_id, device_id, device_segment, category, direction] \<Rightarrow>
          if root_segment \<noteq> TOPIC_ROOT \<or> device_segment \<noteq> DEVICE_SEGMENT then None
          else if direction \<notin> {POST_SUFFIX, SUB_SUFFIX} then None
          else if product_id = [] \<or> device_id = [] \<or> category = [] then None
          else Some \<lparr>ta_product_id = product_id, ta_device_id = device_id,
                     ta_category = category, ta_direction = direction\<rparr>
      | _ \<Rightarrow> None)"

definition sub_topic :: "string \<Rightarrow> string \<Rightarrow> string \<Rightarrow> string" where
  "sub_topic device_id category product_id =
     topic_prefix device_id product_id @ ''/'' @ DEVICE_SEGMENT @ ''/'' @ category @ ''/'' @ SUB_SUFFIX"

definition category_of :: "string \<Rightarrow> string option" where
  "category_of topic = map_option ta_category (parse_topic topic)"

definition is_post :: "string \<Rightarrow> bool" where
  "is_post topic \<longleftrightarrow> suffix (''/'' @ POST_SUFFIX) topic"

section \<open>Correctness of routing\<close>

text \<open>What a topic segment must look like, and the topic an address stands for.\<close>

definition segment :: "string \<Rightarrow> bool" where
  "segment s \<longleftrightarrow> s \<noteq> [] \<and> CHR ''/'' \<notin> set s"

definition ta_wf :: "TopicAddress \<Rightarrow> bool" where
  "ta_wf a \<longleftrightarrow> segment (ta_product_id a) \<and> segment (ta_device_id a) \<and> segment (ta_category a)
     \<and> (ta_is_post a \<or> ta_is_sub a)"

definition render_topic :: "TopicAddress \<Rightarrow> string" where
  "render_topic a = ta_prefix a @ ''/'' @ DEVICE_SEGMENT @ ''/'' @ ta_category a @ ''/'' @ ta_direction a"

lemmas topic_defs = relay_defs topic_prefix_def ta_prefix_def render_topic_def sub_topic_def

lemma render_topic_join:
  "render_topic a = join [CHR ''/''] [TOPIC_ROOT, ta_product_id a, ta_device_id a, DEVICE_SEGMENT,
     ta_category a, ta_direction a]"
  by (simp add: topic_defs)

lemma six_parts: "length xs = 6 \<longleftrightarrow> (\<exists>a b c d e f. xs = [a, b, c, d, e, f])"
  by (auto simp: eval_nat_numeral length_Suc_conv)

lemma parse_topic_Some:
  "parse_topic t = Some a \<longleftrightarrow>
    (\<exists>p d c dir. split_on (CHR ''/'') t = [TOPIC_ROOT, p, d, DEVICE_SEGMENT, c, dir] \<and>
      dir \<in> {POST_SUFFIX, SUB_SUFFIX} \<and> p \<noteq> [] \<and> d \<noteq> [] \<and> c \<noteq> [] \<and>
      a = \<lparr>ta_product_id = p, ta_device_id = d, ta_category = c, ta_direction = dir\<rparr>)"
  (is "?l \<longleftrightarrow> ?r")
proof
  assume ?l
  then have "length (split_on (CHR ''/'') t) = 6"
    by (auto simp: parse_topic_def relay_defs Let_def split: if_splits)
  then obtain a b c d e f where "split_on (CHR ''/'') t = [a, b, c, d, e, f]"
    by (auto simp: six_parts)
  with \<open>?l\<close> show ?r by (auto simp: parse_topic_def Let_def split: if_splits)
next
  assume ?r
  then show ?l by (auto simp: parse_topic_def relay_defs Let_def)
qed

lemma parse_topic_iff: "parse_topic t = Some a \<longleftrightarrow> t = render_topic a \<and> ta_wf a"
proof
  assume "parse_topic t = Some a"
  then obtain p d c dir where s: "split_on (CHR ''/'') t = [TOPIC_ROOT, p, d, DEVICE_SEGMENT, c, dir]"
    and w: "dir \<in> {POST_SUFFIX, SUB_SUFFIX}" "p \<noteq> []" "d \<noteq> []" "c \<noteq> []"
    and a: "a = \<lparr>ta_product_id = p, ta_device_id = d, ta_category = c, ta_direction = dir\<rparr>"
    by (auto simp: parse_topic_Some)
  have "t = join [CHR ''/''] (split_on (CHR ''/'') t)" by (simp add: join_split_on)
  also have "\<dots> = render_topic a" by (simp add: s a render_topic_join)
  finally have "t = render_topic a" .
  moreover have "CHR ''/'' \<notin> set q" if "q \<in> {p, d, c}" for q
    using that s split_on_free [of q "CHR ''/''" t] by auto
  ultimately show "t = render_topic a \<and> ta_wf a"
    using w a by (auto simp: ta_wf_def segment_def ta_is_post_def ta_is_sub_def)
next
  assume asm: "t = render_topic a \<and> ta_wf a"
  let ?parts = "[TOPIC_ROOT, ta_product_id a, ta_device_id a, DEVICE_SEGMENT, ta_category a, ta_direction a]"
  have "split_on (CHR ''/'') (join [CHR ''/''] ?parts) = ?parts"
    using asm by (intro split_on_join) (auto simp: ta_wf_def segment_def relay_defs)
  with asm show "parse_topic t = Some a"
    by (auto simp: parse_topic_Some render_topic_join ta_wf_def segment_def ta_is_post_def ta_is_sub_def)
qed

lemma parse_topic_wf: "parse_topic t = Some a \<Longrightarrow> ta_wf a"
  by (simp add: parse_topic_iff)

lemma parse_sub_topic:
  assumes "segment d" "segment c" "segment p"
  shows "parse_topic (sub_topic d c p) =
    Some \<lparr>ta_product_id = p, ta_device_id = d, ta_category = c, ta_direction = SUB_SUFFIX\<rparr>"
  using assms by (subst parse_topic_iff) (auto simp: ta_wf_def topic_defs)

lemma parse_post_is_post: "parse_topic t = Some a \<Longrightarrow> is_post t \<longleftrightarrow> ta_is_post a"
  by (auto simp: parse_topic_iff ta_wf_def is_post_def topic_defs suffix_def)

text \<open>
  \<open>parse_topic\<close> accepts exactly the device topics: it returns an address if and only if the
  topic is the rendering of that address and the product, device and category segments are
  non-empty and contain no slash. So a malformed topic is never routed to a device, and no two
  addresses share a topic.
\<close>

theorem parse_topic_exact: "parse_topic t = Some a \<longleftrightarrow> t = render_topic a \<and> ta_wf a"
  by (rule parse_topic_iff)

text \<open>
  a topic the relay builds for a reply is a device topic of exactly the device, product and
  category it was built from, in the cloud-to-device direction, whatever well-formed segments
  are used; so the reply can neither reach another device nor be taken for device traffic.
\<close>

theorem sub_topic_roundtrip:
  assumes "segment d" "segment c" "segment p"
  shows "parse_topic (sub_topic d c p) =
      Some \<lparr>ta_product_id = p, ta_device_id = d, ta_category = c, ta_direction = SUB_SUFFIX\<rparr>
    \<and> \<not> is_post (sub_topic d c p)"
  using parse_sub_topic [OF assms] parse_post_is_post [OF parse_sub_topic [OF assms]]
  by (simp add: ta_is_post_def POST_SUFFIX_def SUB_SUFFIX_def)

theorem sub_topic_roundtrip_witness:
  "segment ''A1'' \<and> parse_topic ''dl/PLAF203/A1/device/ntp/sub'' =
     Some \<lparr>ta_product_id = ''PLAF203'', ta_device_id = ''A1'', ta_category = ''ntp'', ta_direction = ''sub''\<rparr>"
proof -
  have seg: "segment ''A1''" "segment ''ntp''" "segment ''PLAF203''" by (simp_all add: segment_def)
  have "sub_topic ''A1'' ''ntp'' ''PLAF203'' = ''dl/PLAF203/A1/device/ntp/sub''"
    by (simp add: topic_defs)
  with sub_topic_roundtrip [OF seg] seg show ?thesis by (simp add: SUB_SUFFIX_def)
qed

end
