(* ===== verification/Device_Registry.thy ===== *)
theory Device_Registry
  imports Protocol
begin

text \<open>
  \<^verbatim>\<open>device_registry.py\<close>: the durable store of device identities. The table \<open>device_identities\<close> is a
  dictionary from client id (its primary key) to row, in insertion order, and \<open>registry_state\<close> is a
  dictionary of strings. Time is an argument of the methods that read the clock; a failing disk is not
  modelled.

  The lemmas show that recording a device never reopens an enrollment decision, that without
  auto-enrollment the set of bridgeable devices never grows, that an expired identity is neither
  bridged nor kept by a purge, and that the migration enrolls exactly the previously active device.
\<close>

section \<open>State\<close>

definition DEFAULT_RETENTION_SECONDS :: seconds where [relay_defs]: "DEFAULT_RETENTION_SECONDS = 72 * 3600"
definition LEGACY_ACTIVE_CLIENT_ID_KEY :: string where [relay_defs]: "LEGACY_ACTIVE_CLIENT_ID_KEY = ''active_client_id''"

datatype DeviceStatus = KNOWN | CANDIDATE | DISABLED

datatype RecordOutcome = ENROLLED | REFRESHED | PENDING_APPROVAL | HELD_DISABLED

record DeviceIdentity =
  di_client_id :: string
  di_username :: string
  di_password :: string
  di_product_id :: string

record DeviceRegistryEntry =
  re_client_id :: string
  re_username :: string
  re_product_id :: string
  re_first_seen_at :: seconds
  re_last_seen_at :: seconds
  re_status :: DeviceStatus
  re_enabled :: bool

definition bridged :: "DeviceRegistryEntry \<Rightarrow> bool" where
  "bridged e \<longleftrightarrow> re_enabled e \<and> re_status e = KNOWN"

record registry_row =
  rr_username :: string
  rr_password :: string
  rr_product_id :: "string option"
  rr_status :: "DeviceStatus option"
  rr_enabled :: "bool option"
  rr_first_seen_at :: seconds
  rr_last_seen_at :: seconds

record DeviceRegistry =
  dr_rows :: "(string, registry_row) dict"
  dr_state :: "(string, string) dict"
  dr_retention_seconds :: seconds
  dr_auto_enroll :: bool

section \<open>Schema migration\<close>

definition IDENTITY_COLUMNS :: "string list" where
  "IDENTITY_COLUMNS = [''client_id'', ''username'', ''password'', ''first_seen_at'', ''last_seen_at'']"

definition read_state :: "(string, string) dict \<Rightarrow> string \<Rightarrow> string option" where
  "read_state st key = dict_get st key"

definition map_rows :: "(string \<Rightarrow> registry_row \<Rightarrow> registry_row) \<Rightarrow> (string, registry_row) dict \<Rightarrow> (string, registry_row) dict" where
  "map_rows f rows = map (\<lambda>(c, r). (c, f c r)) rows"

definition migrate_to_multi_device :: "string list \<Rightarrow> (string, string) dict \<Rightarrow> (string, registry_row) dict
    \<Rightarrow> (string, registry_row) dict" where
  "migrate_to_multi_device existing_columns st rows =
     (let added = filter (\<lambda>c. c \<notin> set existing_columns) [''product_id'', ''status'', ''enabled''];
          rows1 = map_rows (\<lambda>c r. if ''product_id'' \<in> set added then r\<lparr>rr_product_id := None\<rparr> else r) rows;
          rows2 = map_rows (\<lambda>c r. if ''status'' \<in> set added then r\<lparr>rr_status := None\<rparr> else r) rows1;
          rows3 = map_rows (\<lambda>c r. if ''enabled'' \<in> set added then r\<lparr>rr_enabled := None\<rparr> else r) rows2
      in if added = [] then rows
         else
           let legacy_active = read_state st LEGACY_ACTIVE_CLIENT_ID_KEY;
               active = (case legacy_active of None \<Rightarrow> [] | Some a \<Rightarrow> a);
               rows4 = map_rows (\<lambda>c r. if rr_product_id r = None then r\<lparr>rr_product_id := Some PRODUCT_ID\<rparr> else r) rows3;
               rows5 = map_rows (\<lambda>c r. if rr_status r = None \<and> c = active
                 then r\<lparr>rr_status := Some KNOWN, rr_enabled := Some True\<rparr> else r) rows4
           in map_rows (\<lambda>c r. if rr_status r = None
                then r\<lparr>rr_status := Some CANDIDATE, rr_enabled := Some False\<rparr> else r) rows5)"

text \<open>The constructor: create the tables when absent, then migrate.\<close>

definition open_registry :: "(string list \<times> (string, registry_row) dict \<times> (string, string) dict) option
    \<Rightarrow> seconds \<Rightarrow> bool \<Rightarrow> DeviceRegistry" where
  "open_registry db retention_seconds auto_enroll =
     (let (columns, rows, st) = (case db of None \<Rightarrow> (IDENTITY_COLUMNS, [], []) | Some t \<Rightarrow> t)
      in \<lparr>dr_rows = migrate_to_multi_device columns st rows, dr_state = st,
          dr_retention_seconds = retention_seconds, dr_auto_enroll = auto_enroll\<rparr>)"

section \<open>Operations\<close>

definition cutoff :: "seconds \<Rightarrow> DeviceRegistry \<Rightarrow> seconds" where
  "cutoff now r = now - dr_retention_seconds r"

definition status_of :: "DeviceRegistry \<Rightarrow> string \<Rightarrow> DeviceStatus option" where
  "status_of r client_id =
     (case dict_get (dr_rows r) client_id of None \<Rightarrow> None | Some row \<Rightarrow> rr_status row)"

text \<open>The \<open>INSERT ... ON CONFLICT(client_id) DO UPDATE\<close>; timestamps are whole seconds.\<close>

definition upsert :: "seconds \<Rightarrow> DeviceIdentity \<Rightarrow> DeviceStatus \<Rightarrow> DeviceRegistry \<Rightarrow> DeviceRegistry" where
  "upsert now identity status r =
     (let t = of_int \<lfloor>now\<rfloor>;
          row = (case dict_get (dr_rows r) (di_client_id identity) of
            None \<Rightarrow> \<lparr>rr_username = di_username identity, rr_password = di_password identity,
                rr_product_id = Some (di_product_id identity), rr_status = Some status,
                rr_enabled = Some (status = KNOWN), rr_first_seen_at = t, rr_last_seen_at = t\<rparr>
          | Some old \<Rightarrow> old\<lparr>rr_username := di_username identity, rr_password := di_password identity,
                rr_product_id := Some (di_product_id identity), rr_last_seen_at := t\<rparr>)
      in r\<lparr>dr_rows := dict_set (di_client_id identity) row (dr_rows r)\<rparr>)"

definition record_identity :: "seconds \<Rightarrow> DeviceIdentity \<Rightarrow> DeviceRegistry \<Rightarrow> RecordOutcome \<times> DeviceRegistry" where
  "record_identity now identity r =
     (let (status, outcome) =
        (case status_of r (di_client_id identity) of
          None \<Rightarrow> (if dr_auto_enroll r then (KNOWN, ENROLLED) else (CANDIDATE, PENDING_APPROVAL))
        | Some s \<Rightarrow> (s, if s = KNOWN then REFRESHED else if s = DISABLED then HELD_DISABLED else PENDING_APPROVAL))
      in (outcome, upsert now identity status r))"

definition row_identity :: "string \<times> registry_row \<Rightarrow> DeviceIdentity" where
  "row_identity e = (case e of (c, row) \<Rightarrow>
     \<lparr>di_client_id = c, di_username = rr_username row, di_password = rr_password row,
      di_product_id = the (opt_str_or (rr_product_id row) (Some PRODUCT_ID))\<rparr>)"

definition bridgeable_row :: "seconds \<Rightarrow> DeviceRegistry \<Rightarrow> registry_row \<Rightarrow> bool" where
  "bridgeable_row now r row \<longleftrightarrow> rr_status row = Some KNOWN \<and> rr_enabled row = Some True \<and> rr_last_seen_at row \<ge> cutoff now r"

definition get_bridgeable :: "seconds \<Rightarrow> DeviceRegistry \<Rightarrow> DeviceIdentity list" where
  "get_bridgeable now r =
     map row_identity (sort_key (\<lambda>e. rr_first_seen_at (snd e)) (filter (\<lambda>e. bridgeable_row now r (snd e)) (dr_rows r)))"

definition get_identity :: "string \<Rightarrow> DeviceRegistry \<Rightarrow> DeviceIdentity option" where
  "get_identity client_id r =
     (case dict_get (dr_rows r) client_id of None \<Rightarrow> None | Some row \<Rightarrow> Some (row_identity (client_id, row)))"

text \<open>\<open>DeviceStatus(str(status))\<close> raises on a NULL status: then there is no result.\<close>

definition registry_entry :: "string \<times> registry_row \<Rightarrow> DeviceRegistryEntry option" where
  "registry_entry e = (case e of (c, row) \<Rightarrow>
     (case rr_status row of
       None \<Rightarrow> None
     | Some s \<Rightarrow> Some \<lparr>re_client_id = c, re_username = rr_username row,
         re_product_id = the (opt_str_or (rr_product_id row) (Some PRODUCT_ID)),
         re_first_seen_at = rr_first_seen_at row, re_last_seen_at = rr_last_seen_at row, re_status = s,
         re_enabled = (rr_enabled row = Some True)\<rparr>))"

definition entries :: "seconds \<Rightarrow> DeviceRegistry \<Rightarrow> DeviceRegistryEntry list option" where
  "entries now r =
     those (map registry_entry
       (sort_key (\<lambda>e. rr_first_seen_at (snd e)) (filter (\<lambda>e. rr_last_seen_at (snd e) \<ge> cutoff now r) (dr_rows r))))"

definition purge_expired :: "seconds \<Rightarrow> DeviceRegistry \<Rightarrow> nat \<times> DeviceRegistry" where
  "purge_expired now r =
     (let expired = (\<lambda>e :: string \<times> registry_row. rr_last_seen_at (snd e) < cutoff now r)
      in (length (filter expired (dr_rows r)), r\<lparr>dr_rows := filter (\<lambda>e. \<not> expired e) (dr_rows r)\<rparr>))"

section \<open>Invariant\<close>

text \<open>Client ids are unique and every identity has a decided status.\<close>

definition registry_inv :: "DeviceRegistry \<Rightarrow> bool" where
  "registry_inv r \<longleftrightarrow> dict_wf (dr_rows r) \<and> (\<forall>c row. dict_get (dr_rows r) c = Some row \<longrightarrow> rr_status row \<noteq> None)"

lemma registry_inv_upsert: "registry_inv r \<Longrightarrow> registry_inv (upsert now i s r)"
  by (auto simp: registry_inv_def upsert_def Let_def split: option.splits)

lemma registry_inv_record: "registry_inv r \<Longrightarrow> registry_inv (snd (record_identity now i r))"
  by (simp add: record_identity_def case_prod_beta Let_def registry_inv_upsert)

lemma registry_inv_purge: "registry_inv r \<Longrightarrow> registry_inv (snd (purge_expired now r))"
  by (auto simp: registry_inv_def purge_expired_def Let_def dict_get_filter split: option.splits if_splits)

lemma map_of_map_rows: "dict_get (map_rows f rows) c = map_option (f c) (dict_get rows c)"
  by (induction rows) (auto simp: map_rows_def)

lemma dict_wf_map_rows [simp]: "dict_wf (map_rows f rows) = dict_wf rows"
  by (simp add: dict_wf_def map_rows_def comp_def case_prod_beta)

text \<open>What the migration makes of one row of the single-device schema.\<close>

lemma migrate_row:
  assumes new: "''status'' \<notin> set columns"
  shows "dict_get (migrate_to_multi_device columns st rows) c = None \<longleftrightarrow> dict_get rows c = None"
    and "dict_get (migrate_to_multi_device columns st rows) c = Some row \<Longrightarrow>
      rr_status row = Some (if c = (case read_state st LEGACY_ACTIVE_CLIENT_ID_KEY of None \<Rightarrow> [] | Some a \<Rightarrow> a)
        then KNOWN else CANDIDATE) \<and>
      rr_enabled row = Some (c = (case read_state st LEGACY_ACTIVE_CLIENT_ID_KEY of None \<Rightarrow> [] | Some a \<Rightarrow> a))"
proof -
  define added where "added = filter (\<lambda>c. c \<notin> set columns) [''product_id'', ''status'', ''enabled'']"
  define active where "active = (case read_state st LEGACY_ACTIVE_CLIENT_ID_KEY of None \<Rightarrow> [] | Some a \<Rightarrow> a)"
  define f where "f = (\<lambda>r :: registry_row.
    let r1 = (if ''product_id'' \<in> set added then r\<lparr>rr_product_id := None\<rparr> else r);
        r3 = (if ''enabled'' \<in> set added then r1\<lparr>rr_status := None, rr_enabled := None\<rparr> else r1\<lparr>rr_status := None\<rparr>)
    in if rr_product_id r3 = None then r3\<lparr>rr_product_id := Some PRODUCT_ID\<rparr> else r3)"
  have st: "''status'' \<in> set added" using new by (simp add: added_def)
  then have ne: "added \<noteq> []" by auto
  have f: "rr_status (f r) = None" for r by (simp add: f_def Let_def)
  have eq: "dict_get (migrate_to_multi_device columns st rows) c =
      map_option (\<lambda>r. if c = active then (f r)\<lparr>rr_status := Some KNOWN, rr_enabled := Some True\<rparr>
        else (f r)\<lparr>rr_status := Some CANDIDATE, rr_enabled := Some False\<rparr>) (dict_get rows c)"
  proof (cases "dict_get rows c")
    case (Some r)
    with st ne show ?thesis
      unfolding migrate_to_multi_device_def Let_def map_of_map_rows added_def [symmetric] active_def [symmetric]
      by (simp add: map_of_map_rows f_def Let_def)
  next
    case None
    with ne show ?thesis
      unfolding migrate_to_multi_device_def Let_def added_def [symmetric] by (simp add: map_of_map_rows)
  qed
  show "dict_get (migrate_to_multi_device columns st rows) c = None \<longleftrightarrow> dict_get rows c = None" by (simp add: eq)
  show "rr_status row = Some (if c = (case read_state st LEGACY_ACTIVE_CLIENT_ID_KEY of None \<Rightarrow> [] | Some a \<Rightarrow> a)
        then KNOWN else CANDIDATE) \<and>
      rr_enabled row = Some (c = (case read_state st LEGACY_ACTIVE_CLIENT_ID_KEY of None \<Rightarrow> [] | Some a \<Rightarrow> a))"
    if "dict_get (migrate_to_multi_device columns st rows) c = Some row"
    using that unfolding eq active_def [symmetric] by auto
qed

lemma dict_wf_migrate: "dict_wf (migrate_to_multi_device columns st rows) = dict_wf rows"
  by (simp add: migrate_to_multi_device_def Let_def)

lemma open_registry_fields [simp]:
  "dr_auto_enroll (open_registry db retention auto) = auto"
  "dr_retention_seconds (open_registry db retention auto) = retention"
  by (simp_all add: open_registry_def case_prod_beta Let_def)

lemma open_registry_rows [simp]:
  "dr_rows (open_registry (Some (columns, rows, st)) retention auto) = migrate_to_multi_device columns st rows"
  "dr_rows (open_registry None retention auto) = []"
  by (simp_all add: open_registry_def migrate_to_multi_device_def map_rows_def Let_def)

lemma registry_inv_open:
  assumes "dict_wf rows" "''status'' \<notin> set columns"
  shows "registry_inv (open_registry (Some (columns, rows, st)) retention auto)"
  using assms migrate_row(2) [OF assms(2)] by (auto simp: registry_inv_def dict_wf_migrate)

lemma registry_inv_fresh: "registry_inv (open_registry None retention auto)"
  by (simp add: registry_inv_def)

section \<open>Enrollment decisions\<close>

text \<open>The identities the relay may open a cloud session for, as a set of rows.\<close>

definition enrolled :: "DeviceRegistry \<Rightarrow> string \<Rightarrow> bool" where
  "enrolled r c \<longleftrightarrow> (\<exists>row. dict_get (dr_rows r) c = Some row \<and> rr_status row = Some KNOWN \<and> rr_enabled row = Some True)"

lemma bridgeable_ids:
  assumes "dict_wf (dr_rows r)"
  shows "c \<in> di_client_id ` set (get_bridgeable now r) \<longleftrightarrow>
    (\<exists>row. dict_get (dr_rows r) c = Some row \<and> bridgeable_row now r row)"
  using assms by (force simp: get_bridgeable_def row_identity_def dict_wf_mem image_iff split: prod.splits)

lemma record_rows:
  "dict_get (dr_rows (snd (record_identity now i r))) c =
    (if c = di_client_id i then
       Some (case dict_get (dr_rows r) c of
         None \<Rightarrow> \<lparr>rr_username = di_username i, rr_password = di_password i, rr_product_id = Some (di_product_id i),
             rr_status = Some (if dr_auto_enroll r then KNOWN else CANDIDATE), rr_enabled = Some (dr_auto_enroll r),
             rr_first_seen_at = of_int \<lfloor>now\<rfloor>, rr_last_seen_at = of_int \<lfloor>now\<rfloor>\<rparr>
       | Some old \<Rightarrow> old\<lparr>rr_username := di_username i, rr_password := di_password i,
             rr_product_id := Some (di_product_id i), rr_last_seen_at := of_int \<lfloor>now\<rfloor>\<rparr>)
     else dict_get (dr_rows r) c)"
  by (auto simp: record_identity_def upsert_def status_of_def Let_def split: option.splits)

lemma record_config [simp]:
  "dr_retention_seconds (snd (record_identity now i r)) = dr_retention_seconds r"
  "dr_auto_enroll (snd (record_identity now i r)) = dr_auto_enroll r"
  by (simp_all add: record_identity_def upsert_def Let_def case_prod_beta)

lemma purge_config [simp]:
  "dr_retention_seconds (snd (purge_expired now r)) = dr_retention_seconds r"
  "dr_auto_enroll (snd (purge_expired now r)) = dr_auto_enroll r"
  by (simp_all add: purge_expired_def Let_def)

lemma purge_rows:
  "dict_wf (dr_rows r) \<Longrightarrow> dict_get (dr_rows (snd (purge_expired now r))) c =
    (case dict_get (dr_rows r) c of
      None \<Rightarrow> None | Some row \<Rightarrow> if rr_last_seen_at row < cutoff now r then None else Some row)"
  by (auto simp: purge_expired_def Let_def dict_get_filter split: option.splits)

lemma record_status:
  "status_of (snd (record_identity now i r)) c =
    (if c = di_client_id i \<and> dict_get (dr_rows r) c = None
     then Some (if dr_auto_enroll r then KNOWN else CANDIDATE) else status_of r c)"
  by (auto simp: status_of_def record_rows split: option.splits)

lemma enrolled_record: "\<not> dr_auto_enroll r \<Longrightarrow> enrolled (snd (record_identity now i r)) c \<Longrightarrow> enrolled r c"
  by (auto simp: enrolled_def record_rows split: if_splits option.splits)

lemma enrolled_purge: "dict_wf (dr_rows r) \<Longrightarrow> enrolled (snd (purge_expired now r)) c \<Longrightarrow> enrolled r c"
  by (auto simp: enrolled_def purge_rows split: if_splits option.splits)

datatype registry_op = RecordIdentity seconds DeviceIdentity | PurgeExpired seconds

fun registry_step :: "registry_op \<Rightarrow> DeviceRegistry \<Rightarrow> DeviceRegistry" where
  "registry_step (RecordIdentity now i) r = snd (record_identity now i r)"
| "registry_step (PurgeExpired now) r = snd (purge_expired now r)"

definition registry_run :: "registry_op list \<Rightarrow> DeviceRegistry \<Rightarrow> DeviceRegistry" where
  "registry_run ops r = fold registry_step ops r"

lemma registry_step_enrolled:
  assumes "registry_inv r" "\<not> dr_auto_enroll r" "enrolled (registry_step x r) c"
  shows "enrolled r c"
proof (cases x)
  case (RecordIdentity now i)
  with assms show ?thesis using enrolled_record by simp
next
  case (PurgeExpired now)
  with assms show ?thesis using enrolled_purge by (simp add: registry_inv_def)
qed

lemma registry_run_enrolled:
  "registry_inv r \<Longrightarrow> \<not> dr_auto_enroll r \<Longrightarrow>
    registry_inv (registry_run ops r) \<and> \<not> dr_auto_enroll (registry_run ops r) \<and>
    (enrolled (registry_run ops r) c \<longrightarrow> enrolled r c)"
proof (induction ops arbitrary: r)
  case (Cons x ops)
  have "registry_inv (registry_step x r)"
    using Cons.prems by (cases x) (simp_all add: registry_inv_record registry_inv_purge)
  moreover have "\<not> dr_auto_enroll (registry_step x r)" using Cons.prems by (cases x) simp_all
  ultimately show ?case
    using Cons.IH [of "registry_step x r"] registry_step_enrolled [OF Cons.prems] by (auto simp: registry_run_def)
qed (simp add: registry_run_def)

lemma bridgeable_enrolled:
  "registry_inv r \<Longrightarrow> c \<in> di_client_id ` set (get_bridgeable now r) \<Longrightarrow> enrolled r c"
  unfolding registry_inv_def using bridgeable_ids by (auto simp: enrolled_def bridgeable_row_def)

section \<open>Properties\<close>

definition demo_identity :: DeviceIdentity where
  "demo_identity = \<lparr>di_client_id = ''AF03'', di_username = ''u'', di_password = ''p'', di_product_id = PRODUCT_ID\<rparr>"

text \<open>
  With auto-enrollment off, no sequence of connections and purges ever makes a device
  bridgeable that was not enrolled at the start: plugging a device into the network does not give it a
  cloud session.
\<close>

theorem no_enrollment_without_approval:
  assumes "registry_inv r" "\<not> dr_auto_enroll r"
    "i \<in> set (get_bridgeable now (registry_run ops r))"
  shows "enrolled r (di_client_id i)"
  using registry_run_enrolled [OF assms(1,2), of ops "di_client_id i"] bridgeable_enrolled assms(3) by blast

theorem no_enrollment_without_approval_witness:
  "let row = \<lparr>rr_username = ''u'', rr_password = ''p'', rr_product_id = None, rr_status = Some KNOWN,
         rr_enabled = Some True, rr_first_seen_at = 0, rr_last_seen_at = 0\<rparr>;
       r = \<lparr>dr_rows = [(''AF03'', row)], dr_state = [], dr_retention_seconds = 100, dr_auto_enroll = False\<rparr>
   in enrolled r ''AF03''"
proof -
  let ?row = "\<lparr>rr_username = ''u'', rr_password = ''p'', rr_product_id = None, rr_status = Some KNOWN,
    rr_enabled = Some True, rr_first_seen_at = 0, rr_last_seen_at = 0\<rparr>"
  let ?r = "\<lparr>dr_rows = [(''AF03'', ?row)], dr_state = [], dr_retention_seconds = 100, dr_auto_enroll = False\<rparr>"
  have "registry_inv ?r" by (simp add: registry_inv_def)
  moreover have "demo_identity \<in> set (get_bridgeable 6 (registry_run [RecordIdentity 5 demo_identity] ?r))"
    by code_simp
  ultimately show ?thesis using no_enrollment_without_approval [of ?r demo_identity] by (simp add: demo_identity_def)
qed

text \<open>
  Recording a connection refreshes credentials but keeps every earlier enrollment decision, the
  recorded device's included; only a device never seen before gets a status, chosen by the auto-enroll
  setting; and the outcome reports exactly that.
\<close>

theorem record_keeps_decisions:
  assumes "registry_inv r" "record_identity now i r = (outcome, r')"
  shows "(\<forall>c. status_of r c \<noteq> None \<longrightarrow> status_of r' c = status_of r c) \<and>
    status_of r' (di_client_id i) \<noteq> None \<and>
    (outcome = ENROLLED \<longleftrightarrow> status_of r (di_client_id i) = None \<and> dr_auto_enroll r) \<and>
    (outcome = HELD_DISABLED \<longleftrightarrow> status_of r (di_client_id i) = Some DISABLED) \<and>
    get_identity (di_client_id i) r' =
      Some (i\<lparr>di_product_id := (if di_product_id i = [] then PRODUCT_ID else di_product_id i)\<rparr>)"
proof -
  have r': "r' = snd (record_identity now i r)" and out: "outcome = fst (record_identity now i r)"
    using assms(2) by simp_all
  have "status_of r' c = status_of r c" if "status_of r c \<noteq> None" for c
    using that unfolding r' record_status by (auto simp: status_of_def)
  moreover have "status_of r' (di_client_id i) \<noteq> None"
    using assms(1) unfolding r' record_status by (auto simp: status_of_def registry_inv_def split: option.splits)
  moreover have "(outcome = ENROLLED \<longleftrightarrow> status_of r (di_client_id i) = None \<and> dr_auto_enroll r) \<and>
      (outcome = HELD_DISABLED \<longleftrightarrow> status_of r (di_client_id i) = Some DISABLED)"
    by (auto simp: out record_identity_def Let_def split: option.splits)
  moreover have "get_identity (di_client_id i) r' =
      Some (i\<lparr>di_product_id := (if di_product_id i = [] then PRODUCT_ID else di_product_id i)\<rparr>)"
    by (auto simp: r' get_identity_def record_rows row_identity_def opt_str_or_def split: option.splits)
  ultimately show ?thesis by blast
qed

theorem record_keeps_decisions_witness:
  "let r = open_registry None 100 True; r' = snd (record_identity 7 demo_identity r)
   in fst (record_identity 7 demo_identity r) = ENROLLED \<and> get_identity ''AF03'' r' = Some demo_identity"
proof -
  let ?r = "open_registry None 100 True"
  have inv: "registry_inv ?r" by (rule registry_inv_fresh)
  have new: "status_of ?r ''AF03'' = None" by (simp add: status_of_def)
  have "di_product_id demo_identity \<noteq> []" by (simp add: demo_identity_def relay_defs)
  with record_keeps_decisions [OF inv, of 7 demo_identity "fst (record_identity 7 demo_identity ?r)"
      "snd (record_identity 7 demo_identity ?r)"] new
  show ?thesis by (simp add: demo_identity_def)
qed

text \<open>
  An identity not seen within the retention window is not bridged, and a purge removes exactly
  these identities.
\<close>

theorem expired_identities_forgotten:
  assumes "registry_inv r" "dict_get (dr_rows r) c = Some row"
  shows "(rr_last_seen_at row < now - dr_retention_seconds r \<longleftrightarrow> get_identity c (snd (purge_expired now r)) = None) \<and>
    (c \<in> di_client_id ` set (get_bridgeable now r) \<longrightarrow> now - dr_retention_seconds r \<le> rr_last_seen_at row)"
proof -
  from assms(1) have wf: "dict_wf (dr_rows r)" by (simp add: registry_inv_def)
  with assms(2) bridgeable_ids [OF wf, of c now] show ?thesis
    by (auto simp: get_identity_def purge_rows cutoff_def bridgeable_row_def)
qed

theorem expired_identities_forgotten_witness:
  "get_identity ''AF03'' (snd (purge_expired 200 (snd (record_identity 7 demo_identity (open_registry None 100 True))))) = None"
proof -
  let ?r = "snd (record_identity 7 demo_identity (open_registry None 100 True))"
  have inv: "registry_inv ?r" by (intro registry_inv_record registry_inv_fresh)
  obtain row where row: "dict_get (dr_rows ?r) ''AF03'' = Some row"
    by (simp add: record_rows demo_identity_def)
  then have "rr_last_seen_at row = 7" by (auto simp: record_rows demo_identity_def)
  then show ?thesis using expired_identities_forgotten [OF inv row, of 200] by simp
qed

text \<open>
  Upgrading a registry of the single-device schema enrolls exactly the device that was active
  before; every other identity becomes a candidate that is not bridged, and none is lost.
\<close>

theorem migration_enrolls_active_only:
  assumes "dict_wf rows" "''status'' \<notin> set columns"
  shows "enrolled (open_registry (Some (columns, rows, st)) retention auto) c \<longleftrightarrow>
      c \<in> fst ` set rows \<and> c = (case dict_get st LEGACY_ACTIVE_CLIENT_ID_KEY of None \<Rightarrow> [] | Some a \<Rightarrow> a)"
proof -
  have "c \<in> fst ` set rows \<longleftrightarrow> dict_get rows c \<noteq> None" by (simp add: map_of_eq_None_iff)
  with migrate_row [OF assms(2), of st rows c] show ?thesis
    by (cases "dict_get (migrate_to_multi_device columns st rows) c") (auto simp: enrolled_def read_state_def)
qed

theorem migration_enrolls_active_only_witness:
  "let row = \<lparr>rr_username = ''u'', rr_password = ''p'', rr_product_id = None, rr_status = None,
         rr_enabled = None, rr_first_seen_at = 0, rr_last_seen_at = 0\<rparr>;
       r = open_registry (Some (IDENTITY_COLUMNS, [(''A'', row), (''B'', row)], [(LEGACY_ACTIVE_CLIENT_ID_KEY, ''B'')])) 100 True
   in \<not> enrolled r ''A'' \<and> enrolled r ''B''"
  unfolding Let_def
  by (subst (1 2) migration_enrolls_active_only) (simp_all add: IDENTITY_COLUMNS_def relay_defs)

section \<open>A disabled device does not stay disabled for ever\<close>

text \<open>
  The module's documentation says that a disabled identity is never auto-promoted. Once its
  device has been away longer than the retention window the entry is purged with all others, and with
  auto-enrollment on the device is enrolled when it connects again.
\<close>

theorem disabled_device_enrolled_after_purge:
  "let row = \<lparr>rr_username = ''u'', rr_password = ''p'', rr_product_id = None, rr_status = Some DISABLED,
         rr_enabled = Some False, rr_first_seen_at = 0, rr_last_seen_at = 0\<rparr>;
       r = \<lparr>dr_rows = [(''AF03'', row)], dr_state = [], dr_retention_seconds = 100, dr_auto_enroll = True\<rparr>
   in \<not> enrolled (registry_run [RecordIdentity 50 demo_identity] r) ''AF03'' \<and>
      enrolled (registry_run [PurgeExpired 101, RecordIdentity 102 demo_identity] r) ''AF03''"
  by (simp add: registry_run_def record_rows enrolled_def demo_identity_def purge_expired_def cutoff_def)

end
