(* ===== verification/Device_Presence.thy ===== *)
theory Device_Presence
  imports Relay_Prelude
begin

text \<open>
  \<^verbatim>\<open>device_presence.py\<close>: which devices hold, or just held, a local session. The clock is an argument
  of the methods that read it. The lemmas characterise presence after any history of session events:
  a device is online exactly when its last event opened a session, or closed one within the grace period.
\<close>

definition LOCAL_PRESENCE_GRACE_SECONDS :: seconds where [relay_defs]: "LOCAL_PRESENCE_GRACE_SECONDS = 90"

datatype LocalPresence = ONLINE | OFFLINE

record PresenceRecord =
  pr_device_id :: string
  pr_connected :: bool
  pr_last_opened_at :: "seconds option"
  pr_last_closed_at :: "seconds option"
  pr_peer_address :: "string option"
  pr_connection_generation :: nat

record DevicePresenceTracker =
  dpt_grace_seconds :: seconds
  dpt_records :: "(string, PresenceRecord) dict"

definition init_tracker :: "seconds \<Rightarrow> DevicePresenceTracker" where
  "init_tracker grace_seconds = \<lparr>dpt_grace_seconds = grace_seconds, dpt_records = []\<rparr>"

definition session_opened :: "seconds \<Rightarrow> string \<Rightarrow> string option \<Rightarrow> DevicePresenceTracker \<Rightarrow> DevicePresenceTracker" where
  "session_opened now device_id peer_address t =
     (let existing = dict_get (dpt_records t) device_id;
          rec = \<lparr>pr_device_id = device_id, pr_connected = True, pr_last_opened_at = Some now,
            pr_last_closed_at = Option.bind existing pr_last_closed_at,
            pr_peer_address = opt_str_or peer_address (Option.bind existing pr_peer_address),
            pr_connection_generation = (case existing of None \<Rightarrow> 0 | Some e \<Rightarrow> pr_connection_generation e) + 1\<rparr>
      in t\<lparr>dpt_records := dict_set device_id rec (dpt_records t)\<rparr>)"

definition session_closed :: "seconds \<Rightarrow> string \<Rightarrow> DevicePresenceTracker \<Rightarrow> DevicePresenceTracker" where
  "session_closed now device_id t =
     (let existing = dict_get (dpt_records t) device_id;
          rec = \<lparr>pr_device_id = device_id, pr_connected = False,
            pr_last_opened_at = Option.bind existing pr_last_opened_at,
            pr_last_closed_at = Some now,
            pr_peer_address = Option.bind existing pr_peer_address,
            pr_connection_generation = (case existing of None \<Rightarrow> 0 | Some e \<Rightarrow> pr_connection_generation e)\<rparr>
      in t\<lparr>dpt_records := dict_set device_id rec (dpt_records t)\<rparr>)"

definition presence_state :: "seconds \<Rightarrow> string \<Rightarrow> DevicePresenceTracker \<Rightarrow> LocalPresence" where
  "presence_state now device_id t =
     (case dict_get (dpt_records t) device_id of
       None \<Rightarrow> OFFLINE
     | Some rec \<Rightarrow>
         if pr_connected rec then ONLINE
         else (case pr_last_closed_at rec of
           None \<Rightarrow> OFFLINE
         | Some c \<Rightarrow> if now - c \<le> dpt_grace_seconds t then ONLINE else OFFLINE))"

definition is_online :: "seconds \<Rightarrow> string \<Rightarrow> DevicePresenceTracker \<Rightarrow> bool" where
  "is_online now device_id t \<longleftrightarrow> presence_state now device_id t = ONLINE"

definition presence_record :: "string \<Rightarrow> DevicePresenceTracker \<Rightarrow> PresenceRecord option" where
  "presence_record device_id t = dict_get (dpt_records t) device_id"

text \<open>The clock is read once per device: \<open>now d\<close> is the reading made for \<open>d\<close>.\<close>

definition online_device_ids :: "(string \<Rightarrow> seconds) \<Rightarrow> DevicePresenceTracker \<Rightarrow> string set" where
  "online_device_ids now t = set (filter (\<lambda>d. is_online (now d) d t) (map fst (dpt_records t)))"

section \<open>Presence after a history of session events\<close>

datatype session_event = Opened seconds string "string option" | Closed seconds string

fun event_device :: "session_event \<Rightarrow> string" where
  "event_device (Opened _ d _) = d"
| "event_device (Closed _ d) = d"

fun presence_step :: "session_event \<Rightarrow> DevicePresenceTracker \<Rightarrow> DevicePresenceTracker" where
  "presence_step (Opened now d peer) t = session_opened now d peer t"
| "presence_step (Closed now d) t = session_closed now d t"

definition presence_run :: "session_event list \<Rightarrow> DevicePresenceTracker \<Rightarrow> DevicePresenceTracker" where
  "presence_run es t = fold presence_step es t"

definition last_event :: "string \<Rightarrow> session_event list \<Rightarrow> session_event option" where
  "last_event d es = (let own = filter (\<lambda>e. event_device e = d) es in if own = [] then None else Some (last own))"

lemma presence_run_snoc: "presence_run (es @ [e]) t = presence_step e (presence_run es t)"
  by (simp add: presence_run_def)

lemma grace_step [simp]: "dpt_grace_seconds (presence_step e t) = dpt_grace_seconds t"
  by (cases e) (simp_all add: session_opened_def session_closed_def Let_def)

lemma grace_run [simp]: "dpt_grace_seconds (presence_run es t) = dpt_grace_seconds t"
  unfolding presence_run_def by (induction es arbitrary: t) simp_all

lemma step_other [isolation]: "event_device e \<noteq> d \<Longrightarrow> presence_record d (presence_step e t) = presence_record d t"
  by (cases e) (simp_all add: session_opened_def session_closed_def Let_def presence_record_def)

lemma last_event_snoc: "last_event d (es @ [e]) = (if event_device e = d then Some e else last_event d es)"
  by (simp add: last_event_def Let_def)

text \<open>What a device's record says about its last event.\<close>

lemma record_last_event:
  "case last_event d es of
     None \<Rightarrow> presence_record d (presence_run es (init_tracker g)) = None
   | Some (Opened now _ _) \<Rightarrow> \<exists>r. presence_record d (presence_run es (init_tracker g)) = Some r \<and> pr_connected r
   | Some (Closed now _) \<Rightarrow> \<exists>r. presence_record d (presence_run es (init_tracker g)) = Some r \<and> \<not> pr_connected r \<and>
       pr_last_closed_at r = Some now"
proof (induction es rule: rev_induct)
  case Nil
  then show ?case by (simp add: last_event_def presence_run_def init_tracker_def presence_record_def)
next
  case (snoc e es)
  show ?case
  proof (cases "event_device e = d")
    case True
    then show ?thesis
      by (cases e) (auto simp: last_event_snoc presence_run_snoc session_opened_def session_closed_def
          presence_record_def Let_def)
  next
    case False
    then have "presence_record d (presence_run (es @ [e]) (init_tracker g)) = presence_record d (presence_run es (init_tracker g))"
      by (simp add: presence_run_snoc step_other)
    with snoc False show ?thesis by (simp only: last_event_snoc if_False)
  qed
qed

lemma is_online_record:
  "is_online now d t \<longleftrightarrow> (\<exists>r. presence_record d t = Some r \<and>
    (pr_connected r \<or> (\<exists>c. pr_last_closed_at r = Some c \<and> now - c \<le> dpt_grace_seconds t)))"
  by (auto simp: is_online_def presence_state_def presence_record_def split: option.splits)

lemma generation_counts_opens:
  "(case presence_record d (presence_run es (init_tracker g)) of None \<Rightarrow> 0 | Some r \<Rightarrow> pr_connection_generation r) =
    length (filter (\<lambda>e. case e of Opened _ d' _ \<Rightarrow> d' = d | Closed _ _ \<Rightarrow> False) es)"
proof (induction es rule: rev_induct)
  case Nil
  then show ?case by (simp add: presence_run_def init_tracker_def presence_record_def)
next
  case (snoc e es)
  show ?case
  proof (cases "event_device e = d")
    case True
    with snoc show ?thesis
      by (cases e) (auto simp: presence_run_snoc session_opened_def session_closed_def presence_record_def Let_def
          split: option.splits)
  next
    case False
    then have "presence_record d (presence_run (es @ [e]) (init_tracker g)) = presence_record d (presence_run es (init_tracker g))"
      by (simp add: presence_run_snoc step_other)
    with snoc False show ?thesis by (cases e) (simp_all only: filter_append, simp_all)
  qed
qed

section \<open>Properties\<close>

text \<open>
  C23: After any history of session events a device counts as present exactly when its own last
  event opened a session, or closed one no longer ago than the grace period; other devices' events are
  irrelevant, and a device never seen is absent. Its connection generation counts its openings.
\<close>

theorem presence_follows_sessions:
  "(is_online now d (presence_run es (init_tracker g)) \<longleftrightarrow>
     (case last_event d es of
        None \<Rightarrow> False
      | Some (Opened _ _ _) \<Rightarrow> True
      | Some (Closed t _) \<Rightarrow> now - t \<le> g)) \<and>
   (case presence_record d (presence_run es (init_tracker g)) of None \<Rightarrow> 0 | Some r \<Rightarrow> pr_connection_generation r) =
     length (filter (\<lambda>e. case e of Opened _ d' _ \<Rightarrow> d' = d | Closed _ _ \<Rightarrow> False) es)"
proof
  have "dpt_grace_seconds (presence_run es (init_tracker g)) = g" by (simp add: init_tracker_def)
  with record_last_event [of d es g] show "is_online now d (presence_run es (init_tracker g)) \<longleftrightarrow>
     (case last_event d es of
        None \<Rightarrow> False
      | Some (Opened _ _ _) \<Rightarrow> True
      | Some (Closed t _) \<Rightarrow> now - t \<le> g)"
    by (auto simp: is_online_record split: option.splits session_event.splits)
qed (rule generation_counts_opens)

end
