(* ===== verification/Capture_Proxy.thy ===== *)
theory Capture_Proxy
  imports Connect_Packet Device_Registry Device_Presence
begin

text \<open>
  \<^verbatim>\<open>credential_capture_proxy.py\<close>: the TCP proxy in front of the local broker. A connection is read,
  recorded and forwarded by \<open>handle_connection\<close>; sockets are lists of segments as in \<open>Connect_Packet\<close>, and
  what can fail on the way - the sockets, the registry's database, the listener - is an argument.
  Session counting and the listener calls of concurrent connection threads are a step relation in
  which every lock-protected section and every listener call is one atomic step.

  The lemmas show that the broker receives exactly the client's bytes, or a prefix of them when something
  fails, that the session counter counts the open connections of a device in every interleaving, and that
  presence is right when listener calls are not overtaken, while an overtaken call leaves a connected
  device marked absent. A listener that raises leaves its session counted for ever.
\<close>

section \<open>State\<close>

definition RELAY_BUFFER_SIZE :: nat where [relay_defs]: "RELAY_BUFFER_SIZE = 4096"

datatype listener_event = DeviceSessionOpened DeviceIdentity string | DeviceSessionClosed string

type_synonym session_counter = "(string, int) dict"

record CredentialCaptureProxy =
  ccp_registry :: DeviceRegistry
  ccp_open_sessions :: session_counter

text \<open>A \<open>Counter\<close>: a missing key counts zero.\<close>

definition counter_get :: "session_counter \<Rightarrow> string \<Rightarrow> int" where
  "counter_get c k = (case dict_get c k of None \<Rightarrow> 0 | Some n \<Rightarrow> n)"

definition is_device_connected :: "session_counter \<Rightarrow> string \<Rightarrow> bool" where
  "is_device_connected open_sessions client_id \<longleftrightarrow> counter_get open_sessions client_id > 0"

definition connected_device_ids :: "session_counter \<Rightarrow> string set" where
  "connected_device_ids open_sessions = set (map fst (filter (\<lambda>e. snd e > 0) open_sessions))"

section \<open>One connection\<close>

definition open_session :: "DeviceIdentity \<Rightarrow> string \<Rightarrow> session_counter \<Rightarrow> session_counter \<times> listener_event list" where
  "open_session identity peer_address open_sessions =
     (dict_set (di_client_id identity) (counter_get open_sessions (di_client_id identity) + 1) open_sessions,
      [DeviceSessionOpened identity peer_address])"

definition close_session :: "string \<Rightarrow> session_counter \<Rightarrow> session_counter \<times> listener_event list" where
  "close_session client_id open_sessions =
     (let counted = dict_set client_id (counter_get open_sessions client_id - 1) open_sessions;
          still_connected = counter_get counted client_id > 0
      in if still_connected then (counted, [])
         else (dict_pop client_id counted, [DeviceSessionClosed client_id]))"

text \<open>
  What fails: reading the CONNECT packet, sending it, with the number of bytes that got through before the
  \<open>OSError\<close>, recording the identity, the listener call, and the pipe, with the number of bytes that got
  through before a \<open>recv\<close> or a \<open>sendall\<close> raised.
\<close>

record connection_faults =
  ft_read :: bool
  ft_send :: "nat option"
  ft_registry :: bool
  ft_listener :: bool
  ft_pipe :: "nat option"

definition no_faults :: connection_faults where
  "no_faults = \<lparr>ft_read = False, ft_send = None, ft_registry = False, ft_listener = False, ft_pipe = None\<rparr>"

text \<open>\<open>sendall\<close>: whether it raised, and what was sent.\<close>

definition send_all :: "nat option \<Rightarrow> bytes \<Rightarrow> bool \<times> bytes" where
  "send_all fault data = (case fault of None \<Rightarrow> (False, data) | Some n \<Rightarrow> if data = [] then (False, []) else (True, take n data))"

text \<open>
  The result of the capture: an exception or the client id when a session was opened, the bytes sent to
  the broker, the rest of the client's stream, the proxy and the listener calls.
\<close>

definition capture_and_forward_connect :: "connection_faults \<Rightarrow> seconds \<Rightarrow> string \<Rightarrow> socket \<Rightarrow> CredentialCaptureProxy
    \<Rightarrow> (unit + string option) \<times> bytes \<times> socket \<times> CredentialCaptureProxy \<times> listener_event list" where
  "capture_and_forward_connect faults now peer_address client_socket p =
     (if ft_read faults then (Inl (), [], client_socket, p, [])
      else (case read_connect_packet client_socket of
       (Inl error, rest) \<Rightarrow>
         (case send_all (ft_send faults) (mce_raw_so_far error) of (raised, sent) \<Rightarrow>
           (if raised then Inl () else Inr None, sent, rest, p, []))
     | (Inr (raw_packet, parsed), rest) \<Rightarrow>
         (case send_all (ft_send faults) raw_packet of (raised, sent) \<Rightarrow>
           if raised then (Inl (), sent, rest, p, [])
           else (case (cpf_username parsed, cpf_password parsed) of
             (Some username, Some password) \<Rightarrow>
               let identity = \<lparr>di_client_id = cpf_client_id parsed, di_username = username,
                     di_password = password, di_product_id = PRODUCT_ID\<rparr>
               in if ft_registry faults then (Inl (), sent, rest, p, [])
                  else
                    let (outcome, registry) = record_identity now identity (ccp_registry p);
                        (sessions, events) = open_session identity peer_address (ccp_open_sessions p)
                    in (if ft_listener faults then Inl () else Inr (Some (di_client_id identity)), sent, rest,
                        p\<lparr>ccp_registry := registry, ccp_open_sessions := sessions\<rparr>, events)
           | _ \<Rightarrow> (Inr None, sent, rest, p, [])))))"

lemma sock_recv_shorter: "sock_recv n sock = (chunk, sock') \<Longrightarrow> chunk \<noteq> [] \<Longrightarrow>
    length (concat sock') < length (concat sock)"
  using sock_recv_concat [of n sock chunk sock'] by (metis append_Nil length_append length_greater_0_conv less_add_same_cancel2)

text \<open>
  One direction of the byte pipe: what reaches the destination until the source ends, or until a \<open>recv\<close> or
  a \<open>sendall\<close> raises \<open>OSError\<close>, after the given number of bytes.
\<close>

function pipe_one_direction :: "nat option \<Rightarrow> socket \<Rightarrow> bytes" where
  "pipe_one_direction fault source =
     (let (chunk, source') = sock_recv RELAY_BUFFER_SIZE source
      in if chunk = [] then []
         else (case fault of
           None \<Rightarrow> chunk @ pipe_one_direction None source'
         | Some n \<Rightarrow> if length chunk \<le> n then chunk @ pipe_one_direction (Some (n - length chunk)) source' else take n chunk))"
  by auto

termination
  by (relation "measure (\<lambda>(fault, sock). length (concat sock))") (simp, simp_all add: sock_recv_shorter [OF sym])

declare pipe_one_direction.simps [simp del]

text \<open>
  A whole connection with a reachable broker: capture, pipe, and the \<open>finally\<close> block that closes the
  session. An exception of the capture ends it before the variable \<open>client_id\<close> is set, so that no session
  is closed. The result is what the broker received, the proxy and the listener calls.
\<close>

definition handle_connection :: "connection_faults \<Rightarrow> seconds \<Rightarrow> string \<Rightarrow> socket \<Rightarrow> CredentialCaptureProxy
    \<Rightarrow> bytes \<times> CredentialCaptureProxy \<times> listener_event list" where
  "handle_connection faults now peer_address client_socket p =
     (case capture_and_forward_connect faults now peer_address client_socket p of
       (Inl _, sent, rest, p1, events) \<Rightarrow> (sent, p1, events)
     | (Inr client_id, sent, rest, p1, events) \<Rightarrow>
         let piped = pipe_one_direction (ft_pipe faults) rest;
             (p2, closing) = (case client_id of
                 None \<Rightarrow> (p1, [])
               | Some c \<Rightarrow> let (sessions, es) = close_session c (ccp_open_sessions p1)
                           in (p1\<lparr>ccp_open_sessions := sessions\<rparr>, es))
         in (sent @ piped, p2, events @ closing))"

text \<open>The whole handler: when the broker cannot be reached the client is closed before anything is read.\<close>

definition serve_connection :: "bool \<Rightarrow> connection_faults \<Rightarrow> seconds \<Rightarrow> string \<Rightarrow> socket \<Rightarrow> CredentialCaptureProxy
    \<Rightarrow> bytes \<times> CredentialCaptureProxy \<times> listener_event list" where
  "serve_connection broker_reachable faults now peer_address client_socket p =
     (if broker_reachable then handle_connection faults now peer_address client_socket p else ([], p, []))"

section \<open>Transparency\<close>

lemma pipe_prefix: "prefix (pipe_one_direction fault sock) (concat sock)"
proof (induction fault sock rule: pipe_one_direction.induct)
  case (1 fault sock)
  obtain chunk sock' where c: "sock_recv RELAY_BUFFER_SIZE sock = (chunk, sock')" by force
  have s: "concat sock = chunk @ concat sock'" using sock_recv_concat [OF c] by simp
  show ?case
  proof (cases fault)
    case None
    with "1.IH"(1) [OF c [symmetric] refl] c show ?thesis by (subst pipe_one_direction.simps) (simp add: s)
  next
    case (Some n)
    show ?thesis
    proof (cases "length chunk \<le> n")
      case True
      with Some "1.IH"(2) [OF c [symmetric] refl] c show ?thesis by (subst pipe_one_direction.simps) (simp add: s)
    next
      case False
      with Some c show ?thesis by (subst pipe_one_direction.simps) (simp add: s take_is_prefix prefix_prefix)
    qed
  qed
qed

lemma pipe_all: "segments_ok sock \<Longrightarrow> pipe_one_direction None sock = concat sock"
proof (induction "None :: nat option" sock rule: pipe_one_direction.induct)
  case (1 sock)
  obtain chunk sock' where c: "sock_recv RELAY_BUFFER_SIZE sock = (chunk, sock')" by force
  show ?case
  proof (cases "chunk = []")
    case True
    have "concat sock = []"
      using sock_recv_ok(1) [OF "1.prems" _ _ c] True by (auto simp: relay_defs)
    with True c show ?thesis by (subst pipe_one_direction.simps) simp
  next
    case False
    then have "concat sock \<noteq> []" using sock_recv_concat [OF c] by (metis append_is_Nil_conv)
    then have "segments_ok sock'"
      using sock_recv_ok(3) [OF "1.prems" _ _ c] by (simp add: relay_defs)
    with "1.hyps"(1) [OF c [symmetric] refl False refl] c False sock_recv_concat [OF c] show ?thesis
      by (subst pipe_one_direction.simps) simp
  qed
qed

lemma segments_ok_recv: "segments_ok sock \<Longrightarrow> 0 < n \<Longrightarrow> sock_recv n sock = (chunk, sock') \<Longrightarrow> segments_ok sock'"
  by (cases sock) (auto simp: segments_ok_def split: if_splits)

definition reader_ok :: "(MalformedConnectPacketError \<times> socket) + ('a \<times> TrackingReader) \<Rightarrow> bool" where
  "reader_ok r \<longleftrightarrow> (case r of Inl (e, sock) \<Rightarrow> segments_ok sock | Inr (x, reader) \<Rightarrow> segments_ok (tr_sock reader))"

lemma reader_ok_bind: "reader_ok r \<Longrightarrow> (\<And>x reader. r = Inr (x, reader) \<Longrightarrow> segments_ok (tr_sock reader) \<Longrightarrow> reader_ok (f (x, reader))) \<Longrightarrow>
    reader_ok (bind_res r f)"
  by (cases r) (auto simp: reader_ok_def)

lemma recv_loop_segments: "segments_ok (tr_sock reader) \<Longrightarrow> reader_ok (recv_loop len buf reader)"
proof (induction len buf reader rule: recv_loop.induct)
  case (1 len buf reader)
  obtain chunk sock where c: "sock_recv (len - length buf) (tr_sock reader) = (chunk, sock)" by force
  show ?case
  proof (cases "length buf < len")
    case True
    then have "segments_ok sock" using segments_ok_recv [OF "1.prems" _ c] by simp
    with "1.IH" [OF True c [symmetric] refl] c True show ?thesis
      by (subst recv_loop.simps) (auto simp: reader_ok_def)
  next
    case False
    with "1.prems" show ?thesis by (subst recv_loop.simps) (simp add: reader_ok_def)
  qed
qed

lemma recv_exact_segments: "segments_ok (tr_sock reader) \<Longrightarrow> reader_ok (recv_exact n reader)"
  by (simp add: recv_exact_def recv_loop_segments)

lemma remaining_length_segments: "segments_ok (tr_sock reader) \<Longrightarrow> reader_ok (remaining_length_loop n mult v reader)"
proof (induction n arbitrary: mult v reader)
  case (Suc n)
  show ?case unfolding remaining_length_loop.simps
    by (rule reader_ok_bind [OF recv_exact_segments [OF Suc.prems]])
      (simp add: Let_def Suc.IH, simp add: reader_ok_def)
qed (simp add: reader_ok_def)

lemma receive_packet_segments: "segments_ok (tr_sock reader) \<Longrightarrow> reader_ok (receive_packet reader)"
proof -
  assume ok: "segments_ok (tr_sock reader)"
  have tail: "reader_ok (bind_res (read_remaining_length r) (\<lambda>(n, r). recv_exact n r))"
    if "segments_ok (tr_sock r)" for r :: TrackingReader
    unfolding read_remaining_length_def
    by (rule reader_ok_bind [OF remaining_length_segments [OF that]]) (simp add: recv_exact_segments)
  show ?thesis unfolding receive_packet_def
    by (rule reader_ok_bind [OF recv_exact_segments [OF ok]]) (simp add: Let_def tail, simp add: reader_ok_def)
qed

lemma read_connect_segments: "segments_ok sock \<Longrightarrow> segments_ok (snd (read_connect_packet sock))"
  using receive_packet_segments [of "\<lparr>tr_sock = sock, tr_raw = []\<rparr>"]
  by (auto simp: read_connect_packet_def reader_ok_def split: sum.splits prod.splits)

lemma send_all_simps [simp]:
  "send_all None data = (False, data)" "prefix (snd (send_all fault data)) data" "\<not> fst (send_all fault data) \<Longrightarrow> snd (send_all fault data) = data"
  by (auto simp: send_all_def take_is_prefix split: option.splits if_splits)

text \<open>What was sent and what is still to come are the client's stream, unless the capture ended with an exception.\<close>

lemma capture_stream:
  assumes "capture_and_forward_connect faults now peer sock p = (c, sent, rest, p', es)"
  shows "prefix sent (concat sock)" and "\<not> isl c \<Longrightarrow> sent @ concat rest = concat sock" and "segments_ok sock \<Longrightarrow> segments_ok rest"
    and "faults = no_faults \<Longrightarrow> \<not> isl c"
proof -
  obtain r rest' where r: "read_connect_packet sock = (r, rest')" by force
  have stream: "consumed r @ concat rest' = concat sock" by (rule read_connect_stream [OF r])
  have cases: "(ft_read faults \<and> sent = [] \<and> rest = sock \<and> isl c) \<or>
      (\<not> ft_read faults \<and> sent = snd (send_all (ft_send faults) (consumed r)) \<and> rest = rest' \<and> (fst (send_all (ft_send faults) (consumed r)) \<longrightarrow> isl c))"
    using r assms
    by (auto simp: capture_and_forward_connect_def consumed_def Let_def case_prod_beta split: if_splits sum.splits option.splits)
  then show "prefix sent (concat sock)" using stream by (metis Nil_prefix prefix_prefix send_all_simps(2))
  show "\<not> isl c \<Longrightarrow> sent @ concat rest = concat sock" using cases stream by auto
  show "segments_ok sock \<Longrightarrow> segments_ok rest" using cases read_connect_segments [of sock] r by auto
  show "faults = no_faults \<Longrightarrow> \<not> isl c"
    using r assms
    by (auto simp: capture_and_forward_connect_def no_faults_def Let_def case_prod_beta split: if_splits sum.splits option.splits)
qed

lemma handle_connection_stream:
  "prefix (fst (handle_connection faults now peer sock p)) (concat sock)"
  "segments_ok sock \<Longrightarrow> fst (handle_connection no_faults now peer sock p) = concat sock"
proof -
  obtain c sent rest p' es where cap: "capture_and_forward_connect faults now peer sock p = (c, sent, rest, p', es)"
    by (metis prod_cases5)
  show "prefix (fst (handle_connection faults now peer sock p)) (concat sock)"
  proof (cases c)
    case (Inl u)
    with cap capture_stream(1) [OF cap] show ?thesis by (simp add: handle_connection_def)
  next
    case (Inr x)
    have "fst (handle_connection faults now peer sock p) = sent @ pipe_one_direction (ft_pipe faults) rest"
      using cap Inr by (simp add: handle_connection_def case_prod_beta Let_def)
    moreover have "sent @ concat rest = concat sock" using capture_stream(2) [OF cap] Inr by simp
    ultimately show ?thesis using pipe_prefix [of "ft_pipe faults" rest] by (metis same_prefix_prefix)
  qed
next
  assume ok: "segments_ok sock"
  obtain c sent rest p' es where cap: "capture_and_forward_connect no_faults now peer sock p = (c, sent, rest, p', es)"
    by (metis prod_cases5)
  obtain x where x: "c = Inr x" using capture_stream(4) [OF cap refl] by (cases c) auto
  have "sent @ pipe_one_direction None rest = concat sock" using capture_stream(2,3) [OF cap] x ok by (simp add: pipe_all)
  with cap x show "fst (handle_connection no_faults now peer sock p) = concat sock"
    by (simp add: handle_connection_def case_prod_beta Let_def no_faults_def)
qed

section \<open>Concurrent connections\<close>

text \<open>
  Connection threads interleave at the granularity of the session lock and of listener calls:
  \<open>sys_live\<close> holds the client ids of the connections between their open and their close,
  \<open>sys_pending\<close> the listener calls a thread has still to make after leaving the lock, \<open>sys_calls\<close> the
  calls made so far.
\<close>

record proxy_system =
  sys_sessions :: session_counter
  sys_live :: "string list"
  sys_pending :: "listener_event list"
  sys_calls :: "listener_event list"

definition initial_system :: proxy_system where
  "initial_system = \<lparr>sys_sessions = [], sys_live = [], sys_pending = [], sys_calls = []\<rparr>"

inductive proxy_step :: "proxy_system \<Rightarrow> proxy_system \<Rightarrow> bool" where
  OpenLocked: "open_session identity peer (sys_sessions s) = (sessions, es) \<Longrightarrow>
    proxy_step s (s\<lparr>sys_sessions := sessions, sys_live := di_client_id identity # sys_live s,
      sys_pending := sys_pending s @ es\<rparr>)"
| CloseLocked: "c \<in> set (sys_live s) \<Longrightarrow> close_session c (sys_sessions s) = (sessions, es) \<Longrightarrow>
    proxy_step s (s\<lparr>sys_sessions := sessions, sys_live := remove1 c (sys_live s), sys_pending := sys_pending s @ es\<rparr>)"
| ListenerCall: "e \<in> set (sys_pending s) \<Longrightarrow>
    proxy_step s (s\<lparr>sys_pending := remove1 e (sys_pending s), sys_calls := sys_calls s @ [e]\<rparr>)"

inductive_cases proxy_stepE: "proxy_step s s'"

definition proxy_reachable :: "proxy_system \<Rightarrow> bool" where
  "proxy_reachable s \<longleftrightarrow> proxy_step\<^sup>*\<^sup>* initial_system s"

definition counter_inv :: "proxy_system \<Rightarrow> bool" where
  "counter_inv s \<longleftrightarrow> dict_wf (sys_sessions s) \<and> (\<forall>c. counter_get (sys_sessions s) c = int (count_list (sys_live s) c)) \<and>
     (\<forall>c n. dict_get (sys_sessions s) c = Some n \<longrightarrow> 0 < n)"

lemma counter_get_simps [simp]:
  "counter_get (dict_set k v c) k' = (if k' = k then v else counter_get c k')"
  "counter_get (dict_pop k c) k' = (if k' = k then 0 else counter_get c k')"
  by (simp_all add: counter_get_def)

lemma count_list_remove1: "count_list (remove1 x xs) y = (if x = y \<and> x \<in> set xs then count_list xs y - 1 else count_list xs y)"
  by (induction xs) auto

lemma counter_inv_open:
  assumes "counter_inv s" "open_session identity peer (sys_sessions s) = (sessions, es)"
  shows "counter_inv (s\<lparr>sys_sessions := sessions, sys_live := di_client_id identity # sys_live s, sys_pending := ps\<rparr>)"
  using assms by (auto simp: counter_inv_def open_session_def split: if_splits)

lemma counter_inv_close:
  assumes inv: "counter_inv s" and c: "c \<in> set (sys_live s)" and cl: "close_session c (sys_sessions s) = (sessions, es)"
  shows "counter_inv (s\<lparr>sys_sessions := sessions, sys_live := remove1 c (sys_live s), sys_pending := ps\<rparr>)"
proof -
  have pos: "0 < count_list (sys_live s) c" using c by (simp add: count_list_0_iff neq0_conv [symmetric])
  from inv have n: "counter_get (sys_sessions s) c = int (count_list (sys_live s) c)" by (simp add: counter_inv_def)
  show ?thesis
    using inv cl c pos n by (auto simp: counter_inv_def close_session_def Let_def count_list_remove1 split: if_splits)
qed

lemma counter_inv_step: "proxy_step s s' \<Longrightarrow> counter_inv s \<Longrightarrow> counter_inv s'"
proof (induction rule: proxy_step.induct)
  case (ListenerCall e s)
  then show ?case by (simp add: counter_inv_def)
qed (auto intro: counter_inv_open counter_inv_close)

lemma counter_inv_reachable: "proxy_reachable s \<Longrightarrow> counter_inv s"
  unfolding proxy_reachable_def
proof (induction rule: rtranclp_induct)
  case base
  then show ?case by (simp add: counter_inv_def initial_system_def counter_get_def)
qed (rule counter_inv_step)

text \<open>What the listener of \<^verbatim>\<open>__main__.py\<close> makes of a call: the presence tracker is told.\<close>

definition presence_event :: "seconds \<Rightarrow> listener_event \<Rightarrow> session_event" where
  "presence_event now e = (case e of
     DeviceSessionOpened identity peer \<Rightarrow> Opened now (di_client_id identity) (Some peer)
   | DeviceSessionClosed c \<Rightarrow> Closed now c)"

definition pr_connected_after :: "seconds \<Rightarrow> string \<Rightarrow> listener_event list \<Rightarrow> bool" where
  "pr_connected_after now c calls \<longleftrightarrow>
     (case last_event c (map (presence_event now) calls) of Some (Opened _ _ _) \<Rightarrow> True | _ \<Rightarrow> False)"

text \<open>Threads that do not overtake each other: each section is followed by its own listener call.\<close>

datatype serial_op = SerialOpen DeviceIdentity string | SerialClose string

fun serial_step :: "serial_op \<Rightarrow> proxy_system \<Rightarrow> proxy_system" where
  "serial_step (SerialOpen identity peer) s =
     (let (sessions, es) = open_session identity peer (sys_sessions s)
      in s\<lparr>sys_sessions := sessions, sys_live := di_client_id identity # sys_live s, sys_calls := sys_calls s @ es\<rparr>)"
| "serial_step (SerialClose c) s =
     (if c \<in> set (sys_live s) then
        let (sessions, es) = close_session c (sys_sessions s)
        in s\<lparr>sys_sessions := sessions, sys_live := remove1 c (sys_live s), sys_calls := sys_calls s @ es\<rparr>
      else s)"

definition serial_run :: "serial_op list \<Rightarrow> proxy_system" where
  "serial_run ops = fold serial_step ops initial_system"

lemma serial_reachable: "proxy_step\<^sup>*\<^sup>* s (serial_step x s)" if "sys_pending s = []"
proof (cases x)
  case (SerialOpen i peer)
  obtain sessions es where o: "open_session i peer (sys_sessions s) = (sessions, es)" by force
  then have es: "es = [DeviceSessionOpened i peer]" by (simp add: open_session_def)
  let ?s1 = "s\<lparr>sys_sessions := sessions, sys_live := di_client_id i # sys_live s, sys_pending := sys_pending s @ es\<rparr>"
  have "proxy_step s ?s1" using o by (rule OpenLocked)
  moreover have "proxy_step ?s1 (?s1\<lparr>sys_pending := remove1 (hd es) (sys_pending ?s1), sys_calls := sys_calls ?s1 @ [hd es]\<rparr>)"
    by (rule ListenerCall) (simp add: es that)
  moreover have "?s1\<lparr>sys_pending := remove1 (hd es) (sys_pending ?s1), sys_calls := sys_calls ?s1 @ [hd es]\<rparr> = serial_step x s"
    using o that SerialOpen es by (intro proxy_system.equality) simp_all
  ultimately show ?thesis by (metis converse_rtranclp_into_rtranclp r_into_rtranclp)
next
  case (SerialClose c)
  show ?thesis
  proof (cases "c \<in> set (sys_live s)")
    case True
    obtain sessions es where o: "close_session c (sys_sessions s) = (sessions, es)" by force
    let ?s1 = "s\<lparr>sys_sessions := sessions, sys_live := remove1 c (sys_live s), sys_pending := sys_pending s @ es\<rparr>"
    have step: "proxy_step s ?s1" using True o by (rule CloseLocked)
    show ?thesis
    proof (cases es)
      case Nil
      then have "?s1 = serial_step x s"
        using o that True SerialClose by (intro proxy_system.equality) simp_all
      with step show ?thesis by (metis r_into_rtranclp)
    next
      case (Cons e es')
      with o have es: "es = [e]" by (auto simp: close_session_def Let_def split: if_splits)
      have "proxy_step ?s1 (?s1\<lparr>sys_pending := remove1 e (sys_pending ?s1), sys_calls := sys_calls ?s1 @ [e]\<rparr>)"
        by (rule ListenerCall) (simp add: es that)
      moreover have "?s1\<lparr>sys_pending := remove1 e (sys_pending ?s1), sys_calls := sys_calls ?s1 @ [e]\<rparr> = serial_step x s"
        using o that True SerialClose es by (intro proxy_system.equality) simp_all
      ultimately show ?thesis using step by (metis converse_rtranclp_into_rtranclp r_into_rtranclp)
    qed
  qed (simp add: SerialClose)
qed

text \<open>In serial runs the listener's last call for a device says whether it has an open connection.\<close>

definition calls_match :: "proxy_system \<Rightarrow> bool" where
  "calls_match s \<longleftrightarrow> counter_inv s \<and> sys_pending s = [] \<and>
     (\<forall>now c. pr_connected_after now c (sys_calls s) = (c \<in> set (sys_live s)))"

lemma connected_after_snoc:
  "pr_connected_after now c (es @ [e]) =
    (case e of DeviceSessionOpened i p \<Rightarrow> di_client_id i = c \<or> pr_connected_after now c es
     | DeviceSessionClosed d \<Rightarrow> d \<noteq> c \<and> pr_connected_after now c es)"
  by (auto simp: pr_connected_after_def last_event_snoc presence_event_def split: listener_event.splits)

lemma count_list_remove1_mem: "counter_inv s \<Longrightarrow> c \<in> set (sys_live s) \<Longrightarrow>
    (c \<in> set (remove1 c (sys_live s))) = (counter_get (sys_sessions s) c - 1 > 0)"
proof -
  assume inv: "counter_inv s" and c: "c \<in> set (sys_live s)"
  have "count_list (remove1 c (sys_live s)) c = count_list (sys_live s) c - 1"
    by (simp only: count_list_remove1 c simp_thms if_True)
  with inv count_list_0_iff [of "remove1 c (sys_live s)" c] show ?thesis by (auto simp: counter_inv_def)
qed

lemma calls_match_step: "calls_match s \<Longrightarrow> calls_match (serial_step x s)"
proof (cases x)
  case (SerialOpen i peer)
  assume m: "calls_match s"
  obtain sessions es where o: "open_session i peer (sys_sessions s) = (sessions, es)" by force
  with m SerialOpen counter_inv_open [of s i peer sessions es "sys_pending s"] show ?thesis
    by (auto simp: calls_match_def open_session_def connected_after_snoc counter_inv_def)
next
  case (SerialClose c)
  assume m: "calls_match s"
  show ?thesis
  proof (cases "c \<in> set (sys_live s)")
    case True
    obtain sessions es where o: "close_session c (sys_sessions s) = (sessions, es)" by force
    have inv: "counter_inv s" using m by (simp add: calls_match_def)
    have other: "(d \<in> set (remove1 c (sys_live s))) = (d \<in> set (sys_live s))" if "d \<noteq> c" for d
      using that by (metis in_set_remove1)
    note mem = count_list_remove1_mem [OF inv True]
    let ?s' = "serial_step x s"
    have s': "?s' = s\<lparr>sys_sessions := sessions, sys_live := remove1 c (sys_live s), sys_calls := sys_calls s @ es\<rparr>"
      using o True SerialClose by simp
    have "counter_inv ?s'" using counter_inv_close [OF inv True o, of "[]"] by (simp add: s' counter_inv_def)
    moreover have "pr_connected_after now d (sys_calls s @ es) = (d \<in> set (remove1 c (sys_live s)))" for now d
    proof (cases "c \<in> set (remove1 c (sys_live s))")
      case True
      with mem o have "es = []" by (simp add: close_session_def Let_def)
      with m True other [of d] SerialClose show ?thesis
        by (cases "d = c") (auto simp: calls_match_def dest: notin_set_remove1)
    next
      case False
      with mem o have "es = [DeviceSessionClosed c]" by (simp add: close_session_def Let_def split: if_splits)
      with m False other [of d] show ?thesis by (cases "d = c") (simp_all add: calls_match_def connected_after_snoc)
    qed
    ultimately show ?thesis using m by (simp add: calls_match_def s')
  qed (use m SerialClose in simp)
qed

lemma calls_match_run: "calls_match (serial_run ops)"
proof -
  have "calls_match s \<Longrightarrow> calls_match (fold serial_step ops s)" for s
    by (induction ops arbitrary: s) (simp_all add: calls_match_step)
  moreover have "calls_match initial_system"
    by (simp add: calls_match_def initial_system_def counter_inv_def counter_get_def pr_connected_after_def last_event_def)
  ultimately show ?thesis by (simp add: serial_run_def)
qed

section \<open>Properties\<close>

text \<open>
  C26: The proxy is transparent: whatever a client sends, in whatever segments, well-formed CONNECT
  packet or not, the broker receives exactly those bytes in order when nothing fails. Whatever fails - the
  sockets, the registry, the listener - the broker has received a prefix of them, nothing else.
\<close>

theorem proxy_is_transparent:
  assumes "segments_ok sock"
  shows "fst (handle_connection no_faults now peer sock p) = concat sock \<and> prefix (fst (handle_connection faults now peer sock p)) (concat sock)"
  using assms by (simp add: handle_connection_stream)

theorem proxy_is_transparent_witness:
  "fst (handle_connection no_faults 7 ''10.0.0.2'' [''GET / HT'', ''TP'']
     \<lparr>ccp_registry = open_registry None 100 True, ccp_open_sessions = []\<rparr>) = ''GET / HTTP''"
  using proxy_is_transparent [of "[''GET / HT'', ''TP'']"] by (simp add: segments_ok_def)

text \<open>
  In every interleaving of connection threads, a device counts as connected exactly while it has
  an open connection, however many overlap, and the counter keeps no entry for a device without one.
\<close>

theorem session_counter_exact:
  assumes "proxy_reachable s"
  shows "(is_device_connected (sys_sessions s) c \<longleftrightarrow> c \<in> set (sys_live s)) \<and>
    connected_device_ids (sys_sessions s) = set (sys_live s) \<and>
    dom (map_of (sys_sessions s)) = set (sys_live s)"
proof -
  from counter_inv_reachable [OF assms] have wf: "dict_wf (sys_sessions s)"
    and n: "\<And>c. counter_get (sys_sessions s) c = int (count_list (sys_live s) c)"
    and pos: "\<And>c n. dict_get (sys_sessions s) c = Some n \<Longrightarrow> 0 < n" by (auto simp: counter_inv_def)
  have live: "c \<in> set (sys_live s) \<longleftrightarrow> (\<exists>n. dict_get (sys_sessions s) c = Some n)" for c
    using n [of c] pos [of c] count_list_0_iff [of "sys_live s" c] by (auto simp: counter_get_def split: option.splits)
  moreover have "connected_device_ids (sys_sessions s) = {c. \<exists>n. dict_get (sys_sessions s) c = Some n \<and> 0 < n}"
    by (auto simp: connected_device_ids_def image_iff dict_wf_mem [OF wf] Bex_def split_paired_Ex)
  ultimately show ?thesis using pos live [of c] by (auto simp: is_device_connected_def counter_get_def split: option.splits)
qed

theorem session_counter_exact_witness:
  "is_device_connected (sys_sessions (serial_step (SerialOpen demo_identity ''10.0.0.2'') initial_system)) ''AF03''"
proof -
  let ?s = "serial_step (SerialOpen demo_identity ''10.0.0.2'') initial_system"
  have "proxy_reachable ?s" unfolding proxy_reachable_def by (rule serial_reachable) (simp add: initial_system_def)
  from session_counter_exact [OF this, of "''AF03''"] show ?thesis
    by (simp add: open_session_def demo_identity_def)
qed

text \<open>
  When no thread is overtaken between leaving the session lock and calling the listener, the
  presence tracker says that a device is connected exactly while it has an open connection, for any
  sequence of overlapping connections.
\<close>

theorem presence_matches_serial_sessions:
  "(\<exists>r. presence_record c (presence_run (map (presence_event now) (sys_calls (serial_run ops))) (init_tracker g)) = Some r \<and>
      pr_connected r) \<longleftrightarrow> c \<in> set (sys_live (serial_run ops))"
proof -
  have "pr_connected_after now c (sys_calls (serial_run ops)) = (c \<in> set (sys_live (serial_run ops)))"
    using calls_match_run [of ops] by (simp add: calls_match_def)
  with record_last_event [of c "map (presence_event now) (sys_calls (serial_run ops))" g] show ?thesis
    by (auto simp: pr_connected_after_def split: option.splits session_event.splits)
qed

section \<open>An overtaken listener call\<close>

text \<open>
  The listener is called after the session lock is released. A thread that closes a device's last
  session can be overtaken there by a thread that opens a new one: the device is then connected, but
  the tracker hears of the closing last and marks it absent.
\<close>

theorem overtaken_close_marks_connected_device_absent:
  "\<exists>s. proxy_reachable s \<and> sys_pending s = [] \<and> ''AF03'' \<in> set (sys_live s) \<and>
     (\<exists>r. presence_record ''AF03'' (presence_run (map (presence_event now) (sys_calls s)) (init_tracker g)) = Some r \<and>
       \<not> pr_connected r)"
proof -
  let ?c = "''AF03''" and ?o = "DeviceSessionOpened demo_identity ''10.0.0.2''"
  define s1 where "s1 = serial_step (SerialOpen demo_identity ''10.0.0.2'') initial_system"
  define s2 where "s2 = s1\<lparr>sys_sessions := [], sys_live := [], sys_pending := [DeviceSessionClosed ?c]\<rparr>"
  define s3 where "s3 = s2\<lparr>sys_sessions := [(?c, 1)], sys_live := [?c], sys_pending := [DeviceSessionClosed ?c, ?o]\<rparr>"
  define s4 where "s4 = s3\<lparr>sys_pending := [DeviceSessionClosed ?c], sys_calls := sys_calls s3 @ [?o]\<rparr>"
  define s5 where "s5 = s4\<lparr>sys_pending := [], sys_calls := sys_calls s4 @ [DeviceSessionClosed ?c]\<rparr>"
  have s1: "s1 = \<lparr>sys_sessions = [(?c, 1)], sys_live = [?c], sys_pending = [], sys_calls = [?o]\<rparr>"
    by (simp add: s1_def initial_system_def open_session_def demo_identity_def counter_get_def)
  have "proxy_step\<^sup>*\<^sup>* initial_system s1" unfolding s1_def by (rule serial_reachable) (simp add: initial_system_def)
  also have "proxy_step s1 s2"
    using CloseLocked [of ?c s1 "[]" "[DeviceSessionClosed ?c]"] by (simp add: s1 s2_def close_session_def counter_get_def)
  also have "proxy_step s2 s3"
    using OpenLocked [of demo_identity "''10.0.0.2''" s2 "[(?c, 1)]" "[?o]"]
    by (simp add: s1 s2_def s3_def open_session_def counter_get_def demo_identity_def)
  also have "proxy_step s3 s4"
    using ListenerCall [of ?o s3] by (simp add: s1 s2_def s3_def s4_def)
  also have "proxy_step s4 s5"
    using ListenerCall [of "DeviceSessionClosed ?c" s4] by (simp add: s1 s2_def s3_def s4_def s5_def)
  finally have "proxy_reachable s5" by (simp add: proxy_reachable_def)
  moreover have "last_event ?c (map (presence_event now) (sys_calls s5)) = Some (Closed now ?c)"
    by (simp add: s1 s2_def s3_def s4_def s5_def last_event_def presence_event_def demo_identity_def)
  ultimately show ?thesis
    using record_last_event [of ?c "map (presence_event now) (sys_calls s5)" g]
    by (intro exI [of _ s5]) (simp add: s1 s2_def s3_def s4_def s5_def, blast)
qed

section \<open>A listener that raises\<close>

text \<open>
  The session is counted before the listener is called, and closed only when the handler has the client
  id, which a raising listener keeps from it. The session stays counted after the connection has ended, so
  that later connections of the device end without the closing being reported.
\<close>

theorem raising_listener_leaks_session:
  assumes "\<not> ft_read faults" "ft_send faults = None" "\<not> ft_registry faults" "ft_listener faults"
    "read_connect_packet sock = (Inr (raw, parsed), rest)" "cpf_username parsed \<noteq> None" "cpf_password parsed \<noteq> None"
  shows "\<exists>p' es. handle_connection faults now peer sock p = (raw, p', es) \<and>
    counter_get (ccp_open_sessions p') (cpf_client_id parsed) = counter_get (ccp_open_sessions p) (cpf_client_id parsed) + 1 \<and>
    (\<forall>c. DeviceSessionClosed c \<notin> set es)"
  using assms by (auto simp: handle_connection_def capture_and_forward_connect_def open_session_def Let_def case_prod_beta)

lemma leaked_session_hides_closing:
  assumes "0 < counter_get sessions c" "open_session i peer sessions = (sessions1, es1)" "di_client_id i = c"
  shows "snd (close_session c sessions1) = []"
  using assms by (auto simp: open_session_def close_session_def Let_def)

end
