(* ===== verification/Replay_Policy.thy ===== *)
theory Replay_Policy
  imports Json Protocol
begin

text \<open>
  \<^verbatim>\<open>replay_policy.py\<close>: which queued messages may still be delivered after an outage, for how long,
  and which ones supersede each other. Lookup in the two policy tables, the admission test
  \<open>should_enqueue\<close> and the coalescing key are the code's; the lemmas say which messages are
  admitted and when two settings updates share a key.
\<close>

record ReplayPolicy =
  max_age_seconds :: "seconds option"
  coalesce :: bool
  drop_when_destination_offline :: bool

definition NEVER_REPLAY_GRACE_SECONDS :: seconds where
  [relay_defs]: "NEVER_REPLAY_GRACE_SECONDS = 5"
definition MANUAL_FEED_TTL_SECONDS :: seconds where
  [relay_defs]: "MANUAL_FEED_TTL_SECONDS = 60"
definition DURABLE_EVENT_TTL_SECONDS :: seconds where
  [relay_defs]: "DURABLE_EVENT_TTL_SECONDS = 24 * 60 * 60"

definition DURABLE_FIFO :: ReplayPolicy where [relay_defs]:
  "DURABLE_FIFO = \<lparr>max_age_seconds = None, coalesce = False, drop_when_destination_offline = False\<rparr>"
definition NEVER_REPLAY :: ReplayPolicy where [relay_defs]:
  "NEVER_REPLAY = \<lparr>max_age_seconds = Some NEVER_REPLAY_GRACE_SECONDS, coalesce = False,
     drop_when_destination_offline = False\<rparr>"
definition LATEST_WINS :: ReplayPolicy where [relay_defs]:
  "LATEST_WINS = \<lparr>max_age_seconds = None, coalesce = True, drop_when_destination_offline = False\<rparr>"
definition MANUAL_FEED :: ReplayPolicy where [relay_defs]:
  "MANUAL_FEED = \<lparr>max_age_seconds = Some MANUAL_FEED_TTL_SECONDS, coalesce = False,
     drop_when_destination_offline = False\<rparr>"
definition DURABLE_EVENT :: ReplayPolicy where [relay_defs]:
  "DURABLE_EVENT = \<lparr>max_age_seconds = Some DURABLE_EVENT_TTL_SECONDS, coalesce = False,
     drop_when_destination_offline = False\<rparr>"
definition EPHEMERAL_DEVICE_REPORT :: ReplayPolicy where [relay_defs]:
  "EPHEMERAL_DEVICE_REPORT = \<lparr>max_age_seconds = Some NEVER_REPLAY_GRACE_SECONDS, coalesce = False,
     drop_when_destination_offline = True\<rparr>"

definition CLOUD_TO_DEVICE_POLICIES :: "(string, ReplayPolicy) dict" where
  "CLOUD_TO_DEVICE_POLICIES = [
     (''NTP'', NEVER_REPLAY),
     (''NTP_SYNC'', NEVER_REPLAY),
     (''DEVICE_REBOOT'', NEVER_REPLAY),
     (''RESET'', NEVER_REPLAY),
     (''RESTORE'', NEVER_REPLAY),
     (''OTA_UPGRADE'', NEVER_REPLAY),
     (''OTA_INFORM'', NEVER_REPLAY),
     (''OTA_PROGRESS'', NEVER_REPLAY),
     (''UNBIND'', NEVER_REPLAY),
     (''BINDING'', NEVER_REPLAY),
     (''WIFI_CHANGE_SERVICE'', NEVER_REPLAY),
     (''WIFI_RECONNECT_SERVICE'', NEVER_REPLAY),
     (''INITIALIZE_SD_CARD_SERVICE'', NEVER_REPLAY),
     (''MANUAL_FEEDING_SERVICE'', MANUAL_FEED),
     (''ATTR_SET_SERVICE'', LATEST_WINS),
     (''ATTR_GET_SERVICE'', LATEST_WINS),
     (''ATTR_PUSH_EVENT'', LATEST_WINS),
     (''FEEDING_PLAN_SERVICE'', LATEST_WINS),
     (''DEVICE_FEEDING_PLAN_SERVICE'', LATEST_WINS),
     (''GET_FEEDING_PLAN_EVENT'', LATEST_WINS),
     (''DEVICE_CONFIG_SYNC'', LATEST_WINS),
     (''SERVER_CONFIG_PUSH'', LATEST_WINS),
     (''GET_CONFIG'', LATEST_WINS),
     (''DEVICE_PROPERTIES_SERVICE'', LATEST_WINS),
     (''DEVICE_INFO_SERVICE'', LATEST_WINS),
     (''TUTK_CONTRACT_SERVICE'', LATEST_WINS)]"

definition DEVICE_TO_CLOUD_POLICIES :: "(string, ReplayPolicy) dict" where
  "DEVICE_TO_CLOUD_POLICIES = [
     (''HEARTBEAT'', EPHEMERAL_DEVICE_REPORT),
     (''NTP'', EPHEMERAL_DEVICE_REPORT),
     (''GRAIN_OUTPUT_EVENT'', DURABLE_EVENT),
     (''ERROR_EVENT'', DURABLE_EVENT),
     (''DETECTION_EVENT'', DURABLE_EVENT),
     (''DEVICE_START_EVENT'', DURABLE_EVENT),
     (''DEVICE_LOG_REPORT_EVENT'', DURABLE_EVENT),
     (''ATTR_SET_SERVICE'', LATEST_WINS),
     (''ATTR_GET_SERVICE'', LATEST_WINS),
     (''FEEDING_PLAN_SERVICE'', LATEST_WINS),
     (''DEVICE_FEEDING_PLAN_SERVICE'', LATEST_WINS),
     (''DEVICE_CONFIG_SYNC'', LATEST_WINS),
     (''SERVER_CONFIG_PUSH'', LATEST_WINS),
     (''GET_CONFIG'', LATEST_WINS),
     (''DEVICE_PROPERTIES_SERVICE'', LATEST_WINS),
     (''DEVICE_INFO_SERVICE'', LATEST_WINS)]"

definition extract_command :: "bytes \<Rightarrow> string option" where
  "extract_command payload =
     (case json_loads payload of
       None \<Rightarrow> None
     | Some decoded \<Rightarrow>
         (case decoded of
           JObj d \<Rightarrow> (case dict_get d ''cmd'' of Some (JStr command) \<Rightarrow> Some command | _ \<Rightarrow> None)
         | _ \<Rightarrow> None))"

definition policy_for :: "bool \<Rightarrow> string option \<Rightarrow> ReplayPolicy" where
  "policy_for is_cloud_to_device command =
     (case command of
       None \<Rightarrow> DURABLE_FIFO
     | Some c \<Rightarrow>
         let policies = (if is_cloud_to_device then CLOUD_TO_DEVICE_POLICIES else DEVICE_TO_CLOUD_POLICIES)
         in (case dict_get policies c of Some p \<Rightarrow> p | None \<Rightarrow> DURABLE_FIFO))"

definition should_enqueue :: "ReplayPolicy \<Rightarrow> bool \<Rightarrow> bool" where
  "should_enqueue policy destination_online \<longleftrightarrow>
     destination_online \<or> \<not> drop_when_destination_offline policy"

definition ATTR_SET_ENVELOPE_FIELDS :: "string list" where
  [relay_defs]: "ATTR_SET_ENVELOPE_FIELDS = [''cmd'', ''code'', ''msgId'', ''ts'']"

definition attr_set_setting_fields :: "bytes \<Rightarrow> string list" where
  "attr_set_setting_fields payload =
     (case json_loads payload of
       Some (JObj d) \<Rightarrow> sort (filter (\<lambda>f. f \<notin> set ATTR_SET_ENVELOPE_FIELDS) (map fst d))
     | _ \<Rightarrow> [])"

definition coalesce_key_for :: "string \<Rightarrow> string option \<Rightarrow> ReplayPolicy \<Rightarrow> bytes \<Rightarrow> string option" where
  "coalesce_key_for topic command policy payload =
     (case command of
       None \<Rightarrow> None
     | Some c \<Rightarrow>
         if \<not> coalesce policy then None
         else if c = ''ATTR_SET_SERVICE'' then
           (let setting_fields = attr_set_setting_fields payload in
            if setting_fields \<noteq> []
            then Some (topic @ ''|'' @ c @ ''|'' @ join '','' setting_fields)
            else None)
         else Some (topic @ ''|'' @ c))"

section \<open>Admission and coalescing\<close>

lemma unknown_command_durable:
  "dict_get CLOUD_TO_DEVICE_POLICIES c = None \<Longrightarrow> policy_for True (Some c) = DURABLE_FIFO"
  "dict_get DEVICE_TO_CLOUD_POLICIES c = None \<Longrightarrow> policy_for False (Some c) = DURABLE_FIFO"
  by (simp_all add: policy_for_def)

lemma dict_get_range: "dict_get d k = Some v \<Longrightarrow> v \<in> snd ` set d"
  by (force dest: map_of_SomeD)

lemma policies_ranges:
  "snd ` set CLOUD_TO_DEVICE_POLICIES = {NEVER_REPLAY, MANUAL_FEED, LATEST_WINS}"
  "snd ` set DEVICE_TO_CLOUD_POLICIES = {EPHEMERAL_DEVICE_REPORT, DURABLE_EVENT, LATEST_WINS}"
  by (auto simp: CLOUD_TO_DEVICE_POLICIES_def DEVICE_TO_CLOUD_POLICIES_def)

lemma policy_for_cases:
  "policy_for cloud command \<in>
    (if cloud then {DURABLE_FIFO, NEVER_REPLAY, MANUAL_FEED, LATEST_WINS}
     else {DURABLE_FIFO, EPHEMERAL_DEVICE_REPORT, DURABLE_EVENT, LATEST_WINS})"
  using policies_ranges
  by (auto simp: policy_for_def split: option.splits dest!: dict_get_range)

lemma dropped_only_ephemeral:
  "\<not> should_enqueue (policy_for cloud command) online \<longleftrightarrow>
     \<not> online \<and> \<not> cloud \<and> (command = Some cmd_HEARTBEAT \<or> command = Some cmd_NTP)"
proof (cases cloud)
  case True
  then show ?thesis using policy_for_cases [of True command]
    by (auto simp: should_enqueue_def relay_defs)
next
  case False
  then show ?thesis
    by (auto simp: should_enqueue_def policy_for_def DEVICE_TO_CLOUD_POLICIES_def relay_defs
        split: option.splits if_splits)
qed

section \<open>Coalescing keys\<close>

lemma attr_fields_sorted: "sorted (attr_set_setting_fields p)"
  by (simp add: attr_set_setting_fields_def split: option.splits json.splits)

lemma join_comma_inj:
  assumes "\<forall>s\<in>set xs \<union> set ys. CHR '','' \<notin> set s" "xs \<noteq> []" "ys \<noteq> []"
  shows "join '','' xs = join '','' ys \<longleftrightarrow> xs = ys"
proof
  assume j: "join '','' xs = join '','' ys"
  have "xs = split_on (CHR '','') (join '','' xs)"
    using assms by (subst split_on_join) auto
  also have "\<dots> = split_on (CHR '','') (join '','' ys)" by (simp add: j)
  also have "\<dots> = ys" using assms by (subst split_on_join) auto
  finally show "xs = ys" .
qed simp

text \<open>
  The only messages that are refused entry to the durable queue are the device's HEARTBEAT and
  NTP reports while the cloud is unreachable; every other message, known or unknown, in either
  direction and connection state, is admitted.
\<close>

theorem only_ephemeral_reports_dropped:
  "should_enqueue (policy_for cloud command) online =
     (online \<or> cloud \<or> (command \<noteq> Some ''HEARTBEAT'' \<and> command \<noteq> Some ''NTP''))"
  using dropped_only_ephemeral [of cloud command online] by blast

text \<open>
  two settings updates on one topic supersede each other exactly when they set the same fields:
  for ATTR_SET_SERVICE payloads whose setting names contain no comma, the coalescing keys are equal
  if and only if the sorted lists of settings, without the protocol envelope, are equal, and a
  payload without settings (an acknowledgement) has no key at all.
\<close>

theorem attr_set_coalesce_exact:
  assumes "\<forall>s\<in>set (attr_set_setting_fields p) \<union> set (attr_set_setting_fields q). CHR '','' \<notin> set s"
    and "attr_set_setting_fields q \<noteq> []"
  shows "coalesce_key_for t (Some cmd_ATTR_SET_SERVICE) LATEST_WINS p =
      coalesce_key_for t (Some cmd_ATTR_SET_SERVICE) LATEST_WINS q
    \<longleftrightarrow> attr_set_setting_fields p = attr_set_setting_fields q"
proof (cases "attr_set_setting_fields p = []")
  case True
  with assms show ?thesis by (simp add: coalesce_key_for_def LATEST_WINS_def Let_def)
next
  case False
  with assms join_comma_inj [OF assms(1) False assms(2)] show ?thesis
    by (auto simp: coalesce_key_for_def LATEST_WINS_def Let_def)
qed

theorem attr_set_coalesce_exact_witness:
  "attr_set_setting_fields ''{\"volume\": 3, \"cmd\": \"ATTR_SET_SERVICE\"}'' = [''volume'']
   \<and> coalesce_key_for ''t'' (Some cmd_ATTR_SET_SERVICE) LATEST_WINS
       ''{\"cmd\": \"ATTR_SET_SERVICE\", \"lightSwitch\": true}'' \<noteq>
     coalesce_key_for ''t'' (Some cmd_ATTR_SET_SERVICE) LATEST_WINS
       ''{\"volume\": 3, \"cmd\": \"ATTR_SET_SERVICE\"}''"
proof -
  have q: "attr_set_setting_fields ''{\"volume\": 3, \"cmd\": \"ATTR_SET_SERVICE\"}'' = [''volume'']"
    by code_simp
  have p: "attr_set_setting_fields ''{\"cmd\": \"ATTR_SET_SERVICE\", \"lightSwitch\": true}''
      = [''lightSwitch'']"
    by code_simp
  show ?thesis
    using attr_set_coalesce_exact
      [of "''{\"cmd\": \"ATTR_SET_SERVICE\", \"lightSwitch\": true}''"
        "''{\"volume\": 3, \"cmd\": \"ATTR_SET_SERVICE\"}''" "''t''"]
    unfolding p q by simp
qed

end
