(* ===== verification/Message_Queue.thy ===== *)
theory Message_Queue
  imports Replay_Policy
begin

text \<open>
  \<^verbatim>\<open>message_queue.py\<close>: the durable queue. The SQLite table \<open>pending_messages\<close> is a list of rows in
  row-id order together with the \<open>AUTOINCREMENT\<close> counter; each method is one function on that state
  (the lock makes every method atomic; a failing disk, which the code reports by re-raising
  \<open>sqlite3.Error\<close>, is not modelled). Time is an argument of the operations that read the clock.

  The lemmas show that the table invariant is kept, that the queue implements one bounded FIFO per
  device and direction with latest-wins coalescing, that devices and directions never touch each
  other's rows, and that the schema migration tags every parsable row and deletes none. The locale
  \<open>durable_queue\<close> is the interface the delivery pump relies on.
\<close>

section \<open>State\<close>

record row =
  row_id :: nat
  row_device_id :: "string option"
  row_product_id :: "string option"
  row_direction :: string
  row_topic :: string
  row_payload :: bytes
  row_qos :: int
  row_coalesce_key :: "string option"
  row_max_age_seconds :: "seconds option"
  row_is_live :: bool
  row_created_at :: seconds

record QueuedMessage =
  qm_id :: nat
  qm_topic :: string
  qm_payload :: bytes
  qm_qos :: int
  qm_created_at :: seconds
  qm_max_age_seconds :: "seconds option"
  qm_is_live :: bool

record MessageQueue =
  mq_rows :: "row list"
  mq_next_id :: nat
  mq_max_size :: int

text \<open>\<open>WHERE device_id = ? AND direction = ?\<close>; a NULL device matches nothing.\<close>

definition select_rows :: "MessageQueue \<Rightarrow> device_id \<Rightarrow> string \<Rightarrow> row list" where
  "select_rows q device_id direction =
     filter (\<lambda>r. row_device_id r = Some device_id \<and> row_direction r = direction) (mq_rows q)"

definition order_by_id :: "row list \<Rightarrow> row list" where
  "order_by_id rs = sort_key row_id rs"

definition order_by_live_id :: "row list \<Rightarrow> row list" where
  "order_by_live_id rs = sort_key (\<lambda>r. if row_is_live r then (0::nat) else 1) (order_by_id rs)"

section \<open>Schema migration\<close>

definition CREATE_TABLE_COLUMNS :: "string list" where
  "CREATE_TABLE_COLUMNS = [''id'', ''direction'', ''topic'', ''payload'', ''qos'', ''coalesce_key'',
     ''max_age_seconds'', ''is_live'', ''created_at'']"

type_synonym queue_table = "string list \<times> row list"

definition add_column :: "string \<Rightarrow> (row \<Rightarrow> row) \<Rightarrow> queue_table \<Rightarrow> queue_table" where
  "add_column name init t = (if name \<in> set (fst t) then t else (fst t @ [name], map init (snd t)))"

definition backfill_row :: "row \<Rightarrow> row" where
  "backfill_row r =
     (case row_device_id r of
       Some _ \<Rightarrow> r
     | None \<Rightarrow>
         (case parse_topic (row_topic r) of
           None \<Rightarrow> r
         | Some a \<Rightarrow> r\<lparr>row_device_id := Some (ta_device_id a), row_product_id := Some (ta_product_id a)\<rparr>))"

definition backfill_device_columns :: "row list \<Rightarrow> row list" where
  "backfill_device_columns rs = map backfill_row rs"

definition migrate_schema :: "queue_table \<Rightarrow> queue_table" where
  "migrate_schema t =
     (let existing_columns = set (fst t);
          t1 = add_column ''coalesce_key'' (\<lambda>r. r\<lparr>row_coalesce_key := None\<rparr>) t;
          t2 = add_column ''max_age_seconds'' (\<lambda>r. r\<lparr>row_max_age_seconds := None\<rparr>) t1;
          t3 = add_column ''is_live'' (\<lambda>r. r\<lparr>row_is_live := False\<rparr>) t2
      in if ''device_id'' \<in> existing_columns \<and> ''product_id'' \<in> existing_columns then t3
         else
           let t4 = add_column ''device_id'' (\<lambda>r. r\<lparr>row_device_id := None\<rparr>) t3;
               t5 = add_column ''product_id'' (\<lambda>r. r\<lparr>row_product_id := None\<rparr>) t4
           in (fst t5, backfill_device_columns (snd t5)))"

text \<open>
  The constructor: an absent table is created with the columns of \<open>CREATE TABLE\<close>, an existing one is
  taken as it is, and either is then migrated. The row counter is SQLite's own.
\<close>

definition open_queue :: "queue_table option \<Rightarrow> nat \<Rightarrow> int \<Rightarrow> MessageQueue" where
  "open_queue db sequence max_size_per_direction =
     (let t = (case db of None \<Rightarrow> (CREATE_TABLE_COLUMNS, []) | Some t \<Rightarrow> t)
      in \<lparr>mq_rows = snd (migrate_schema t), mq_next_id = sequence, mq_max_size = max_size_per_direction\<rparr>)"

section \<open>Operations\<close>

definition count :: "MessageQueue \<Rightarrow> device_id \<Rightarrow> string \<Rightarrow> nat" where
  "count q device_id direction = length (select_rows q device_id direction)"

definition enforce_size_limit :: "device_id \<Rightarrow> string \<Rightarrow> MessageQueue \<Rightarrow> MessageQueue" where
  "enforce_size_limit device_id direction q =
     (let current_size = int (count q device_id direction);
          overflow = current_size - mq_max_size q
      in if overflow > 0 then
           let dropped = map row_id (take (nat overflow) (order_by_id (select_rows q device_id direction)))
           in q\<lparr>mq_rows := filter (\<lambda>r. row_id r \<notin> set dropped) (mq_rows q)\<rparr>
         else q)"

text \<open>The rows an insertion with this key discards first.\<close>

definition superseded :: "device_id \<Rightarrow> string \<Rightarrow> string option \<Rightarrow> row \<Rightarrow> bool" where
  "superseded device_id direction key r \<longleftrightarrow>
     key \<noteq> None \<and> row_device_id r = Some device_id \<and> row_direction r = direction \<and> row_coalesce_key r = key"

definition sql_now :: "seconds \<Rightarrow> seconds" where
  \<comment> \<open>\<open>strftime('%s', 'now')\<close>: whole seconds\<close>
  "sql_now now = of_int \<lfloor>now\<rfloor>"

definition new_row :: "nat \<Rightarrow> seconds \<Rightarrow> device_id \<Rightarrow> string \<Rightarrow> string \<Rightarrow> bytes \<Rightarrow> int \<Rightarrow> string option
    \<Rightarrow> string \<Rightarrow> seconds option \<Rightarrow> bool \<Rightarrow> row" where
  "new_row i now device_id direction topic payload qos key product_id max_age live =
     \<lparr>row_id = i, row_device_id = Some device_id, row_product_id = Some product_id,
      row_direction = direction, row_topic = topic, row_payload = payload, row_qos = qos,
      row_coalesce_key = key, row_max_age_seconds = max_age, row_is_live = live,
      row_created_at = sql_now now\<rparr>"

definition enqueue :: "seconds \<Rightarrow> device_id \<Rightarrow> string \<Rightarrow> string \<Rightarrow> bytes \<Rightarrow> int \<Rightarrow> string option
    \<Rightarrow> string \<Rightarrow> seconds option \<Rightarrow> bool \<Rightarrow> MessageQueue \<Rightarrow> nat \<times> MessageQueue" where
  "enqueue now device_id direction topic payload qos key product_id max_age live q =
     (let superseded_count = length (filter (superseded device_id direction key) (mq_rows q));
          kept = filter (\<lambda>r. \<not> superseded device_id direction key r) (mq_rows q);
          r = new_row (mq_next_id q) now device_id direction topic payload qos key product_id max_age live;
          q1 = q\<lparr>mq_rows := kept @ [r], mq_next_id := Suc (mq_next_id q)\<rparr>
      in (superseded_count, enforce_size_limit device_id direction q1))"

definition queued_message :: "row \<Rightarrow> QueuedMessage" where
  "queued_message r =
     \<lparr>qm_id = row_id r, qm_topic = row_topic r, qm_payload = row_payload r, qm_qos = row_qos r,
      qm_created_at = row_created_at r, qm_max_age_seconds = row_max_age_seconds r,
      qm_is_live = row_is_live r\<rparr>"

definition peek_oldest :: "MessageQueue \<Rightarrow> device_id \<Rightarrow> string \<Rightarrow> bool \<Rightarrow> QueuedMessage option" where
  "peek_oldest q device_id direction prioritize_live =
     (let rs = select_rows q device_id direction;
          ordered = (if prioritize_live then order_by_live_id rs else order_by_id rs)
      in (case ordered of [] \<Rightarrow> None | r # _ \<Rightarrow> Some (queued_message r)))"

definition remove :: "nat \<Rightarrow> MessageQueue \<Rightarrow> MessageQueue" where
  "remove message_id q = q\<lparr>mq_rows := filter (\<lambda>r. row_id r \<noteq> message_id) (mq_rows q)\<rparr>"

definition backlog_count :: "MessageQueue \<Rightarrow> device_id \<Rightarrow> string \<Rightarrow> nat" where
  "backlog_count q device_id direction =
     length (filter (\<lambda>r. \<not> row_is_live r) (select_rows q device_id direction))"

definition demotes :: "device_id \<Rightarrow> string \<Rightarrow> row \<Rightarrow> bool" where
  "demotes device_id direction r \<longleftrightarrow>
     row_device_id r = Some device_id \<and> row_direction r = direction \<and> row_is_live r"

definition demote_live_messages :: "device_id \<Rightarrow> string \<Rightarrow> MessageQueue \<Rightarrow> nat \<times> MessageQueue" where
  "demote_live_messages device_id direction q =
     (length (filter (demotes device_id direction) (mq_rows q)),
      q\<lparr>mq_rows := map (\<lambda>r. if demotes device_id direction r then r\<lparr>row_is_live := False\<rparr> else r) (mq_rows q)\<rparr>)"

definition depth_by_device :: "MessageQueue \<Rightarrow> (string, nat) dict" where
  "depth_by_device q =
     map (\<lambda>d. (d, length (filter (\<lambda>r. row_device_id r = Some d) (mq_rows q))))
       (sort (remdups (List.map_filter row_device_id (mq_rows q))))"

definition unroutable_count :: "MessageQueue \<Rightarrow> nat" where
  "unroutable_count q = length (filter (\<lambda>r. row_device_id r = None) (mq_rows q))"

section \<open>The dashboard's view\<close>

record SnapshotMessage =
  sm_id :: nat
  sm_topic :: string
  sm_cmd :: "string option"
  sm_qos :: int
  sm_created_at :: seconds
  sm_age_seconds :: seconds
  sm_replay_policy :: string
  sm_payload :: json

record QueueSnapshot =
  qs_device_id :: string
  qs_direction :: string
  qs_pending :: nat
  qs_oldest_age_seconds :: "seconds option"
  qs_newest_age_seconds :: "seconds option"
  qs_messages :: "SnapshotMessage list"

definition decode_payload :: "bytes \<Rightarrow> json" where
  "decode_payload payload =
     (case json_loads payload of Some v \<Rightarrow> v | None \<Rightarrow> JStr (decode_replace payload))"

definition py_int :: "seconds \<Rightarrow> int" where
  \<comment> \<open>\<open>int(x)\<close> truncates towards zero\<close>
  "py_int x = (if 0 \<le> x then \<lfloor>x\<rfloor> else \<lceil>x\<rceil>)"

definition snapshot_message :: "seconds \<Rightarrow> string \<Rightarrow> row \<Rightarrow> SnapshotMessage" where
  "snapshot_message now direction r =
     (let command = extract_command (row_payload r);
          policy = policy_for (direction = ''upstream-to-local'') command;
          policy_name = (if coalesce policy then ''LATEST_WINS''
            else (case row_max_age_seconds r of
              None \<Rightarrow> ''FIFO''
            | Some m \<Rightarrow> ''TTL_'' @ show_int (py_int m) @ ''S''))
      in \<lparr>sm_id = row_id r, sm_topic = row_topic r, sm_cmd = command, sm_qos = row_qos r,
          sm_created_at = row_created_at r, sm_age_seconds = now - row_created_at r,
          sm_replay_policy = policy_name, sm_payload = decode_payload (row_payload r)\<rparr>)"

definition snapshot :: "seconds \<Rightarrow> MessageQueue \<Rightarrow> device_id \<Rightarrow> string \<Rightarrow> int \<Rightarrow> QueueSnapshot" where
  "snapshot now q device_id direction limit =
     (let safe_limit = max 1 (min limit 500);
          rs = select_rows q device_id direction;
          rows = take (nat safe_limit) (order_by_id rs);
          created = map row_created_at rs
      in \<lparr>qs_device_id = device_id, qs_direction = direction, qs_pending = length rs,
          qs_oldest_age_seconds = (if rs = [] then None else Some (now - Min (set created))),
          qs_newest_age_seconds = (if rs = [] then None else Some (now - Max (set created))),
          qs_messages = map (snapshot_message now direction) rows\<rparr>)"

section \<open>The table invariant\<close>

text \<open>Row ids ascend and lie below the \<open>AUTOINCREMENT\<close> counter, so they are never reused.\<close>

definition queue_inv :: "MessageQueue \<Rightarrow> bool" where
  "queue_inv q \<longleftrightarrow> sorted_wrt (<) (map row_id (mq_rows q)) \<and> (\<forall>r\<in>set (mq_rows q). row_id r < mq_next_id q)"

lemma sorted_wrt_less_distinct: "sorted_wrt (<) (map row_id rs) \<Longrightarrow> distinct (map row_id rs)"
  by (induction rs) auto

lemma order_by_id_sorted: "sorted_wrt (<) (map row_id rs) \<Longrightarrow> order_by_id rs = rs"
  unfolding order_by_id_def
  by (rule sort_key_id_if_sorted) (simp add: strict_sorted_iff flip: strict_sorted_simps)

lemma sorted_wrt_map_filter: "sorted_wrt R (map f rs) \<Longrightarrow> sorted_wrt R (map f (filter P rs))"
  by (induction rs) auto

lemma select_rows_sorted: "queue_inv q \<Longrightarrow> sorted_wrt (<) (map row_id (select_rows q d dir))"
  by (simp add: queue_inv_def select_rows_def sorted_wrt_map_filter)

lemma order_select [simp]: "queue_inv q \<Longrightarrow> order_by_id (select_rows q d dir) = select_rows q d dir"
  by (simp add: order_by_id_sorted select_rows_sorted)

lemma queue_inv_filter: "queue_inv q \<Longrightarrow> queue_inv (q\<lparr>mq_rows := filter P (mq_rows q)\<rparr>)"
  by (auto simp: queue_inv_def sorted_wrt_map_filter)

lemma queue_inv_enforce: "queue_inv q \<Longrightarrow> queue_inv (enforce_size_limit d dir q)"
  by (simp add: enforce_size_limit_def Let_def queue_inv_filter)

lemma queue_inv_append:
  assumes "queue_inv q"
  shows "queue_inv (q\<lparr>mq_rows := filter P (mq_rows q) @ [new_row (mq_next_id q) a b c d e f g h i j],
    mq_next_id := Suc (mq_next_id q)\<rparr>)"
  using assms by (auto simp: queue_inv_def new_row_def sorted_wrt_append sorted_wrt_map_filter)

lemma queue_inv_enqueue:
  "queue_inv q \<Longrightarrow> queue_inv (snd (enqueue now d dir t p qos key prd age live q))"
  by (simp add: enqueue_def Let_def queue_inv_enforce queue_inv_append)

lemma queue_inv_remove: "queue_inv q \<Longrightarrow> queue_inv (remove i q)"
  by (simp add: remove_def queue_inv_filter)

lemma queue_inv_demote: "queue_inv q \<Longrightarrow> queue_inv (snd (demote_live_messages d dir q))"
  by (auto simp: queue_inv_def demote_live_messages_def comp_def if_distrib cong: if_cong)

section \<open>One FIFO per device and direction\<close>

lemma filter_not_taken: "distinct (map f xs) \<Longrightarrow>
    filter (\<lambda>x. f x \<notin> set (map f (take n xs))) xs = drop n xs"
proof (induction xs arbitrary: n)
  case (Cons x xs)
  show ?case
  proof (cases n)
    case (Suc m)
    have "filter (\<lambda>y. f y \<notin> set (map f (take n (x # xs)))) xs =
        filter (\<lambda>y. f y \<notin> set (map f (take m xs))) xs"
      using Cons.prems Suc by (intro filter_cong) (auto simp: image_iff)
    with Cons Suc show ?thesis by simp
  qed simp
qed simp

lemma select_filter: "select_rows (q\<lparr>mq_rows := filter P (mq_rows q)\<rparr>) d dir = filter P (select_rows q d dir)"
  by (simp add: select_rows_def conj_commute)

lemma select_enforce_same:
  assumes "queue_inv q"
  shows "select_rows (enforce_size_limit d dir q) d dir =
    drop (nat (int (count q d dir) - mq_max_size q)) (select_rows q d dir)"
proof -
  have "distinct (map row_id (select_rows q d dir))"
    using assms by (intro sorted_wrt_less_distinct select_rows_sorted)
  from filter_not_taken [OF this] assms show ?thesis
    by (simp add: enforce_size_limit_def Let_def select_filter)
qed

lemma row_id_unique:
  "queue_inv q \<Longrightarrow> r \<in> set (mq_rows q) \<Longrightarrow> r' \<in> set (mq_rows q) \<Longrightarrow> row_id r = row_id r' \<Longrightarrow> r = r'"
  using sorted_wrt_less_distinct [of "mq_rows q"] by (auto simp: queue_inv_def distinct_map inj_on_def)

lemma select_disjoint:
  assumes "queue_inv q" "(d, dir) \<noteq> (d', dir')" "r \<in> set (select_rows q d dir)"
    "r' \<in> set (select_rows q d' dir')"
  shows "row_id r \<noteq> row_id r'"
  using assms row_id_unique [of q r r'] by (auto simp: select_rows_def)

lemma select_enforce_other:
  assumes "queue_inv q" "(d', dir') \<noteq> (d, dir)"
  shows "select_rows (enforce_size_limit d dir q) d' dir' = select_rows q d' dir'"
proof -
  let ?dropped = "take (nat (int (count q d dir) - mq_max_size q)) (select_rows q d dir)"
  have "row_id r \<notin> set (map row_id ?dropped)" if "r \<in> set (select_rows q d' dir')" for r
    using select_disjoint [OF assms that] by (auto dest: in_set_takeD)
  then have "filter (\<lambda>r. row_id r \<notin> set (map row_id ?dropped)) (select_rows q d' dir') = select_rows q d' dir'"
    by simp
  with assms(1) show ?thesis
    by (simp add: enforce_size_limit_def Let_def select_filter)
qed

text \<open>What an insertion makes of its own queue before the cap is applied.\<close>

definition coalesced :: "string option \<Rightarrow> row list \<Rightarrow> row list" where
  "coalesced key rs = filter (\<lambda>r. key = None \<or> row_coalesce_key r \<noteq> key) rs"

definition capped :: "int \<Rightarrow> row list \<Rightarrow> row list" where
  "capped m rs = drop (nat (int (length rs) - m)) rs"

lemma length_capped: "0 \<le> m \<Longrightarrow> int (length (capped m rs)) \<le> m"
  by (simp add: capped_def)

lemma select_enqueue_same:
  assumes "queue_inv q"
  shows "select_rows (snd (enqueue now d dir t p qos key prd age live q)) d dir =
    capped (mq_max_size q) (coalesced key (select_rows q d dir) @
      [new_row (mq_next_id q) now d dir t p qos key prd age live])"
proof -
  let ?r = "new_row (mq_next_id q) now d dir t p qos key prd age live"
  let ?q1 = "q\<lparr>mq_rows := filter (\<lambda>r. \<not> superseded d dir key r) (mq_rows q) @ [?r],
    mq_next_id := Suc (mq_next_id q)\<rparr>"
  have v: "select_rows ?q1 d dir = coalesced key (select_rows q d dir) @ [?r]"
    by (auto simp: select_rows_def coalesced_def superseded_def new_row_def intro!: filter_cong)
  have "queue_inv ?q1" by (rule queue_inv_append [OF assms])
  from select_enforce_same [OF this, of d dir] v show ?thesis
    by (simp add: enqueue_def Let_def capped_def count_def)
qed

lemma select_enqueue_other [isolation]:
  assumes "queue_inv q" "(d', dir') \<noteq> (d, dir)"
  shows "select_rows (snd (enqueue now d dir t p qos key prd age live q)) d' dir' = select_rows q d' dir'"
proof -
  let ?r = "new_row (mq_next_id q) now d dir t p qos key prd age live"
  let ?q1 = "q\<lparr>mq_rows := filter (\<lambda>r. \<not> superseded d dir key r) (mq_rows q) @ [?r],
    mq_next_id := Suc (mq_next_id q)\<rparr>"
  have "select_rows ?q1 d' dir' = select_rows q d' dir'"
    using assms(2) by (auto simp: select_rows_def superseded_def new_row_def intro!: filter_cong)
  with select_enforce_other [OF queue_inv_append [OF assms(1)] assms(2)] show ?thesis
    by (simp add: enqueue_def Let_def)
qed

lemma select_remove: "select_rows (remove i q) d dir = filter (\<lambda>r. row_id r \<noteq> i) (select_rows q d dir)"
  by (simp add: remove_def select_filter)

lemma select_demote_same:
  "select_rows (snd (demote_live_messages d dir q)) d dir =
    map (\<lambda>r. r\<lparr>row_is_live := False\<rparr>) (select_rows q d dir)"
proof -
  have "filter (\<lambda>r. row_device_id r = Some d \<and> row_direction r = dir)
      (map (\<lambda>r. if demotes d dir r then r\<lparr>row_is_live := False\<rparr> else r) rs) =
    map (\<lambda>r. r\<lparr>row_is_live := False\<rparr>) (filter (\<lambda>r. row_device_id r = Some d \<and> row_direction r = dir) rs)" for rs
    by (induction rs) (auto simp: demotes_def)
  then show ?thesis by (simp add: select_rows_def demote_live_messages_def)
qed

lemma select_demote_other [isolation]:
  "(d', dir') \<noteq> (d, dir) \<Longrightarrow>
    select_rows (snd (demote_live_messages d dir q)) d' dir' = select_rows q d' dir'"
  unfolding select_rows_def demote_live_messages_def
  by (auto simp: demotes_def intro!: filter_replace_irrelevant split: if_splits)

lemma order_by_live_id_eq:
  assumes "sorted_wrt (<) (map row_id rs)"
  shows "order_by_live_id rs = filter row_is_live rs @ filter (\<lambda>r. \<not> row_is_live r) rs"
proof -
  have "sort_key (\<lambda>r. if row_is_live r then (0::nat) else 1) rs =
      filter row_is_live rs @ filter (\<lambda>r. \<not> row_is_live r) rs" for rs
  proof (induction rs)
    case (Cons r rs)
    then show ?case
    proof (cases "row_is_live r")
      case True
      then show ?thesis using Cons by (simp add: insort_is_Cons)
    next
      case False
      have "insort_key (\<lambda>r. if row_is_live r then (0::nat) else 1) r (xs @ ys) = xs @ r # ys"
        if "\<forall>x\<in>set xs. row_is_live x" "\<forall>y\<in>set ys. \<not> row_is_live y" for xs ys
        using that False by (induction xs) (cases ys; auto)+
      with Cons False show ?thesis by simp
    qed
  qed simp
  with assms show ?thesis by (simp add: order_by_live_id_def order_by_id_sorted)
qed

lemma peek_oldest_eq:
  assumes "queue_inv q"
  shows "peek_oldest q d dir prio =
    (let rs = select_rows q d dir;
         ordered = (if prio then filter row_is_live rs @ filter (\<lambda>r. \<not> row_is_live r) rs else rs)
     in if ordered = [] then None else Some (queued_message (hd ordered)))"
proof -
  have *: "(case xs of [] \<Rightarrow> None | r # _ \<Rightarrow> Some (queued_message r)) =
      (if xs = [] then None else Some (queued_message (hd xs)))" for xs
    by (cases xs) simp_all
  show ?thesis
    unfolding peek_oldest_def Let_def *
    by (simp only: order_by_live_id_eq [OF select_rows_sorted [OF assms]] order_select [OF assms])
qed

lemma peek_oldest_None: "queue_inv q \<Longrightarrow> peek_oldest q d dir prio = None \<longleftrightarrow> select_rows q d dir = []"
  by (auto simp: peek_oldest_eq Let_def filter_empty_conv)

lemma peek_oldest_Some:
  assumes "queue_inv q" "peek_oldest q d dir prio = Some m"
  shows "\<exists>r\<in>set (select_rows q d dir). m = queued_message r"
proof -
  let ?rs = "select_rows q d dir"
  define ordered where
    "ordered = (if prio then filter row_is_live ?rs @ filter (\<lambda>r. \<not> row_is_live r) ?rs else ?rs)"
  have sub: "set ordered \<subseteq> set ?rs" by (auto simp: ordered_def)
  have "peek_oldest q d dir prio = (if ordered = [] then None else Some (queued_message (hd ordered)))"
    unfolding peek_oldest_eq [OF assms(1)] Let_def ordered_def ..
  with assms(2) have "ordered \<noteq> []" "m = queued_message (hd ordered)" by (auto split: if_splits)
  with sub show ?thesis by (metis hd_in_set subsetD)
qed


section \<open>The interface the delivery pump relies on\<close>

text \<open>
  A store of keyed queues: \<open>view\<close> is what a key's queue holds in arrival order, \<open>peek\<close> returns the
  next message (live messages first on request) and \<open>discard\<close> deletes one message by its identifier.
\<close>

locale durable_queue =
  fixes inv :: "'q \<Rightarrow> bool"
    and view :: "'q \<Rightarrow> 'k \<Rightarrow> 'm list"
    and ident :: "'m \<Rightarrow> nat"
    and live :: "'m \<Rightarrow> bool"
    and peek :: "'q \<Rightarrow> 'k \<Rightarrow> bool \<Rightarrow> 'm option"
    and discard :: "nat \<Rightarrow> 'q \<Rightarrow> 'q"
  assumes ident_distinct: "inv q \<Longrightarrow> distinct (map ident (view q k))"
    and ident_disjoint: "inv q \<Longrightarrow> k \<noteq> k' \<Longrightarrow> m \<in> set (view q k) \<Longrightarrow> m' \<in> set (view q k') \<Longrightarrow> ident m \<noteq> ident m'"
    and inv_discard: "inv q \<Longrightarrow> inv (discard i q)"
    and view_discard: "inv q \<Longrightarrow> view (discard i q) k = filter (\<lambda>m. ident m \<noteq> i) (view q k)"
    and peek_first: "inv q \<Longrightarrow> peek q k prio =
      (let ms = view q k; ordered = (if prio then filter live ms @ filter (\<lambda>m. \<not> live m) ms else ms)
       in if ordered = [] then None else Some (hd ordered))"
begin

definition delivery_order :: "bool \<Rightarrow> 'm list \<Rightarrow> 'm list" where
  "delivery_order prio ms = (if prio then filter live ms @ filter (\<lambda>m. \<not> live m) ms else ms)"

lemma set_delivery_order [simp]: "set (delivery_order prio ms) = set ms"
  by (auto simp: delivery_order_def)

lemma delivery_order_Nil_iff [simp]: "delivery_order prio ms = [] \<longleftrightarrow> ms = []"
  using set_delivery_order [of prio ms] by (metis set_empty)

lemma length_delivery_order [simp]: "length (delivery_order prio ms) = length ms"
  by (simp add: delivery_order_def sum_length_filter_compl)

lemma peek_hd: "inv q \<Longrightarrow> peek q k prio = (if view q k = [] then None else Some (hd (delivery_order prio (view q k))))"
  by (simp only: peek_first Let_def delivery_order_def [symmetric] delivery_order_Nil_iff)

lemma peek_None_iff: "inv q \<Longrightarrow> peek q k prio = None \<longleftrightarrow> view q k = []"
  by (simp add: peek_hd)

lemma peek_mem: "inv q \<Longrightarrow> peek q k prio = Some m \<Longrightarrow> m \<in> set (view q k)"
  by (metis delivery_order_Nil_iff hd_in_set option.distinct(1) option.inject peek_hd set_delivery_order)

lemma discard_other [isolation]:
  assumes "inv q" "m \<in> set (view q k)" "k' \<noteq> k"
  shows "view (discard (ident m) q) k' = view q k'"
proof -
  have "ident m' \<noteq> ident m" if "m' \<in> set (view q k')" for m'
    using ident_disjoint [OF assms(1) assms(3) that assms(2)] .
  with assms show ?thesis by (auto simp: view_discard)
qed

lemma delivery_order_filter: "delivery_order prio (filter P ms) = filter P (delivery_order prio ms)"
  by (simp add: delivery_order_def conj_commute)

lemma distinct_delivery_order: "distinct (map ident ms) \<Longrightarrow> distinct (map ident (delivery_order prio ms))"
  by (auto simp: delivery_order_def distinct_map inj_on_def)

lemma discard_peeked:
  assumes "inv q" "peek q k prio = Some m"
  shows "delivery_order prio (view q k) = m # delivery_order prio (view (discard (ident m) q) k)"
proof -
  obtain ms where o: "delivery_order prio (view q k) = m # ms"
    using assms by (cases "delivery_order prio (view q k)") (auto simp: peek_hd split: if_splits)
  with ident_distinct [OF assms(1), of k] distinct_delivery_order [of "view q k" prio]
  have "\<forall>m'\<in>set ms. ident m' \<noteq> ident m" by (auto simp: image_iff)
  with o assms(1) show ?thesis by (simp add: view_discard delivery_order_filter)
qed

lemma discard_peeked_length:
  "inv q \<Longrightarrow> peek q k prio = Some m \<Longrightarrow> length (view q k) = Suc (length (view (discard (ident m) q) k))"
  using discard_peeked [of q k prio m] by (metis length_Cons length_delivery_order)

text \<open>Taking the next message until the queue is empty, at most \<open>n\<close> times.\<close>

primrec drain :: "nat \<Rightarrow> 'q \<Rightarrow> 'k \<Rightarrow> bool \<Rightarrow> 'm list" where
  "drain 0 q k prio = []"
| "drain (Suc n) q k prio =
     (case peek q k prio of None \<Rightarrow> [] | Some m \<Rightarrow> m # drain n (discard (ident m) q) k prio)"

lemma drain_all:
  "inv q \<Longrightarrow> length (view q k) \<le> n \<Longrightarrow> drain n q k prio = delivery_order prio (view q k)"
proof (induction n arbitrary: q)
  case (Suc n)
  show ?case
  proof (cases "peek q k prio")
    case None
    with peek_None_iff [OF Suc.prems(1)] have "view q k = []" by simp
    with None show ?thesis by (simp add: delivery_order_def)
  next
    case (Some m)
    with Suc discard_peeked_length [OF Suc.prems(1) Some] discard_peeked [OF Suc.prems(1) Some]
    show ?thesis by (simp add: inv_discard)
  qed
qed (simp add: delivery_order_def)

end

text \<open>The queue of one device and direction, as the pump sees it.\<close>

definition queue_view :: "MessageQueue \<Rightarrow> device_id \<times> string \<Rightarrow> QueuedMessage list" where
  "queue_view q k = map queued_message (select_rows q (fst k) (snd k))"

definition queue_peek :: "MessageQueue \<Rightarrow> device_id \<times> string \<Rightarrow> bool \<Rightarrow> QueuedMessage option" where
  "queue_peek q k prio = peek_oldest q (fst k) (snd k) prio"

lemma queued_message_simps [simp]:
  "qm_id (queued_message r) = row_id r" "qm_is_live (queued_message r) = row_is_live r"
  "qm_topic (queued_message r) = row_topic r" "qm_payload (queued_message r) = row_payload r"
  "qm_qos (queued_message r) = row_qos r" "qm_created_at (queued_message r) = row_created_at r"
  "qm_max_age_seconds (queued_message r) = row_max_age_seconds r"
  by (simp_all add: queued_message_def)

lemma queue_view_distinct: "queue_inv q \<Longrightarrow> distinct (map qm_id (queue_view q k))"
  using sorted_wrt_less_distinct [OF select_rows_sorted] by (simp add: queue_view_def comp_def)

lemma queue_view_disjoint:
  "queue_inv q \<Longrightarrow> k \<noteq> k' \<Longrightarrow> m \<in> set (queue_view q k) \<Longrightarrow> m' \<in> set (queue_view q k') \<Longrightarrow> qm_id m \<noteq> qm_id m'"
  using select_disjoint [of q "fst k" "snd k" "fst k'" "snd k'"] by (auto simp: queue_view_def)

lemma queue_peek_first:
  assumes "queue_inv q"
  shows "queue_peek q k prio =
    (let ms = queue_view q k;
         ordered = (if prio then filter qm_is_live ms @ filter (\<lambda>m. \<not> qm_is_live m) ms else ms)
     in if ordered = [] then None else Some (hd ordered))"
proof -
  let ?rs = "select_rows q (fst k) (snd k)"
  let ?o = "if prio then filter row_is_live ?rs @ filter (\<lambda>r. \<not> row_is_live r) ?rs else ?rs"
  have "(if prio then filter qm_is_live (queue_view q k) @ filter (\<lambda>m. \<not> qm_is_live m) (queue_view q k)
      else queue_view q k) = map queued_message ?o"
    by (simp add: queue_view_def filter_map comp_def)
  then have "(let ms = queue_view q k;
      ordered = (if prio then filter qm_is_live ms @ filter (\<lambda>m. \<not> qm_is_live m) ms else ms)
     in if ordered = [] then None else Some (hd ordered)) =
    (if map queued_message ?o = [] then None else Some (hd (map queued_message ?o)))"
    unfolding Let_def by (rule arg_cong)
  moreover have "(if map queued_message xs = [] then None else Some (hd (map queued_message xs))) =
      (if xs = [] then None else Some (queued_message (hd xs)))" for xs
    by (cases xs) simp_all
  ultimately show ?thesis
    by (simp only: queue_peek_def peek_oldest_eq [OF assms] Let_def)
qed

interpretation mq: durable_queue queue_inv queue_view qm_id qm_is_live queue_peek remove
proof unfold_locales
  show "queue_view (remove i q) k = filter (\<lambda>m. qm_id m \<noteq> i) (queue_view q k)" for q k i
    by (simp add: queue_view_def select_remove filter_map comp_def)
qed (simp_all add: queue_view_distinct queue_view_disjoint queue_inv_remove queue_peek_first)

section \<open>The abstract queue store\<close>

text \<open>
  What the class promises, without row identifiers and SQL: a function from device and direction to
  the pending rows, oldest first.
\<close>

type_synonym queue_store = "device_id \<times> string \<Rightarrow> row list"

definition abs_store :: "MessageQueue \<Rightarrow> queue_store" where
  "abs_store q = (\<lambda>(d, dir). select_rows q d dir)"

definition store_push :: "int \<Rightarrow> row \<Rightarrow> device_id \<times> string \<Rightarrow> queue_store \<Rightarrow> queue_store" where
  "store_push m r k s = s(k := capped m (coalesced (row_coalesce_key r) (s k) @ [r]))"

definition store_discard :: "nat \<Rightarrow> queue_store \<Rightarrow> queue_store" where
  "store_discard i s = (\<lambda>k. filter (\<lambda>r. row_id r \<noteq> i) (s k))"

definition store_demote :: "device_id \<times> string \<Rightarrow> queue_store \<Rightarrow> queue_store" where
  "store_demote k s = s(k := map (\<lambda>r. r\<lparr>row_is_live := False\<rparr>) (s k))"

lemma abs_enqueue:
  assumes "queue_inv q"
  shows "abs_store (snd (enqueue now d dir t p qos key prd age live q)) =
    store_push (mq_max_size q) (new_row (mq_next_id q) now d dir t p qos key prd age live) (d, dir) (abs_store q)"
  using select_enqueue_same [OF assms] select_enqueue_other [OF assms]
  by (auto simp: abs_store_def store_push_def fun_eq_iff new_row_def)

lemma abs_remove: "abs_store (remove i q) = store_discard i (abs_store q)"
  by (auto simp: abs_store_def store_discard_def select_remove)

lemma abs_demote: "abs_store (snd (demote_live_messages d dir q)) = store_demote (d, dir) (abs_store q)"
  by (auto simp: abs_store_def store_demote_def select_demote_same select_demote_other fun_eq_iff)

section \<open>Runs of the queue\<close>

datatype queue_op =
  Enqueue seconds device_id string string bytes int "string option" string "seconds option" bool
| Remove nat
| Demote device_id string

fun queue_step :: "queue_op \<Rightarrow> MessageQueue \<Rightarrow> MessageQueue" where
  "queue_step (Enqueue now d dir t p qos key prd age live) q = snd (enqueue now d dir t p qos key prd age live q)"
| "queue_step (Remove i) q = remove i q"
| "queue_step (Demote d dir) q = snd (demote_live_messages d dir q)"

definition queue_run :: "queue_op list \<Rightarrow> MessageQueue \<Rightarrow> MessageQueue" where
  "queue_run ops q = fold queue_step ops q"

definition queue_bounded :: "MessageQueue \<Rightarrow> bool" where
  "queue_bounded q \<longleftrightarrow> (\<forall>d dir. int (count q d dir) \<le> mq_max_size q)"

lemma max_size_step [simp]: "mq_max_size (queue_step x q) = mq_max_size q"
  by (cases x) (simp_all add: enqueue_def enforce_size_limit_def Let_def remove_def demote_live_messages_def)

lemma queue_inv_step: "queue_inv q \<Longrightarrow> queue_inv (queue_step x q)"
  by (cases x) (simp_all add: queue_inv_enqueue queue_inv_remove queue_inv_demote)

lemma queue_bounded_enqueue:
  assumes "queue_inv q" "queue_bounded q" "0 \<le> mq_max_size q"
  shows "queue_bounded (snd (enqueue now d dir t p qos key prd age live q))" (is "queue_bounded ?q'")
proof -
  have "mq_max_size ?q' = mq_max_size q"
    using max_size_step [of "Enqueue now d dir t p qos key prd age live" q] by simp
  moreover have "int (count ?q' d' dir') \<le> mq_max_size q" for d' dir'
    using assms select_enqueue_same [OF assms(1)] select_enqueue_other [OF assms(1)]
    by (cases "(d', dir') = (d, dir)") (auto simp: count_def length_capped queue_bounded_def)
  ultimately show ?thesis by (simp add: queue_bounded_def)
qed

lemma queue_bounded_step:
  assumes "queue_inv q" "queue_bounded q" "0 \<le> mq_max_size q"
  shows "queue_bounded (queue_step x q)"
proof (cases x)
  case Enqueue
  with queue_bounded_enqueue [OF assms] show ?thesis by simp
next
  case (Remove i)
  have "count (remove i q) d dir \<le> count q d dir" for d dir
    by (simp add: count_def select_remove)
  with assms Remove show ?thesis
    by (simp add: queue_bounded_def) (metis of_nat_mono order_trans max_size_step queue_step.simps(2))
next
  case (Demote d dir)
  have "count (snd (demote_live_messages d dir q)) d' dir' = count q d' dir'" for d' dir'
    by (cases "(d', dir') = (d, dir)") (auto simp: count_def select_demote_same select_demote_other)
  with assms Demote show ?thesis by (simp add: queue_bounded_def demote_live_messages_def)
qed

lemma queue_run_inv:
  "queue_inv q \<Longrightarrow> queue_bounded q \<Longrightarrow> 0 \<le> mq_max_size q \<Longrightarrow>
    queue_inv (queue_run ops q) \<and> queue_bounded (queue_run ops q) \<and> mq_max_size (queue_run ops q) = mq_max_size q"
  unfolding queue_run_def
  by (induction ops arbitrary: q) (simp_all add: queue_inv_step queue_bounded_step)

lemma fresh_queue:
  "queue_inv (open_queue None n m)" "mq_max_size (open_queue db n m) = m"
  "0 \<le> m \<Longrightarrow> queue_bounded (open_queue None n m)"
  by (simp_all add: open_queue_def queue_inv_def queue_bounded_def migrate_schema_def add_column_def
      CREATE_TABLE_COLUMNS_def backfill_device_columns_def count_def select_rows_def Let_def)

section \<open>Migration\<close>

lemma backfill_row_keeps:
  "row_id (backfill_row r) = row_id r" "row_topic (backfill_row r) = row_topic r"
  "row_payload (backfill_row r) = row_payload r" "row_direction (backfill_row r) = row_direction r"
  "row_created_at (backfill_row r) = row_created_at r" "row_qos (backfill_row r) = row_qos r"
  by (simp_all add: backfill_row_def split: option.splits)

text \<open>The columns every schema version has, which no migration may change.\<close>

definition message_of :: "row \<Rightarrow> nat \<times> string \<times> string \<times> bytes \<times> int \<times> seconds" where
  "message_of r = (row_id r, row_direction r, row_topic r, row_payload r, row_qos r, row_created_at r)"

lemma add_column_message: "(\<And>r. message_of (f r) = message_of r) \<Longrightarrow>
    map message_of (snd (add_column c f t)) = map message_of (snd t)"
  by (simp add: add_column_def comp_def)

lemma backfill_message: "message_of (backfill_row r) = message_of r"
  by (simp add: message_of_def backfill_row_keeps)

lemma update_message [simp]:
  "message_of (r\<lparr>row_coalesce_key := a\<rparr>) = message_of r" "message_of (r\<lparr>row_max_age_seconds := b\<rparr>) = message_of r"
  "message_of (r\<lparr>row_is_live := c\<rparr>) = message_of r" "message_of (r\<lparr>row_device_id := d\<rparr>) = message_of r"
  "message_of (r\<lparr>row_product_id := e\<rparr>) = message_of r"
  by (simp_all add: message_of_def)

lemma migrate_keeps_messages: "map message_of (snd (migrate_schema t)) = map message_of (snd t)"
  by (simp add: migrate_schema_def Let_def backfill_device_columns_def add_column_message comp_def backfill_message)

lemma add_column_columns: "set (fst (add_column c f t)) = insert c (set (fst t))"
  by (auto simp: add_column_def)

lemma migrate_columns:
  "set (fst (migrate_schema t)) =
    set (fst t) \<union> {''coalesce_key'', ''max_age_seconds'', ''is_live'', ''device_id'', ''product_id''}"
  by (auto simp: migrate_schema_def Let_def add_column_columns)

lemma migrate_id:
  "{''coalesce_key'', ''max_age_seconds'', ''is_live'', ''device_id'', ''product_id''} \<subseteq> set (fst t) \<Longrightarrow>
    migrate_schema t = t"
  by (simp add: migrate_schema_def add_column_def Let_def)

lemma migrate_idem: "migrate_schema (migrate_schema t) = migrate_schema t"
  by (rule migrate_id) (simp add: migrate_columns)

lemma add_device_column: "''device_id'' \<notin> set (fst t) \<Longrightarrow>
    r \<in> set (snd (add_column ''device_id'' (\<lambda>r. r\<lparr>row_device_id := None\<rparr>) t)) \<Longrightarrow> row_device_id r = None"
  by (auto simp: add_column_def)

lemma add_column_device: "(\<And>r. row_device_id (f r) = row_device_id r) \<Longrightarrow>
    (\<And>r. r \<in> set (snd t) \<Longrightarrow> row_device_id r = None) \<Longrightarrow> r \<in> set (snd (add_column c f t)) \<Longrightarrow> row_device_id r = None"
  by (auto simp: add_column_def split: if_splits)

lemma backfill_untagged: "row_device_id r = None \<Longrightarrow>
    row_device_id (backfill_row r) = map_option ta_device_id (parse_topic (row_topic (backfill_row r)))"
  by (auto simp: backfill_row_def split: option.splits)

lemma migrate_tags:
  assumes "''device_id'' \<notin> set (fst t)" "r \<in> set (snd (migrate_schema t))"
  shows "row_device_id r = map_option ta_device_id (parse_topic (row_topic r))"
proof -
  define t3 where "t3 = add_column ''is_live'' (\<lambda>r. r\<lparr>row_is_live := False\<rparr>)
    (add_column ''max_age_seconds'' (\<lambda>r. r\<lparr>row_max_age_seconds := None\<rparr>)
      (add_column ''coalesce_key'' (\<lambda>r. r\<lparr>row_coalesce_key := None\<rparr>) t))"
  define t5 where "t5 = add_column ''product_id'' (\<lambda>r. r\<lparr>row_product_id := None\<rparr>)
    (add_column ''device_id'' (\<lambda>r. r\<lparr>row_device_id := None\<rparr>) t3)"
  have "''device_id'' \<notin> set (fst t3)" using assms(1) by (simp add: t3_def add_column_columns)
  note untagged3 = add_device_column [OF this]
  have untagged: "row_device_id r0 = None" if "r0 \<in> set (snd t5)" for r0
    using that unfolding t5_def by (rule add_column_device [rotated -1]) (simp, rule untagged3)
  have "snd (migrate_schema t) = map backfill_row (snd t5)"
    using assms(1) by (simp add: migrate_schema_def Let_def t3_def t5_def backfill_device_columns_def)
  with assms(2) obtain r0 where "r0 \<in> set (snd t5)" "r = backfill_row r0" by auto
  with untagged show ?thesis by (simp add: backfill_untagged)
qed

section \<open>Properties\<close>

text \<open>A small queue used by the witnesses: cap 2, one device, two rows (one coalesced, one live).\<close>

definition demo_queue :: MessageQueue where
  "demo_queue = queue_run
     [Enqueue 10 ''F1'' ''up'' ''t/a'' ''x'' 1 (Some ''k'') ''P'' None False,
      Enqueue 11 ''F2'' ''up'' ''t/b'' ''y'' 1 None ''P'' (Some 60) False,
      Enqueue 12 ''F1'' ''up'' ''t/c'' ''z'' 0 None ''P'' None True]
     (open_queue None 1 2)"

lemma demo_queue_inv: "queue_inv demo_queue" "mq_max_size demo_queue = 2"
  using queue_run_inv [OF fresh_queue(1,3)] by (simp_all add: demo_queue_def fresh_queue)

text \<open>
  C3: An insertion is exactly the abstract push: on its own device and direction it drops the
  pending rows with the same coalesce key, appends the new row and then drops the oldest rows above
  the cap; every other device and direction is untouched.
\<close>

theorem enqueue_refines_store:
  assumes "queue_inv q"
  shows "abs_store (snd (enqueue now d dir t p qos key prd age live q)) =
    store_push (mq_max_size q) (new_row (mq_next_id q) now d dir t p qos key prd age live) (d, dir) (abs_store q)"
  using assms by (rule abs_enqueue)

theorem enqueue_refines_store_witness:
  "abs_store (snd (enqueue 13 ''F1'' ''up'' ''t/a'' ''w'' 1 (Some ''k'') ''P'' None False demo_queue)) =
    store_push 2 (new_row (mq_next_id demo_queue) 13 ''F1'' ''up'' ''t/a'' ''w'' 1 (Some ''k'') ''P'' None False)
      (''F1'', ''up'') (abs_store demo_queue)"
  using enqueue_refines_store [OF demo_queue_inv(1)] demo_queue_inv(2) by simp

text \<open>
  C12: After any sequence of insertions, deletions and demotions on a fresh database, row ids
  ascend and are unique, and no device and direction holds more rows than the configured cap.
\<close>

theorem queue_run_bounded:
  assumes "0 \<le> m"
  shows "queue_inv (queue_run ops (open_queue None n m)) \<and>
    int (count (queue_run ops (open_queue None n m)) d dir) \<le> m"
  using queue_run_inv [OF fresh_queue(1) fresh_queue(3), OF assms, of n ops] assms
  by (auto simp: queue_bounded_def fresh_queue)

theorem queue_run_bounded_witness:
  "queue_inv (queue_run [Remove 4] (open_queue None 1 2)) \<and>
   int (count (queue_run [Remove 4] (open_queue None 1 2)) ''F1'' ''up'') \<le> 2"
  using queue_run_bounded [of 2] by simp

text \<open>
  C13: Peeking and removing until the queue of one device and direction is empty hands out every
  pending message exactly once: in arrival order, or, when live messages have priority, the live ones
  in arrival order followed by the backlog in arrival order.
\<close>

theorem queue_drains_in_order:
  assumes "queue_inv q" "count q d dir \<le> n"
  shows "mq.drain n q (d, dir) prio =
    (let ms = queue_view q (d, dir)
     in if prio then filter qm_is_live ms @ filter (\<lambda>m. \<not> qm_is_live m) ms else ms)"
  using mq.drain_all [OF assms(1), of "(d, dir)" n prio] assms(2)
  by (simp add: queue_view_def count_def mq.delivery_order_def Let_def)

theorem queue_drains_in_order_witness:
  "mq.drain 5 demo_queue (''F1'', ''up'') True =
    (let ms = queue_view demo_queue (''F1'', ''up'')
     in filter qm_is_live ms @ filter (\<lambda>m. \<not> qm_is_live m) ms)"
proof -
  have "count demo_queue ''F1'' ''up'' \<le> 5" by code_simp
  from queue_drains_in_order [OF demo_queue_inv(1) this, of True] show ?thesis by simp
qed

text \<open>
  The schema migration deletes and alters no message; in a table that had no device column
  every row is assigned to the device its topic names, and to none when the topic does not parse; and
  migrating twice changes nothing more.
\<close>

theorem migration_tags_rows:
  assumes "''device_id'' \<notin> set (fst t)"
  shows "map message_of (snd (migrate_schema t)) = map message_of (snd t) \<and>
    (\<forall>r\<in>set (snd (migrate_schema t)).
       row_device_id r = map_option ta_device_id (parse_topic (row_topic r))) \<and>
    migrate_schema (migrate_schema t) = migrate_schema t"
  using assms by (simp add: migrate_keeps_messages migrate_tags migrate_idem)

theorem migration_tags_rows_witness:
  "let r = new_row 1 5 ''?'' ''up'' ''dl/PLAF203/AF03/device/heart/post'' ''{}'' 1 None ''?'' None False;
       rs = snd (migrate_schema ([''id'', ''direction'', ''topic'', ''payload'', ''qos'', ''created_at''], [r]))
   in map message_of rs = map message_of [r] \<and> (\<forall>x\<in>set rs. row_device_id x = Some ''AF03'')"
proof -
  let ?r = "new_row 1 5 ''?'' ''up'' ''dl/PLAF203/AF03/device/heart/post'' ''{}'' 1 None ''?'' None False"
  let ?t = "([''id'', ''direction'', ''topic'', ''payload'', ''qos'', ''created_at''], [?r])"
  have fresh: "''device_id'' \<notin> set (fst ?t)" by simp
  have one: "map message_of (snd (migrate_schema ?t)) = [message_of ?r]"
    using migration_tags_rows [OF fresh] by simp
  have "row_device_id x = Some ''AF03''" if "x \<in> set (snd (migrate_schema ?t))" for x
  proof -
    from that have "message_of x \<in> set (map message_of (snd (migrate_schema ?t)))" by simp
    then have "row_topic x = ''dl/PLAF203/AF03/device/heart/post''"
      unfolding one by (simp add: message_of_def new_row_def)
    moreover have "map_option ta_device_id (parse_topic ''dl/PLAF203/AF03/device/heart/post'') = Some ''AF03''"
      by code_simp
    ultimately show ?thesis using migration_tags_rows [OF fresh] that by simp
  qed
  with one show ?thesis by simp
qed

end
