(* ===== verification/State_Shadow.thy ===== *)
theory State_Shadow
  imports Json Message_Queue
begin

text \<open>
  \<^verbatim>\<open>state_shadow.py\<close>: what is known about each device, kept apart by owner. Every SQLite table is a
  dictionary from its primary key to the other columns; JSON values are stored as the text \<open>json.dumps\<close>
  writes and read back with \<open>json.loads\<close>. Time is an argument of the writing methods; disk errors and
  integers beyond SQLite's 64 bits are not modelled.

  The lemmas show the read-after-write law of the three key/value tables (one interface, interpreted
  three times), that cloud and local schedule entries never erase each other, that an entry's source
  follows from its plan id in every reachable state, and that the dashboard's raw previews carry no
  identity values at any depth.
\<close>

section \<open>State\<close>

type_synonym kv_table = "(string \<times> string, bytes \<times> seconds) dict"
type_synonym json_dict = "(string, json) dict"

record FeedingPlans =
  fp_plans :: json
  fp_source_msg_id :: "string option"
  fp_updated_at :: seconds

record SchedulePlan =
  sp_plan :: json
  sp_source :: string
  sp_updated_at :: seconds

record CameraUID =
  cu_device_id :: string
  cu_uid :: string
  cu_feeder_ip :: "string option"
  cu_updated_at :: seconds

record StateShadow =
  sh_reported :: kv_table
  sh_desired :: kv_table
  sh_local_confirmed :: kv_table
  sh_feeding_plans :: "(string, bytes \<times> string option \<times> seconds) dict"
  sh_schedule_plans :: "(string \<times> int, bytes \<times> string \<times> seconds) dict"
  sh_raw_messages :: "(string \<times> string, bytes \<times> string option \<times> seconds) dict"
  sh_camera_uids :: "(string, string \<times> string option \<times> seconds) dict"

definition open_shadow :: StateShadow where
  "open_shadow = \<lparr>sh_reported = [], sh_desired = [], sh_local_confirmed = [], sh_feeding_plans = [],
     sh_schedule_plans = [], sh_raw_messages = [], sh_camera_uids = []\<rparr>"

section \<open>Writes\<close>

definition record_raw :: "seconds \<Rightarrow> string \<Rightarrow> string \<Rightarrow> bytes \<Rightarrow> string option \<Rightarrow> StateShadow \<Rightarrow> StateShadow" where
  "record_raw now device_id topic payload command s =
     s\<lparr>sh_raw_messages := dict_set (device_id, topic) (payload, command, now) (sh_raw_messages s)\<rparr>"

definition record_camera_uid :: "seconds \<Rightarrow> string \<Rightarrow> string \<Rightarrow> string option \<Rightarrow> StateShadow \<Rightarrow> bool \<times> StateShadow" where
  "record_camera_uid now device_id uid feeder_ip s =
     (let previous = dict_get (sh_camera_uids s) device_id;
          ip = (case feeder_ip of Some i \<Rightarrow> Some i
            | None \<Rightarrow> (case previous of None \<Rightarrow> None | Some (_, old, _) \<Rightarrow> old));
          changed = (case previous of None \<Rightarrow> True
            | Some (old_uid, old_ip, _) \<Rightarrow> old_uid \<noteq> uid \<or> (feeder_ip \<noteq> None \<and> old_ip \<noteq> feeder_ip))
      in (changed, s\<lparr>sh_camera_uids := dict_set device_id (uid, ip, now) (sh_camera_uids s)\<rparr>))"

fun update_kv :: "seconds \<Rightarrow> string \<Rightarrow> json_dict \<Rightarrow> kv_table \<Rightarrow> kv_table" where
  "update_kv now device_id [] t = t"
| "update_kv now device_id ((key, v) # values) t =
     update_kv now device_id values (dict_set (device_id, key) (json_dumps v, now) t)"

definition update_reported :: "seconds \<Rightarrow> string \<Rightarrow> json_dict \<Rightarrow> StateShadow \<Rightarrow> StateShadow" where
  "update_reported now device_id values s = s\<lparr>sh_reported := update_kv now device_id values (sh_reported s)\<rparr>"

definition update_desired :: "seconds \<Rightarrow> string \<Rightarrow> json_dict \<Rightarrow> StateShadow \<Rightarrow> StateShadow" where
  "update_desired now device_id values s = s\<lparr>sh_desired := update_kv now device_id values (sh_desired s)\<rparr>"

definition update_local_confirmed :: "seconds \<Rightarrow> string \<Rightarrow> json_dict \<Rightarrow> StateShadow \<Rightarrow> StateShadow" where
  "update_local_confirmed now device_id values s =
     s\<lparr>sh_local_confirmed := update_kv now device_id values (sh_local_confirmed s)\<rparr>"

definition update_feeding_plans :: "seconds \<Rightarrow> string \<Rightarrow> json list \<Rightarrow> string option \<Rightarrow> StateShadow \<Rightarrow> StateShadow" where
  "update_feeding_plans now device_id plans source_msg_id s =
     s\<lparr>sh_feeding_plans := dict_set device_id (json_dumps (JList plans), source_msg_id, now) (sh_feeding_plans s)\<rparr>"

text \<open>\<open>isinstance(plan.get("planId"), int)\<close>; a Python bool is an int.\<close>

definition plan_id :: "json_dict \<Rightarrow> int option" where
  "plan_id plan = (case dict_get plan ''planId'' of
     Some (JInt i) \<Rightarrow> Some i
   | Some (JBool b) \<Rightarrow> Some (if b then 1 else 0)
   | _ \<Rightarrow> None)"

definition upsert_plan :: "seconds \<Rightarrow> string \<Rightarrow> string \<Rightarrow> json_dict \<Rightarrow> StateShadow \<Rightarrow> StateShadow" where
  "upsert_plan now device_id source plan s =
     (case plan_id plan of
       None \<Rightarrow> s
     | Some i \<Rightarrow> s\<lparr>sh_schedule_plans := dict_set (device_id, i) (json_dumps (JObj plan), source, now) (sh_schedule_plans s)\<rparr>)"

definition update_cloud_schedule_plans :: "seconds \<Rightarrow> string \<Rightarrow> json_dict list \<Rightarrow> StateShadow \<Rightarrow> StateShadow" where
  "update_cloud_schedule_plans now device_id plans s =
     (let valid_plans = filter (\<lambda>plan. plan_id plan \<noteq> None) plans;
          cloud_plans = filter (\<lambda>plan. the (plan_id plan) > 0) valid_plans;
          cloud_ids = map (\<lambda>plan. the (plan_id plan)) cloud_plans;
          deleted = (\<lambda>e :: (string \<times> int) \<times> bytes \<times> string \<times> seconds.
            fst (fst e) = device_id \<and> snd (fst e) > 0 \<and> snd (fst e) \<notin> set cloud_ids);
          s1 = s\<lparr>sh_schedule_plans := filter (\<lambda>e. \<not> deleted e) (sh_schedule_plans s)\<rparr>
      in fold (upsert_plan now device_id ''cloud'') cloud_plans s1)"

definition replace_local_schedule_plans :: "seconds \<Rightarrow> string \<Rightarrow> json_dict list \<Rightarrow> StateShadow \<Rightarrow> StateShadow" where
  "replace_local_schedule_plans now device_id plans s =
     (let persisted_plans = filter (\<lambda>plan. plan_id plan \<noteq> None \<and> plan_id plan \<noteq> Some 0) plans;
          s1 = s\<lparr>sh_schedule_plans := filter (\<lambda>e. fst (fst e) \<noteq> device_id) (sh_schedule_plans s)\<rparr>
      in fold (\<lambda>plan. upsert_plan now device_id (if the (plan_id plan) < 0 then ''local'' else ''cloud'') plan)
           persisted_plans s1)"

section \<open>Reads\<close>

text \<open>A stored text that is no JSON would raise: then there is no result.\<close>

definition decode_row :: "(string \<times> string) \<times> bytes \<times> seconds \<Rightarrow> (string \<times> json) option" where
  "decode_row e = (case e of ((d, k), js, t) \<Rightarrow> map_option (Pair k) (json_loads js))"

definition read_kv :: "kv_table \<Rightarrow> string \<Rightarrow> json_dict option" where
  "read_kv t device_id = those (map decode_row (filter (\<lambda>e. fst (fst e) = device_id) t))"

definition get_desired :: "StateShadow \<Rightarrow> string \<Rightarrow> json_dict option" where
  "get_desired s device_id = read_kv (sh_desired s) device_id"

definition get_reported :: "StateShadow \<Rightarrow> string \<Rightarrow> json_dict option" where
  "get_reported s device_id = read_kv (sh_reported s) device_id"

definition get_local_confirmed :: "StateShadow \<Rightarrow> string \<Rightarrow> json_dict option" where
  "get_local_confirmed s device_id = read_kv (sh_local_confirmed s) device_id"

definition get_camera_uid :: "StateShadow \<Rightarrow> string \<Rightarrow> CameraUID option" where
  "get_camera_uid s device_id = (case dict_get (sh_camera_uids s) device_id of
     None \<Rightarrow> None
   | Some (uid, ip, t) \<Rightarrow> Some \<lparr>cu_device_id = device_id, cu_uid = uid, cu_feeder_ip = ip, cu_updated_at = t\<rparr>)"

definition get_camera_uids :: "StateShadow \<Rightarrow> CameraUID list" where
  "get_camera_uids s = map (\<lambda>(d, uid, ip, t). \<lparr>cu_device_id = d, cu_uid = uid, cu_feeder_ip = ip, cu_updated_at = t\<rparr>)
     (sort_key fst (sh_camera_uids s))"

definition schedule_plan :: "(string \<times> int) \<times> bytes \<times> string \<times> seconds \<Rightarrow> SchedulePlan option" where
  "schedule_plan e = (case e of (_, js, source, t) \<Rightarrow>
     map_option (\<lambda>p. \<lparr>sp_plan = p, sp_source = source, sp_updated_at = t\<rparr>) (json_loads js))"

definition get_schedule_plans :: "StateShadow \<Rightarrow> string \<Rightarrow> SchedulePlan list option" where
  "get_schedule_plans s device_id =
     those (map schedule_plan (sort_key (\<lambda>e. snd (fst e)) (filter (\<lambda>e. fst (fst e) = device_id) (sh_schedule_plans s))))"

text \<open>The outer option is a text that does not decode, the inner one an absent row.\<close>

definition get_feeding_plans :: "StateShadow \<Rightarrow> string \<Rightarrow> FeedingPlans option option" where
  "get_feeding_plans s device_id = (case dict_get (sh_feeding_plans s) device_id of
     None \<Rightarrow> Some None
   | Some (js, msg_id, t) \<Rightarrow>
       map_option (\<lambda>p. Some \<lparr>fp_plans = p, fp_source_msg_id = msg_id, fp_updated_at = t\<rparr>) (json_loads js))"

section \<open>Raw previews\<close>

definition RAW_IDENTITY_KEYWORDS :: "string list" where [relay_defs]:
  "RAW_IDENTITY_KEYWORDS = [''uid'', ''uuid'', ''tutk'', ''kalay'', ''username'']"

definition identity_key :: "string \<Rightarrow> bool" where
  "identity_key key \<longleftrightarrow> (\<exists>keyword\<in>set RAW_IDENTITY_KEYWORDS. sublist keyword (lower key))"

fun redact_raw_identity :: "json \<Rightarrow> json" where
  "redact_raw_identity (JList xs) = JList (map redact_raw_identity xs)"
| "redact_raw_identity (JObj kvs) =
     JObj (map (\<lambda>(k, v). (k, if identity_key k then JStr ''<redacted>'' else redact_raw_identity v)) kvs)"
| "redact_raw_identity v = v"

definition decode_raw_payload :: "bytes \<Rightarrow> json" where
  "decode_raw_payload payload =
     (case json_loads payload of None \<Rightarrow> JStr (decode_replace payload) | Some v \<Rightarrow> redact_raw_identity v)"

section \<open>Snapshots\<close>

record ShadowSnapshot =
  ss_device_id :: string
  ss_reported :: json_dict
  ss_desired :: json_dict
  ss_local_confirmed :: json_dict
  ss_plans :: json
  ss_plans_updated_at :: "seconds option"
  ss_schedule_plans :: "SchedulePlan list"

definition shadow_snapshot :: "StateShadow \<Rightarrow> string \<Rightarrow> ShadowSnapshot option" where
  "shadow_snapshot s device_id =
     (case (get_feeding_plans s device_id, get_reported s device_id, get_desired s device_id,
            get_local_confirmed s device_id, get_schedule_plans s device_id) of
       (Some plans, Some reported, Some desired, Some confirmed, Some schedule) \<Rightarrow>
         Some \<lparr>ss_device_id = device_id, ss_reported = reported, ss_desired = desired,
           ss_local_confirmed = confirmed,
           ss_plans = (case plans of None \<Rightarrow> JList [] | Some p \<Rightarrow> fp_plans p),
           ss_plans_updated_at = map_option fp_updated_at plans, ss_schedule_plans = schedule\<rparr>
     | _ \<Rightarrow> None)"

record RawPreview =
  rp_topic :: string
  rp_cmd :: "string option"
  rp_payload :: json
  rp_updated_at :: seconds

record DashboardSnapshot =
  ds_device_id :: string
  ds_reported :: "(string \<times> json \<times> seconds) list"
  ds_desired :: "(string \<times> json \<times> seconds) list"
  ds_local_confirmed :: "(string \<times> json \<times> seconds) list"
  ds_plans :: "FeedingPlans option"
  ds_schedule_plans :: "SchedulePlan list"
  ds_raw_messages :: "RawPreview list"
  ds_raw_count :: nat

definition timed_rows :: "kv_table \<Rightarrow> string \<Rightarrow> (string \<times> json \<times> seconds) list option" where
  "timed_rows t device_id =
     those (map (\<lambda>((d, k), js, ts). map_option (\<lambda>v. (k, v, ts)) (json_loads js))
       (sort_key (\<lambda>e. snd (fst e)) (filter (\<lambda>e. fst (fst e) = device_id) t)))"

definition raw_preview :: "(string \<times> string) \<times> bytes \<times> string option \<times> seconds \<Rightarrow> RawPreview" where
  "raw_preview e = (case e of ((d, topic), payload, cmd, ts) \<Rightarrow>
     \<lparr>rp_topic = topic, rp_cmd = cmd, rp_payload = decode_raw_payload payload, rp_updated_at = ts\<rparr>)"

definition dashboard_snapshot :: "StateShadow \<Rightarrow> string \<Rightarrow> int \<Rightarrow> DashboardSnapshot option" where
  "dashboard_snapshot s device_id raw_limit =
     (let safe_limit = max 1 (min raw_limit 500);
          raw_rows = filter (\<lambda>e. fst (fst e) = device_id) (sh_raw_messages s)
      in case (timed_rows (sh_reported s) device_id, timed_rows (sh_desired s) device_id,
            timed_rows (sh_local_confirmed s) device_id, get_feeding_plans s device_id, get_schedule_plans s device_id) of
        (Some reported, Some desired, Some confirmed, Some plans, Some schedule) \<Rightarrow>
          Some \<lparr>ds_device_id = device_id, ds_reported = reported, ds_desired = desired,
            ds_local_confirmed = confirmed, ds_plans = plans, ds_schedule_plans = schedule,
            ds_raw_messages = map raw_preview
              (take (nat safe_limit) (sort_key (\<lambda>e. - snd (snd (snd e))) raw_rows)),
            ds_raw_count = length raw_rows\<rparr>
      | _ \<Rightarrow> None)"

section \<open>Key/value tables\<close>

lemma update_kv_get:
  "dict_wf vals \<Longrightarrow> dict_get (update_kv now d vals t) (d', k) =
    (if d' = d then (case dict_get vals k of None \<Rightarrow> dict_get t (d', k) | Some v \<Rightarrow> Some (json_dumps v, now))
     else dict_get t (d', k))"
proof (induction now d vals t rule: update_kv.induct)
  case (2 now d k' v vals t)
  then have "dict_get vals k' = None" by (simp add: map_of_eq_None_iff)
  with "2" show ?case by (auto split: option.splits)
qed simp

lemma dict_wf_update_kv: "dict_wf t \<Longrightarrow> dict_wf (update_kv now d vals t)"
  by (induction now d vals t rule: update_kv.induct) simp_all

lemma those_map_Some: "those (map f xs) = Some ys \<Longrightarrow> ys = map (the \<circ> f) xs \<and> (\<forall>x\<in>set xs. f x \<noteq> None)"
  by (induction xs arbitrary: ys) (auto split: option.splits)

lemma those_map_all: "(\<And>x. x \<in> set xs \<Longrightarrow> f x \<noteq> None) \<Longrightarrow> those (map f xs) = Some (map (the \<circ> f) xs)"
  by (induction xs) (auto split: option.splits)

lemma read_kv_defined:
  "(\<exists>m. read_kv t d = Some m) \<longleftrightarrow> (\<forall>k js ts. ((d, k), js, ts) \<in> set t \<longrightarrow> json_loads js \<noteq> None)"
proof
  assume "\<exists>m. read_kv t d = Some m"
  then show "\<forall>k js ts. ((d, k), js, ts) \<in> set t \<longrightarrow> json_loads js \<noteq> None"
    by (auto simp: read_kv_def decode_row_def dest!: those_map_Some) blast
next
  assume a: "\<forall>k js ts. ((d, k), js, ts) \<in> set t \<longrightarrow> json_loads js \<noteq> None"
  have "those (map decode_row (filter (\<lambda>e. fst (fst e) = d) t)) \<noteq> None"
    by (subst those_map_all) (use a in \<open>fastforce simp: decode_row_def\<close>)+
  then show "\<exists>m. read_kv t d = Some m" by (simp add: read_kv_def)
qed

lemma read_kv_get:
  assumes "read_kv t d = Some m"
  shows "dict_get m k = Option.bind (dict_get t (d, k)) (\<lambda>(js, ts). json_loads js)"
  using assms
proof (induction t arbitrary: m)
  case (Cons e t)
  obtain d' k' js ts where e: "e = ((d', k'), js, ts)" by (metis prod.collapse)
  show ?case
  proof (cases "d' = d")
    case True
    with Cons.prems e obtain v m' where "json_loads js = Some v" "read_kv t d = Some m'" "m = (k', v) # m'"
      by (auto simp: read_kv_def decode_row_def split: option.splits)
    with Cons.IH True e show ?thesis by auto
  next
    case False
    with Cons.prems e have "read_kv t d = Some m" by (simp add: read_kv_def)
    with Cons.IH False e show ?thesis by auto
  qed
qed (simp add: read_kv_def)

lemma read_kv_update:
  assumes wf: "dict_wf t" "dict_wf vals" and plain: "\<forall>v\<in>snd ` set vals. plain_json v" and old: "read_kv t d = Some m"
  shows "\<exists>m'. read_kv (update_kv now d vals t) d = Some m' \<and>
    (\<forall>k. dict_get m' k = (case dict_get vals k of None \<Rightarrow> dict_get m k | Some v \<Rightarrow> Some v))"
proof -
  let ?t' = "update_kv now d vals t"
  have rows: "\<forall>k js ts. ((d, k), js, ts) \<in> set t \<longrightarrow> json_loads js \<noteq> None"
    using old read_kv_defined by blast
  have loads: "json_loads (json_dumps v) = Some v" if "dict_get vals k = Some v" for k v
  proof -
    have "v \<in> snd ` set vals" using map_of_SomeD [OF that] by force
    with plain show ?thesis by (intro json_loads_dumps) blast
  qed
  have "json_loads js \<noteq> None" if "((d, k), js, ts) \<in> set ?t'" for k js ts
  proof -
    from that have "dict_get ?t' (d, k) = Some (js, ts)" by (simp add: dict_wf_mem [OF dict_wf_update_kv [OF wf(1)]])
    with rows loads show ?thesis
      by (auto simp: update_kv_get [OF wf(2)] dict_wf_mem [OF wf(1)] split: option.splits)
  qed
  then obtain m' where m': "read_kv ?t' d = Some m'" using read_kv_defined by blast
  have "dict_get m' k = (case dict_get vals k of None \<Rightarrow> dict_get m k | Some v \<Rightarrow> Some v)" for k
    using read_kv_get [OF m', of k] read_kv_get [OF old, of k] loads [of k]
    by (auto simp: update_kv_get [OF wf(2)] split: option.splits)
  with m' show ?thesis by blast
qed

lemma update_kv_other_rows: "d \<noteq> d' \<Longrightarrow>
    filter (\<lambda>e. fst (fst e) = d') (update_kv now d vals t) = filter (\<lambda>e. fst (fst e) = d') t"
proof (induction now d vals t rule: update_kv.induct)
  case (2 now d k v vals t)
  have "filter (\<lambda>e. fst (fst e) = d') (dict_set (d, k) x t) = filter (\<lambda>e. fst (fst e) = d') t" for x
    using "2.prems" by (induction t) auto
  with "2" show ?case by simp
qed simp

lemma read_kv_other: "d \<noteq> d' \<Longrightarrow> read_kv (update_kv now d vals t) d' = read_kv t d'"
  by (simp add: read_kv_def update_kv_other_rows)

text \<open>
  The contract of one key/value table: what is written is what is read, key by key, and devices are
  apart. The three tables of the shadow provide it.
\<close>

locale kv_store =
  fixes wf :: "'s \<Rightarrow> bool"
    and put :: "seconds \<Rightarrow> string \<Rightarrow> json_dict \<Rightarrow> 's \<Rightarrow> 's"
    and get :: "'s \<Rightarrow> string \<Rightarrow> json_dict option"
  assumes wf_put: "wf s \<Longrightarrow> wf (put now d vals s)"
    and get_put: "wf s \<Longrightarrow> dict_wf vals \<Longrightarrow> \<forall>v\<in>snd ` set vals. plain_json v \<Longrightarrow> get s d = Some m \<Longrightarrow>
      \<exists>m'. get (put now d vals s) d = Some m' \<and>
        (\<forall>k. dict_get m' k = (case dict_get vals k of None \<Rightarrow> dict_get m k | Some v \<Rightarrow> Some v))"
    and get_put_other: "d \<noteq> d' \<Longrightarrow> get (put now d vals s) d' = get s d'"
begin

definition puts :: "(seconds \<times> string \<times> json_dict) list \<Rightarrow> 's \<Rightarrow> 's" where
  "puts ws s = fold (\<lambda>(now, d, vals). put now d vals) ws s"

text \<open>After any sequence of writes, each key of a device holds the value of the last write that set it.\<close>

lemma last_write_wins:
  "wf s \<Longrightarrow> get s d = Some m \<Longrightarrow>
    (\<forall>(now, d, vals)\<in>set ws. dict_wf vals \<and> (\<forall>v\<in>snd ` set vals. plain_json v)) \<Longrightarrow>
    \<exists>m'. get (puts ws s) d = Some m' \<and>
      map_of m' = fold (\<lambda>(now, d', vals) f. if d' = d then f ++ map_of vals else f) ws (map_of m)"
proof (induction ws arbitrary: s m)
  case (Cons w ws)
  obtain now d' vals where w: "w = (now, d', vals)" by (cases w)
  from Cons.prems w have ok: "dict_wf vals" "\<forall>v\<in>snd ` set vals. plain_json v" by auto
  have wf1: "wf (put now d' vals s)" using Cons.prems by (intro wf_put)
  have rest: "\<forall>(now, d, vals)\<in>set ws. dict_wf vals \<and> (\<forall>v\<in>snd ` set vals. plain_json v)"
    using Cons.prems(3) by simp
  show ?case
  proof (cases "d' = d")
    case True
    from get_put [OF Cons.prems(1) ok] Cons.prems(2) True obtain m1 where
      m1: "get (put now d' vals s) d = Some m1" "\<forall>k. dict_get m1 k = (case dict_get vals k of None \<Rightarrow> dict_get m k | Some v \<Rightarrow> Some v)"
      by blast
    then have "map_of m1 = map_of m ++ map_of vals" by (auto simp: map_add_def fun_eq_iff)
    with Cons.IH [OF wf1 m1(1) rest] True w show ?thesis by (simp add: puts_def)
  next
    case False
    with get_put_other Cons.prems(2) have "get (put now d' vals s) d = Some m" by simp
    from Cons.IH [OF wf1 this rest] False w show ?thesis by (simp add: puts_def)
  qed
qed (simp add: puts_def)

end

definition shadow_wf :: "StateShadow \<Rightarrow> bool" where
  "shadow_wf s \<longleftrightarrow> dict_wf (sh_reported s) \<and> dict_wf (sh_desired s) \<and> dict_wf (sh_local_confirmed s) \<and>
     dict_wf (sh_schedule_plans s)"

lemmas kv_accessors = update_reported_def update_desired_def update_local_confirmed_def
  get_reported_def get_desired_def get_local_confirmed_def shadow_wf_def

interpretation reported: kv_store shadow_wf update_reported get_reported
  by unfold_locales (simp_all add: kv_accessors dict_wf_update_kv read_kv_other read_kv_update)

interpretation desired: kv_store shadow_wf update_desired get_desired
  by unfold_locales (simp_all add: kv_accessors dict_wf_update_kv read_kv_other read_kv_update)

interpretation confirmed: kv_store shadow_wf update_local_confirmed get_local_confirmed
  by unfold_locales (simp_all add: kv_accessors dict_wf_update_kv read_kv_other read_kv_update)

section \<open>Schedule entries\<close>

abbreviation plan_at :: "StateShadow \<Rightarrow> string \<Rightarrow> int \<Rightarrow> (bytes \<times> string \<times> seconds) option" where
  "plan_at s d i \<equiv> dict_get (sh_schedule_plans s) (d, i)"

definition upserts :: "seconds \<Rightarrow> string \<Rightarrow> (json_dict \<Rightarrow> string) \<Rightarrow> json_dict list \<Rightarrow> StateShadow \<Rightarrow> StateShadow" where
  "upserts now d src plans s = fold (\<lambda>plan. upsert_plan now d (src plan) plan) plans s"

lemma upsert_plan_at:
  "plan_at (upsert_plan now d src plan s) d' i =
    (if d' = d \<and> plan_id plan = Some i then Some (json_dumps (JObj plan), src, now) else plan_at s d' i)"
  by (auto simp: upsert_plan_def split: option.splits)

lemma upserts_at:
  "plan_at (upserts now d src plans s) d' i =
    (if d' = d \<and> Some i \<in> plan_id ` set plans
     then Some (let plan = last (filter (\<lambda>p. plan_id p = Some i) plans) in (json_dumps (JObj plan), src plan, now))
     else plan_at s d' i)"
proof (induction plans rule: rev_induct)
  case (snoc plan plans)
  have "plan_at (upserts now d src (plans @ [plan]) s) d' i =
      plan_at (upsert_plan now d (src plan) plan (upserts now d src plans s)) d' i" by (simp add: upserts_def)
  with snoc show ?case by (auto simp: upsert_plan_at)
qed (simp add: upserts_def)

lemma upserts_wf: "dict_wf (sh_schedule_plans s) \<Longrightarrow> dict_wf (sh_schedule_plans (upserts now d src plans s))"
  unfolding upserts_def
  by (induction plans arbitrary: s) (auto simp: upsert_plan_def split: option.splits)

lemma cloud_plans_at:
  assumes "dict_wf (sh_schedule_plans s)"
  shows "plan_at (update_cloud_schedule_plans now d plans s) d' i =
    (if d' = d \<and> 0 < i then
       (if Some i \<in> plan_id ` set plans then
          Some (json_dumps (JObj (last (filter (\<lambda>p. plan_id p = Some i) plans))), ''cloud'', now) else None)
     else plan_at s d' i)"
proof -
  let ?cloud = "filter (\<lambda>plan. the (plan_id plan) > 0) (filter (\<lambda>plan. plan_id plan \<noteq> None) plans)"
  let ?s1 = "s\<lparr>sh_schedule_plans := filter (\<lambda>e. \<not> (fst (fst e) = d \<and> snd (fst e) > 0 \<and>
    snd (fst e) \<notin> set (map (\<lambda>plan. the (plan_id plan)) ?cloud))) (sh_schedule_plans s)\<rparr>"
  have eq: "update_cloud_schedule_plans now d plans s = upserts now d (\<lambda>_. ''cloud'') ?cloud ?s1"
    by (simp add: update_cloud_schedule_plans_def upserts_def Let_def)
  have mem: "Some i \<in> plan_id ` set ?cloud \<longleftrightarrow> 0 < i \<and> Some i \<in> plan_id ` set plans" for i
    by (auto simp: image_iff) (metis option.sel)+
  have same: "filter (\<lambda>p. plan_id p = Some i) ?cloud = filter (\<lambda>p. plan_id p = Some i) plans" if "0 < i"
    using that by (auto intro!: filter_cong simp: filter_filter)
  have ids: "i \<in> set (map (\<lambda>plan. the (plan_id plan)) ?cloud) \<longleftrightarrow> 0 < i \<and> Some i \<in> plan_id ` set plans" for i
    by (auto simp: image_iff) (metis option.sel)+
  show ?thesis
    unfolding eq upserts_at mem using same ids
    by (auto simp: dict_get_filter [OF assms] Let_def split: option.splits)
qed

lemma local_plans_at:
  assumes "dict_wf (sh_schedule_plans s)"
  shows "plan_at (replace_local_schedule_plans now d plans s) d' i =
    (if d' = d then
       (if i \<noteq> 0 \<and> Some i \<in> plan_id ` set plans then
          Some (json_dumps (JObj (last (filter (\<lambda>p. plan_id p = Some i) plans))),
            if i < 0 then ''local'' else ''cloud'', now) else None)
     else plan_at s d' i)"
proof -
  let ?kept = "filter (\<lambda>plan. plan_id plan \<noteq> None \<and> plan_id plan \<noteq> Some 0) plans"
  let ?src = "\<lambda>plan. if the (plan_id plan) < 0 then ''local'' else ''cloud''"
  let ?s1 = "s\<lparr>sh_schedule_plans := filter (\<lambda>e. fst (fst e) \<noteq> d) (sh_schedule_plans s)\<rparr>"
  have eq: "replace_local_schedule_plans now d plans s = upserts now d ?src ?kept ?s1"
    by (simp add: replace_local_schedule_plans_def upserts_def Let_def)
  have mem: "Some i \<in> plan_id ` set ?kept \<longleftrightarrow> i \<noteq> 0 \<and> Some i \<in> plan_id ` set plans" for i
    by (auto simp: image_iff) (metis option.inject)
  have same: "filter (\<lambda>p. plan_id p = Some i) ?kept = filter (\<lambda>p. plan_id p = Some i) plans" if "i \<noteq> 0"
    using that by (auto intro!: filter_cong simp: filter_filter)
  have src: "?src (last (filter (\<lambda>p. plan_id p = Some i) plans)) = (if i < 0 then ''local'' else ''cloud'')"
    if "Some i \<in> plan_id ` set plans"
  proof -
    from that have "filter (\<lambda>p. plan_id p = Some i) plans \<noteq> []" by (auto simp: filter_empty_conv)
    then have "last (filter (\<lambda>p. plan_id p = Some i) plans) \<in> set (filter (\<lambda>p. plan_id p = Some i) plans)" by (rule last_in_set)
    then show ?thesis by simp
  qed
  show ?thesis
    unfolding eq upserts_at mem using same src
    by (auto simp: dict_get_filter [OF assms] Let_def split: option.splits)
qed

text \<open>Ownership follows from the id: negative entries are local, positive ones belong to the cloud.\<close>

definition entry_ok :: "int \<Rightarrow> bytes \<times> string \<times> seconds \<Rightarrow> bool" where
  "entry_ok i row \<longleftrightarrow> i \<noteq> 0 \<and> fst (snd row) = (if i < 0 then ''local'' else ''cloud'')"

definition schedule_inv :: "StateShadow \<Rightarrow> bool" where
  "schedule_inv s \<longleftrightarrow> dict_wf (sh_schedule_plans s) \<and> (\<forall>d i row. plan_at s d i = Some row \<longrightarrow> entry_ok i row)"

lemma cloud_wf: "dict_wf (sh_schedule_plans s) \<Longrightarrow> dict_wf (sh_schedule_plans (update_cloud_schedule_plans now d plans s))"
  unfolding update_cloud_schedule_plans_def Let_def
  using upserts_wf [of _ now d "\<lambda>_. ''cloud''"] by (auto simp: upserts_def)

lemma local_wf: "dict_wf (sh_schedule_plans s) \<Longrightarrow> dict_wf (sh_schedule_plans (replace_local_schedule_plans now d plans s))"
  unfolding replace_local_schedule_plans_def Let_def
  using upserts_wf [of _ now d "\<lambda>plan. if the (plan_id plan) < 0 then ''local'' else ''cloud''"] by (auto simp: upserts_def)

lemma schedule_inv_cloud: "schedule_inv s \<Longrightarrow> schedule_inv (update_cloud_schedule_plans now d plans s)"
  unfolding schedule_inv_def
  by (simp add: cloud_wf cloud_plans_at split: if_split) (simp add: entry_ok_def)

lemma schedule_inv_local: "schedule_inv s \<Longrightarrow> schedule_inv (replace_local_schedule_plans now d plans s)"
  unfolding schedule_inv_def
  by (simp add: local_wf local_plans_at split: if_split) (simp add: entry_ok_def)

datatype schedule_op = CloudSnapshot seconds string "json_dict list" | LocalSnapshot seconds string "json_dict list"

fun schedule_step :: "schedule_op \<Rightarrow> StateShadow \<Rightarrow> StateShadow" where
  "schedule_step (CloudSnapshot now d plans) s = update_cloud_schedule_plans now d plans s"
| "schedule_step (LocalSnapshot now d plans) s = replace_local_schedule_plans now d plans s"

lemma schedule_inv_run: "schedule_inv s \<Longrightarrow> schedule_inv (fold schedule_step ops s)"
proof (induction ops arbitrary: s)
  case (Cons x ops)
  have "schedule_inv (schedule_step x s)"
    using Cons.prems by (cases x) (simp_all add: schedule_inv_cloud schedule_inv_local)
  with Cons.IH show ?case by simp
qed simp

section \<open>Redaction\<close>

fun no_identity :: "json \<Rightarrow> bool" where
  "no_identity (JList xs) = (\<forall>x\<in>set xs. no_identity x)"
| "no_identity (JObj kvs) = (\<forall>kv\<in>set kvs. if identity_key (fst kv) then snd kv = JStr ''<redacted>'' else no_identity (snd kv))"
| "no_identity v = True"

lemma no_identity_redact: "no_identity (redact_raw_identity v)"
  by (induction v rule: redact_raw_identity.induct) fastforce+

lemma no_identity_preview: "no_identity (decode_raw_payload payload)"
  by (simp add: decode_raw_payload_def no_identity_redact split: option.splits)

section \<open>Properties\<close>

lemma shadow_wf_open: "shadow_wf open_shadow" "get_desired open_shadow d = Some []"
  by (simp_all add: shadow_wf_def open_shadow_def get_desired_def read_kv_def)

text \<open>
  C30: After any sequence of cloud pushes on a fresh database, reading a device's desired settings
  yields, for each key, the value of the last push for that device that carried it; pushes for other
  devices do not show. The pushed values are JSON without floating-point numbers and with ASCII strings
  only, at any depth: for these the encoding that is stored is known to read back.
\<close>

theorem desired_settings_last_push_wins:
  assumes "\<forall>(now, d, vals)\<in>set ws. dict_wf vals \<and> (\<forall>v\<in>snd ` set vals. plain_json v)"
  shows "\<exists>m. get_desired (fold (\<lambda>(now, d, vals). update_desired now d vals) ws open_shadow) d = Some m \<and>
    map_of m = fold (\<lambda>(now, d', vals) f. if d' = d then f ++ map_of vals else f) ws Map.empty"
  using desired.last_write_wins [OF shadow_wf_open assms, of d] by (simp add: desired.puts_def)

theorem desired_settings_last_push_wins_witness:
  "\<exists>m. get_desired (fold (\<lambda>(now, d, vals). update_desired now d vals)
       [(1, ''A'', [(''volume'', JInt 3)]), (2, ''B'', [(''volume'', JInt 9)])] open_shadow) ''A'' = Some m \<and>
     map_of m = [''volume'' \<mapsto> JInt 3]"
  using desired_settings_last_push_wins [of "[(1, ''A'', [(''volume'', JInt 3)]), (2, ''B'', [(''volume'', JInt 9)])]" "''A''"]
  by simp

text \<open>
  C33: A cloud schedule snapshot replaces exactly the device's cloud entries: afterwards its positive
  ids are those of the snapshot, each with the snapshot's plan, while local entries and other devices'
  entries are untouched.
\<close>

theorem cloud_schedule_spares_local_plans:
  assumes "schedule_inv s"
  shows "plan_at (update_cloud_schedule_plans now d plans s) d' i =
    (if d' = d \<and> 0 < i then
       (if Some i \<in> plan_id ` set plans then
          Some (json_dumps (JObj (last (filter (\<lambda>p. plan_id p = Some i) plans))), ''cloud'', now) else None)
     else plan_at s d' i)"
  using assms by (intro cloud_plans_at) (simp add: schedule_inv_def)

lemma schedule_inv_open: "schedule_inv open_shadow"
  by (simp add: schedule_inv_def open_shadow_def)

theorem cloud_schedule_spares_local_plans_witness:
  "let s = replace_local_schedule_plans 1 ''A'' [[(''planId'', JInt (- 2))]] open_shadow
   in plan_at (update_cloud_schedule_plans 2 ''A'' [] s) ''A'' (- 2) = plan_at s ''A'' (- 2) \<and> plan_at s ''A'' (- 2) \<noteq> None"
proof -
  let ?s = "replace_local_schedule_plans 1 ''A'' [[(''planId'', JInt (- 2))]] open_shadow"
  have "schedule_inv ?s" by (intro schedule_inv_local schedule_inv_open)
  from cloud_schedule_spares_local_plans [OF this, of 2 "''A''" "[]" "''A''" "- 2"] show ?thesis
    by (simp add: local_plans_at open_shadow_def plan_id_def)
qed

text \<open>
  In every state reached from an empty database by cloud and local schedule snapshots, an entry's
  source is \<open>local\<close> exactly when its plan id is negative, and no entry has plan id zero.
\<close>

theorem schedule_ownership_by_id:
  assumes "plan_at (fold schedule_step ops open_shadow) d i = Some (js, source, t)"
  shows "i \<noteq> 0 \<and> source = (if i < 0 then ''local'' else ''cloud'')"
  using schedule_inv_run [OF schedule_inv_open, of ops] assms by (fastforce simp: schedule_inv_def entry_ok_def)

theorem schedule_ownership_by_id_witness:
  "\<exists>js source t. plan_at (fold schedule_step [LocalSnapshot 1 ''A'' [[(''planId'', JInt (- 2))]]] open_shadow) ''A'' (- 2) =
     Some (js, source, t) \<and> source = ''local''"
proof -
  let ?s = "fold schedule_step [LocalSnapshot 1 ''A'' [[(''planId'', JInt (- 2))]]] open_shadow"
  obtain js source t where e: "plan_at ?s ''A'' (- 2) = Some (js, source, t)"
    by (simp add: local_plans_at open_shadow_def plan_id_def)
  from schedule_ownership_by_id [OF this] e show ?thesis by simp
qed

text \<open>
  The raw-message previews of a dashboard snapshot contain, at no depth of any JSON payload, the
  value of a key that names a camera or account identity, and there are at most 500 of them.
\<close>

theorem dashboard_hides_identities:
  assumes "dashboard_snapshot s d raw_limit = Some snap"
  shows "(\<forall>r\<in>set (ds_raw_messages snap). no_identity (rp_payload r)) \<and> length (ds_raw_messages snap) \<le> 500"
  using assms
  by (auto simp: dashboard_snapshot_def Let_def raw_preview_def no_identity_preview split: option.splits prod.splits)

theorem dashboard_hides_identities_witness:
  "\<exists>snap. dashboard_snapshot (record_raw 1 ''A'' ''t'' ''{}'' None open_shadow) ''A'' 10 = Some snap \<and>
     (\<forall>r\<in>set (ds_raw_messages snap). no_identity (rp_payload r)) \<and> length (ds_raw_messages snap) \<le> 500"
proof -
  obtain snap where s: "dashboard_snapshot (record_raw 1 ''A'' ''t'' ''{}'' None open_shadow) ''A'' 10 = Some snap"
    by (simp add: dashboard_snapshot_def record_raw_def open_shadow_def timed_rows_def get_feeding_plans_def
        get_schedule_plans_def Let_def)
  with dashboard_hides_identities [OF s] show ?thesis by blast
qed

end
