(* ===== verification/Dst_Schedule.thy ===== *)
theory Dst_Schedule
  imports Relay_Prelude
begin

text \<open>
  \<^verbatim>\<open>dst_schedule.py\<close>: finding the next two daylight-saving transitions by walking forward. The time
  zone is the function \<open>offset_at\<close> from an instant (in seconds since the epoch) to the UTC offset in
  seconds, which \<open>zoneinfo\<close> provides from its database.

  The main lemma compares the walk with the plain definition, the list of all hours at which the offset
  changes: for a zone that changes at full UTC hours and at most once in each day of the walk, as the
  module assumes, the two agree.
\<close>

definition SEARCH_HORIZON_DAYS :: nat where [relay_defs]: "SEARCH_HORIZON_DAYS = 800"
definition HOURS_PER_DAY :: nat where [relay_defs]: "HOURS_PER_DAY = 24"

record DstSchedule =
  dst_offset_seconds :: int
  dst_next_offset_seconds :: "int option"
  dst_next_transition_ts_ms :: "int option"
  dst_second_next_offset_seconds :: "int option"
  dst_second_next_transition_ts_ms :: "int option"

type_synonym zone = "seconds \<Rightarrow> int"

definition floor_hour :: "seconds \<Rightarrow> seconds" where
  "floor_hour t = 3600 * of_int \<lfloor>t / 3600\<rfloor>"

text \<open>The inner loop: the first hour after \<open>hour\<close> at which the offset differs.\<close>

fun find_hour :: "zone \<Rightarrow> nat \<Rightarrow> int \<Rightarrow> seconds \<Rightarrow> (seconds \<times> int) option" where
  "find_hour zone 0 current_offset hour = None"
| "find_hour zone (Suc n) current_offset hour =
     (let next_hour = hour + 3600
      in if zone next_hour \<noteq> current_offset then Some (next_hour, zone next_hour)
         else find_hour zone n current_offset next_hour)"

fun walk_days :: "zone \<Rightarrow> nat \<Rightarrow> nat \<Rightarrow> int \<Rightarrow> seconds \<Rightarrow> (seconds \<times> int) list \<Rightarrow> (seconds \<times> int) list" where
  "walk_days zone wanted 0 current_offset day transitions = transitions"
| "walk_days zone wanted (Suc n) current_offset day transitions =
     (let next_day = day + 86400
      in if zone next_day \<noteq> current_offset then
           let (transitions', current') =
             (case find_hour zone HOURS_PER_DAY current_offset day of
               None \<Rightarrow> (transitions, current_offset)
             | Some (t, off) \<Rightarrow> (transitions @ [(t, off)], off))
           in if length transitions' = wanted then transitions'
              else walk_days zone wanted n current' next_day transitions'
         else walk_days zone wanted n current_offset next_day transitions)"

definition find_transitions :: "zone \<Rightarrow> seconds \<Rightarrow> nat \<Rightarrow> (seconds \<times> int) list" where
  "find_transitions zone start wanted =
     walk_days zone wanted SEARCH_HORIZON_DAYS (zone start) (floor_hour start) []"

text \<open>\<open>int(instant.timestamp() * 1000)\<close>, which truncates towards zero.\<close>

definition as_ms :: "seconds \<Rightarrow> int" where
  "as_ms t = (if 0 \<le> t then \<lfloor>t * 1000\<rfloor> else \<lceil>t * 1000\<rceil>)"

definition dst_compute :: "zone \<Rightarrow> seconds \<Rightarrow> DstSchedule" where
  "dst_compute zone moment =
     (let transitions = find_transitions zone moment 2
      in \<lparr>dst_offset_seconds = zone moment,
          dst_next_offset_seconds = (if length transitions > 0 then Some (snd (transitions ! 0)) else None),
          dst_next_transition_ts_ms = (if length transitions > 0 then Some (as_ms (fst (transitions ! 0))) else None),
          dst_second_next_offset_seconds = (if length transitions > 1 then Some (snd (transitions ! 1)) else None),
          dst_second_next_transition_ts_ms = (if length transitions > 1 then Some (as_ms (fst (transitions ! 1))) else None)\<rparr>)"

section \<open>The plain definition\<close>

text \<open>All hours of an interval at which the offset differs from the hour before.\<close>

definition hour_at :: "seconds \<Rightarrow> nat \<Rightarrow> seconds" where
  "hour_at base k = base + 3600 * of_nat k"

definition changes :: "zone \<Rightarrow> seconds \<Rightarrow> nat \<Rightarrow> nat \<Rightarrow> (seconds \<times> int) list" where
  "changes zone base a n =
     map (\<lambda>k. (hour_at base k, zone (hour_at base k)))
       (filter (\<lambda>k. zone (hour_at base k) \<noteq> zone (hour_at base (k - 1))) [Suc a..<Suc (a + n)])"

text \<open>What the module assumes of a zone: in the day that starts at hour \<open>a\<close> the offset changes at most once.\<close>

definition one_change :: "zone \<Rightarrow> seconds \<Rightarrow> nat \<Rightarrow> bool" where
  "one_change zone base a \<longleftrightarrow> (\<exists>c. \<forall>i\<le>24. zone (hour_at base (a + i)) =
     (if i < c then zone (hour_at base a) else zone (hour_at base (a + 24))))"

definition regular_zone :: "zone \<Rightarrow> seconds \<Rightarrow> bool" where
  "regular_zone zone start \<longleftrightarrow> zone start = zone (floor_hour start) \<and>
     (\<forall>k<SEARCH_HORIZON_DAYS. one_change zone (floor_hour start) (24 * k))"

lemma hour_at_add: "hour_at base (a + n) = hour_at base a + 3600 * of_nat n"
  by (simp add: hour_at_def algebra_simps)

lemma changes_append: "changes zone base a (m + n) = changes zone base a m @ changes zone base (a + m) n"
proof -
  have "[Suc a..<Suc (a + (m + n))] = [Suc a..<Suc (a + m)] @ [Suc (a + m)..<Suc (a + m + n)]"
    using upt_add_eq_append [of "Suc a" "Suc (a + m)" n] by (simp add: add.assoc)
  then show ?thesis by (simp only: changes_def filter_append map_append)
qed

lemma find_hour_first:
  assumes "zone (hour_at base (a + n)) \<noteq> cur" "0 < n"
  shows "\<exists>i. 0 < i \<and> i \<le> n \<and> zone (hour_at base (a + i)) \<noteq> cur \<and> (\<forall>j. 0 < j \<and> j < i \<longrightarrow> zone (hour_at base (a + j)) = cur) \<and>
    find_hour zone n cur (hour_at base a) = Some (hour_at base (a + i), zone (hour_at base (a + i)))"
  using assms
proof (induction n arbitrary: a)
  case (Suc n)
  have next_hour: "hour_at base a + 3600 = hour_at base (a + 1)" by (simp add: hour_at_def algebra_simps)
  show ?case
  proof (cases "zone (hour_at base (a + 1)) = cur")
    case True
    with Suc.prems have n: "0 < n" by (cases n) auto
    from Suc.prems have "zone (hour_at base (a + 1 + n)) \<noteq> cur" by simp
    from Suc.IH [OF this n] obtain i where
      i: "0 < i" "i \<le> n" "zone (hour_at base (a + 1 + i)) \<noteq> cur"
      "\<forall>j. 0 < j \<and> j < i \<longrightarrow> zone (hour_at base (a + 1 + j)) = cur"
      "find_hour zone n cur (hour_at base (a + 1)) = Some (hour_at base (a + 1 + i), zone (hour_at base (a + 1 + i)))"
      by blast
    have "zone (hour_at base (a + j)) = cur" if "0 < j" "j < Suc i" for j
    proof (cases "j = 1")
      case False
      with that have "0 < j - 1" "j - 1 < i" "a + 1 + (j - 1) = a + j" by auto
      with i(4) show ?thesis by metis
    qed (use True in simp)
    with i True next_hour show ?thesis by (intro exI [of _ "Suc i"]) (simp add: Let_def)
  next
    case False
    with next_hour show ?thesis by (intro exI [of _ 1]) (auto simp: Let_def)
  qed
qed simp

lemma filter_one: "distinct xs \<Longrightarrow> x \<in> set xs \<Longrightarrow> filter (\<lambda>y. y = x) xs = [x]"
  by (induction xs) (auto simp: filter_empty_conv)

text \<open>One day of a regular zone: no change when both ends agree, else exactly the one that is found.\<close>

lemma day_changes:
  assumes one: "one_change zone base a"
  shows "zone (hour_at base (a + 24)) = zone (hour_at base a) \<Longrightarrow> changes zone base a 24 = []"
    and "zone (hour_at base (a + 24)) \<noteq> zone (hour_at base a) \<Longrightarrow>
      \<exists>i. find_hour zone 24 (zone (hour_at base a)) (hour_at base a) = Some (hour_at base (a + i), zone (hour_at base (a + 24))) \<and>
        changes zone base a 24 = [(hour_at base (a + i), zone (hour_at base (a + 24)))]"
proof -
  from one obtain c where c: "\<And>i. i \<le> 24 \<Longrightarrow> zone (hour_at base (a + i)) =
      (if i < c then zone (hour_at base a) else zone (hour_at base (a + 24)))" by (auto simp: one_change_def)
  have hours: "[Suc a..<Suc (a + 24)] = map (\<lambda>i. a + i) [1..<25]"
    by (rule nth_equalityI) auto
  have eq: "changes zone base a 24 = map (\<lambda>i. (hour_at base (a + i), zone (hour_at base (a + i))))
      (filter (\<lambda>i. zone (hour_at base (a + i)) \<noteq> zone (hour_at base (a + i - 1))) [1..<25])"
    by (simp only: changes_def hours filter_map map_map comp_def)
  have pred: "zone (hour_at base (a + i - 1)) = (if i - 1 < c then zone (hour_at base a) else zone (hour_at base (a + 24)))"
    if "i \<in> set [1..<25]" for i
  proof -
    from that have "i - 1 \<le> 24" "a + i - 1 = a + (i - 1)" by auto
    with c [of "i - 1"] show ?thesis by simp
  qed
  show "changes zone base a 24 = []" if "zone (hour_at base (a + 24)) = zone (hour_at base a)"
  proof -
    have "\<not> zone (hour_at base (a + i)) \<noteq> zone (hour_at base (a + i - 1))" if "i \<in> set [1..<25]" for i
      using pred [OF that] c [of i] that \<open>zone (hour_at base (a + 24)) = _\<close> by (simp split: if_splits)
    then have "filter (\<lambda>i. zone (hour_at base (a + i)) \<noteq> zone (hour_at base (a + i - 1))) [1..<25] = []"
      unfolding filter_empty_conv by blast
    then show ?thesis by (simp only: eq list.map)
  qed
  show "\<exists>i. find_hour zone 24 (zone (hour_at base a)) (hour_at base a) = Some (hour_at base (a + i), zone (hour_at base (a + 24))) \<and>
      changes zone base a 24 = [(hour_at base (a + i), zone (hour_at base (a + 24)))]"
    if diff: "zone (hour_at base (a + 24)) \<noteq> zone (hour_at base a)"
  proof -
    from find_hour_first [of zone base a 24 "zone (hour_at base a)"] diff obtain i where i: "0 < i" "i \<le> 24"
      "zone (hour_at base (a + i)) \<noteq> zone (hour_at base a)"
      "\<forall>j. 0 < j \<and> j < i \<longrightarrow> zone (hour_at base (a + j)) = zone (hour_at base a)"
      "find_hour zone 24 (zone (hour_at base a)) (hour_at base a) = Some (hour_at base (a + i), zone (hour_at base (a + i)))"
      by auto
    have "c \<le> i" using c [OF i(2)] i(3) by (auto split: if_splits)
    moreover have "c = i" if "c \<noteq> 0"
    proof (rule ccontr)
      assume "c \<noteq> i"
      with calculation have "c < i" by simp
      with i(4) that have "zone (hour_at base (a + c)) = zone (hour_at base a)" by simp
      with c [of c] \<open>c < i\<close> i(2) diff show False by simp
    qed
    moreover have "c \<noteq> 0" using c [of 0] diff by (auto split: if_splits)
    ultimately have ci: "c = i" by simp
    have "filter (\<lambda>j. zone (hour_at base (a + j)) \<noteq> zone (hour_at base (a + j - 1))) [1..<25] = filter (\<lambda>j. j = i) [1..<25]"
    proof (rule filter_cong [OF refl])
      fix j assume j: "j \<in> set [1..<25]"
      then have "1 \<le> j" "j \<le> 24" by simp_all
      with c [of j] pred [OF j] diff ci show "(zone (hour_at base (a + j)) \<noteq> zone (hour_at base (a + j - 1))) = (j = i)"
        by (cases "j < i"; cases "j = i") simp_all
    qed
    also have "\<dots> = [i]"
      using i by (intro filter_one) auto
    finally have "changes zone base a 24 = [(hour_at base (a + i), zone (hour_at base (a + i)))]" by (simp only: eq list.map)
    moreover have "zone (hour_at base (a + i)) = zone (hour_at base (a + 24))" using c [OF i(2)] ci by simp
    ultimately show ?thesis using i(5) by (intro exI [of _ i]) simp
  qed
qed

lemma hour_at_day: "hour_at base a + 86400 = hour_at base (a + 24)"
  by (simp add: hour_at_def algebra_simps)

lemma walk_days_changes:
  assumes "\<And>k. k < n \<Longrightarrow> one_change zone base (a + 24 * k)" "length acc < wanted"
  shows "walk_days zone wanted n (zone (hour_at base a)) (hour_at base a) acc = take wanted (acc @ changes zone base a (24 * n))"
  using assms
proof (induction n arbitrary: a acc)
  case 0
  then show ?case by (simp add: changes_def)
next
  case (Suc n)
  from Suc.prems(1) [of 0] have one: "one_change zone base a" by simp
  have rest: "one_change zone base (a + 24 + 24 * k)" if "k < n" for k
    using Suc.prems(1) [of "Suc k"] that by (simp add: add.assoc)
  have parts: "changes zone base a (24 + 24 * n) = changes zone base a 24 @ changes zone base (a + 24) (24 * n)"
    using changes_append [of zone base a 24 "24 * n"] by simp
  show ?case
  proof (cases "zone (hour_at base (a + 24)) = zone (hour_at base a)")
    case True
    with Suc.IH [of "a + 24" acc] rest Suc.prems(2) day_changes(1) [OF one True] show ?thesis
      by (simp add: hour_at_day parts)
  next
    case False
    from day_changes(2) [OF one False] obtain i where
      i: "find_hour zone 24 (zone (hour_at base a)) (hour_at base a) = Some (hour_at base (a + i), zone (hour_at base (a + 24)))"
      "changes zone base a 24 = [(hour_at base (a + i), zone (hour_at base (a + 24)))]" by blast
    let ?acc = "acc @ [(hour_at base (a + i), zone (hour_at base (a + 24)))]"
    show ?thesis
    proof (cases "length ?acc = wanted")
      case True
      then have "wanted = Suc (length acc)" by simp
      with False i parts show ?thesis by (simp add: hour_at_day HOURS_PER_DAY_def Let_def)
    next
      case notyet: False
      with Suc.prems(2) have "length ?acc < wanted" by simp
      from Suc.IH [of "a + 24" ?acc, OF rest this] False notyet i parts show ?thesis
        by (simp add: hour_at_day HOURS_PER_DAY_def Let_def)
    qed
  qed
qed

section \<open>Properties\<close>

text \<open>
  C40: For a zone whose offset changes only at full UTC hours and at most once in each 24-hour step of
  the walk, the transitions found are exactly the first ones of the whole search horizon: every reported
  instant is an hour at which the offset really changes, it carries the new offset, and no earlier
  change is skipped.
\<close>

theorem dst_transitions_exact:
  assumes "regular_zone zone start" "0 < wanted"
  shows "find_transitions zone start wanted =
    take wanted (changes zone (floor_hour start) 0 (24 * SEARCH_HORIZON_DAYS))"
proof -
  have base: "hour_at (floor_hour start) 0 = floor_hour start" by (simp add: hour_at_def)
  from assms have "zone start = zone (hour_at (floor_hour start) 0)"
    and "\<And>k. k < SEARCH_HORIZON_DAYS \<Longrightarrow> one_change zone (floor_hour start) (0 + 24 * k)"
    by (simp_all add: regular_zone_def base)
  from walk_days_changes [OF this(2), of SEARCH_HORIZON_DAYS "[]" wanted] this(1) assms(2) show ?thesis
    by (simp add: find_transitions_def base)
qed

definition demo_zone :: zone where
  "demo_zone t = (if t < 7200 then 3600 else 7200)"

lemma demo_zone_regular: "regular_zone demo_zone 100"
proof -
  have f: "floor_hour 100 = 0" by (simp add: floor_hour_def floor_eq_iff)
  have "one_change demo_zone 0 (24 * k)" for k
    unfolding one_change_def
    by (rule exI [of _ "if k = 0 then 2 else 0"]) (auto simp: demo_zone_def hour_at_def)
  then show ?thesis by (simp add: regular_zone_def f) (simp add: demo_zone_def)
qed

theorem dst_transitions_exact_witness:
  "find_transitions demo_zone 100 2 = take 2 (changes demo_zone (floor_hour 100) 0 (24 * SEARCH_HORIZON_DAYS))"
  by (rule dst_transitions_exact [OF demo_zone_regular]) simp

end
