(* ===== verification/Local_Responder.thy ===== *)
theory Local_Responder
  imports State_Shadow Dst_Schedule
begin

text \<open>
  \<^verbatim>\<open>local_responder.py\<close> and \<^verbatim>\<open>camera_uid.py\<close>: answering a feeder's requests while the cloud is
  unreachable. The responder's state holds the shadow it reads and writes; the time of a call, the
  message id minted by \<open>uuid4\<close> and the zone's offsets are arguments. A result \<open>None\<close> is an exception
  raised while decoding stored JSON, and the flag of \<open>observe_cloud_message\<close> one of the database, which
  cannot bind an array, an object or an integer of more than 64 bits as a value.

  The lemmas show which commands can be answered locally and when, that replies go to the requesting
  device with the request's id, that suppression of late cloud answers is exact, per device and
  time-limited, and that a plan request is answered with the last complete plan set of the cloud.
\<close>

section \<open>Camera UIDs\<close>

definition CAMERA_UID_LENGTH :: nat where [relay_defs]: "CAMERA_UID_LENGTH = 20"

text \<open>A string of printable ASCII characters is as long as its UTF-8 encoding.\<close>

definition is_camera_uid :: "json option \<Rightarrow> bool" where
  "is_camera_uid v = (case v of
     Some (JStr s) \<Rightarrow> length s = CAMERA_UID_LENGTH \<and> list_all (\<lambda>c. 0x21 \<le> (of_char c :: nat) \<and> (of_char c :: nat) \<le> 0x7E) s
   | _ \<Rightarrow> False)"

section \<open>State\<close>

datatype UpstreamState = DISCONNECTED | TCP_CONNECTING | MQTT_CONNECTING | UP_ONLINE | SUSPENDED

definition upstream_is_online :: "UpstreamState \<Rightarrow> bool" where
  "upstream_is_online u \<longleftrightarrow> u = UP_ONLINE"

datatype Decision = FORWARD_ONLY | CACHE_AND_FORWARD | RESPOND_LOCAL | IGNORE

record ResponderAction =
  ra_decision :: Decision
  ra_response_topic :: "string option"
  ra_response_payload :: "bytes option"
  ra_handled_msg_id :: "string option"

record ResponderCounters =
  rc_local_responses :: nat
  rc_cache_hits :: nat
  rc_cache_misses :: nat
  rc_unknown_requests :: nat
  rc_suppressed_late_cloud_responses :: nat

record LocalResponderSettings =
  ls_enabled :: bool
  ls_ntp :: bool
  ls_config :: bool
  ls_feeding_plan :: bool
  ls_always_answer_ntp_locally :: bool
  ls_clock_drift_tolerance_seconds :: seconds

record LocalResponder =
  lr_settings :: LocalResponderSettings
  lr_shadow :: StateShadow
  lr_handled_msg_id_ttl_seconds :: seconds
  lr_has_uid_observer :: bool
  lr_handled_msg_ids :: "(string \<times> string, seconds) dict"
  lr_counters :: ResponderCounters
  lr_uid_calls :: "(string \<times> string) list"

definition plain_action :: "Decision \<Rightarrow> ResponderAction" where
  "plain_action d = \<lparr>ra_decision = d, ra_response_topic = None, ra_response_payload = None, ra_handled_msg_id = None\<rparr>"

definition count :: "(ResponderCounters \<Rightarrow> ResponderCounters) \<Rightarrow> LocalResponder \<Rightarrow> LocalResponder" where
  "count f r = r\<lparr>lr_counters := f (lr_counters r)\<rparr>"

definition init_responder :: "LocalResponderSettings \<Rightarrow> StateShadow \<Rightarrow> seconds \<Rightarrow> bool \<Rightarrow> LocalResponder" where
  "init_responder settings shadow ttl observer =
     \<lparr>lr_settings = settings, lr_shadow = shadow, lr_handled_msg_id_ttl_seconds = ttl, lr_has_uid_observer = observer,
      lr_handled_msg_ids = [],
      lr_counters = \<lparr>rc_local_responses = 0, rc_cache_hits = 0, rc_cache_misses = 0, rc_unknown_requests = 0,
        rc_suppressed_late_cloud_responses = 0\<rparr>, lr_uid_calls = []\<rparr>"

section \<open>Helpers\<close>

definition NEVER_LOCAL :: "string list" where
  "NEVER_LOCAL = [cmd_MANUAL_FEEDING_SERVICE, cmd_DEVICE_REBOOT, cmd_RESET, cmd_RESTORE]"

definition REQUIRED_PLAN_FIELDS :: "string list" where
  "REQUIRED_PLAN_FIELDS = [''planId'', ''executionTime'', ''grainNum'']"

definition is_complete_plan :: "json \<Rightarrow> bool" where
  "is_complete_plan plan = (case plan of
     JObj d \<Rightarrow> list_all (\<lambda>field. dict_get d field \<noteq> None) REQUIRED_PLAN_FIELDS
   | _ \<Rightarrow> False)"

definition parse :: "bytes \<Rightarrow> string option \<times> json_dict option" where
  "parse payload = (case json_loads payload of
     Some (JObj body) \<Rightarrow> ((case dict_get body ''cmd'' of Some (JStr c) \<Rightarrow> Some c | _ \<Rightarrow> None), Some body)
   | _ \<Rightarrow> (None, None))"

definition str_field :: "json_dict \<Rightarrow> string \<Rightarrow> string option" where
  "str_field body key = (case dict_get body key of Some (JStr s) \<Rightarrow> Some s | _ \<Rightarrow> None)"

text \<open>
  What SQLite stores of a message id bound to the text column. A list or object cannot be bound and an
  integer beyond 64 bits overflows: both raise. How SQLite writes a float as text is not modelled (no
  operation reads the column).
\<close>

definition is_int64 :: "int \<Rightarrow> bool" where
  "is_int64 i \<longleftrightarrow> - (2 ^ 63) \<le> i \<and> i < 2 ^ 63"

definition bindable :: "json option \<Rightarrow> bool" where
  "bindable v = (case v of Some (JList _) \<Rightarrow> False | Some (JObj _) \<Rightarrow> False | Some (JInt i) \<Rightarrow> is_int64 i | _ \<Rightarrow> True)"

definition text_column :: "json option \<Rightarrow> string option" where
  "text_column v = (case v of Some (JStr s) \<Rightarrow> Some s | Some (JInt i) \<Rightarrow> Some (show_int i)
     | Some (JBool b) \<Rightarrow> Some (if b then ''1'' else ''0'') | _ \<Rightarrow> None)"

definition json_or_null :: "json_dict \<Rightarrow> string \<Rightarrow> json" where
  "json_or_null body key = (case dict_get body key of None \<Rightarrow> JNull | Some v \<Rightarrow> v)"

section \<open>Learning from the cloud\<close>

definition obj_of :: "json \<Rightarrow> json_dict" where
  "obj_of v = (case v of JObj d \<Rightarrow> d | _ \<Rightarrow> [])"

text \<open>
  The flag says that the call raised: a message id that cannot be bound ends it after the raw message is
  recorded, a plan id beyond 64 bits after the plan set is stored.
\<close>

definition observe_cloud_message :: "seconds \<Rightarrow> string \<Rightarrow> string \<Rightarrow> bytes \<Rightarrow> LocalResponder \<Rightarrow> bool \<times> LocalResponder" where
  "observe_cloud_message now device_id topic payload r =
     (let (command, body) = parse payload;
          shadow = record_raw now device_id topic payload command (lr_shadow r);
          (raised, shadow') = (case body of
            None \<Rightarrow> (False, shadow)
          | Some b \<Rightarrow>
              if command = Some cmd_FEEDING_PLAN_SERVICE then
                (case dict_get b ''plans'' of
                  Some (JList plans) \<Rightarrow>
                    if \<not> list_all is_complete_plan plans then (False, shadow)
                    else if \<not> bindable (dict_get b ''msgId'') then (True, shadow)
                    else
                      let shadow1 = update_feeding_plans now device_id plans (text_column (dict_get b ''msgId'')) shadow
                      in if list_all (\<lambda>plan. case plan_id (obj_of plan) of None \<Rightarrow> True | Some i \<Rightarrow> i \<le> 0 \<or> is_int64 i) plans
                         then (False, update_cloud_schedule_plans now device_id (map obj_of plans) shadow1)
                         else (True, shadow1)
                | _ \<Rightarrow> (False, shadow))
              else if command \<in> {Some cmd_ATTR_SET_SERVICE, Some cmd_SERVER_CONFIG_PUSH, Some cmd_DEVICE_CONFIG_SYNC} then
                let settings = filter (\<lambda>kv. fst kv \<notin> {''cmd'', ''ts'', ''msgId''}) b
                in (False, if settings = [] then shadow else update_desired now device_id settings shadow)
              else (False, shadow))
      in (raised, r\<lparr>lr_shadow := shadow'\<rparr>))"

definition was_handled_locally :: "seconds \<Rightarrow> string \<Rightarrow> string \<Rightarrow> LocalResponder \<Rightarrow> bool \<times> LocalResponder" where
  "was_handled_locally now device_id msg_id r =
     (let cutoff = now - lr_handled_msg_id_ttl_seconds r;
          handled = filter (\<lambda>e. \<not> snd e < cutoff) (lr_handled_msg_ids r)
      in (dict_get handled (device_id, msg_id) \<noteq> None, r\<lparr>lr_handled_msg_ids := handled\<rparr>))"

definition is_suppressed_cloud_response :: "seconds \<Rightarrow> string \<Rightarrow> bytes \<Rightarrow> LocalResponder \<Rightarrow> bool \<times> LocalResponder" where
  "is_suppressed_cloud_response now device_id payload r =
     (case snd (parse payload) of
       None \<Rightarrow> (False, r)
     | Some body \<Rightarrow>
         (case str_field body ''msgId'' of
           None \<Rightarrow> (False, r)
         | Some msg_id \<Rightarrow>
             let (handled, r1) = was_handled_locally now device_id msg_id r
             in if \<not> handled then (False, r1)
                else (True, count (\<lambda>c. c\<lparr>rc_suppressed_late_cloud_responses := rc_suppressed_late_cloud_responses c + 1\<rparr>) r1)))"

section \<open>Deciding\<close>

text \<open>\<open>abs(time.time() - device_ts / 1000) > tolerance\<close>; every comparison with NaN is false.\<close>

definition device_clock_has_drifted :: "seconds \<Rightarrow> json_dict \<Rightarrow> LocalResponderSettings \<Rightarrow> bool" where
  "device_clock_has_drifted now body settings =
     (let drifted = (\<lambda>ts :: rat. \<bar>now - ts / 1000\<bar> > ls_clock_drift_tolerance_seconds settings)
      in case dict_get body ''ts'' of
        Some (JInt i) \<Rightarrow> drifted (of_int i)
      | Some (JBool b) \<Rightarrow> drifted (if b then 1 else 0)
      | Some (JFloat m e) \<Rightarrow> drifted (of_int m * (if 0 \<le> e then 10 ^ nat e else 1 / 10 ^ nat (- e)))
      | Some JNaN \<Rightarrow> False
      | Some (JInf _) \<Rightarrow> True
      | _ \<Rightarrow> True)"

definition is_ack_for_local_message :: "seconds \<Rightarrow> string \<Rightarrow> string \<Rightarrow> json_dict \<Rightarrow> LocalResponder \<Rightarrow> bool \<times> LocalResponder" where
  "is_ack_for_local_message now device_id command body r =
     (if command \<noteq> cmd_NTP_SYNC then (False, r)
      else (case str_field body ''msgId'' of
        None \<Rightarrow> (False, r)
      | Some msg_id \<Rightarrow> was_handled_locally now device_id msg_id r))"

definition record_reported :: "seconds \<Rightarrow> string \<Rightarrow> string \<Rightarrow> json_dict \<Rightarrow> LocalResponder \<Rightarrow> LocalResponder" where
  "record_reported now device_id command body r =
     (if command = cmd_HEARTBEAT then
        r\<lparr>lr_shadow := update_reported now device_id
          [(''last_heartbeat_ts'', json_or_null body ''ts''), (''rssi'', json_or_null body ''rssi''),
           (''wifi_type'', json_or_null body ''wifiType'')] (lr_shadow r)\<rparr>
      else if command = cmd_DEVICE_START_EVENT then
        let r1 = r\<lparr>lr_shadow := update_reported now device_id
              [(''firmware'', json_or_null body ''softwareVersion''), (''hardware_version'', json_or_null body ''hardwareVersion''),
               (''mac'', json_or_null body ''mac'')] (lr_shadow r)\<rparr>;
            uid = dict_get body ''uuid''
        in (case str_field body ''uuid'' of
             None \<Rightarrow> r1
           | Some u \<Rightarrow>
               if is_camera_uid uid then
                 let r2 = r1\<lparr>lr_shadow := snd (record_camera_uid now device_id u None (lr_shadow r1))\<rparr>
                 in if lr_has_uid_observer r2 then r2\<lparr>lr_uid_calls := lr_uid_calls r2 @ [(device_id, u)]\<rparr> else r2
               else r1)
      else r)"

definition reply :: "seconds \<Rightarrow> string \<Rightarrow> string \<Rightarrow> json_dict \<Rightarrow> string option \<Rightarrow> string \<Rightarrow> LocalResponder
    \<Rightarrow> ResponderAction \<times> LocalResponder" where
  "reply now device_id category payload handled_msg_id product_id r =
     (\<lparr>ra_decision = RESPOND_LOCAL, ra_response_topic = Some (sub_topic device_id category product_id),
       ra_response_payload = Some (json_dumps (JObj payload)), ra_handled_msg_id = handled_msg_id\<rparr>,
      case handled_msg_id of
        None \<Rightarrow> r
      | Some m \<Rightarrow> r\<lparr>lr_handled_msg_ids := dict_set (device_id, m) now (lr_handled_msg_ids r)\<rparr>)"

definition now_ms :: "seconds \<Rightarrow> int" where
  "now_ms now = as_ms now"

definition respond_ntp :: "seconds \<Rightarrow> string \<Rightarrow> zone \<Rightarrow> string \<Rightarrow> string \<Rightarrow> LocalResponder \<Rightarrow> ResponderAction \<times> LocalResponder" where
  "respond_ntp now fresh_id zone device_id product_id r =
     (let schedule = dst_compute zone now;
          base = [(''cmd'', JStr cmd_NTP_SYNC), (''ts'', JInt (now_ms now)), (''msgId'', JStr fresh_id),
            (''timezoneOffsetSeconds'', JInt (dst_offset_seconds schedule)),
            (''timezone'', JInt (dst_offset_seconds schedule div 3600))];
          opt = (\<lambda>x. case x of None \<Rightarrow> JNull | Some i \<Rightarrow> JInt i);
          next = (case dst_next_transition_ts_ms schedule of None \<Rightarrow> []
            | Some t \<Rightarrow> [(''nextDSTOffsetSeconds'', opt (dst_next_offset_seconds schedule)), (''nextDSTTransitionTs'', JInt t)]);
          second = (case dst_second_next_transition_ts_ms schedule of None \<Rightarrow> []
            | Some t \<Rightarrow> [(''secondNextDSTOffsetSeconds'', opt (dst_second_next_offset_seconds schedule)),
                (''secondNextDSTTransitionTs'', JInt t)])
      in reply now device_id ''ntp'' (base @ next @ second) (Some fresh_id) product_id
           (count (\<lambda>c. c\<lparr>rc_local_responses := rc_local_responses c + 1\<rparr>) r))"

definition falsy_json :: "json \<Rightarrow> bool" where
  "falsy_json v = (case v of JNull \<Rightarrow> True | JBool b \<Rightarrow> \<not> b | JInt i \<Rightarrow> i = 0 | JFloat m e \<Rightarrow> m = 0 | JStr s \<Rightarrow> s = []
     | JList xs \<Rightarrow> xs = [] | JObj d \<Rightarrow> d = [] | _ \<Rightarrow> False)"

definition cache_miss :: "LocalResponder \<Rightarrow> LocalResponder" where
  "cache_miss r = count (\<lambda>c. c\<lparr>rc_cache_misses := rc_cache_misses c + 1\<rparr>) r"

definition cache_hit :: "LocalResponder \<Rightarrow> LocalResponder" where
  "cache_hit r = count (\<lambda>c. c\<lparr>rc_cache_hits := rc_cache_hits c + 1, rc_local_responses := rc_local_responses c + 1\<rparr>) r"

definition respond_feeding_plan :: "seconds \<Rightarrow> string \<Rightarrow> json_dict \<Rightarrow> string \<Rightarrow> LocalResponder
    \<Rightarrow> (ResponderAction \<times> LocalResponder) option" where
  "respond_feeding_plan now device_id body product_id r =
     (case get_feeding_plans (lr_shadow r) device_id of
       None \<Rightarrow> None
     | Some stored \<Rightarrow>
         (case stored of
           None \<Rightarrow> Some (plain_action CACHE_AND_FORWARD, cache_miss r)
         | Some st \<Rightarrow>
             if falsy_json (fp_plans st) then Some (plain_action CACHE_AND_FORWARD, cache_miss r)
             else (case str_field body ''msgId'' of
               None \<Rightarrow> Some (plain_action CACHE_AND_FORWARD, r)
             | Some msg_id \<Rightarrow>
                 Some (reply now device_id ''service''
                   [(''cmd'', JStr cmd_FEEDING_PLAN_SERVICE), (''ts'', JInt (now_ms now)), (''msgId'', JStr msg_id),
                    (''plans'', fp_plans st)] (Some msg_id) product_id (cache_hit r)))))"

definition respond_config :: "seconds \<Rightarrow> string \<Rightarrow> json_dict \<Rightarrow> string \<Rightarrow> LocalResponder
    \<Rightarrow> (ResponderAction \<times> LocalResponder) option" where
  "respond_config now device_id body product_id r =
     (case get_desired (lr_shadow r) device_id of
       None \<Rightarrow> None
     | Some desired \<Rightarrow>
         if desired = [] then Some (plain_action CACHE_AND_FORWARD, cache_miss r)
         else (case str_field body ''msgId'' of
           None \<Rightarrow> Some (plain_action CACHE_AND_FORWARD, r)
         | Some msg_id \<Rightarrow>
             Some (reply now device_id ''service''
               (dict_merge [(''cmd'', JStr cmd_ATTR_SET_SERVICE), (''ts'', JInt (now_ms now)), (''msgId'', JStr msg_id)] desired)
               (Some msg_id) product_id (cache_hit r))))"

text \<open>The part of \<open>decide\<close> after the acknowledgement check.\<close>

definition choose_answer :: "seconds \<Rightarrow> string \<Rightarrow> zone \<Rightarrow> string \<Rightarrow> string \<Rightarrow> UpstreamState \<Rightarrow> string \<Rightarrow> json_dict \<Rightarrow> LocalResponder
    \<Rightarrow> (ResponderAction \<times> LocalResponder) option" where
  "choose_answer now fresh_id zone device_id product_id upstream command body r =
     (let settings = lr_settings r;
          may_answer_ntp = (command = cmd_NTP \<and> ls_ntp settings \<and>
            (ls_always_answer_ntp_locally settings \<or> \<not> upstream_is_online upstream))
      in if may_answer_ntp then
           if \<not> device_clock_has_drifted now body settings then Some (plain_action CACHE_AND_FORWARD, r)
           else Some (respond_ntp now fresh_id zone device_id product_id r)
         else if upstream_is_online upstream then Some (plain_action CACHE_AND_FORWARD, r)
         else if command = cmd_FEEDING_PLAN_SERVICE \<and> ls_feeding_plan settings then
           respond_feeding_plan now device_id body product_id r
         else if command = cmd_ATTR_GET_SERVICE \<and> ls_config settings then
           respond_config now device_id body product_id r
         else Some (plain_action CACHE_AND_FORWARD,
           if command \<in> set NEVER_LOCAL then r
           else count (\<lambda>c. c\<lparr>rc_unknown_requests := rc_unknown_requests c + 1\<rparr>) r))"

definition decide :: "seconds \<Rightarrow> string \<Rightarrow> zone \<Rightarrow> string \<Rightarrow> string \<Rightarrow> bytes \<Rightarrow> UpstreamState \<Rightarrow> LocalResponder
    \<Rightarrow> (ResponderAction \<times> LocalResponder) option" where
  "decide now fresh_id zone device_id topic payload upstream r0 =
     (let (command, body) = parse payload;
          r1 = r0\<lparr>lr_shadow := record_raw now device_id topic payload command (lr_shadow r0)\<rparr>
      in case (command, body) of
        (Some cmd, Some b) \<Rightarrow>
          let r2 = record_reported now device_id cmd b r1
          in if \<not> ls_enabled (lr_settings r2) then Some (plain_action CACHE_AND_FORWARD, r2)
             else
               let product_id = (case parse_topic topic of None \<Rightarrow> PRODUCT_ID | Some a \<Rightarrow> ta_product_id a);
                   (ack, r3) = is_ack_for_local_message now device_id cmd b r2
               in if ack then Some (plain_action IGNORE, r3)
                  else choose_answer now fresh_id zone device_id product_id upstream cmd b r3
      | _ \<Rightarrow> Some (plain_action CACHE_AND_FORWARD, r1))"

section \<open>What the operations keep\<close>

lemma settings_keep [simp]:
  "lr_settings (count f r) = lr_settings r" "lr_settings (record_reported now d cmd b r) = lr_settings r"
  "lr_settings (snd (was_handled_locally now d m r)) = lr_settings r"
  "lr_settings (snd (is_ack_for_local_message now d cmd b r)) = lr_settings r"
  "lr_settings (cache_hit r) = lr_settings r" "lr_settings (cache_miss r) = lr_settings r"
  by (simp_all add: count_def record_reported_def was_handled_locally_def is_ack_for_local_message_def
      cache_hit_def cache_miss_def Let_def split: option.splits)

lemma shadow_keep [simp]:
  "lr_shadow (count f r) = lr_shadow r" "lr_shadow (snd (was_handled_locally now d m r)) = lr_shadow r"
  "lr_shadow (snd (is_ack_for_local_message now d cmd b r)) = lr_shadow r"
  "lr_shadow (cache_hit r) = lr_shadow r" "lr_shadow (cache_miss r) = lr_shadow r"
  by (simp_all add: count_def was_handled_locally_def is_ack_for_local_message_def cache_hit_def cache_miss_def
      Let_def split: option.splits)

lemma handled_keep [simp]:
  "lr_handled_msg_ids (count f r) = lr_handled_msg_ids r"
  "lr_handled_msg_ids (record_reported now d cmd b r) = lr_handled_msg_ids r"
  "lr_handled_msg_ids (cache_hit r) = lr_handled_msg_ids r" "lr_handled_msg_ids (cache_miss r) = lr_handled_msg_ids r"
  by (simp_all add: count_def record_reported_def cache_hit_def cache_miss_def Let_def split: option.splits)

lemma ttl_keep [simp]:
  "lr_handled_msg_id_ttl_seconds (count f r) = lr_handled_msg_id_ttl_seconds r"
  "lr_handled_msg_id_ttl_seconds (record_reported now d cmd b r) = lr_handled_msg_id_ttl_seconds r"
  "lr_handled_msg_id_ttl_seconds (snd (was_handled_locally now d m r)) = lr_handled_msg_id_ttl_seconds r"
  "lr_handled_msg_id_ttl_seconds (snd (is_ack_for_local_message now d cmd b r)) = lr_handled_msg_id_ttl_seconds r"
  "lr_handled_msg_id_ttl_seconds (cache_hit r) = lr_handled_msg_id_ttl_seconds r"
  by (simp_all add: count_def record_reported_def was_handled_locally_def is_ack_for_local_message_def cache_hit_def
      Let_def split: option.splits)

lemma plain_action_decision [simp]: "ra_decision (plain_action d) = d"
  by (simp add: plain_action_def)

section \<open>Local answers\<close>

text \<open>Every local answer is a reply: to this device, remembered under the id it carries.\<close>

definition is_reply :: "seconds \<Rightarrow> string \<Rightarrow> string \<Rightarrow> LocalResponder \<Rightarrow> ResponderAction \<Rightarrow> LocalResponder \<Rightarrow> bool" where
  "is_reply now device_id product_id r a r' \<longleftrightarrow>
     (\<exists>category m payload. category \<in> {''ntp'', ''service''} \<and>
        ra_response_topic a = Some (sub_topic device_id category product_id) \<and>
        ra_response_payload a = Some (json_dumps (JObj payload)) \<and> ra_handled_msg_id a = Some m \<and>
        lr_handled_msg_ids r' = dict_set (device_id, m) now (lr_handled_msg_ids r) \<and>
        lr_handled_msg_id_ttl_seconds r' = lr_handled_msg_id_ttl_seconds r)"

lemma reply_is_reply: "category \<in> {''ntp'', ''service''} \<Longrightarrow>
    is_reply now d prd r (fst (reply now d category p (Some m) prd (count f r))) (snd (reply now d category p (Some m) prd (count f r)))"
  unfolding is_reply_def
  by (intro exI [of _ category] exI [of _ m] exI [of _ p]) (auto simp: reply_def)

lemma respond_ntp_reply: "is_reply now d prd r (fst (respond_ntp now i zone d prd r)) (snd (respond_ntp now i zone d prd r))"
  unfolding respond_ntp_def Let_def by (rule reply_is_reply) simp

lemma reply_decision [simp]: "ra_decision (fst (reply now d category p m prd r)) = RESPOND_LOCAL"
  by (simp add: reply_def)

lemma cached_is_reply:
  "reply now d ''service'' p (Some m) prd (cache_hit r) = (a, r') \<Longrightarrow> is_reply now d prd r a r'"
proof -
  assume e: "reply now d ''service'' p (Some m) prd (cache_hit r) = (a, r')"
  have "is_reply now d prd r (fst (reply now d ''service'' p (Some m) prd (cache_hit r)))
      (snd (reply now d ''service'' p (Some m) prd (cache_hit r)))"
    unfolding cache_hit_def by (rule reply_is_reply) simp
  then show ?thesis by (simp only: e fst_conv snd_conv)
qed

lemma respond_feeding_plan_reply:
  "respond_feeding_plan now d b prd r = Some (a, r') \<Longrightarrow> ra_decision a = RESPOND_LOCAL \<Longrightarrow> is_reply now d prd r a r'"
  using cached_is_reply by (auto simp: respond_feeding_plan_def split: option.splits if_splits)

lemma respond_config_reply:
  "respond_config now d b prd r = Some (a, r') \<Longrightarrow> ra_decision a = RESPOND_LOCAL \<Longrightarrow> is_reply now d prd r a r'"
  using cached_is_reply by (auto simp: respond_config_def split: option.splits if_splits)

definition topic_product :: "string \<Rightarrow> string" where
  "topic_product topic = (case parse_topic topic of None \<Rightarrow> PRODUCT_ID | Some a \<Rightarrow> ta_product_id a)"

definition may_answer :: "LocalResponderSettings \<Rightarrow> UpstreamState \<Rightarrow> string \<Rightarrow> bool" where
  "may_answer s u cmd \<longleftrightarrow> ls_enabled s \<and>
     (cmd = cmd_NTP \<and> ls_ntp s \<and> (ls_always_answer_ntp_locally s \<or> \<not> upstream_is_online u) \<or>
      cmd = cmd_FEEDING_PLAN_SERVICE \<and> ls_feeding_plan s \<and> \<not> upstream_is_online u \<or>
      cmd = cmd_ATTR_GET_SERVICE \<and> ls_config s \<and> \<not> upstream_is_online u)"

lemma choose_answer_local:
  assumes "choose_answer now i zone d prd u cmd b r = Some (a, r')" "ra_decision a = RESPOND_LOCAL" "ls_enabled (lr_settings r)"
  shows "may_answer (lr_settings r) u cmd \<and> is_reply now d prd r a r'"
  using assms respond_ntp_reply [of now d prd r i zone] respond_feeding_plan_reply [of now d b prd r a r']
    respond_config_reply [of now d b prd r a r']
  by (auto simp: choose_answer_def may_answer_def Let_def split: if_splits)

text \<open>The state in which \<open>decide\<close> chooses, after recording what the message says.\<close>

definition after_recording :: "seconds \<Rightarrow> string \<Rightarrow> string \<Rightarrow> bytes \<Rightarrow> string \<Rightarrow> json_dict \<Rightarrow> LocalResponder \<Rightarrow> LocalResponder" where
  "after_recording now d topic payload cmd b r =
     record_reported now d cmd b (r\<lparr>lr_shadow := record_raw now d topic payload (Some cmd) (lr_shadow r)\<rparr>)"

lemma after_recording_keep [simp]:
  "lr_settings (after_recording now d topic payload cmd b r) = lr_settings r"
  "lr_handled_msg_ids (after_recording now d topic payload cmd b r) = lr_handled_msg_ids r"
  "lr_handled_msg_id_ttl_seconds (after_recording now d topic payload cmd b r) = lr_handled_msg_id_ttl_seconds r"
  by (simp_all add: after_recording_def)

lemma decide_eq:
  assumes "parse payload = (Some cmd, Some b)"
  shows "decide now i zone d topic payload u r =
    (let r2 = after_recording now d topic payload cmd b r; ack = is_ack_for_local_message now d cmd b r2
     in if \<not> ls_enabled (lr_settings r) then Some (plain_action CACHE_AND_FORWARD, r2)
        else if fst ack then Some (plain_action IGNORE, snd ack)
        else choose_answer now i zone d (topic_product topic) u cmd b (snd ack))"
  using assms by (simp add: decide_def after_recording_def topic_product_def Let_def case_prod_beta)

lemma decide_local:
  assumes "decide now i zone d topic payload u r = Some (a, r')" "ra_decision a = RESPOND_LOCAL"
  shows "\<exists>cmd b. parse payload = (Some cmd, Some b) \<and> may_answer (lr_settings r) u cmd \<and> is_reply now d (topic_product topic) r a r'"
proof -
  obtain command body where p: "parse payload = (command, body)" by force
  with assms obtain cmd b where "command = Some cmd" "body = Some b"
    by (cases command; cases body) (auto simp: decide_def Let_def)
  with p have pb: "parse payload = (Some cmd, Some b)" by simp
  let ?ack = "is_ack_for_local_message now d cmd b (after_recording now d topic payload cmd b r)"
  have "choose_answer now i zone d (topic_product topic) u cmd b (snd ?ack) = Some (a, r')" "ls_enabled (lr_settings r)"
    using assms unfolding decide_eq [OF pb] by (auto simp: Let_def split: if_splits)
  from choose_answer_local [OF this(1) assms(2)] this(2)
  have ans: "may_answer (lr_settings r) u cmd" and rep: "is_reply now d (topic_product topic) (snd ?ack) a r'" by simp_all
  from ans have "cmd \<noteq> cmd_NTP_SYNC" by (auto simp: may_answer_def)
  then have "lr_handled_msg_ids (snd ?ack) = lr_handled_msg_ids r" by (simp add: is_ack_for_local_message_def)
  with ans rep pb show ?thesis by (simp add: is_reply_def)
qed

lemma never_local_not_answered: "cmd \<in> set NEVER_LOCAL \<Longrightarrow> \<not> may_answer s u cmd"
  by (auto simp: NEVER_LOCAL_def may_answer_def)

section \<open>Suppression of late cloud answers\<close>

definition responder_inv :: "LocalResponder \<Rightarrow> bool" where
  "responder_inv r \<longleftrightarrow> dict_wf (lr_handled_msg_ids r)"

lemma was_handled_iff:
  assumes "responder_inv r"
  shows "fst (was_handled_locally now d m r) \<longleftrightarrow>
    (\<exists>seen. dict_get (lr_handled_msg_ids r) (d, m) = Some seen \<and> now - lr_handled_msg_id_ttl_seconds r \<le> seen)"
  using assms by (auto simp: responder_inv_def was_handled_locally_def Let_def dict_get_filter split: option.splits)

lemma was_handled_state:
  assumes "responder_inv r"
  shows "responder_inv (snd (was_handled_locally now d m r))"
    "dict_get (lr_handled_msg_ids (snd (was_handled_locally now d m r))) k = Some seen \<Longrightarrow>
      dict_get (lr_handled_msg_ids r) k = Some seen"
  using assms by (auto simp: responder_inv_def was_handled_locally_def Let_def dict_get_filter split: option.splits if_splits)

lemma is_ack_state:
  assumes "responder_inv r"
  shows "responder_inv (snd (is_ack_for_local_message now d cmd b r))"
    "dict_get (lr_handled_msg_ids (snd (is_ack_for_local_message now d cmd b r))) k = Some seen \<Longrightarrow>
      dict_get (lr_handled_msg_ids r) k = Some seen"
  using assms was_handled_state [OF assms]
  by (cases "cmd = cmd_NTP_SYNC"; cases "str_field b ''msgId''"; simp add: is_ack_for_local_message_def)+

lemma reply_state:
  "responder_inv r \<Longrightarrow> responder_inv (snd (reply now d category p m prd r))"
  "d' \<noteq> d \<Longrightarrow> dict_get (lr_handled_msg_ids (snd (reply now d category p m prd r))) (d', x) = dict_get (lr_handled_msg_ids r) (d', x)"
  "lr_handled_msg_id_ttl_seconds (snd (reply now d category p m prd r)) = lr_handled_msg_id_ttl_seconds r"
  by (auto simp: reply_def responder_inv_def split: option.splits)

lemma responder_inv_count [simp]: "responder_inv (count f r) = responder_inv r" "responder_inv (cache_hit r) = responder_inv r"
  "responder_inv (cache_miss r) = responder_inv r"
  by (simp_all add: responder_inv_def)

text \<open>The ways an answer changes the responder: not at all, a counter, or a counter and a reply.\<close>

inductive answer_step :: "seconds \<Rightarrow> string \<Rightarrow> LocalResponder \<Rightarrow> LocalResponder \<Rightarrow> bool" where
  "answer_step now d r r"
| "answer_step now d r (count f r)"
| "answer_step now d r (snd (reply now d category p m prd (count f r)))"

lemma respond_steps:
  "answer_step now d r (snd (respond_ntp now i zone d prd r))"
  "respond_feeding_plan now d b prd r = Some (a, r') \<Longrightarrow> answer_step now d r r'"
  "respond_config now d b prd r = Some (a, r') \<Longrightarrow> answer_step now d r r'"
proof -
  show "answer_step now d r (snd (respond_ntp now i zone d prd r))"
    unfolding respond_ntp_def Let_def by (rule answer_step.intros)
  have hit: "answer_step now d r r'" if "reply now d category p m prd (cache_hit r) = (a, r')" for category p m
  proof -
    have "r' = snd (reply now d category p m prd (cache_hit r))" by (simp only: that snd_conv)
    then show ?thesis unfolding cache_hit_def by (simp only: answer_step.intros(3))
  qed
  have miss: "answer_step now d r (cache_miss r)"
    unfolding cache_miss_def by (rule answer_step.intros(2))
  note outcomes = hit miss answer_step.intros(1)
  show "answer_step now d r r'" if "respond_feeding_plan now d b prd r = Some (a, r')"
    using that unfolding respond_feeding_plan_def
    by (simp split: option.splits if_splits) (blast intro: outcomes)+
  show "answer_step now d r r'" if "respond_config now d b prd r = Some (a, r')"
    using that unfolding respond_config_def
    by (simp split: option.splits if_splits) (blast intro: outcomes)+
qed

lemma choose_answer_step:
  assumes "choose_answer now i zone d prd u cmd b r = Some (a, r')"
  shows "answer_step now d r r'"
proof -
  have "respond_ntp now i zone d prd r = (a, r') \<Longrightarrow> answer_step now d r r'"
    using respond_steps(1) by (metis snd_conv)
  with assms respond_steps(2,3) answer_step.intros(1,2) show ?thesis
    by (auto simp: choose_answer_def Let_def split: if_splits)
qed

lemma answer_step_state:
  assumes "answer_step now d r r'"
  shows "responder_inv r \<Longrightarrow> responder_inv r'"
    "d' \<noteq> d \<Longrightarrow> dict_get (lr_handled_msg_ids r') (d', x) = dict_get (lr_handled_msg_ids r) (d', x)"
    "lr_handled_msg_id_ttl_seconds r' = lr_handled_msg_id_ttl_seconds r"
  using assms by (auto elim!: answer_step.cases simp: reply_state)

lemmas choose_answer_state = answer_step_state [OF choose_answer_step]

lemma decide_state:
  assumes "decide now i zone d topic payload u r = Some (a, r')" "responder_inv r"
  shows "responder_inv r'"
    "d' \<noteq> d \<Longrightarrow> dict_get (lr_handled_msg_ids r') (d', x) = Some seen \<Longrightarrow> dict_get (lr_handled_msg_ids r) (d', x) = Some seen"
    "lr_handled_msg_id_ttl_seconds r' = lr_handled_msg_id_ttl_seconds r"
proof -
  let ?goal = "responder_inv r' \<and> (d' \<noteq> d \<longrightarrow> dict_get (lr_handled_msg_ids r') (d', x) = Some seen \<longrightarrow>
      dict_get (lr_handled_msg_ids r) (d', x) = Some seen) \<and> lr_handled_msg_id_ttl_seconds r' = lr_handled_msg_id_ttl_seconds r"
  have ?goal
  proof (cases "\<exists>cmd b. parse payload = (Some cmd, Some b)")
    case True
    then obtain cmd b where p: "parse payload = (Some cmd, Some b)" by blast
    define r2 where "r2 = after_recording now d topic payload cmd b r"
    have r2: "responder_inv r2" using assms(2) by (simp add: r2_def responder_inv_def)
    have h2: "lr_handled_msg_ids r2 = lr_handled_msg_ids r" "lr_handled_msg_id_ttl_seconds r2 = lr_handled_msg_id_ttl_seconds r"
      by (simp_all add: r2_def)
    define r3 where "r3 = snd (is_ack_for_local_message now d cmd b r2)"
    have r3: "responder_inv r3" "lr_handled_msg_id_ttl_seconds r3 = lr_handled_msg_id_ttl_seconds r"
      using is_ack_state(1) [OF r2] by (simp_all add: r3_def h2)
    have h3: "dict_get (lr_handled_msg_ids r3) (d', x) = Some seen \<Longrightarrow> dict_get (lr_handled_msg_ids r) (d', x) = Some seen"
      unfolding r3_def using is_ack_state(2) [OF r2] h2 by metis
    have "r' = r2 \<or> r' = r3 \<or> choose_answer now i zone d (topic_product topic) u cmd b r3 = Some (a, r')"
      using assms(1) unfolding decide_eq [OF p] by (auto simp: Let_def r2_def r3_def split: if_splits)
    then show ?thesis
      using r2 h2 r3 h3 choose_answer_state [of now i zone d "topic_product topic" u cmd b r3 a r'] by auto
  next
    case False
    with assms have "r' = r\<lparr>lr_shadow := record_raw now d topic payload (fst (parse payload)) (lr_shadow r)\<rparr>"
      by (cases "parse payload") (auto simp: decide_def Let_def split: option.splits)
    with assms(2) show ?thesis by (simp add: responder_inv_def)
  qed
  then show "responder_inv r'"
    "d' \<noteq> d \<Longrightarrow> dict_get (lr_handled_msg_ids r') (d', x) = Some seen \<Longrightarrow> dict_get (lr_handled_msg_ids r) (d', x) = Some seen"
    "lr_handled_msg_id_ttl_seconds r' = lr_handled_msg_id_ttl_seconds r" by blast+
qed

lemma suppressed_iff:
  assumes "responder_inv r" "parse payload = (c, Some body)" "str_field body ''msgId'' = Some m"
  shows "fst (is_suppressed_cloud_response now d payload r) \<longleftrightarrow>
    (\<exists>seen. dict_get (lr_handled_msg_ids r) (d, m) = Some seen \<and> now - lr_handled_msg_id_ttl_seconds r \<le> seen)"
  using assms was_handled_iff [OF assms(1), of now d m]
  by (auto simp: is_suppressed_cloud_response_def case_prod_beta Let_def)

section \<open>Answers from the cache\<close>

lemma upsert_plan_feeding [simp]: "sh_feeding_plans (upsert_plan now d src p s) = sh_feeding_plans s"
  by (simp add: upsert_plan_def split: option.splits)

lemma fold_upsert_feeding: "sh_feeding_plans (fold (upsert_plan now d src) ps s) = sh_feeding_plans s"
  by (induction ps arbitrary: s) simp_all

lemma cloud_plans_feeding [simp]: "sh_feeding_plans (update_cloud_schedule_plans now d plans s) = sh_feeding_plans s"
  by (simp add: update_cloud_schedule_plans_def Let_def fold_upsert_feeding)

lemma record_raw_keep [simp]: "sh_feeding_plans (record_raw now d t p c s) = sh_feeding_plans s"
  "sh_desired (record_raw now d t p c s) = sh_desired s"
  by (simp_all add: record_raw_def)

lemma observe_plans:
  assumes "parse payload = (Some cmd_FEEDING_PLAN_SERVICE, Some b)" "dict_get b ''plans'' = Some (JList plans)"
    "list_all is_complete_plan plans" "plain_json (JList plans)" "bindable (dict_get b ''msgId'')"
  shows "get_feeding_plans (lr_shadow (snd (observe_cloud_message now d topic payload r))) d =
    Some (Some \<lparr>fp_plans = JList plans, fp_source_msg_id = text_column (dict_get b ''msgId''), fp_updated_at = now\<rparr>)"
  using assms json_loads_dumps [OF assms(4)]
  by (simp add: observe_cloud_message_def update_feeding_plans_def get_feeding_plans_def Let_def)

lemma answer_plans:
  assumes "get_feeding_plans (lr_shadow r) d = Some (Some st)" "\<not> falsy_json (fp_plans st)"
    "parse request = (Some cmd_FEEDING_PLAN_SERVICE, Some b)" "str_field b ''msgId'' = Some m"
    "ls_enabled (lr_settings r)" "ls_feeding_plan (lr_settings r)" "\<not> upstream_is_online u"
  shows "\<exists>a r'. decide now i zone d topic request u r = Some (a, r') \<and> ra_decision a = RESPOND_LOCAL \<and>
    ra_response_topic a = Some (sub_topic d ''service'' (topic_product topic)) \<and>
    ra_response_payload a = Some (json_dumps (JObj [(''cmd'', JStr cmd_FEEDING_PLAN_SERVICE), (''ts'', JInt (now_ms now)),
      (''msgId'', JStr m), (''plans'', fp_plans st)])) \<and> ra_handled_msg_id a = Some m"
proof -
  have s: "lr_shadow (after_recording now d topic request cmd_FEEDING_PLAN_SERVICE b r) =
      record_raw now d topic request (Some cmd_FEEDING_PLAN_SERVICE) (lr_shadow r)"
    by (simp add: after_recording_def record_reported_def)
  have "get_feeding_plans (record_raw now d topic request c (lr_shadow r)) d = Some (Some st)" for c
    using assms(1) by (simp add: get_feeding_plans_def)
  with assms s show ?thesis
    by (simp add: decide_eq is_ack_for_local_message_def choose_answer_def respond_feeding_plan_def reply_def Let_def)
qed

section \<open>Reachable responders\<close>

inductive responder_reachable :: "LocalResponderSettings \<Rightarrow> LocalResponder \<Rightarrow> bool" for settings where
  responder_start: "responder_reachable settings (init_responder settings open_shadow ttl observer)"
| responder_observe: "responder_reachable settings r \<Longrightarrow> responder_reachable settings (snd (observe_cloud_message now d topic payload r))"
| responder_decide: "responder_reachable settings r \<Longrightarrow> decide now i zone d topic payload u r = Some (a, r') \<Longrightarrow>
    responder_reachable settings r'"
| responder_suppress: "responder_reachable settings r \<Longrightarrow>
    responder_reachable settings (snd (is_suppressed_cloud_response now d payload r))"

text \<open>The desired settings never hold one of the keys a reply uses for itself.\<close>

definition RESERVED :: "string set" where
  "RESERVED = {''cmd'', ''ts'', ''msgId''}"

definition desired_clean :: "StateShadow \<Rightarrow> bool" where
  "desired_clean s \<longleftrightarrow> dict_wf (sh_desired s) \<and> (\<forall>e\<in>set (sh_desired s). snd (fst e) \<notin> RESERVED)"

lemma update_kv_keys:
  "e \<in> set (update_kv now d vals t) \<Longrightarrow> fst e \<in> fst ` set t \<or> (\<exists>k\<in>fst ` set vals. fst e = (d, k))"
proof (induction now d vals t rule: update_kv.induct)
  case (2 now d k v vals t)
  then have "fst e \<in> insert (d, k) (fst ` set t) \<or> (\<exists>k'\<in>fst ` set vals. fst e = (d, k'))"
    by (simp add: dom_update)
  then show ?case by auto
qed simp

lemma desired_clean_update:
  assumes "desired_clean s" "\<forall>kv\<in>set vals. fst kv \<notin> RESERVED"
  shows "desired_clean (update_desired now d vals s)"
proof -
  have "snd (fst e) \<notin> RESERVED" if "e \<in> set (update_kv now d vals (sh_desired s))" for e
    using update_kv_keys [OF that] assms by (fastforce simp: desired_clean_def)
  with assms(1) show ?thesis by (simp add: desired_clean_def update_desired_def dict_wf_update_kv)
qed

lemma desired_keep [simp]:
  "sh_desired (upsert_plan now d src p s) = sh_desired s"
  "sh_desired (update_feeding_plans now d plans m s) = sh_desired s"
  "sh_desired (update_reported now d vals s) = sh_desired s"
  "sh_desired (snd (record_camera_uid now d uid ip s)) = sh_desired s"
  by (simp_all add: upsert_plan_def update_feeding_plans_def update_reported_def record_camera_uid_def Let_def split: option.splits)

lemma cloud_plans_desired [simp]: "sh_desired (update_cloud_schedule_plans now d plans s) = sh_desired s"
proof -
  have "sh_desired (fold (upsert_plan now d src) ps s) = sh_desired s" for src ps s
    by (induction ps arbitrary: s) simp_all
  then show ?thesis by (simp add: update_cloud_schedule_plans_def Let_def)
qed

lemma observe_keep [simp]:
  "lr_settings (snd (observe_cloud_message now d topic payload r)) = lr_settings r"
  "lr_handled_msg_ids (snd (observe_cloud_message now d topic payload r)) = lr_handled_msg_ids r"
  "lr_handled_msg_id_ttl_seconds (snd (observe_cloud_message now d topic payload r)) = lr_handled_msg_id_ttl_seconds r"
  by (simp_all add: observe_cloud_message_def Let_def case_prod_beta)

lemma desired_clean_cong: "sh_desired s = sh_desired s' \<Longrightarrow> desired_clean s = desired_clean s'"
  by (simp add: desired_clean_def)

lemma observe_desired_clean:
  assumes "desired_clean (lr_shadow r)"
  shows "desired_clean (lr_shadow (snd (observe_cloud_message now d topic payload r)))"
proof -
  obtain c b where p: "parse payload = (c, b)" by force
  let ?s = "\<lambda>c. record_raw now d topic payload c (lr_shadow r)"
  have s: "desired_clean (?s c)" for c using assms by (simp add: desired_clean_def)
  have plans: "desired_clean (update_cloud_schedule_plans now d ps (update_feeding_plans now d qs m (?s c)))" for ps qs m c
    using s by (simp add: desired_clean_def)
  have feeding: "desired_clean (update_feeding_plans now d qs m (?s c))" for qs m c
    using s by (simp add: desired_clean_def update_feeding_plans_def)
  have push: "desired_clean (update_desired now d (filter (\<lambda>kv. fst kv \<notin> {''cmd'', ''ts'', ''msgId''}) b') (?s c))" for b' c
    using s by (intro desired_clean_update) (auto simp: RESERVED_def)
  show ?thesis
    using s plans feeding push
    by (simp add: observe_cloud_message_def p Let_def split: option.split json.split)
qed

lemma record_reported_desired [simp]: "sh_desired (lr_shadow (record_reported now d cmd b r)) = sh_desired (lr_shadow r)"
  by (simp add: record_reported_def Let_def split: option.split)

lemma answer_step_shadow: "answer_step now d r r' \<Longrightarrow> lr_shadow r' = lr_shadow r \<and> lr_settings r' = lr_settings r"
  by (erule answer_step.cases) (simp_all add: reply_def split: option.split)

lemma decide_shadow:
  assumes "decide now i zone d topic payload u r = Some (a, r')"
  shows "sh_desired (lr_shadow r') = sh_desired (lr_shadow r) \<and> lr_settings r' = lr_settings r"
proof (cases "\<exists>cmd b. parse payload = (Some cmd, Some b)")
  case True
  then obtain cmd b where p: "parse payload = (Some cmd, Some b)" by blast
  let ?r2 = "after_recording now d topic payload cmd b r"
  let ?r3 = "snd (is_ack_for_local_message now d cmd b ?r2)"
  have "r' = ?r2 \<or> r' = ?r3 \<or> choose_answer now i zone d (topic_product topic) u cmd b ?r3 = Some (a, r')"
    using assms unfolding decide_eq [OF p] by (auto simp: Let_def split: if_splits)
  with choose_answer_step answer_step_shadow have "r' = ?r2 \<or> r' = ?r3 \<or> (lr_shadow r' = lr_shadow ?r3 \<and> lr_settings r' = lr_settings ?r3)"
    by blast
  then show ?thesis by (auto simp: after_recording_def)
next
  case False
  with assms have "r' = r\<lparr>lr_shadow := record_raw now d topic payload (fst (parse payload)) (lr_shadow r)\<rparr>"
    by (cases "parse payload") (auto simp: decide_def Let_def split: option.splits)
  then show ?thesis by simp
qed

lemma suppress_keep:
  "responder_inv r \<Longrightarrow> responder_inv (snd (is_suppressed_cloud_response now d payload r))"
  "lr_shadow (snd (is_suppressed_cloud_response now d payload r)) = lr_shadow r"
  "lr_settings (snd (is_suppressed_cloud_response now d payload r)) = lr_settings r"
  using was_handled_state(1) by (auto simp: is_suppressed_cloud_response_def Let_def case_prod_beta split: option.splits)

lemma reachable_responder_inv:
  "responder_reachable settings r \<Longrightarrow> responder_inv r \<and> desired_clean (lr_shadow r) \<and> lr_settings r = settings"
proof (induction rule: responder_reachable.induct)
  case (responder_start ttl observer)
  then show ?case by (simp add: responder_inv_def init_responder_def desired_clean_def open_shadow_def)
next
  case (responder_observe r now d topic payload)
  then show ?case by (simp add: observe_desired_clean responder_inv_def)
next
  case (responder_decide r now i zone d topic payload u a r')
  then show ?case using decide_state(1) decide_shadow desired_clean_cong by metis
next
  case (responder_suppress r now d payload)
  then show ?case by (simp add: suppress_keep)
qed

lemma reply_handled_id: "is_reply now d prd r a r' \<Longrightarrow> ra_handled_msg_id a = Some m \<Longrightarrow>
    lr_handled_msg_ids r' = dict_set (d, m) now (lr_handled_msg_ids r) \<and>
    lr_handled_msg_id_ttl_seconds r' = lr_handled_msg_id_ttl_seconds r"
  by (auto simp: is_reply_def)

lemma suppressed_after_answer:
  assumes inv: "responder_inv r" "responder_inv r'" and ans: "is_reply t0 d prd r a r'" "ra_handled_msg_id a = Some m"
    and late: "parse payload = (c, Some body)" "str_field body ''msgId'' = Some m"
  shows "fst (is_suppressed_cloud_response now d' payload r') \<longleftrightarrow>
    (if d' = d then now \<le> t0 + lr_handled_msg_id_ttl_seconds r else fst (is_suppressed_cloud_response now d' payload r))"
proof -
  note h = reply_handled_id [OF ans]
  show ?thesis
    unfolding suppressed_iff [OF inv(1) late] suppressed_iff [OF inv(2) late] using h by auto
qed

lemma read_kv_keys:
  assumes "read_kv t d = Some m"
  shows "fst ` set m = (\<lambda>e. snd (fst e)) ` {e \<in> set t. fst (fst e) = d}" "dict_wf t \<Longrightarrow> dict_wf m"
proof -
  have m: "m = map (the \<circ> decode_row) (filter (\<lambda>e. fst (fst e) = d) t)"
    and ok: "\<forall>e\<in>set (filter (\<lambda>e. fst (fst e) = d) t). decode_row e \<noteq> None"
    using those_map_Some assms unfolding read_kv_def by blast+
  have keys: "map fst m = map (\<lambda>e. snd (fst e)) (filter (\<lambda>e. fst (fst e) = d) t)"
    unfolding m using ok by (fastforce simp: decode_row_def split: prod.splits)
  then show "fst ` set m = (\<lambda>e. snd (fst e)) ` {e \<in> set t. fst (fst e) = d}"
    by (metis set_map set_filter)
  show "dict_wf m" if "dict_wf t"
  proof -
    have "distinct (map (\<lambda>e. snd (fst e)) (filter (\<lambda>e. fst (fst e) = d) t))"
      using that unfolding dict_wf_def distinct_map inj_on_def
      by (simp add: distinct_filter) fastforce
    with keys show ?thesis by (simp add: dict_wf_def)
  qed
qed

lemma desired_clean_get:
  assumes "desired_clean s" "get_desired s d = Some desired"
  shows "dict_wf desired" "k \<in> RESERVED \<Longrightarrow> dict_get desired k = None"
  using assms read_kv_keys [OF assms(2) [unfolded get_desired_def]]
  by (auto simp: desired_clean_def map_of_eq_None_iff)

lemma answer_config:
  assumes "get_desired (lr_shadow r) d = Some desired" "desired \<noteq> []"
    "parse request = (Some cmd_ATTR_GET_SERVICE, Some b)" "str_field b ''msgId'' = Some m"
    "ls_enabled (lr_settings r)" "ls_config (lr_settings r)" "\<not> upstream_is_online u"
  shows "\<exists>a r'. decide now i zone d topic request u r = Some (a, r') \<and> ra_decision a = RESPOND_LOCAL \<and>
    ra_response_topic a = Some (sub_topic d ''service'' (topic_product topic)) \<and>
    ra_response_payload a = Some (json_dumps (JObj (dict_merge [(''cmd'', JStr cmd_ATTR_SET_SERVICE),
      (''ts'', JInt (now_ms now)), (''msgId'', JStr m)] desired)))"
proof -
  have s: "sh_desired (lr_shadow (after_recording now d topic request cmd_ATTR_GET_SERVICE b r)) = sh_desired (lr_shadow r)"
    by (simp add: after_recording_def)
  with assms(1) have "get_desired (lr_shadow (after_recording now d topic request cmd_ATTR_GET_SERVICE b r)) d = Some desired"
    by (simp add: get_desired_def)
  with assms show ?thesis
    by (simp add: decide_eq is_ack_for_local_message_def choose_answer_def respond_config_def reply_def Let_def)
qed

section \<open>Properties\<close>

lemma parse_dumps: "plain_json (JObj b) \<Longrightarrow> parse (json_dumps (JObj b)) = (str_field b ''cmd'', Some b)"
  by (simp add: parse_def json_loads_dumps str_field_def)

text \<open>A responder with every switch on, and a feeder's requests, for the concrete instances below.\<close>

definition all_on :: LocalResponderSettings where
  "all_on = \<lparr>ls_enabled = True, ls_ntp = True, ls_config = True, ls_feeding_plan = True,
     ls_always_answer_ntp_locally = False, ls_clock_drift_tolerance_seconds = 30\<rparr>"

definition request_body :: "string \<Rightarrow> json_dict" where
  "request_body cmd = [(''cmd'', JStr cmd), (''msgId'', JStr ''7'')]"

definition plan_body :: json_dict where
  "plan_body = [(''cmd'', JStr cmd_FEEDING_PLAN_SERVICE), (''msgId'', JStr ''7''),
     (''plans'', JList [JObj [(''planId'', JInt 1), (''executionTime'', JInt 0), (''grainNum'', JInt 2)]])]"

definition push_body :: json_dict where
  "push_body = [(''cmd'', JStr cmd_ATTR_SET_SERVICE), (''volume'', JInt 3)]"

lemma example_parses:
  "parse (json_dumps (JObj (request_body cmd_FEEDING_PLAN_SERVICE))) = (Some cmd_FEEDING_PLAN_SERVICE, Some (request_body cmd_FEEDING_PLAN_SERVICE))"
  "parse (json_dumps (JObj (request_body cmd_ATTR_GET_SERVICE))) = (Some cmd_ATTR_GET_SERVICE, Some (request_body cmd_ATTR_GET_SERVICE))"
  "parse (json_dumps (JObj plan_body)) = (Some cmd_FEEDING_PLAN_SERVICE, Some plan_body)"
  "parse (json_dumps (JObj push_body)) = (Some cmd_ATTR_SET_SERVICE, Some push_body)"
  by (subst parse_dumps; simp add: request_body_def plan_body_def push_body_def str_field_def)+

abbreviation example_responder :: LocalResponder where
  "example_responder \<equiv> init_responder all_on open_shadow 60 False"

abbreviation example_request :: "string \<Rightarrow> bytes" where
  "example_request cmd \<equiv> json_dumps (JObj (request_body cmd))"

lemma example_settings [simp]: "lr_settings (init_responder s shadow ttl ob) = s" "lr_shadow (init_responder s shadow ttl ob) = shadow"
  by (simp_all add: init_responder_def)

lemma example_plans:
  obtains plans where "dict_get plan_body ''plans'' = Some (JList plans)" "list_all is_complete_plan plans"
    "plain_json (JList plans)" "bindable (dict_get plan_body ''msgId'')" "plans \<noteq> []"
  by (simp add: plan_body_def is_complete_plan_def REQUIRED_PLAN_FIELDS_def bindable_def)

lemma example_request_id: "str_field (request_body cmd) ''msgId'' = Some ''7''"
  by (simp add: request_body_def str_field_def)

lemma example_answer:
  obtains a r' where "decide 2 ''i'' (\<lambda>_. 0) ''A'' ''t'' (example_request cmd_FEEDING_PLAN_SERVICE) DISCONNECTED
      (snd (observe_cloud_message 1 ''A'' ''t'' (json_dumps (JObj plan_body)) example_responder)) = Some (a, r')"
    "ra_decision a = RESPOND_LOCAL" "ra_handled_msg_id a = Some ''7''"
proof -
  obtain plans where plans: "dict_get plan_body ''plans'' = Some (JList plans)" "list_all is_complete_plan plans"
    "plain_json (JList plans)" "bindable (dict_get plan_body ''msgId'')" "plans \<noteq> []" by (rule example_plans)
  from answer_plans [OF observe_plans [OF example_parses(3) plans(1-4)] _ example_parses(1) example_request_id,
      of 1 "''A''" "''t''" example_responder DISCONNECTED 2 "''i''" "\<lambda>_. 0" "''t''"] plans(5) that
  show thesis by (auto simp: falsy_json_def all_on_def upstream_is_online_def)
qed

text \<open>
  C20: The relay answers a feeder itself only for a time, feeding-plan or settings request, with the
  matching switch on, and (for everything but time requests configured to be always local) only while
  the cloud is not online. Feeding, reboot, reset and restore commands are never answered locally. The
  answer is published on the requesting feeder's own topic and its message id is remembered.
\<close>

theorem local_answers_are_restricted:
  assumes "decide now i zone d topic payload u r = Some (a, r')" "ra_decision a = RESPOND_LOCAL"
  shows "\<exists>cmd b. parse payload = (Some cmd, Some b) \<and> may_answer (lr_settings r) u cmd \<and> cmd \<notin> set NEVER_LOCAL \<and>
    is_reply now d (topic_product topic) r a r'"
  using decide_local [OF assms] never_local_not_answered by blast

theorem local_answers_are_restricted_witness:
  "\<exists>r a r' cmd b. parse (example_request cmd_FEEDING_PLAN_SERVICE) = (Some cmd, Some b) \<and>
     may_answer (lr_settings r) DISCONNECTED cmd \<and> cmd \<notin> set NEVER_LOCAL \<and> is_reply 2 ''A'' (topic_product ''t'') r a r'"
proof -
  obtain a r' where "decide 2 ''i'' (\<lambda>_. 0) ''A'' ''t'' (example_request cmd_FEEDING_PLAN_SERVICE) DISCONNECTED
      (snd (observe_cloud_message 1 ''A'' ''t'' (json_dumps (JObj plan_body)) example_responder)) = Some (a, r')"
    "ra_decision a = RESPOND_LOCAL" by (rule example_answer)
  from local_answers_are_restricted [OF this] show ?thesis by blast
qed

text \<open>
  C22: After a local answer with message id \<open>m\<close>, a cloud message carrying \<open>m\<close> is withheld from that
  feeder exactly until the retention time has passed; for every other feeder the answer changes
  nothing.
\<close>

theorem late_cloud_answer_suppressed_exactly:
  assumes "responder_reachable settings r" "decide t0 i zone d topic payload u r = Some (a, r')"
    "ra_decision a = RESPOND_LOCAL" "ra_handled_msg_id a = Some m"
    "parse late = (c, Some body)" "str_field body ''msgId'' = Some m"
  shows "fst (is_suppressed_cloud_response now d' late r') \<longleftrightarrow>
    (if d' = d then now \<le> t0 + lr_handled_msg_id_ttl_seconds r else fst (is_suppressed_cloud_response now d' late r))"
proof -
  have "responder_reachable settings r'" using assms(1,2) by (rule responder_decide)
  with assms(1) have "responder_inv r" "responder_inv r'" by (simp_all add: reachable_responder_inv)
  from this decide_local [OF assms(2,3)] suppressed_after_answer [OF _ _ _ assms(4-6)] show ?thesis by metis
qed

theorem late_cloud_answer_suppressed_exactly_witness:
  "\<exists>r'. fst (is_suppressed_cloud_response 62 ''A'' (example_request cmd_FEEDING_PLAN_SERVICE) r') \<and>
     \<not> fst (is_suppressed_cloud_response 63 ''A'' (example_request cmd_FEEDING_PLAN_SERVICE) r')"
proof -
  let ?r = "snd (observe_cloud_message 1 ''A'' ''t'' (json_dumps (JObj plan_body)) example_responder)"
  obtain a r' where ans: "decide 2 ''i'' (\<lambda>_. 0) ''A'' ''t'' (example_request cmd_FEEDING_PLAN_SERVICE) DISCONNECTED ?r = Some (a, r')"
    "ra_decision a = RESPOND_LOCAL" "ra_handled_msg_id a = Some ''7''" by (rule example_answer)
  have reach: "responder_reachable all_on ?r" by (intro responder_observe responder_start)
  have ttl: "lr_handled_msg_id_ttl_seconds ?r = 60" by simp (simp add: init_responder_def)
  note exact = late_cloud_answer_suppressed_exactly [OF reach ans example_parses(1) example_request_id, unfolded ttl]
  show ?thesis using exact [of 62 "''A''"] exact [of 63 "''A''"] by (intro exI [of _ r']) simp
qed

text \<open>
  Once the cloud has pushed a set of complete feeding plans, a feeder that asks for its plans while
  the cloud is away receives exactly those plans, under the message id of its request.
\<close>

theorem offline_plan_request_gets_last_plans:
  assumes "parse push = (Some cmd_FEEDING_PLAN_SERVICE, Some pb)" "dict_get pb ''plans'' = Some (JList plans)"
    "list_all is_complete_plan plans" "plain_json (JList plans)" "bindable (dict_get pb ''msgId'')" "plans \<noteq> []"
    "parse request = (Some cmd_FEEDING_PLAN_SERVICE, Some b)" "str_field b ''msgId'' = Some m"
    "ls_enabled (lr_settings r)" "ls_feeding_plan (lr_settings r)" "\<not> upstream_is_online u"
  shows "\<exists>a r'. decide now i zone d topic request u (snd (observe_cloud_message t d ctopic push r)) = Some (a, r') \<and>
    ra_decision a = RESPOND_LOCAL \<and> ra_response_topic a = Some (sub_topic d ''service'' (topic_product topic)) \<and>
    ra_response_payload a = Some (json_dumps (JObj [(''cmd'', JStr cmd_FEEDING_PLAN_SERVICE), (''ts'', JInt (now_ms now)),
      (''msgId'', JStr m), (''plans'', JList plans)]))"
  using answer_plans [OF observe_plans [OF assms(1-5)] _ assms(7,8)] assms(6,9-11)
  by (simp add: falsy_json_def) blast

theorem offline_plan_request_gets_last_plans_witness:
  "\<exists>plans a r'. decide 2 ''i'' (\<lambda>_. 0) ''A'' ''t'' (example_request cmd_FEEDING_PLAN_SERVICE) DISCONNECTED
      (snd (observe_cloud_message 1 ''A'' ''t'' (json_dumps (JObj plan_body)) example_responder)) = Some (a, r') \<and>
    ra_decision a = RESPOND_LOCAL \<and> plans \<noteq> [] \<and>
    ra_response_payload a = Some (json_dumps (JObj [(''cmd'', JStr cmd_FEEDING_PLAN_SERVICE), (''ts'', JInt (now_ms 2)),
      (''msgId'', JStr ''7''), (''plans'', JList plans)]))"
proof -
  obtain plans where plans: "dict_get plan_body ''plans'' = Some (JList plans)" "list_all is_complete_plan plans"
    "plain_json (JList plans)" "bindable (dict_get plan_body ''msgId'')" "plans \<noteq> []" by (rule example_plans)
  have "ls_enabled (lr_settings example_responder)" "ls_feeding_plan (lr_settings example_responder)"
    "\<not> upstream_is_online DISCONNECTED" by (simp_all add: all_on_def upstream_is_online_def)
  from offline_plan_request_gets_last_plans [OF example_parses(3) plans example_parses(1) example_request_id this,
      of 2 "''i''" "\<lambda>_. 0" "''A''" "''t''" 1 "''t''"] plans(5)
  show ?thesis by blast
qed

text \<open>
  A settings request made while the cloud is away is answered with the settings the cloud last
  pushed; the answer's command and message id cannot be overwritten by a stored setting.
\<close>

theorem offline_config_answer_carries_request_id:
  assumes "responder_reachable settings r" "get_desired (lr_shadow r) d = Some desired" "desired \<noteq> []"
    "parse request = (Some cmd_ATTR_GET_SERVICE, Some b)" "str_field b ''msgId'' = Some m"
    "ls_enabled settings" "ls_config settings" "\<not> upstream_is_online u"
  shows "\<exists>a r' reply. decide now i zone d topic request u r = Some (a, r') \<and> ra_decision a = RESPOND_LOCAL \<and>
    ra_response_topic a = Some (sub_topic d ''service'' (topic_product topic)) \<and>
    ra_response_payload a = Some (json_dumps (JObj reply)) \<and>
    dict_get reply ''cmd'' = Some (JStr cmd_ATTR_SET_SERVICE) \<and> dict_get reply ''msgId'' = Some (JStr m) \<and>
    (\<forall>k v. dict_get desired k = Some v \<longrightarrow> dict_get reply k = Some v)"
proof -
  have inv: "desired_clean (lr_shadow r)" "lr_settings r = settings"
    using reachable_responder_inv [OF assms(1)] by simp_all
  note clean = desired_clean_get [OF inv(1) assms(2)]
  let ?reply = "dict_merge [(''cmd'', JStr cmd_ATTR_SET_SERVICE), (''ts'', JInt (now_ms now)), (''msgId'', JStr m)] desired"
  have "dict_get ?reply ''cmd'' = Some (JStr cmd_ATTR_SET_SERVICE)" "dict_get ?reply ''msgId'' = Some (JStr m)"
    using clean by (simp_all add: dict_get_merge RESERVED_def)
  moreover have "\<forall>k v. dict_get desired k = Some v \<longrightarrow> dict_get ?reply k = Some v"
    using clean(1) by (simp add: dict_get_merge)
  moreover obtain a r' where "decide now i zone d topic request u r = Some (a, r') \<and> ra_decision a = RESPOND_LOCAL \<and>
      ra_response_topic a = Some (sub_topic d ''service'' (topic_product topic)) \<and>
      ra_response_payload a = Some (json_dumps (JObj ?reply))"
    using answer_config [OF assms(2-5), of u now i zone topic] assms(6-8) inv(2) by blast
  ultimately show ?thesis
    by (intro exI [of _ a] exI [of _ r'] exI [of _ ?reply]) simp
qed

lemma example_desired:
  "get_desired (lr_shadow (snd (observe_cloud_message 1 ''A'' ''t'' (json_dumps (JObj push_body)) example_responder))) ''A'' =
     Some [(''volume'', JInt 3)]"
proof -
  have "json_loads (json_dumps (JInt 3)) = Some (JInt 3)" by (rule json_loads_dumps) simp
  moreover have "parse (json_dumps (JObj [(''cmd'', JStr cmd_ATTR_SET_SERVICE), (''volume'', JInt 3)])) =
      (Some cmd_ATTR_SET_SERVICE, Some [(''cmd'', JStr cmd_ATTR_SET_SERVICE), (''volume'', JInt 3)])"
    using example_parses(4) by (simp add: push_body_def)
  ultimately show ?thesis
    by (simp add: observe_cloud_message_def Let_def push_body_def get_desired_def update_desired_def
        read_kv_def decode_row_def open_shadow_def)
qed

theorem offline_config_answer_carries_request_id_witness:
  "\<exists>a r' reply. decide 2 ''i'' (\<lambda>_. 0) ''A'' ''t'' (example_request cmd_ATTR_GET_SERVICE) DISCONNECTED
      (snd (observe_cloud_message 1 ''A'' ''t'' (json_dumps (JObj push_body)) example_responder)) = Some (a, r') \<and>
    ra_response_payload a = Some (json_dumps (JObj reply)) \<and> dict_get reply ''msgId'' = Some (JStr ''7'') \<and>
    dict_get reply ''volume'' = Some (JInt 3)"
proof -
  let ?r = "snd (observe_cloud_message 1 ''A'' ''t'' (json_dumps (JObj push_body)) example_responder)"
  have reach: "responder_reachable all_on ?r" by (intro responder_observe responder_start)
  have on: "ls_enabled all_on" "ls_config all_on" "\<not> upstream_is_online DISCONNECTED"
    by (simp_all add: all_on_def upstream_is_online_def)
  have "dict_get [(''volume'', JInt 3)] ''volume'' = Some (JInt 3)" by simp
  with offline_config_answer_carries_request_id [OF reach example_desired _ example_parses(2) example_request_id on,
      of 2 "''i''" "\<lambda>_. 0" "''t''"] show ?thesis by blast
qed

end
