(* ===== verification/Telemetry.thy ===== *)
theory Telemetry
  imports Local_Responder
begin

text \<open>
  \<^verbatim>\<open>observability/telemetry.py\<close>: each device's upstream state machine with its outage bookkeeping, and
  the relay-wide timeline. The time of a call is an argument. An operation of \<open>DeviceTelemetry\<close> returns
  the transition, the new metrics and the event it mirrors into the relay's timeline; state names are the
  states themselves, and an event's details are the transition or a JSON object.

  The lemmas show the invariant of the state machine for every sequence of calls (failures never exceed
  attempts, an online device has no outage, histories stay bounded), that offline summaries are rate
  limited over any run, and that availability is a share between 0 and 1.
\<close>

section \<open>State\<close>

definition EVENT_HISTORY_LIMIT :: nat where [relay_defs]: "EVENT_HISTORY_LIMIT = 500"
definition SESSION_HISTORY_LIMIT :: nat where [relay_defs]: "SESSION_HISTORY_LIMIT = 500"
definition OFFLINE_SUMMARY_INTERVAL_SECONDS :: seconds where [relay_defs]: "OFFLINE_SUMMARY_INTERVAL_SECONDS = 300"

datatype UpstreamTransitionKind = CONNECT_ATTEMPT | ONLINE | SESSION_LOST | RETRY_FAILED | TCP_CONNECT_FAILED
  | CONNACK_REFUSED | RESTORED

record UpstreamTransition =
  ut_kind :: UpstreamTransitionKind
  ut_device_id :: string
  ut_state_before :: UpstreamState
  ut_state_after :: UpstreamState
  ut_attempt :: nat
  ut_reason :: "string option"
  ut_reason_code :: "string option"
  ut_disconnect_flags :: "string option"
  ut_session_duration_seconds :: "seconds option"
  ut_downtime_seconds :: "seconds option"
  ut_failed_attempts :: nat
  ut_offline_summary_due :: bool

datatype event_details = TransitionDetails UpstreamTransition | JsonDetails json_dict

record RuntimeEvent =
  re_timestamp :: seconds
  re_kind :: string
  re_message :: string
  re_device_id :: "string option"
  re_details :: event_details

record DeviceTelemetry =
  dt_device_id :: string
  dt_started_at :: seconds
  dt_upstream_state :: UpstreamState
  dt_last_connack_at :: "seconds option"
  dt_last_disconnect_at :: "seconds option"
  dt_last_online_started_at :: "seconds option"
  dt_outage_started_at :: "seconds option"
  dt_outage_attempts :: nat
  dt_outage_failed_attempts :: nat
  dt_outage_had_session_loss :: bool
  dt_last_offline_summary_at :: "seconds option"
  dt_last_failure_reason :: "string option"
  dt_session_number :: nat
  dt_state_history :: "(seconds \<times> bool) list"
  dt_session_durations :: "seconds list"
  dt_counters :: "(string, nat) dict"

definition init_device_telemetry :: "seconds \<Rightarrow> string \<Rightarrow> DeviceTelemetry" where
  "init_device_telemetry now device_id =
     \<lparr>dt_device_id = device_id, dt_started_at = now, dt_upstream_state = DISCONNECTED, dt_last_connack_at = None,
      dt_last_disconnect_at = None, dt_last_online_started_at = None, dt_outage_started_at = None,
      dt_outage_attempts = 0, dt_outage_failed_attempts = 0, dt_outage_had_session_loss = False,
      dt_last_offline_summary_at = None, dt_last_failure_reason = None, dt_session_number = 0,
      dt_state_history = [], dt_session_durations = [], dt_counters = []\<rparr>"

section \<open>Internals\<close>

definition tel_increment :: "string \<Rightarrow> nat \<Rightarrow> DeviceTelemetry \<Rightarrow> DeviceTelemetry" where
  "tel_increment counter amount t = t\<lparr>dt_counters := counter_add counter amount (dt_counters t)\<rparr>"

definition append_history :: "seconds \<Rightarrow> bool \<Rightarrow> DeviceTelemetry \<Rightarrow> DeviceTelemetry" where
  "append_history now online t = t\<lparr>dt_state_history := deque_append EVENT_HISTORY_LIMIT (now, online) (dt_state_history t)\<rparr>"

definition append_duration :: "seconds \<Rightarrow> DeviceTelemetry \<Rightarrow> DeviceTelemetry" where
  "append_duration now t = (case dt_last_online_started_at t of
     None \<Rightarrow> t
   | Some started \<Rightarrow> t\<lparr>dt_session_durations := deque_append SESSION_HISTORY_LIMIT (now - started) (dt_session_durations t)\<rparr>)"

definition clear_outage :: "DeviceTelemetry \<Rightarrow> DeviceTelemetry" where
  "clear_outage t = t\<lparr>dt_outage_started_at := None, dt_outage_attempts := 0, dt_outage_failed_attempts := 0,
     dt_outage_had_session_loss := False, dt_last_offline_summary_at := None, dt_last_failure_reason := None\<rparr>"

definition begin_outage :: "seconds \<Rightarrow> DeviceTelemetry \<Rightarrow> DeviceTelemetry" where
  "begin_outage now t = (if dt_outage_started_at t \<noteq> None then t
     else (clear_outage t)\<lparr>dt_outage_started_at := Some now\<rparr>)"

definition ensure_attempt_for_failure :: "seconds \<Rightarrow> DeviceTelemetry \<Rightarrow> DeviceTelemetry" where
  "ensure_attempt_for_failure now t =
     (let t1 = begin_outage now t
      in if dt_upstream_state t1 = MQTT_CONNECTING then t1
         else tel_increment ''connect_attempts'' 1 (t1\<lparr>dt_outage_attempts := dt_outage_attempts t1 + 1\<rparr>))"

definition register_retry_failure :: "string \<Rightarrow> DeviceTelemetry \<Rightarrow> DeviceTelemetry" where
  "register_retry_failure reason t =
     (tel_increment ''reconnect_failures'' 1 t)
       \<lparr>dt_outage_failed_attempts := dt_outage_failed_attempts t + 1, dt_last_failure_reason := Some reason\<rparr>"

definition offline_summary_due :: "seconds \<Rightarrow> DeviceTelemetry \<Rightarrow> bool \<times> DeviceTelemetry" where
  "offline_summary_due now t =
     (case dt_outage_started_at t of
       None \<Rightarrow> (False, t)
     | Some started \<Rightarrow>
         if now - started < OFFLINE_SUMMARY_INTERVAL_SECONDS then (False, t)
         else if (case dt_last_offline_summary_at t of None \<Rightarrow> False
             | Some previous \<Rightarrow> now - previous < OFFLINE_SUMMARY_INTERVAL_SECONDS) then (False, t)
         else (True, t\<lparr>dt_last_offline_summary_at := Some now\<rparr>))"

definition downtime :: "seconds \<Rightarrow> DeviceTelemetry \<Rightarrow> seconds option" where
  "downtime now t = map_option (\<lambda>started. now - started) (dt_outage_started_at t)"

definition transition :: "UpstreamTransitionKind \<Rightarrow> UpstreamState \<Rightarrow> nat \<Rightarrow> DeviceTelemetry \<Rightarrow> UpstreamTransition" where
  "transition kind before attempt t = \<lparr>ut_kind = kind, ut_device_id = dt_device_id t, ut_state_before = before,
     ut_state_after = dt_upstream_state t, ut_attempt = attempt, ut_reason = None, ut_reason_code = None,
     ut_disconnect_flags = None, ut_session_duration_seconds = None, ut_downtime_seconds = None,
     ut_failed_attempts = 0, ut_offline_summary_due = False\<rparr>"

definition kind_value :: "UpstreamTransitionKind \<Rightarrow> string" where
  "kind_value k = (case k of CONNECT_ATTEMPT \<Rightarrow> ''connect_attempt'' | ONLINE \<Rightarrow> ''online'' | SESSION_LOST \<Rightarrow> ''session_lost''
     | RETRY_FAILED \<Rightarrow> ''retry_failed'' | TCP_CONNECT_FAILED \<Rightarrow> ''tcp_connect_failed''
     | CONNACK_REFUSED \<Rightarrow> ''connack_refused'' | RESTORED \<Rightarrow> ''restored'')"

definition publish_event :: "seconds \<Rightarrow> UpstreamTransition \<Rightarrow> string \<Rightarrow> RuntimeEvent" where
  "publish_event now tr message = \<lparr>re_timestamp = now, re_kind = ''upstream_'' @ kind_value (ut_kind tr), re_message = message,
     re_device_id = Some (ut_device_id tr), re_details = TransitionDetails tr\<rparr>"

section \<open>Transitions\<close>

definition upstream_suspended :: "seconds \<Rightarrow> string \<Rightarrow> DeviceTelemetry \<Rightarrow> DeviceTelemetry \<times> RuntimeEvent" where
  "upstream_suspended now reason t =
     (let t1 = (if dt_upstream_state t = UP_ONLINE then append_history now False (append_duration now t) else t);
          t2 = clear_outage (tel_increment ''upstream_suspensions'' 1
                 (t1\<lparr>dt_last_online_started_at := None, dt_upstream_state := SUSPENDED\<rparr>))
      in (t2, \<lparr>re_timestamp = now, re_kind = ''upstream_suspended'', re_message = ''UPSTREAM suspended'',
            re_device_id = Some (dt_device_id t), re_details = JsonDetails [(''reason'', JStr reason)]\<rparr>))"

definition upstream_connect_attempt :: "seconds \<Rightarrow> DeviceTelemetry \<Rightarrow> UpstreamTransition \<times> DeviceTelemetry \<times> RuntimeEvent" where
  "upstream_connect_attempt now t =
     (let before = dt_upstream_state t;
          t1 = begin_outage now t;
          t2 = (tel_increment ''connect_attempts'' 1 (t1\<lparr>dt_outage_attempts := dt_outage_attempts t1 + 1\<rparr>))
                 \<lparr>dt_upstream_state := MQTT_CONNECTING\<rparr>;
          tr = transition CONNECT_ATTEMPT before (dt_outage_attempts t2) t2
      in (tr, t2, publish_event now tr ''Upstream MQTT CONNECT attempt''))"

definition upstream_online :: "seconds \<Rightarrow> DeviceTelemetry \<Rightarrow> UpstreamTransition \<times> DeviceTelemetry \<times> RuntimeEvent" where
  "upstream_online now t =
     (let before = dt_upstream_state t;
          t1 = begin_outage now t;
          failed = dt_outage_failed_attempts t1;
          restored = (dt_outage_had_session_loss t1 \<or> failed > 0);
          t2 = append_history now True (tel_increment ''connack_success'' 1
                 (t1\<lparr>dt_upstream_state := UP_ONLINE, dt_last_connack_at := Some now, dt_last_online_started_at := Some now,
                     dt_session_number := dt_session_number t1 + 1\<rparr>));
          tr = (transition (if restored then RESTORED else ONLINE) before (dt_outage_attempts t1) t2)
                 \<lparr>ut_downtime_seconds := downtime now t1, ut_failed_attempts := failed\<rparr>
      in (tr, clear_outage t2, publish_event now tr (if restored then ''UPSTREAM restored'' else ''UPSTREAM online'')))"

text \<open>The common tail of a failed attempt: the transition's fields, with the summary decided last.\<close>

definition failed_transition :: "seconds \<Rightarrow> UpstreamTransitionKind \<Rightarrow> UpstreamState \<Rightarrow> DeviceTelemetry \<Rightarrow> UpstreamTransition \<times> DeviceTelemetry" where
  "failed_transition now kind before t =
     (let (due, t1) = offline_summary_due now t
      in ((transition kind before (dt_outage_attempts t) t)
            \<lparr>ut_downtime_seconds := downtime now t, ut_failed_attempts := dt_outage_failed_attempts t, ut_offline_summary_due := due\<rparr>, t1))"

definition upstream_refused :: "seconds \<Rightarrow> string \<Rightarrow> DeviceTelemetry \<Rightarrow> UpstreamTransition \<times> DeviceTelemetry \<times> RuntimeEvent" where
  "upstream_refused now reason_code t =
     (let before = dt_upstream_state t;
          t1 = register_retry_failure reason_code (tel_increment ''connack_refused'' 1 (ensure_attempt_for_failure now t));
          (tr, t2) = failed_transition now CONNACK_REFUSED before (t1\<lparr>dt_upstream_state := DISCONNECTED\<rparr>);
          tr' = tr\<lparr>ut_reason_code := Some reason_code\<rparr>
      in (tr', t2, publish_event now tr' ''Upstream CONNACK refused''))"

definition upstream_connect_failed :: "seconds \<Rightarrow> string \<Rightarrow> DeviceTelemetry \<Rightarrow> UpstreamTransition \<times> DeviceTelemetry \<times> RuntimeEvent" where
  "upstream_connect_failed now reason t =
     (let before = dt_upstream_state t;
          t1 = register_retry_failure reason (tel_increment ''tcp_connect_failures'' 1 (ensure_attempt_for_failure now t));
          (tr, t2) = failed_transition now TCP_CONNECT_FAILED before (t1\<lparr>dt_upstream_state := DISCONNECTED\<rparr>);
          tr' = tr\<lparr>ut_reason := Some reason\<rparr>
      in (tr', t2, publish_event now tr' ''Upstream TCP connect failed''))"

definition upstream_disconnected :: "seconds \<Rightarrow> string \<Rightarrow> string option \<Rightarrow> DeviceTelemetry \<Rightarrow> UpstreamTransition \<times> DeviceTelemetry \<times> RuntimeEvent" where
  "upstream_disconnected now reason flags t =
     (let before = dt_upstream_state t
      in if before = UP_ONLINE then
           let session_duration = map_option (\<lambda>started. now - started) (dt_last_online_started_at t);
               t1 = tel_increment ''sessions_lost'' 1 (append_duration now t);
               t2 = begin_outage now (t1\<lparr>dt_last_online_started_at := None, dt_last_disconnect_at := Some now,
                      dt_upstream_state := DISCONNECTED\<rparr>);
               t3 = append_history now False (t2\<lparr>dt_outage_had_session_loss := True\<rparr>);
               tr = (transition SESSION_LOST before 0 t3)\<lparr>ut_reason := Some reason, ut_disconnect_flags := flags,
                      ut_session_duration_seconds := session_duration\<rparr>
           in (tr, t3, publish_event now tr ''UPSTREAM lost'')
         else
           let t1 = ensure_attempt_for_failure now t;
               t2 = (if before = MQTT_CONNECTING then tel_increment ''connack_timeouts'' 1 t1 else t1);
               t3 = (register_retry_failure reason t2)\<lparr>dt_last_disconnect_at := Some now, dt_upstream_state := DISCONNECTED\<rparr>;
               (tr, t4) = failed_transition now RETRY_FAILED before t3;
               tr' = tr\<lparr>ut_reason := Some reason, ut_disconnect_flags := flags\<rparr>
           in (tr', t4, publish_event now tr' ''Upstream reconnect failed''))"

section \<open>Availability and snapshot\<close>

fun online_before :: "seconds \<Rightarrow> (seconds \<times> bool) list \<Rightarrow> bool \<Rightarrow> bool" where
  "online_before window_start [] state = state"
| "online_before window_start ((timestamp, online) # hist) state =
     (if timestamp \<le> window_start then online_before window_start hist online else state)"

fun online_time :: "(seconds \<times> bool) list \<Rightarrow> bool \<Rightarrow> seconds \<Rightarrow> seconds \<Rightarrow> seconds \<Rightarrow> seconds" where
  "online_time [] state cursor acc now = (if state then acc + (now - cursor) else acc)"
| "online_time ((timestamp, online) # hist) state cursor acc now =
     online_time hist online timestamp (if state then acc + (timestamp - cursor) else acc) now"

definition availability :: "seconds \<Rightarrow> seconds \<Rightarrow> DeviceTelemetry \<Rightarrow> seconds option" where
  "availability now window_seconds t =
     (let window_start = max (dt_started_at t) (now - window_seconds);
          transitions = filter (\<lambda>e. fst e \<ge> window_start) (dt_state_history t)
      in if transitions = [] \<and> dt_last_online_started_at t = None then None
         else
           let state = online_before window_start (dt_state_history t) False;
               online_seconds = online_time transitions state window_start 0 now;
               observed_seconds = now - window_start
           in if observed_seconds > 0 then Some (online_seconds / observed_seconds) else None)"

record DeviceSnapshot =
  dsn_device_id :: string
  dsn_state :: UpstreamState
  dsn_last_connack :: "seconds option"
  dsn_last_disconnect :: "seconds option"
  dsn_current_online_duration :: "seconds option"
  dsn_previous_session_duration :: "seconds option"
  dsn_average_session_duration :: "seconds option"
  dsn_minimum_session_duration :: "seconds option"
  dsn_maximum_session_duration :: "seconds option"
  dsn_counters :: "(string, nat) dict"
  dsn_outage_started_at :: "seconds option"
  dsn_outage_downtime :: "seconds option"
  dsn_outage_attempts :: nat
  dsn_outage_failed_attempts :: nat
  dsn_outage_last_reason :: "string option"
  dsn_availability_15m :: "seconds option"
  dsn_availability_1h :: "seconds option"
  dsn_availability_24h :: "seconds option"

definition device_snapshot :: "seconds \<Rightarrow> DeviceTelemetry \<Rightarrow> DeviceSnapshot" where
  "device_snapshot now t =
     (let durations = dt_session_durations t;
          when = (\<lambda>x. if durations = [] then None else Some x)
      in \<lparr>dsn_device_id = dt_device_id t, dsn_state = dt_upstream_state t, dsn_last_connack = dt_last_connack_at t,
          dsn_last_disconnect = dt_last_disconnect_at t,
          dsn_current_online_duration = map_option (\<lambda>started. now - started) (dt_last_online_started_at t),
          dsn_previous_session_duration = when (last durations),
          dsn_average_session_duration = when (sum_list durations / of_nat (length durations)),
          dsn_minimum_session_duration = when (fold min durations (hd durations)),
          dsn_maximum_session_duration = when (fold max durations (hd durations)),
          dsn_counters = dt_counters t, dsn_outage_started_at = dt_outage_started_at t,
          dsn_outage_downtime = downtime now t, dsn_outage_attempts = dt_outage_attempts t,
          dsn_outage_failed_attempts = dt_outage_failed_attempts t, dsn_outage_last_reason = dt_last_failure_reason t,
          dsn_availability_15m = availability now 900 t, dsn_availability_1h = availability now 3600 t,
          dsn_availability_24h = availability now 86400 t\<rparr>)"

section \<open>The relay-wide timeline\<close>

record RelayTelemetry =
  rt_started_at :: seconds
  rt_local_connected :: bool
  rt_counters :: "(string, nat) dict"
  rt_events :: "RuntimeEvent list"
  rt_devices :: "(string, DeviceTelemetry) dict"

definition init_relay_telemetry :: "seconds \<Rightarrow> RelayTelemetry" where
  "init_relay_telemetry now = \<lparr>rt_started_at = now, rt_local_connected = False, rt_counters = [], rt_events = [], rt_devices = []\<rparr>"

definition rt_device :: "seconds \<Rightarrow> string \<Rightarrow> RelayTelemetry \<Rightarrow> DeviceTelemetry \<times> RelayTelemetry" where
  "rt_device now device_id r = (case dict_get (rt_devices r) device_id of
     Some t \<Rightarrow> (t, r)
   | None \<Rightarrow> let t = init_device_telemetry now device_id in (t, r\<lparr>rt_devices := dict_set device_id t (rt_devices r)\<rparr>))"

definition forget_device :: "string \<Rightarrow> RelayTelemetry \<Rightarrow> RelayTelemetry" where
  "forget_device device_id r = r\<lparr>rt_devices := dict_pop device_id (rt_devices r)\<rparr>"

definition device_snapshots :: "seconds \<Rightarrow> RelayTelemetry \<Rightarrow> DeviceSnapshot list" where
  "device_snapshots now r = map (device_snapshot now) (sort_key dt_device_id (map snd (rt_devices r)))"

definition record_event :: "RuntimeEvent \<Rightarrow> RelayTelemetry \<Rightarrow> RelayTelemetry" where
  "record_event e r = r\<lparr>rt_events := deque_append EVENT_HISTORY_LIMIT e (rt_events r)\<rparr>"

definition plain_event :: "seconds \<Rightarrow> string \<Rightarrow> string \<Rightarrow> RuntimeEvent" where
  "plain_event now kind message = \<lparr>re_timestamp = now, re_kind = kind, re_message = message, re_device_id = None,
     re_details = JsonDetails []\<rparr>"

definition local_connected :: "seconds \<Rightarrow> RelayTelemetry \<Rightarrow> RelayTelemetry" where
  "local_connected now r = record_event (plain_event now ''local_connected'' ''Local MQTT connected'') (r\<lparr>rt_local_connected := True\<rparr>)"

definition local_disconnected :: "seconds \<Rightarrow> RelayTelemetry \<Rightarrow> RelayTelemetry" where
  "local_disconnected now r =
     record_event (plain_event now ''local_disconnected'' ''Local MQTT disconnected'') (r\<lparr>rt_local_connected := False\<rparr>)"

definition rt_increment :: "string \<Rightarrow> nat \<Rightarrow> RelayTelemetry \<Rightarrow> RelayTelemetry" where
  "rt_increment counter amount r = r\<lparr>rt_counters := counter_add counter amount (rt_counters r)\<rparr>"

definition events :: "int \<Rightarrow> string option \<Rightarrow> RelayTelemetry \<Rightarrow> RuntimeEvent list" where
  "events limit device_id r =
     (let safe_limit = nat (max 1 (min limit (int EVENT_HISTORY_LIMIT)));
          evs = filter (\<lambda>e. device_id = None \<or> re_device_id e = device_id) (rt_events r)
      in drop (length evs - safe_limit) evs)"

section \<open>Runs of the state machine\<close>

datatype telemetry_call = Suspended string | Attempt | Connack | Refused string | ConnectFailed string
  | Disconnected string "string option" | Increment string nat

text \<open>A call's new metrics, and whether it asks for an offline summary.\<close>

fun tel_step :: "seconds \<Rightarrow> telemetry_call \<Rightarrow> DeviceTelemetry \<Rightarrow> bool \<times> DeviceTelemetry" where
  "tel_step now (Suspended reason) t = (False, fst (upstream_suspended now reason t))"
| "tel_step now Attempt t = (let (tr, t', e) = upstream_connect_attempt now t in (ut_offline_summary_due tr, t'))"
| "tel_step now Connack t = (let (tr, t', e) = upstream_online now t in (ut_offline_summary_due tr, t'))"
| "tel_step now (Refused code) t = (let (tr, t', e) = upstream_refused now code t in (ut_offline_summary_due tr, t'))"
| "tel_step now (ConnectFailed reason) t = (let (tr, t', e) = upstream_connect_failed now reason t in (ut_offline_summary_due tr, t'))"
| "tel_step now (Disconnected reason flags) t = (let (tr, t', e) = upstream_disconnected now reason flags t in (ut_offline_summary_due tr, t'))"
| "tel_step now (Increment counter n) t = (False, tel_increment counter n t)"

fun tel_run :: "(seconds \<times> telemetry_call) list \<Rightarrow> DeviceTelemetry \<Rightarrow> seconds list \<times> DeviceTelemetry" where
  "tel_run [] t = ([], t)"
| "tel_run ((now, call) # calls) t =
     (let (due, t1) = tel_step now call t; (dues, t2) = tel_run calls t1 in (if due then now # dues else dues, t2))"

text \<open>What the failing calls share: the state in which they decide about a summary.\<close>

definition after_failure :: "seconds \<Rightarrow> string option \<Rightarrow> bool \<Rightarrow> string \<Rightarrow> DeviceTelemetry \<Rightarrow> DeviceTelemetry" where
  "after_failure now counter disconnected reason t =
     (let t1 = ensure_attempt_for_failure now t;
          t2 = (case counter of None \<Rightarrow> t1 | Some k \<Rightarrow> tel_increment k 1 t1);
          t3 = register_retry_failure reason t2
      in (if disconnected then t3\<lparr>dt_last_disconnect_at := Some now\<rparr> else t3)\<lparr>dt_upstream_state := DISCONNECTED\<rparr>)"

lemmas outage_defs = clear_outage_def begin_outage_def ensure_attempt_for_failure_def register_retry_failure_def
  tel_increment_def append_history_def append_duration_def failed_transition_def transition_def

lemma summary_fst: "fst (offline_summary_due now t) \<longleftrightarrow>
    (\<exists>started. dt_outage_started_at t = Some started \<and> started + 300 \<le> now) \<and>
    (\<forall>previous. dt_last_offline_summary_at t = Some previous \<longrightarrow> previous + 300 \<le> now)"
  by (cases "dt_outage_started_at t"; cases "dt_last_offline_summary_at t")
    (simp_all add: offline_summary_due_def OFFLINE_SUMMARY_INTERVAL_SECONDS_def not_less le_diff_eq add.commute)

lemma summary_snd: "snd (offline_summary_due now t) =
    (if fst (offline_summary_due now t) then t\<lparr>dt_last_offline_summary_at := Some now\<rparr> else t)"
  by (cases "dt_outage_started_at t") (simp_all add: offline_summary_due_def)

definition tel_inv :: "DeviceTelemetry \<Rightarrow> bool" where
  "tel_inv t \<longleftrightarrow>
     (dt_outage_started_at t = None \<longrightarrow> dt_outage_attempts t = 0 \<and> dt_outage_failed_attempts t = 0 \<and> dt_last_offline_summary_at t = None) \<and>
     dt_outage_failed_attempts t \<le> dt_outage_attempts t \<and>
     (dt_upstream_state t = MQTT_CONNECTING \<longrightarrow> dt_outage_failed_attempts t < dt_outage_attempts t) \<and>
     (dt_upstream_state t = UP_ONLINE \<longrightarrow> dt_outage_started_at t = None \<and> dt_last_online_started_at t \<noteq> None) \<and>
     (dt_upstream_state t = SUSPENDED \<longrightarrow> dt_outage_started_at t = None) \<and>
     length (dt_state_history t) \<le> EVENT_HISTORY_LIMIT \<and> length (dt_session_durations t) \<le> SESSION_HISTORY_LIMIT"

lemma tel_inv_summary: "tel_inv t \<Longrightarrow> tel_inv (snd (offline_summary_due now t))"
  unfolding summary_snd by (cases "fst (offline_summary_due now t)") (simp_all add: summary_fst tel_inv_def, auto)

lemma tel_inv_failure: "tel_inv t \<Longrightarrow> tel_inv (after_failure now counter disconnected reason t)"
  by (cases "dt_upstream_state t = MQTT_CONNECTING"; cases "dt_outage_started_at t"; cases counter; cases disconnected)
    (simp_all add: after_failure_def tel_inv_def outage_defs Let_def, linarith+)

lemma failing_steps:
  "tel_step now (Refused code) t = offline_summary_due now (after_failure now (Some ''connack_refused'') False code t)"
  "tel_step now (ConnectFailed reason) t = offline_summary_due now (after_failure now (Some ''tcp_connect_failures'') False reason t)"
  "dt_upstream_state t \<noteq> UP_ONLINE \<Longrightarrow> tel_step now (Disconnected reason flags) t = offline_summary_due now
     (after_failure now (if dt_upstream_state t = MQTT_CONNECTING then Some ''connack_timeouts'' else None) True reason t)"
  by (simp_all add: upstream_refused_def upstream_connect_failed_def upstream_disconnected_def failed_transition_def
      after_failure_def Let_def case_prod_beta)

lemma tel_inv_lost:
  assumes "tel_inv t" "dt_upstream_state t = UP_ONLINE"
  shows "tel_inv (snd (tel_step now (Disconnected reason flags) t))" "\<not> fst (tel_step now (Disconnected reason flags) t)"
  using assms
  by (cases "dt_last_online_started_at t"; simp add: tel_inv_def upstream_disconnected_def outage_defs Let_def deque_append_length)+

lemma tel_inv_others:
  assumes "tel_inv t"
  shows "tel_inv (snd (tel_step now (Suspended reason) t))" "tel_inv (snd (tel_step now Attempt t))"
    "tel_inv (snd (tel_step now Connack t))" "tel_inv (snd (tel_step now (Increment counter n) t))"
proof -
  show "tel_inv (snd (tel_step now (Suspended reason) t))"
    using assms by (cases "dt_upstream_state t = UP_ONLINE"; cases "dt_last_online_started_at t";
        simp add: tel_inv_def upstream_suspended_def outage_defs Let_def deque_append_length)
  show "tel_inv (snd (tel_step now Attempt t))"
    using assms by (cases "dt_outage_started_at t"; simp add: tel_inv_def upstream_connect_attempt_def outage_defs Let_def)
  show "tel_inv (snd (tel_step now Connack t))"
    using assms by (cases "dt_outage_started_at t"; simp add: tel_inv_def upstream_online_def outage_defs Let_def deque_append_length)
  show "tel_inv (snd (tel_step now (Increment counter n) t))"
    using assms by (simp add: tel_inv_def outage_defs)
qed

lemma tel_inv_step: "tel_inv t \<Longrightarrow> tel_inv (snd (tel_step now call t))"
proof (cases call)
  case (Disconnected reason flags)
  assume t: "tel_inv t"
  show ?thesis
  proof (cases "dt_upstream_state t = UP_ONLINE")
    case True
    with t Disconnected tel_inv_lost(1) show ?thesis by simp
  next
    case False
    with t Disconnected show ?thesis
      unfolding Disconnected failing_steps(3) [OF False] by (intro tel_inv_summary tel_inv_failure)
  qed
next
  case (Refused code)
  assume "tel_inv t"
  with Refused show ?thesis by (simp only: failing_steps tel_inv_summary tel_inv_failure)
next
  case (ConnectFailed reason)
  assume "tel_inv t"
  with ConnectFailed show ?thesis by (simp only: failing_steps tel_inv_summary tel_inv_failure)
qed (simp_all only: tel_inv_others)

lemma tel_inv_run: "tel_inv t \<Longrightarrow> tel_inv (snd (tel_run calls t))"
  by (induction calls arbitrary: t) (auto simp: case_prod_beta Let_def tel_inv_step)

lemma tel_inv_init: "tel_inv (init_device_telemetry now d)"
  by (simp add: tel_inv_def init_device_telemetry_def)

section \<open>Offline summaries\<close>

text \<open>No summary is due within five minutes after \<open>l\<close>, however the run continues.\<close>

definition spaced :: "seconds \<Rightarrow> DeviceTelemetry \<Rightarrow> bool" where
  "spaced l t \<longleftrightarrow> (\<forall>started. dt_outage_started_at t = Some started \<longrightarrow>
     l \<le> started \<or> (\<exists>previous. dt_last_offline_summary_at t = Some previous \<and> l \<le> previous))"

lemma spaced_summary:
  assumes "spaced l t" "l \<le> now"
  shows "spaced l (snd (offline_summary_due now t))"
    "fst (offline_summary_due now t) \<Longrightarrow> l + 300 \<le> now \<and> spaced now (snd (offline_summary_due now t))"
  using assms by (auto simp: summary_snd summary_fst spaced_def)

lemma spaced_failure:
  assumes "spaced l t" "l \<le> now"
  shows "spaced l (after_failure now counter disconnected reason t)"
  using assms by (cases "dt_upstream_state t = MQTT_CONNECTING"; cases "dt_outage_started_at t"; cases counter; cases disconnected)
    (simp_all add: after_failure_def spaced_def outage_defs Let_def)

lemma spaced_others:
  assumes "spaced l t" "l \<le> now"
  shows "spaced l (snd (tel_step now (Suspended reason) t))" "spaced l (snd (tel_step now Attempt t))"
    "spaced l (snd (tel_step now Connack t))" "spaced l (snd (tel_step now (Increment counter n) t))"
    "tel_inv t \<Longrightarrow> dt_upstream_state t = UP_ONLINE \<Longrightarrow> spaced l (snd (tel_step now (Disconnected why flags) t))"
    "\<not> fst (tel_step now (Suspended reason) t)" "\<not> fst (tel_step now Attempt t)" "\<not> fst (tel_step now Connack t)"
    "\<not> fst (tel_step now (Increment counter n) t)"
  using assms
  by (cases "dt_outage_started_at t"; cases "dt_last_online_started_at t";
      simp add: tel_inv_def spaced_def upstream_suspended_def upstream_connect_attempt_def upstream_online_def
        upstream_disconnected_def outage_defs Let_def)+

lemma spaced_step:
  assumes "tel_inv t" "spaced l t" "l \<le> now"
  shows "spaced l (snd (tel_step now call t))"
    "fst (tel_step now call t) \<Longrightarrow> l + 300 \<le> now \<and> spaced now (snd (tel_step now call t))"
proof -
  note failing = spaced_summary [OF spaced_failure [OF assms(2,3)] assms(3)]
  have "spaced l (snd (tel_step now call t)) \<and>
      (fst (tel_step now call t) \<longrightarrow> l + 300 \<le> now \<and> spaced now (snd (tel_step now call t)))"
  proof (cases call)
    case (Disconnected reason flags)
    then show ?thesis
    proof (cases "dt_upstream_state t = UP_ONLINE")
      case True
      with Disconnected assms show ?thesis by (simp only: spaced_others tel_inv_lost simp_thms)
    next
      case False
      show ?thesis unfolding Disconnected failing_steps(3) [OF False] using failing by blast
    qed
  next
    case (Refused code)
    show ?thesis unfolding Refused failing_steps using failing by blast
  next
    case (ConnectFailed reason)
    show ?thesis unfolding ConnectFailed failing_steps using failing by blast
  qed (simp_all only: spaced_others [OF assms(2,3)] simp_thms)
  then show "spaced l (snd (tel_step now call t))"
    "fst (tel_step now call t) \<Longrightarrow> l + 300 \<le> now \<and> spaced now (snd (tel_step now call t))" by blast+
qed

lemma tel_run_spaced:
  "tel_inv t \<Longrightarrow> spaced l t \<Longrightarrow> sorted (l # map fst calls) \<Longrightarrow>
    sorted_wrt (\<lambda>a b. a + 300 \<le> b) (fst (tel_run calls t)) \<and> (\<forall>s\<in>set (fst (tel_run calls t)). l + 300 \<le> s)"
proof (induction calls arbitrary: t l)
  case (Cons c calls)
  obtain now call where c: "c = (now, call)" by (cases c)
  from Cons.prems c have le: "l \<le> now" "sorted (l # map fst calls)" "sorted (now # map fst calls)" by auto
  note inv = tel_inv_step [OF Cons.prems(1), of now call]
  note step = spaced_step [OF Cons.prems(1,2) le(1), of call]
  show ?case
  proof (cases "fst (tel_step now call t)")
    case True
    with step(2) have due: "l + 300 \<le> now" "spaced now (snd (tel_step now call t))" by auto
    from Cons.IH [OF inv due(2) le(3)] due(1) True show ?thesis by (force simp: c case_prod_beta Let_def)
  next
    case False
    with Cons.IH [OF inv step(1) le(2)] show ?thesis by (simp add: c case_prod_beta Let_def)
  qed
qed simp
section \<open>Availability\<close>

lemma online_time_bounds:
  "sorted (cursor # map fst hist) \<Longrightarrow> \<forall>e\<in>set hist. fst e \<le> now \<Longrightarrow> cursor \<le> now \<Longrightarrow>
    acc \<le> online_time hist state cursor acc now \<and> online_time hist state cursor acc now \<le> acc + (now - cursor)"
proof (induction hist state cursor acc now rule: online_time.induct)
  case (2 timestamp online hist state cursor acc now)
  let ?acc = "if state then acc + (timestamp - cursor) else acc"
  have "?acc \<le> online_time hist online timestamp ?acc now \<and> online_time hist online timestamp ?acc now \<le> ?acc + (now - timestamp)"
    using "2.prems" by (intro "2.IH") auto
  with "2.prems" show ?case by auto
qed simp

definition history_ok :: "seconds \<Rightarrow> DeviceTelemetry \<Rightarrow> bool" where
  "history_ok now t \<longleftrightarrow> sorted (map fst (dt_state_history t)) \<and> (\<forall>e\<in>set (dt_state_history t). fst e \<le> now)"

lemma availability_bounds:
  assumes "history_ok now t" "availability now window t = Some a"
  shows "0 \<le> a \<and> a \<le> 1"
proof -
  let ?start = "max (dt_started_at t) (now - window)"
  let ?trs = "filter (\<lambda>e. fst e \<ge> ?start) (dt_state_history t)"
  let ?online = "online_time ?trs (online_before ?start (dt_state_history t) False) ?start 0 now"
  from assms(2) have a: "a = ?online / (now - ?start)" and pos: "now - ?start > 0"
    by (auto simp: availability_def Let_def split: if_splits)
  have "sorted (?start # map fst ?trs)" "\<forall>e\<in>set ?trs. fst e \<le> now"
    using assms(1) sorted_map_filter by (auto simp: history_ok_def)
  from online_time_bounds [OF this, of 0] pos have "0 \<le> ?online" "?online \<le> now - ?start" by auto
  with pos show ?thesis by (simp add: a)
qed

lemma summary_history [simp]: "dt_state_history (snd (offline_summary_due now t)) = dt_state_history t"
  by (simp add: summary_snd)

lemma failure_history [simp]: "dt_state_history (after_failure now counter disconnected reason t) = dt_state_history t"
  by (cases "dt_upstream_state t = MQTT_CONNECTING"; cases "dt_outage_started_at t"; cases counter; cases disconnected)
    (simp_all add: after_failure_def outage_defs Let_def)

lemma step_history:
  "dt_state_history (snd (tel_step now call t)) = dt_state_history t \<or>
    (\<exists>b. dt_state_history (snd (tel_step now call t)) = deque_append EVENT_HISTORY_LIMIT (now, b) (dt_state_history t))"
proof (cases call)
  case (Disconnected reason flags)
  show ?thesis
  proof (cases "dt_upstream_state t = UP_ONLINE")
    case True
    then show ?thesis
      unfolding Disconnected by (cases "dt_outage_started_at t"; cases "dt_last_online_started_at t")
        (auto simp: upstream_disconnected_def outage_defs Let_def)
  next
    case False
    then show ?thesis unfolding Disconnected failing_steps(3) [OF False] by simp
  qed
next
  case (Suspended reason)
  then show ?thesis
    by (cases "dt_upstream_state t = UP_ONLINE"; cases "dt_last_online_started_at t")
      (auto simp: upstream_suspended_def outage_defs Let_def)
next
  case Attempt
  then show ?thesis
    by (cases "dt_outage_started_at t") (auto simp: upstream_connect_attempt_def outage_defs Let_def)
next
  case Connack
  then show ?thesis
    by (cases "dt_outage_started_at t") (auto simp: upstream_online_def outage_defs Let_def)
next
  case (Refused code)
  show ?thesis unfolding Refused failing_steps by simp
next
  case (ConnectFailed reason)
  show ?thesis unfolding ConnectFailed failing_steps by simp
qed (simp add: outage_defs)

lemma history_ok_append:
  assumes "history_ok l t" "l \<le> now"
  shows "sorted (map fst (deque_append n (now, b) (dt_state_history t)))" "\<forall>e\<in>set (deque_append n (now, b) (dt_state_history t)). fst e \<le> now"
proof -
  have "sorted (map fst (dt_state_history t @ [(now, b)]))" using assms by (fastforce simp: history_ok_def sorted_append)
  then show "sorted (map fst (deque_append n (now, b) (dt_state_history t)))"
    unfolding deque_append_def drop_map [symmetric] by (rule sorted_wrt_drop)
  show "\<forall>e\<in>set (deque_append n (now, b) (dt_state_history t)). fst e \<le> now"
    using deque_append_set [of n "(now, b)" "dt_state_history t"] assms by (fastforce simp: history_ok_def)
qed

lemma history_ok_step: "history_ok l t \<Longrightarrow> l \<le> now \<Longrightarrow> history_ok now (snd (tel_step now call t))"
  using step_history [of now call t] history_ok_append by (fastforce simp: history_ok_def)

lemma history_ok_run: "history_ok l t \<Longrightarrow> sorted (l # map fst calls) \<Longrightarrow> \<forall>c\<in>set calls. fst c \<le> now \<Longrightarrow> l \<le> now \<Longrightarrow>
    history_ok now (snd (tel_run calls t))"
proof (induction calls arbitrary: l t)
  case Nil
  then show ?case by (fastforce simp: history_ok_def)
next
  case (Cons c calls)
  obtain s call where c: "c = (s, call)" by (cases c)
  have "history_ok s (snd (tel_step s call t))" using Cons.prems by (intro history_ok_step [of l]) (auto simp: c)
  from Cons.IH [OF this] Cons.prems show ?case by (simp add: c case_prod_beta Let_def)
qed

section \<open>Properties\<close>

text \<open>
  After any sequence of upstream events, failed attempts of an outage never exceed its attempts, an
  online device has a session start and no outage, a suspended one has no outage, and the retained
  histories hold at most 500 entries.
\<close>

theorem telemetry_consistent:
  "let t = snd (tel_run calls (init_device_telemetry start d))
   in dt_outage_failed_attempts t \<le> dt_outage_attempts t \<and>
      (dt_upstream_state t = UP_ONLINE \<longrightarrow> dt_outage_started_at t = None \<and> dt_last_online_started_at t \<noteq> None) \<and>
      (dt_upstream_state t = SUSPENDED \<longrightarrow> dt_outage_started_at t = None \<and> dt_outage_attempts t = 0) \<and>
      length (dt_state_history t) \<le> 500 \<and> length (dt_session_durations t) \<le> 500"
  using tel_inv_run [OF tel_inv_init, of calls start d]
  by (auto simp: tel_inv_def Let_def EVENT_HISTORY_LIMIT_def SESSION_HISTORY_LIMIT_def)

theorem telemetry_consistent_witness:
  "dt_outage_started_at (snd (tel_run [(1, Attempt), (2, Connack)] (init_device_telemetry 0 ''A''))) = None"
proof -
  have "dt_upstream_state (snd (tel_run [(1, Attempt), (2, Connack)] (init_device_telemetry 0 ''A''))) = UP_ONLINE"
    by (simp add: upstream_connect_attempt_def upstream_online_def init_device_telemetry_def outage_defs Let_def)
  with telemetry_consistent [of "[(1, Attempt), (2, Connack)]" 0 "''A''"] show ?thesis by (simp add: Let_def)
qed

text \<open>
  However upstream events arrive, two "still offline" summaries of a device are at least five
  minutes apart, and the first comes at least five minutes after observation began.
\<close>

theorem offline_summaries_rate_limited:
  assumes "sorted (start # map fst calls)"
  shows "sorted_wrt (\<lambda>a b. a + 300 \<le> b) (start # fst (tel_run calls (init_device_telemetry start d)))"
  using tel_run_spaced [OF tel_inv_init _ assms, of start d]
  by (auto simp: spaced_def init_device_telemetry_def)

theorem offline_summaries_rate_limited_witness:
  "fst (tel_run [(1, ConnectFailed ''x''), (400, ConnectFailed ''x''), (500, ConnectFailed ''x''), (700, ConnectFailed ''x'')]
     (init_device_telemetry 0 ''A'')) = [400, 700] \<and>
   sorted_wrt (\<lambda>a b. a + 300 \<le> b) (0 # fst (tel_run [(1, ConnectFailed ''x''), (400, ConnectFailed ''x''),
     (500, ConnectFailed ''x''), (700, ConnectFailed ''x'')] (init_device_telemetry 0 ''A'')))"
proof
  show "fst (tel_run [(1, ConnectFailed ''x''), (400, ConnectFailed ''x''), (500, ConnectFailed ''x''), (700, ConnectFailed ''x'')]
     (init_device_telemetry 0 ''A'')) = [400, 700]"
    by (simp add: failing_steps after_failure_def offline_summary_due_def init_device_telemetry_def outage_defs Let_def
        OFFLINE_SUMMARY_INTERVAL_SECONDS_def del: tel_step.simps)
qed (rule offline_summaries_rate_limited, simp)

text \<open>
  For events in the order of time, the availability reported for any window is a share between 0 and 1.
\<close>

theorem availability_is_share:
  assumes "sorted (start # map fst calls)" "\<forall>c\<in>set calls. fst c \<le> now" "start \<le> now"
    "availability now window (snd (tel_run calls (init_device_telemetry start d))) = Some a"
  shows "0 \<le> a \<and> a \<le> 1"
proof (rule availability_bounds [OF _ assms(4)])
  have "history_ok start (init_device_telemetry start d)" by (simp add: history_ok_def init_device_telemetry_def)
  from history_ok_run [OF this assms(1-3)] show "history_ok now (snd (tel_run calls (init_device_telemetry start d)))" .
qed

theorem availability_is_share_witness:
  "\<exists>a. availability 11 900 (snd (tel_run [(1, Connack)] (init_device_telemetry 0 ''A''))) = Some a \<and> 0 \<le> a \<and> a \<le> 1"
proof -
  have "availability 11 900 (snd (tel_run [(1, Connack)] (init_device_telemetry 0 ''A''))) = Some (10 / 11)"
    by (simp add: availability_def upstream_online_def init_device_telemetry_def outage_defs Let_def deque_append_def EVENT_HISTORY_LIMIT_def)
  then show ?thesis
    using availability_is_share [of 0 "[(1, Connack)]" 11 900 "''A''" "10 / 11"] by (intro exI [of _ "10 / 11"] conjI) simp_all
qed

end
