(* ===== verification/Sanitizer.thy ===== *)
theory Sanitizer
  imports Json
begin

text \<open>
  \<^verbatim>\<open>observability/sanitizer.py\<close>: redaction of texts by three regular expressions and of JSON values by
  key. A pattern is a list of key words, some extended by any word characters, with an optional word
  boundary before them; the scanner below is the leftmost match of \<open>re.sub\<close>. Its greedy choices are the
  only ones that can match: white space, separator and value are disjoint character classes, and no two
  key words of a pattern start at the same place. Letters are compared as ASCII.

  The lemmas show that no value under a sensitive key survives, that a field at the front of a text is
  redacted whatever its value, and two limits: a quoted key is not recognised in a text, and a short
  user name is not masked.
\<close>

definition REDACTED_VALUE :: string where "REDACTED_VALUE = ''<redacted>''"

section \<open>Texts\<close>

record field_pattern =
  pat_boundary :: bool
  pat_keys :: "(string \<times> bool) list"

definition PASSWORD_FIELD_PATTERN :: field_pattern where
  "PASSWORD_FIELD_PATTERN = \<lparr>pat_boundary = False, pat_keys = [(''password'', False), (''secret'', False)]\<rparr>"

definition TOKEN_FIELD_PATTERN :: field_pattern where
  "TOKEN_FIELD_PATTERN = \<lparr>pat_boundary = False, pat_keys = [(''authorization'', False), (''token'', False)]\<rparr>"

definition IDENTITY_FIELD_PATTERN :: field_pattern where
  "IDENTITY_FIELD_PATTERN = \<lparr>pat_boundary = True,
     pat_keys = [(''uuid'', False), (''uid'', False), (''tutk'', True), (''kalay'', True)]\<rparr>"

definition is_word_char :: "char \<Rightarrow> bool" where
  "is_word_char c \<longleftrightarrow> is_digit c \<or> c = CHR ''_'' \<or> (CHR ''a'' \<le> lower_char c \<and> lower_char c \<le> CHR ''z'')"

definition is_value_char :: "char \<Rightarrow> bool" where
  "is_value_char c \<longleftrightarrow> \<not> is_py_space c \<and> c \<notin> {CHR '','', CHR ''}'', CHR '']''}"

fun match_key :: "(string \<times> bool) list \<Rightarrow> string \<Rightarrow> (string \<times> string) option" where
  "match_key [] s = None"
| "match_key ((word, extended) # ks) s =
     (if lower (take (length word) s) = word then
        let r = drop (length word) s
        in if extended then Some (take (length word) s @ takeWhile is_word_char r, dropWhile is_word_char r)
           else Some (take (length word) s, r)
      else match_key ks s)"

text \<open>A field at the front: its key and separator, its value, and what follows.\<close>

definition match_field :: "(string \<times> bool) list \<Rightarrow> string \<Rightarrow> (string \<times> string \<times> string) option" where
  "match_field ks s = (case match_key ks s of
     None \<Rightarrow> None
   | Some (key, r) \<Rightarrow>
       (case dropWhile is_py_space r of
         [] \<Rightarrow> None
       | c # r1 \<Rightarrow>
           if c = CHR ''='' \<or> c = CHR '':'' then
             let r2 = dropWhile is_py_space r1; v = takeWhile is_value_char r2
             in if v = [] then None else Some (key @ [c], v, dropWhile is_value_char r2)
           else None))"

definition may_start :: "field_pattern \<Rightarrow> char option \<Rightarrow> bool" where
  "may_start p prev \<longleftrightarrow> (pat_boundary p \<longrightarrow> (case prev of None \<Rightarrow> True | Some c \<Rightarrow> \<not> is_word_char c))"

lemma match_key_shorter: "match_key ks s = Some (key, r) \<Longrightarrow> s = key @ r"
proof (induction ks s rule: match_key.induct)
  case (2 word extended ks s)
  then show ?case
    by (auto simp: Let_def split: if_splits) (metis append_take_drop_id takeWhile_dropWhile_id append_assoc)
qed simp

lemma match_field_shorter: "match_field ks s = Some (k, v, rest) \<Longrightarrow> length rest < length s"
proof -
  assume m: "match_field ks s = Some (k, v, rest)"
  then obtain key r c r1 where k: "match_key ks s = Some (key, r)" and d: "dropWhile is_py_space r = c # r1"
    and rest: "rest = dropWhile is_value_char (dropWhile is_py_space r1)"
    by (auto simp: match_field_def Let_def split: option.splits list.splits if_splits)
  have "length rest \<le> length r1" unfolding rest by (meson length_dropWhile_le le_trans)
  also have "\<dots> < length r" using length_dropWhile_le [of is_py_space r] d by simp
  also have "\<dots> \<le> length s" using match_key_shorter [OF k] by simp
  finally show ?thesis .
qed

function sub_fields :: "field_pattern \<Rightarrow> char option \<Rightarrow> string \<Rightarrow> string" where
  "sub_fields p prev s =
     (case (if may_start p prev then match_field (pat_keys p) s else None) of
       Some (k, v, rest) \<Rightarrow> k @ REDACTED_VALUE @ sub_fields p (Some (last v)) rest
     | None \<Rightarrow> (case s of [] \<Rightarrow> [] | c # cs \<Rightarrow> c # sub_fields p (Some c) cs))"
  by pat_completeness auto
termination
  by (relation "measure (\<lambda>(p, prev, s). length s)") (auto split: if_splits dest: match_field_shorter)

declare sub_fields.simps [simp del]

text \<open>\<open>str.replace\<close>: every occurrence from the left, not overlapping; the pattern is not empty.\<close>

function replace_all :: "string \<Rightarrow> string \<Rightarrow> string \<Rightarrow> string" where
  "replace_all old new s =
     (if s = [] then []
      else if old \<noteq> [] \<and> take (length old) s = old then new @ replace_all old new (drop (length old) s)
      else hd s # replace_all old new (tl s))"
  by auto
termination
  by (relation "measure (\<lambda>(old, new, s). length s)") auto

declare replace_all.simps [simp del]

definition sanitize_text :: "string \<Rightarrow> string list \<Rightarrow> string" where
  "sanitize_text message secrets =
     fold (\<lambda>secret s. if secret \<noteq> [] then replace_all secret REDACTED_VALUE s else s) secrets
       (sub_fields IDENTITY_FIELD_PATTERN None
         (sub_fields TOKEN_FIELD_PATTERN None (sub_fields PASSWORD_FIELD_PATTERN None message)))"

definition mask_username :: "string \<Rightarrow> string" where
  "mask_username username =
     (if length username \<le> 4 then replicate (length username) CHR ''*''
      else take 4 username @ ''****'' @ drop (length username - 4) username)"

section \<open>Values\<close>

definition SENSITIVE_FRAGMENTS :: "string list" where
  "SENSITIVE_FRAGMENTS = [''password'', ''secret'', ''authorization'', ''token'', ''credential'', ''tutk'', ''kalay'']"

definition is_sensitive_key :: "string \<Rightarrow> bool" where
  "is_sensitive_key key \<longleftrightarrow>
     lower key \<in> set [''username'', ''user'', ''uuid'', ''uid'', ''mqttaddr'', ''httpsaddr'', ''internalurl''] \<or>
     (\<exists>fragment\<in>set SENSITIVE_FRAGMENTS. sublist fragment (lower key))"

definition is_upstream_service_sensitive_key :: "string \<Rightarrow> bool" where
  "is_upstream_service_sensitive_key key \<longleftrightarrow>
     lower key \<in> {''username'', ''user''} \<or> (\<exists>fragment\<in>set SENSITIVE_FRAGMENTS. sublist fragment (lower key))"

fun sanitize_value :: "json \<Rightarrow> json" where
  "sanitize_value (JStr s) = JStr (sanitize_text s [])"
| "sanitize_value (JObj kvs) =
     JObj (map (\<lambda>(k, v). (k, if is_sensitive_key k then JStr REDACTED_VALUE else sanitize_value v)) kvs)"
| "sanitize_value (JList xs) = JList (map sanitize_value xs)"
| "sanitize_value v = v"

fun sanitize_upstream_service_payload :: "json \<Rightarrow> json" where
  "sanitize_upstream_service_payload (JObj kvs) =
     JObj (map (\<lambda>(k, v). (k, if is_upstream_service_sensitive_key k then JStr REDACTED_VALUE else sanitize_upstream_service_payload v)) kvs)"
| "sanitize_upstream_service_payload (JList xs) = JList (map sanitize_upstream_service_payload xs)"
| "sanitize_upstream_service_payload v = v"

section \<open>What is left\<close>

text \<open>No object of a value holds anything but the redaction mark under a sensitive key.\<close>

fun redacted :: "(string \<Rightarrow> bool) \<Rightarrow> json \<Rightarrow> bool" where
  "redacted sensitive (JObj kvs) = list_all (\<lambda>(k, v). if sensitive k then v = JStr REDACTED_VALUE else redacted sensitive v) kvs"
| "redacted sensitive (JList xs) = list_all (redacted sensitive) xs"
| "redacted sensitive v = True"

lemma sanitized_values_redacted:
  "redacted is_sensitive_key (sanitize_value v)"
  "redacted is_upstream_service_sensitive_key (sanitize_upstream_service_payload v)"
  by (induction v) (auto simp: list_all_iff)

text \<open>
  A user name of five to eight characters is shown completely: the mask keeps the first and the last four.
\<close>

theorem short_username_not_masked:
  assumes "4 < length u" "length u \<le> 8"
  shows "u = take 4 (mask_username u) @ drop (16 - length u) (mask_username u)"
proof -
  have "drop (16 - length u) (mask_username u) = drop (8 - length u) (drop (length u - 4) u)"
    using assms by (simp add: mask_username_def drop_Cons')
  also have "\<dots> = drop 4 u" using assms by simp
  finally show ?thesis using assms by (simp add: mask_username_def)
qed

text \<open>The value of a field never influences the redacted text.\<close>

lemma field_value_redacted:
  assumes "match_field (pat_keys p) s = Some (k, v, rest)" "may_start p prev"
  shows "sub_fields p prev s = k @ REDACTED_VALUE @ sub_fields p (Some (last v)) rest"
  using assms by (subst sub_fields.simps) simp

lemma sanitize_examples:
  "sanitize_text ''login Password = hunter2, ok'' [] = ''login Password=<redacted>, ok''"
  "sanitize_text ''uid:AB1 xuid:AB2'' [] = ''uid:<redacted> xuid:AB2''"
  "sanitize_text ''pin 1234'' [''1234''] = ''pin <redacted>''"
  by code_simp+

text \<open>
  The closing quote of a JSON or \<open>repr\<close> key stands between key word and separator, so that form of a
  field passes through unchanged.
\<close>

theorem quoted_field_not_redacted:
  "sanitize_text (CHR 0x22 # ''password'' @ [CHR 0x22] @ '':hunter2'') [] = CHR 0x22 # ''password'' @ [CHR 0x22] @ '':hunter2''"
  by code_simp

end
