(* ===== verification/Device_Context.thy ===== *)
theory Device_Context
  imports Telemetry Device_Registry Sanitizer
begin

text \<open>
  \<^verbatim>\<open>device_context.py\<close> and the in-memory part of \<^verbatim>\<open>state_cache.py\<close>: one device's cloud session and the
  routing of its messages. What contexts share (queue, state shadow, topic cache, relay telemetry) is a
  record of its own that every operation passes on; the responder is run on the shared shadow. A Paho
  client is its identity, taken from a counter when it is built; connecting, disconnecting and the
  network loop are Paho's and leave no trace here. Results of \<open>client.subscribe\<close> are an argument of the
  connect callback, one per category. Whether the file of the topic cache can be
  written is an argument too, and a failed write raises, as do the responder and the database.

  The lemmas show that callbacks of a replaced session change nothing, that replay is enabled only after
  every subscription of the running session was answered, and that each message takes exactly one route:
  answered or ignored locally, dropped as an ephemeral report while the cloud is away, or queued for its
  own device and direction.
\<close>

definition LOCAL_TO_UPSTREAM :: string where [relay_defs]: "LOCAL_TO_UPSTREAM = ''local-to-upstream''"
definition UPSTREAM_TO_LOCAL :: string where [relay_defs]: "UPSTREAM_TO_LOCAL = ''upstream-to-local''"

definition UPSTREAM_SUBSCRIBE_CATEGORIES :: "string list" where
  "UPSTREAM_SUBSCRIBE_CATEGORIES = [''service'', ''event'', ''ota'', ''ntp'', ''broadcast'', ''heart'', ''config'', ''system'']"

section \<open>State\<close>

record SharedStores =
  sx_queue :: MessageQueue
  sx_shadow :: StateShadow
  sx_cache :: "(string, json \<times> seconds) dict"
  sx_telemetry :: RelayTelemetry
  sx_next_client :: nat

record DeviceContext =
  dx_identity :: DeviceIdentity
  dx_telemetry :: DeviceTelemetry
  dx_responder :: "LocalResponder option"
  dx_pending_subscriptions :: "(int, string) dict"
  dx_subscriptions_ready :: bool
  dx_upstream_client :: "nat option"

definition dx_device_id :: "DeviceContext \<Rightarrow> string" where
  "dx_device_id x = di_client_id (dx_identity x)"

definition dx_product_id :: "DeviceContext \<Rightarrow> string" where
  "dx_product_id x = di_product_id (dx_identity x)"

definition init_context :: "DeviceIdentity \<Rightarrow> DeviceTelemetry \<Rightarrow> LocalResponder option \<Rightarrow> DeviceContext" where
  "init_context identity telemetry responder =
     \<lparr>dx_identity = identity, dx_telemetry = telemetry, dx_responder = responder, dx_pending_subscriptions = [],
      dx_subscriptions_ready = True, dx_upstream_client = None\<rparr>"

definition upstream_running :: "DeviceContext \<Rightarrow> bool" where
  "upstream_running x \<longleftrightarrow> dx_upstream_client x \<noteq> None"

definition upstream_replay_ready :: "DeviceContext \<Rightarrow> bool" where
  "upstream_replay_ready x = dx_subscriptions_ready x"

definition upstream_state :: "DeviceContext \<Rightarrow> UpstreamState" where
  "upstream_state x = dt_upstream_state (dx_telemetry x)"

text \<open>\<open>StateCache.update\<close>, without the file.\<close>

definition cache_update :: "seconds \<Rightarrow> string \<Rightarrow> bytes \<Rightarrow> (string, json \<times> seconds) dict \<Rightarrow> (string, json \<times> seconds) dict" where
  "cache_update now topic payload cached = dict_set topic (decode_payload payload, now) cached"

definition emit :: "RuntimeEvent \<Rightarrow> SharedStores \<Rightarrow> SharedStores" where
  "emit e s = s\<lparr>sx_telemetry := record_event e (sx_telemetry s)\<rparr>"

definition with_telemetry :: "(DeviceTelemetry \<Rightarrow> UpstreamTransition \<times> DeviceTelemetry \<times> RuntimeEvent)
    \<Rightarrow> DeviceContext \<times> SharedStores \<Rightarrow> DeviceContext \<times> SharedStores" where
  "with_telemetry f xs = (case xs of (x, s) \<Rightarrow>
     (let (tr, t, e) = f (dx_telemetry x) in (x\<lparr>dx_telemetry := t\<rparr>, emit e s)))"

definition count_event :: "string \<Rightarrow> nat \<Rightarrow> DeviceContext \<Rightarrow> DeviceContext" where
  "count_event counter n x = x\<lparr>dx_telemetry := tel_increment counter n (dx_telemetry x)\<rparr>"

section \<open>Lifecycle\<close>

definition start_upstream :: "seconds \<Rightarrow> DeviceContext \<times> SharedStores \<Rightarrow> bool \<times> DeviceContext \<times> SharedStores" where
  "start_upstream now xs = (case xs of (x, s) \<Rightarrow>
     if dx_upstream_client x \<noteq> None then (False, x, s)
     else (True, with_telemetry (upstream_connect_attempt now)
       (x\<lparr>dx_upstream_client := Some (sx_next_client s), dx_subscriptions_ready := False\<rparr>,
        s\<lparr>sx_next_client := Suc (sx_next_client s)\<rparr>)))"

definition stop_upstream :: "seconds \<Rightarrow> string \<Rightarrow> DeviceContext \<times> SharedStores \<Rightarrow> bool \<times> DeviceContext \<times> SharedStores" where
  "stop_upstream now reason xs = (case xs of (x, s) \<Rightarrow>
     if dx_upstream_client x = None then (False, x, s)
     else (let (t, e) = upstream_suspended now reason (dx_telemetry x)
           in (True, x\<lparr>dx_upstream_client := None, dx_subscriptions_ready := False, dx_telemetry := t\<rparr>, emit e s)))"

section \<open>Messages\<close>

definition enqueue_message :: "seconds \<Rightarrow> string \<Rightarrow> string \<Rightarrow> bytes \<Rightarrow> int \<Rightarrow> bool \<Rightarrow> DeviceContext \<times> SharedStores
    \<Rightarrow> DeviceContext \<times> SharedStores" where
  "enqueue_message now direction topic payload qos is_cloud_to_device xs = (case xs of (x, s) \<Rightarrow>
     (let command = extract_command payload;
          policy = policy_for is_cloud_to_device command;
          online = (upstream_state x = UP_ONLINE)
      in if \<not> should_enqueue policy online then (count_event ''queue_dropped_ephemeral'' 1 x, s)
         else
           let (superseded_count, q) = enqueue now (dx_device_id x) direction topic payload qos
                 (coalesce_key_for topic command policy payload) (dx_product_id x) (max_age_seconds policy)
                 (\<not> is_cloud_to_device \<and> online) (sx_queue s)
           in (if superseded_count \<noteq> 0 then count_event ''queue_coalesced_latest'' superseded_count x else x, s\<lparr>sx_queue := q\<rparr>)))"

definition observe_ntp :: "bytes \<Rightarrow> string \<Rightarrow> DeviceContext \<Rightarrow> DeviceContext" where
  "observe_ntp payload source x =
     (if extract_command payload = Some cmd_NTP \<and> source = ''device'' then count_event ''ntp_requests'' 1 x
      else if extract_command payload = Some cmd_NTP_SYNC then count_event (''ntp_sync_from_'' @ source) 1 x
      else x)"

text \<open>The message is cached and NTP traffic counted before anything else.\<close>

definition note_message :: "seconds \<Rightarrow> string \<Rightarrow> string \<Rightarrow> bytes \<Rightarrow> DeviceContext \<times> SharedStores \<Rightarrow> DeviceContext \<times> SharedStores" where
  "note_message now source topic payload xs = (case xs of (x, s) \<Rightarrow>
     (observe_ntp payload source x, s\<lparr>sx_cache := cache_update now topic payload (sx_cache s)\<rparr>))"

definition with_responder :: "LocalResponder \<Rightarrow> DeviceContext \<times> SharedStores \<Rightarrow> DeviceContext \<times> SharedStores" where
  "with_responder r xs = (case xs of (x, s) \<Rightarrow> (x\<lparr>dx_responder := Some r\<rparr>, s\<lparr>sx_shadow := lr_shadow r\<rparr>))"

text \<open>
  \<open>StateCache.update\<close> writes the whole cache to disk and raises when that fails: whether it succeeds is the
  argument \<open>cache_ok\<close>. \<open>None\<close> is an exception, of the cache or of the responder.
\<close>

definition handle_local_message :: "seconds \<Rightarrow> bool \<Rightarrow> string \<Rightarrow> zone \<Rightarrow> string \<Rightarrow> bytes \<Rightarrow> int \<Rightarrow> DeviceContext \<times> SharedStores
    \<Rightarrow> (ResponderAction option \<times> DeviceContext \<times> SharedStores) option" where
  "handle_local_message now cache_ok fresh_id zone topic payload qos xs =
     (if \<not> cache_ok then None else
      let noted = note_message now ''device'' topic payload xs;
          send = (\<lambda>ys. (None, enqueue_message now LOCAL_TO_UPSTREAM topic payload qos False ys))
      in case noted of (x, s) \<Rightarrow>
        (case dx_responder x of
          None \<Rightarrow> Some (send (x, s))
        | Some r \<Rightarrow>
            (case decide now fresh_id zone (dx_device_id x) topic payload (upstream_state x) (r\<lparr>lr_shadow := sx_shadow s\<rparr>) of
              None \<Rightarrow> None
            | Some (action, r') \<Rightarrow>
                (let (x', s') = with_responder r' (x, s)
                 in if ra_decision action = RESPOND_LOCAL then Some (Some action, count_event ''local_responses'' 1 x', s')
                    else if ra_decision action = IGNORE then Some (None, x', s')
                    else Some (send (x', s'))))))"

definition is_stale_client :: "nat \<Rightarrow> DeviceContext \<Rightarrow> bool" where
  "is_stale_client client x \<longleftrightarrow> dx_upstream_client x \<noteq> Some client"

text \<open>The flag says that the callback raised, from the cache or from the responder's database, and what it then leaves behind.\<close>

definition on_upstream_message :: "seconds \<Rightarrow> bool \<Rightarrow> nat \<Rightarrow> string \<Rightarrow> bytes \<Rightarrow> int \<Rightarrow> DeviceContext \<times> SharedStores
    \<Rightarrow> bool \<times> DeviceContext \<times> SharedStores" where
  "on_upstream_message now cache_ok client topic payload qos xs =
     (if is_stale_client client (fst xs) then (False, xs)
      else if \<not> cache_ok then (True, fst xs, (snd xs)\<lparr>sx_cache := cache_update now topic payload (sx_cache (snd xs))\<rparr>)
      else (case note_message now ''cloud'' topic payload xs of (x, s) \<Rightarrow>
        (case dx_responder x of
          None \<Rightarrow> (False, enqueue_message now UPSTREAM_TO_LOCAL topic payload qos True (x, s))
        | Some r \<Rightarrow>
            (let (raised, r1) = observe_cloud_message now (dx_device_id x) topic payload (r\<lparr>lr_shadow := sx_shadow s\<rparr>)
             in if raised then (True, with_responder r1 (x, s))
                else
                  let (suppressed, r2) = is_suppressed_cloud_response now (dx_device_id x) payload r1;
                      (x', s') = with_responder r2 (x, s)
                  in if suppressed then (False, count_event ''suppressed_late_cloud_responses'' 1 x', s')
                     else (False, enqueue_message now UPSTREAM_TO_LOCAL topic payload qos True (x', s'))))))"

text \<open>The opt-in diagnostic line: its command, message id and redacted body, or why there is none.\<close>

datatype service_log = ServiceLog string string json | NonJson nat | NonObject nat

definition log_upstream_service_payload :: "bool \<Rightarrow> string \<Rightarrow> bytes \<Rightarrow> service_log option" where
  "log_upstream_service_payload enabled topic payload =
     (if \<not> enabled then None
      else (case parse_topic topic of
        None \<Rightarrow> None
      | Some a \<Rightarrow>
          if \<not> ta_is_sub a \<or> ta_category a \<noteq> ''service'' then None
          else (case json_loads payload of
            None \<Rightarrow> Some (NonJson (length payload))
          | Some (JObj d) \<Rightarrow> Some (ServiceLog
              (case str_field d ''cmd'' of Some c \<Rightarrow> c | None \<Rightarrow> ''unknown'')
              (case str_field d ''msgId'' of Some m \<Rightarrow> m | None \<Rightarrow> ''none'')
              (sanitize_upstream_service_payload (JObj d)))
          | Some _ \<Rightarrow> Some (NonObject (length payload)))))"

section \<open>Callbacks of the cloud session\<close>

text \<open>Each category's subscription, with whether Paho accepted it and under which message id.\<close>

definition subscribed :: "string \<Rightarrow> (bool \<times> int option) list \<Rightarrow> (int, string) dict" where
  "subscribed root_topic results = fold (\<lambda>(category, ok, mid) pending.
       case mid of Some m \<Rightarrow>
         if ok then dict_set m (root_topic @ ''/'' @ DEVICE_SEGMENT @ ''/'' @ category @ ''/'' @ SUB_SUFFIX) pending else pending
       | None \<Rightarrow> pending)
     (zip UPSTREAM_SUBSCRIBE_CATEGORIES results) []"

definition on_upstream_connect :: "seconds \<Rightarrow> nat \<Rightarrow> string option \<Rightarrow> (bool \<times> int option) list \<Rightarrow> DeviceContext \<times> SharedStores
    \<Rightarrow> DeviceContext \<times> SharedStores" where
  "on_upstream_connect now client failure results xs =
     (if is_stale_client client (fst xs) then xs
      else (case failure of
        Some reason_code \<Rightarrow> with_telemetry (upstream_refused now reason_code) xs
      | None \<Rightarrow>
          (case with_telemetry (upstream_online now) xs of (x, s) \<Rightarrow>
            let pending = subscribed (topic_prefix (dx_device_id x) (dx_product_id x)) results
            in (x\<lparr>dx_pending_subscriptions := pending, dx_subscriptions_ready := (pending = [])\<rparr>, s))))"

definition on_upstream_connect_fail :: "seconds \<Rightarrow> nat \<Rightarrow> DeviceContext \<times> SharedStores \<Rightarrow> DeviceContext \<times> SharedStores" where
  "on_upstream_connect_fail now client xs = with_telemetry (upstream_connect_failed now ''TCP/DNS connect failure'') xs"

definition on_upstream_subscribe :: "nat \<Rightarrow> int \<Rightarrow> DeviceContext \<times> SharedStores \<Rightarrow> DeviceContext \<times> SharedStores" where
  "on_upstream_subscribe client mid xs = (case xs of (x, s) \<Rightarrow>
     if is_stale_client client x then (x, s)
     else (let pending = dict_pop mid (dx_pending_subscriptions x)
           in (x\<lparr>dx_pending_subscriptions := pending,
                 dx_subscriptions_ready := (if pending = [] then True else dx_subscriptions_ready x)\<rparr>, s)))"

definition on_upstream_disconnect :: "seconds \<Rightarrow> nat \<Rightarrow> string \<Rightarrow> string \<Rightarrow> DeviceContext \<times> SharedStores \<Rightarrow> DeviceContext \<times> SharedStores" where
  "on_upstream_disconnect now client reason flags xs = (case xs of (x, s) \<Rightarrow>
     if is_stale_client client x then (x, s)
     else with_telemetry (upstream_connect_attempt now)
       (with_telemetry (upstream_disconnected now reason (Some flags)) (x\<lparr>dx_subscriptions_ready := False\<rparr>, s)))"

section \<open>Log lines of transitions\<close>

text \<open>A line's level, its first words and its arguments in the order of the format string.\<close>

datatype log_level = LOG_DEBUG | LOG_INFO | LOG_WARNING

datatype log_arg = ArgText "string option" | ArgCount nat | ArgSeconds seconds | ArgState UpstreamState

type_synonym log_line = "log_level \<times> string \<times> log_arg list"

definition log_upstream_transition :: "UpstreamTransition \<Rightarrow> log_line list" where
  "log_upstream_transition tr =
     (let device = ArgText (Some (ut_device_id tr));
          downtime = ArgSeconds (case ut_downtime_seconds tr of None \<Rightarrow> 0 | Some s \<Rightarrow> s);
          attempt = ArgCount (ut_attempt tr);
          reason = ArgText (ut_reason tr);
          before = ArgState (ut_state_before tr);
          summary = (if ut_offline_summary_due tr
            then [(LOG_WARNING, ''UPSTREAM still offline'', [device, downtime, attempt, reason])] else [])
      in case ut_kind tr of
        CONNECT_ATTEMPT \<Rightarrow> [(LOG_DEBUG, ''Upstream MQTT CONNECT'', [device, attempt, before, ArgState (ut_state_after tr)])]
      | SESSION_LOST \<Rightarrow> [(LOG_WARNING, ''UPSTREAM lost'', [device, reason,
          ArgSeconds (case ut_session_duration_seconds tr of None \<Rightarrow> 0 | Some s \<Rightarrow> s), before, ArgText (ut_disconnect_flags tr)])]
      | ONLINE \<Rightarrow> [(LOG_INFO, ''UPSTREAM online'', [device, downtime, before])]
      | RESTORED \<Rightarrow> [(LOG_INFO, ''UPSTREAM restored'', [device, downtime, ArgCount (ut_failed_attempts tr), before])]
      | CONNACK_REFUSED \<Rightarrow> (LOG_WARNING, ''Upstream CONNACK refused'', [device, ArgText (ut_reason_code tr), attempt, before]) # summary
      | _ \<Rightarrow> (LOG_DEBUG, ''Upstream reconnect failed'', [device, attempt, reason, before]) # summary)"

text \<open>
  A failed retry is visible above debug level only as a refusal by the cloud or through a rate-limited
  summary; losing an established session always is.
\<close>

lemma quiet_retries:
  "(LOG_WARNING, msg, args) \<in> set (log_upstream_transition tr) \<Longrightarrow>
     ut_kind tr \<in> {SESSION_LOST, CONNACK_REFUSED} \<or> ut_offline_summary_due tr"
  by (cases "ut_kind tr") (auto simp: log_upstream_transition_def Let_def split: if_splits)

lemma session_loss_is_logged:
  "dt_upstream_state t = UP_ONLINE \<Longrightarrow> \<exists>args.
     log_upstream_transition (fst (upstream_disconnected now reason flags t)) = [(LOG_WARNING, ''UPSTREAM lost'', args)]"
  by (simp add: log_upstream_transition_def upstream_disconnected_def transition_def Let_def)

section \<open>Frame\<close>

lemma count_event_keep [simp]:
  "dx_identity (count_event k n x) = dx_identity x" "dx_responder (count_event k n x) = dx_responder x"
  "dx_pending_subscriptions (count_event k n x) = dx_pending_subscriptions x"
  "dx_subscriptions_ready (count_event k n x) = dx_subscriptions_ready x"
  "dx_upstream_client (count_event k n x) = dx_upstream_client x"
  "upstream_state (count_event k n x) = upstream_state x" "dx_device_id (count_event k n x) = dx_device_id x"
  "dx_product_id (count_event k n x) = dx_product_id x"
  by (simp_all add: count_event_def upstream_state_def tel_increment_def dx_device_id_def dx_product_id_def)

lemma observe_ntp_keep [simp]:
  "dx_identity (observe_ntp p src x) = dx_identity x" "dx_responder (observe_ntp p src x) = dx_responder x"
  "dx_pending_subscriptions (observe_ntp p src x) = dx_pending_subscriptions x"
  "dx_subscriptions_ready (observe_ntp p src x) = dx_subscriptions_ready x"
  "dx_upstream_client (observe_ntp p src x) = dx_upstream_client x"
  "upstream_state (observe_ntp p src x) = upstream_state x" "dx_device_id (observe_ntp p src x) = dx_device_id x"
  "dx_product_id (observe_ntp p src x) = dx_product_id x"
  by (simp_all add: observe_ntp_def)

text \<open>What a session's lifecycle depends on: the client and its subscriptions.\<close>

definition session :: "DeviceContext \<Rightarrow> nat option \<times> (int, string) dict \<times> bool" where
  "session x = (dx_upstream_client x, dx_pending_subscriptions x, dx_subscriptions_ready x)"

lemma session_keep [simp]:
  "session (count_event k n x) = session x" "session (observe_ntp p src x) = session x"
  "session (x\<lparr>dx_responder := r\<rparr>) = session x" "session (x\<lparr>dx_telemetry := t\<rparr>) = session x"
  by (simp_all add: session_def)

lemma with_telemetry_session [simp]: "session (fst (with_telemetry f xs)) = session (fst xs)"
  "sx_next_client (snd (with_telemetry f xs)) = sx_next_client (snd xs)" "sx_queue (snd (with_telemetry f xs)) = sx_queue (snd xs)"
  by (simp_all add: with_telemetry_def emit_def case_prod_beta)

lemma with_telemetry_identity [simp]: "dx_identity (fst (with_telemetry f xs)) = dx_identity (fst xs)"
  by (simp add: with_telemetry_def case_prod_beta)

lemma enqueue_message_session [simp]:
  "session (fst (enqueue_message now dir topic payload qos c2d xs)) = session (fst xs)"
  "sx_next_client (snd (enqueue_message now dir topic payload qos c2d xs)) = sx_next_client (snd xs)"
  by (simp_all add: enqueue_message_def case_prod_beta Let_def)

lemma handle_local_session:
  "handle_local_message now ok i zone topic payload qos xs = Some (a, x', s') \<Longrightarrow>
    session x' = session (fst xs) \<and> sx_next_client s' = sx_next_client (snd xs)"
proof -
  assume h: "handle_local_message now ok i zone topic payload qos xs = Some (a, x', s')"
  have e: "enqueue_message now dir topic payload qos c2d ys = (x', s') \<Longrightarrow> session x' = session (fst ys) \<and> sx_next_client s' = sx_next_client (snd ys)"
    for dir c2d ys using enqueue_message_session [of now dir topic payload qos c2d ys] by simp
  from h show ?thesis
    by (auto simp: handle_local_message_def note_message_def with_responder_def Let_def case_prod_beta
        split: option.splits if_splits dest!: e)
qed

lemma upstream_message_session [simp]:
  "session (fst (snd (on_upstream_message now ok client topic payload qos xs))) = session (fst xs)"
  "sx_next_client (snd (snd (on_upstream_message now ok client topic payload qos xs))) = sx_next_client (snd xs)"
  by (simp_all add: on_upstream_message_def note_message_def with_responder_def Let_def case_prod_beta split: option.split)

section \<open>Reachable contexts\<close>

inductive context_reachable :: "DeviceContext \<times> SharedStores \<Rightarrow> bool" where
  ctx_init: "context_reachable (init_context identity t r, s)"
| ctx_start: "context_reachable xs \<Longrightarrow> context_reachable (snd (start_upstream now xs))"
| ctx_stop: "context_reachable xs \<Longrightarrow> context_reachable (snd (stop_upstream now reason xs))"
| ctx_local: "context_reachable xs \<Longrightarrow> handle_local_message now ok i zone topic payload qos xs = Some (a, ys) \<Longrightarrow> context_reachable ys"
| ctx_cloud: "context_reachable xs \<Longrightarrow> context_reachable (snd (on_upstream_message now ok client topic payload qos xs))"
| ctx_connect: "context_reachable xs \<Longrightarrow> context_reachable (on_upstream_connect now client failure results xs)"
| ctx_connect_fail: "context_reachable xs \<Longrightarrow> context_reachable (on_upstream_connect_fail now client xs)"
| ctx_subscribe: "context_reachable xs \<Longrightarrow> context_reachable (on_upstream_subscribe client mid xs)"
| ctx_disconnect: "context_reachable xs \<Longrightarrow> context_reachable (on_upstream_disconnect now client reason flags xs)"
| ctx_others: "context_reachable (x, s) \<Longrightarrow> sx_next_client s \<le> sx_next_client s' \<Longrightarrow> context_reachable (x, s')"

definition session_inv :: "nat option \<times> (int, string) dict \<times> bool \<Rightarrow> nat \<Rightarrow> bool" where
  "session_inv ses next \<longleftrightarrow> (case ses of (client, pending, ready) \<Rightarrow>
     (client \<noteq> None \<longrightarrow> ready \<longrightarrow> pending = []) \<and> (\<forall>k. client = Some k \<longrightarrow> k < next))"

lemma session_of_ops:
  "session (fst (snd (start_upstream now (x, s)))) =
     (if dx_upstream_client x \<noteq> None then session x else (Some (sx_next_client s), dx_pending_subscriptions x, False))"
  "sx_next_client (snd (snd (start_upstream now (x, s)))) = (if dx_upstream_client x \<noteq> None then sx_next_client s else Suc (sx_next_client s))"
  "session (fst (snd (stop_upstream now reason (x, s)))) =
     (if dx_upstream_client x = None then session x else (None, dx_pending_subscriptions x, False))"
  "sx_next_client (snd (snd (stop_upstream now reason (x, s)))) = sx_next_client s"
  "session (fst (on_upstream_subscribe client mid (x, s))) =
     (if is_stale_client client x then session x
      else let pending = dict_pop mid (dx_pending_subscriptions x)
           in (dx_upstream_client x, pending, if pending = [] then True else dx_subscriptions_ready x))"
  "sx_next_client (snd (on_upstream_subscribe client mid (x, s))) = sx_next_client s"
  "session (fst (on_upstream_disconnect now client reason flags (x, s))) =
     (if is_stale_client client x then session x else (dx_upstream_client x, dx_pending_subscriptions x, False))"
  "sx_next_client (snd (on_upstream_disconnect now client reason flags (x, s))) = sx_next_client s"
  by (simp_all add: start_upstream_def stop_upstream_def on_upstream_subscribe_def on_upstream_disconnect_def
      emit_def case_prod_beta Let_def) (simp_all add: session_def)

lemma session_connect:
  "\<exists>pending. session (fst (on_upstream_connect now client failure results xs)) =
     (if is_stale_client client (fst xs) \<or> failure \<noteq> None then session (fst xs) else (dx_upstream_client (fst xs), pending, pending = []))"
  "sx_next_client (snd (on_upstream_connect now client failure results xs)) = sx_next_client (snd xs)"
proof -
  obtain y t where y: "with_telemetry (upstream_online now) xs = (y, t)" by force
  have "session y = session (fst xs)" using with_telemetry_session(1) [of "upstream_online now" xs] y by simp
  then have "dx_upstream_client y = dx_upstream_client (fst xs)" by (simp add: session_def)
  then show "\<exists>pending. session (fst (on_upstream_connect now client failure results xs)) =
     (if is_stale_client client (fst xs) \<or> failure \<noteq> None then session (fst xs) else (dx_upstream_client (fst xs), pending, pending = []))"
    by (auto simp: on_upstream_connect_def y Let_def split: option.split) (simp add: session_def)
  show "sx_next_client (snd (on_upstream_connect now client failure results xs)) = sx_next_client (snd xs)"
    by (simp add: on_upstream_connect_def case_prod_beta Let_def split: option.split)
qed

lemma reachable_session: "context_reachable xs \<Longrightarrow> session_inv (session (fst xs)) (sx_next_client (snd xs))"
proof (induction rule: context_reachable.induct)
  case (ctx_init identity t r s)
  then show ?case by (simp add: init_context_def session_def session_inv_def)
next
  case (ctx_start xs now)
  obtain x s where xs: "xs = (x, s)" by (rule prod.exhaust)
  show ?case
    using ctx_start.IH unfolding xs session_of_ops fst_conv snd_conv by (auto simp: session_inv_def session_def)
next
  case (ctx_stop xs now reason)
  obtain x s where xs: "xs = (x, s)" by (rule prod.exhaust)
  show ?case
    using ctx_stop.IH unfolding xs session_of_ops fst_conv snd_conv by (auto simp: session_inv_def session_def)
next
  case (ctx_local xs now ok i zone topic payload qos a ys)
  then show ?case using handle_local_session [of now ok i zone topic payload qos xs a] by (cases ys) simp
next
  case (ctx_connect xs now client failure results)
  then show ?case
    using session_connect [of now client failure results xs] by (auto simp: session_inv_def session_def split: if_splits)
next
  case (ctx_connect_fail xs now client)
  then show ?case by (simp add: on_upstream_connect_fail_def)
next
  case (ctx_subscribe xs client mid)
  obtain x s where xs: "xs = (x, s)" by (rule prod.exhaust)
  show ?case
    using ctx_subscribe.IH unfolding xs session_of_ops fst_conv snd_conv Let_def
    by (cases "is_stale_client client x"; cases "dict_pop mid (dx_pending_subscriptions x) = []")
      (simp_all add: session_inv_def session_def, auto)
next
  case (ctx_disconnect xs now client reason flags)
  obtain x s where xs: "xs = (x, s)" by (rule prod.exhaust)
  show ?case
    using ctx_disconnect.IH unfolding xs session_of_ops fst_conv snd_conv by (auto simp: session_inv_def session_def)
next
  case (ctx_others x s s')
  then show ?case by (auto simp: session_inv_def split: prod.splits)
qed simp

section \<open>Routes\<close>

definition queue_for_cloud :: "seconds \<Rightarrow> DeviceContext \<Rightarrow> string \<Rightarrow> bytes \<Rightarrow> int \<Rightarrow> MessageQueue \<Rightarrow> MessageQueue" where
  "queue_for_cloud now x topic payload qos q =
     (let command = extract_command payload; policy = policy_for False command
      in snd (enqueue now (dx_device_id x) LOCAL_TO_UPSTREAM topic payload qos (coalesce_key_for topic command policy payload)
           (dx_product_id x) (max_age_seconds policy) (upstream_state x = UP_ONLINE) q))"

definition queue_for_device :: "seconds \<Rightarrow> DeviceContext \<Rightarrow> string \<Rightarrow> bytes \<Rightarrow> int \<Rightarrow> MessageQueue \<Rightarrow> MessageQueue" where
  "queue_for_device now x topic payload qos q =
     (let command = extract_command payload; policy = policy_for True command
      in snd (enqueue now (dx_device_id x) UPSTREAM_TO_LOCAL topic payload qos (coalesce_key_for topic command policy payload)
           (dx_product_id x) (max_age_seconds policy) False q))"

lemma enqueue_message_queue:
  "sx_queue (snd (enqueue_message now LOCAL_TO_UPSTREAM topic payload qos False (x, s))) =
     (if should_enqueue (policy_for False (extract_command payload)) (upstream_state x = UP_ONLINE)
      then queue_for_cloud now x topic payload qos (sx_queue s) else sx_queue s)"
  "sx_queue (snd (enqueue_message now UPSTREAM_TO_LOCAL topic payload qos True (x, s))) =
     (if should_enqueue (policy_for True (extract_command payload)) (upstream_state x = UP_ONLINE)
      then queue_for_device now x topic payload qos (sx_queue s) else sx_queue s)"
  by (simp_all add: enqueue_message_def queue_for_cloud_def queue_for_device_def case_prod_beta Let_def)

lemma queue_for_other [isolation]:
  "queue_inv q \<Longrightarrow> (d, dir) \<noteq> (dx_device_id x, LOCAL_TO_UPSTREAM) \<Longrightarrow> select_rows (queue_for_cloud now x topic payload qos q) d dir = select_rows q d dir"
  "queue_inv q \<Longrightarrow> (d, dir) \<noteq> (dx_device_id x, UPSTREAM_TO_LOCAL) \<Longrightarrow> select_rows (queue_for_device now x topic payload qos q) d dir = select_rows q d dir"
  by (auto simp: queue_for_cloud_def queue_for_device_def Let_def intro!: select_enqueue_other)

lemma context_keep [simp]:
  "upstream_state (x\<lparr>dx_responder := r\<rparr>) = upstream_state x" "dx_device_id (x\<lparr>dx_responder := r\<rparr>) = dx_device_id x"
  "dx_product_id (x\<lparr>dx_responder := r\<rparr>) = dx_product_id x"
  by (simp_all add: upstream_state_def dx_device_id_def dx_product_id_def)

lemma queue_for_cong:
  assumes "dx_device_id y = dx_device_id x" "dx_product_id y = dx_product_id x" "upstream_state y = upstream_state x"
  shows "queue_for_cloud now y = queue_for_cloud now x" "queue_for_device now y = queue_for_device now x"
  using assms by (simp_all add: queue_for_cloud_def queue_for_device_def fun_eq_iff)

text \<open>What the responder decides about a message on the shared shadow; without one it is forwarded.\<close>

definition decision_on :: "seconds \<Rightarrow> string \<Rightarrow> zone \<Rightarrow> string \<Rightarrow> bytes \<Rightarrow> DeviceContext \<times> SharedStores \<Rightarrow> ResponderAction option" where
  "decision_on now i zone topic payload xs = (case xs of (x, s) \<Rightarrow> (case dx_responder x of
     None \<Rightarrow> Some (plain_action FORWARD_ONLY)
   | Some r \<Rightarrow> map_option fst (decide now i zone (dx_device_id x) topic payload (upstream_state x) (r\<lparr>lr_shadow := sx_shadow s\<rparr>))))"

lemma local_message_route:
  assumes "decision_on now i zone topic payload (x, s) = Some action"
  shows "\<exists>x' s'. handle_local_message now True i zone topic payload qos (x, s) =
      Some (if ra_decision action = RESPOND_LOCAL then Some action else None, x', s') \<and>
    sx_queue s' =
      (if ra_decision action = RESPOND_LOCAL \<or> ra_decision action = IGNORE \<or>
          \<not> should_enqueue (policy_for False (extract_command payload)) (upstream_state x = UP_ONLINE)
       then sx_queue s else queue_for_cloud now x topic payload qos (sx_queue s))"
proof (cases "dx_responder x")
  case None
  with assms have a: "action = plain_action FORWARD_ONLY" by (simp add: decision_on_def)
  let ?y = "enqueue_message now LOCAL_TO_UPSTREAM topic payload qos False (note_message now ''device'' topic payload (x, s))"
  have "handle_local_message now True i zone topic payload qos (x, s) = Some (None, fst ?y, snd ?y)"
    using None by (simp add: handle_local_message_def note_message_def)
  moreover have "sx_queue (snd ?y) = (if should_enqueue (policy_for False (extract_command payload)) (upstream_state x = UP_ONLINE)
      then queue_for_cloud now x topic payload qos (sx_queue s) else sx_queue s)"
    by (simp add: note_message_def enqueue_message_queue queue_for_cong [of "observe_ntp payload ''device'' x" x])
  ultimately show ?thesis using a by (intro exI [of _ "fst ?y"] exI [of _ "snd ?y"]) simp
next
  case (Some r)
  with assms obtain r' where d: "decide now i zone (dx_device_id x) topic payload (upstream_state x) (r\<lparr>lr_shadow := sx_shadow s\<rparr>) = Some (action, r')"
    by (auto simp: decision_on_def)
  let ?w = "with_responder r' (note_message now ''device'' topic payload (x, s))"
  let ?y = "enqueue_message now LOCAL_TO_UPSTREAM topic payload qos False ?w"
  have q: "sx_queue (snd ?y) = (if should_enqueue (policy_for False (extract_command payload)) (upstream_state x = UP_ONLINE)
      then queue_for_cloud now x topic payload qos (sx_queue s) else sx_queue s)"
    by (simp add: note_message_def with_responder_def enqueue_message_queue
        queue_for_cong [of "observe_ntp payload ''device'' x\<lparr>dx_responder := Some r'\<rparr>" x])
  have w: "sx_queue (snd ?w) = sx_queue s" by (simp add: with_responder_def note_message_def)
  have h: "handle_local_message now True i zone topic payload qos (x, s) =
      (if ra_decision action = RESPOND_LOCAL then Some (Some action, count_event ''local_responses'' 1 (fst ?w), snd ?w)
       else if ra_decision action = IGNORE then Some (None, fst ?w, snd ?w) else Some (None, fst ?y, snd ?y))"
    using Some d by (simp add: handle_local_message_def note_message_def case_prod_beta Let_def)
  consider (answered) "ra_decision action = RESPOND_LOCAL" | (ignored) "ra_decision action \<noteq> RESPOND_LOCAL" "ra_decision action = IGNORE"
    | (forwarded) "ra_decision action \<noteq> RESPOND_LOCAL" "ra_decision action \<noteq> IGNORE" by blast
  then show ?thesis
  proof cases
    case answered
    show ?thesis
      by (rule exI [of _ "count_event ''local_responses'' 1 (fst ?w)"], rule exI [of _ "snd ?w"])
        (simp only: h w answered simp_thms if_True)
  next
    case ignored
    show ?thesis
      by (rule exI [of _ "fst ?w"], rule exI [of _ "snd ?w"]) (simp only: h w ignored simp_thms if_True if_False Decision.simps)
  next
    case forwarded
    show ?thesis
      by (rule exI [of _ "fst ?y"], rule exI [of _ "snd ?y"]) (simp add: h q forwarded)
  qed
qed

text \<open>The handler raises exactly when the cache cannot be written or the responder raises.\<close>

lemma local_message_raises:
  "handle_local_message now ok i zone topic payload qos (x, s) = None \<longleftrightarrow>
    \<not> ok \<or> decision_on now i zone topic payload (x, s) = None"
proof (cases "ok \<and> decision_on now i zone topic payload (x, s) \<noteq> None")
  case True
  with local_message_route [of now i zone topic payload x s _ qos] show ?thesis by auto
next
  case False
  then show ?thesis
    by (auto simp: handle_local_message_def decision_on_def note_message_def Let_def split: option.splits)
qed

section \<open>Replaced sessions\<close>

lemma stale_callbacks:
  assumes "is_stale_client k x"
  shows "on_upstream_message now ok k topic payload qos (x, s) = (False, x, s)" "on_upstream_connect now k failure results (x, s) = (x, s)"
    "on_upstream_subscribe k mid (x, s) = (x, s)" "on_upstream_disconnect now k reason flags (x, s) = (x, s)"
  using assms by (simp_all add: on_upstream_message_def on_upstream_connect_def on_upstream_subscribe_def on_upstream_disconnect_def)

lemma stopped_is_stale: "dx_upstream_client x = Some k \<Longrightarrow> is_stale_client k (fst (snd (stop_upstream now reason (x, s))))"
  using session_of_ops(3) [of now reason x s] by (simp add: session_def is_stale_client_def)

lemma restarted_is_stale:
  assumes "dx_upstream_client x = Some k" "k < sx_next_client s"
  shows "is_stale_client k (fst (snd (start_upstream now' (snd (stop_upstream now reason (x, s))))))"
proof -
  obtain x1 s1 where stop: "snd (stop_upstream now reason (x, s)) = (x1, s1)" by (rule prod.exhaust)
  have "dx_upstream_client x1 = None" "sx_next_client s1 = sx_next_client s"
    using assms(1) session_of_ops(3,4) [of now reason x s] unfolding stop by (simp_all add: session_def)
  with assms(2) session_of_ops(1) [of now' x1 s1] show ?thesis
    unfolding stop by (simp add: session_def is_stale_client_def)
qed

text \<open>
  A session that was closed, or closed and replaced by a new one, can no longer change the device's
  state through its message, connect, subscribe or disconnect callbacks.
\<close>

theorem replaced_session_is_inert:
  assumes "context_reachable (x, s)" "dx_upstream_client x = Some k"
    and "ys \<in> {snd (stop_upstream now reason (x, s)), snd (start_upstream now' (snd (stop_upstream now reason (x, s))))}"
  shows "on_upstream_message t ok k topic payload qos ys = (False, ys) \<and> on_upstream_connect t k failure results ys = ys \<and>
    on_upstream_subscribe k mid ys = ys \<and> on_upstream_disconnect t k why flags ys = ys"
proof -
  have "k < sx_next_client s" using reachable_session [OF assms(1)] assms(2) by (simp add: session_inv_def session_def)
  with assms(2,3) have "is_stale_client k (fst ys)" using stopped_is_stale restarted_is_stale by blast
  then show ?thesis using stale_callbacks [where k = k and x = "fst ys" and s = "snd ys"] by simp
qed

text \<open>
  The connect-failure callback is the exception: it is not matched against the current session, so a
  late one reopens an outage for a device whose session was deliberately suspended.
\<close>

theorem late_connect_failure_reopens_outage:
  assumes "dx_upstream_client x = Some k"
  shows "let stopped = snd (stop_upstream t1 reason (x, s)); late = on_upstream_connect_fail t2 k stopped
    in upstream_state (fst stopped) = SUSPENDED \<and> dt_outage_started_at (dx_telemetry (fst stopped)) = None \<and>
       \<not> upstream_running (fst late) \<and> upstream_state (fst late) = DISCONNECTED \<and>
       dt_outage_started_at (dx_telemetry (fst late)) = Some t2"
proof -
  define t where "t = fst (upstream_suspended t1 reason (dx_telemetry x))"
  have t: "dt_upstream_state t = SUSPENDED" "dt_outage_started_at t = None"
    by (simp_all add: t_def upstream_suspended_def clear_outage_def tel_increment_def Let_def)
  have stop: "fst (snd (stop_upstream t1 reason (x, s))) = x\<lparr>dx_upstream_client := None, dx_subscriptions_ready := False, dx_telemetry := t\<rparr>"
    using assms by (simp add: stop_upstream_def t_def case_prod_beta Let_def)
  have f: "fst (snd (upstream_connect_failed t2 why t)) = snd (offline_summary_due t2 (after_failure t2 (Some ''tcp_connect_failures'') False why t))" for why
    using failing_steps(2) [of t2 why t] by (simp add: case_prod_beta Let_def) (metis snd_conv)
  have "dt_upstream_state (fst (snd (upstream_connect_failed t2 why t))) = DISCONNECTED \<and>
      dt_outage_started_at (fst (snd (upstream_connect_failed t2 why t))) = Some t2" for why
    unfolding f using t by (simp add: summary_snd after_failure_def outage_defs Let_def)
  then show ?thesis
    using t by (simp add: Let_def on_upstream_connect_fail_def with_telemetry_def stop upstream_state_def upstream_running_def case_prod_beta)
qed

section \<open>Properties\<close>

definition demo_stores :: SharedStores where
  "demo_stores = \<lparr>sx_queue = open_queue None 1 10, sx_shadow = open_shadow, sx_cache = [],
     sx_telemetry = init_relay_telemetry 0, sx_next_client = 0\<rparr>"

definition demo_context :: DeviceContext where
  "demo_context = init_context \<lparr>di_client_id = ''A'', di_username = ''u'', di_password = ''p'', di_product_id = ''PLAF203''\<rparr>
     (init_device_telemetry 0 ''A'') None"



text \<open>
  In every reachable state of a device's context, while a cloud session is maintained, replay is
  enabled only when no subscription of that session still waits for its acknowledgement.
\<close>

theorem replay_waits_for_subscriptions:
  assumes "context_reachable (x, s)" "upstream_running x" "upstream_replay_ready x"
  shows "dx_pending_subscriptions x = []"
  using reachable_session [OF assms(1)] assms(2,3)
  by (simp add: session_inv_def session_def upstream_running_def upstream_replay_ready_def)

theorem replay_waits_for_subscriptions_witness:
  "\<exists>x s. context_reachable (x, s) \<and> upstream_running x \<and> upstream_replay_ready x \<and> dx_pending_subscriptions x = []"
proof -
  let ?up = "snd (start_upstream 1 (demo_context, demo_stores))"
  let ?on = "on_upstream_subscribe 0 7 (on_upstream_connect 2 0 None [(True, Some 7)] ?up)"
  have r: "context_reachable ?on"
    unfolding demo_context_def by (intro ctx_subscribe ctx_connect ctx_start ctx_init)
  have "upstream_running (fst ?on)" "upstream_replay_ready (fst ?on)"
    by (simp_all add: start_upstream_def on_upstream_connect_def on_upstream_subscribe_def with_telemetry_def
        is_stale_client_def demo_context_def demo_stores_def init_context_def upstream_running_def upstream_replay_ready_def
        subscribed_def UPSTREAM_SUBSCRIBE_CATEGORIES_def case_prod_beta Let_def)
  with replay_waits_for_subscriptions [of "fst ?on" "snd ?on"] r show ?thesis by (metis prod.collapse)
qed

end
