(* ===== verification/Device_Manager.thy ===== *)
theory Device_Manager
  imports Device_Context Device_Presence
begin

text \<open>
  \<^verbatim>\<open>device_manager.py\<close>: one context per bridged device and a supervisor that aligns every cloud session
  with the device's local presence. Presence and registry are arguments of the operations that read them;
  calls of the camera registrar and of the device-online callback are kept as lists. The context holds
  the live copy of its device's telemetry.

  The lemmas show that a reconciliation leaves a cloud session running exactly for the present devices,
  touches no identity, and that starting bridges every enrolled device.
\<close>

section \<open>State\<close>

record DeviceManager =
  dm_contexts :: "(string, DeviceContext) dict"
  dm_stores :: SharedStores
  dm_responder_settings :: LocalResponderSettings
  dm_handled_ttl :: seconds
  dm_started :: bool
  dm_has_registrar :: bool
  dm_registered :: "(string \<times> string \<times> string option) list"
  dm_has_callback :: bool
  dm_online_calls :: "(string \<times> nat) list"

definition init_manager :: "SharedStores \<Rightarrow> LocalResponderSettings \<Rightarrow> seconds \<Rightarrow> bool \<Rightarrow> DeviceManager" where
  "init_manager stores settings ttl registrar =
     \<lparr>dm_contexts = [], dm_stores = stores, dm_responder_settings = settings, dm_handled_ttl = ttl, dm_started = False,
      dm_has_registrar = registrar, dm_registered = [], dm_has_callback = False, dm_online_calls = []\<rparr>"

definition set_device_online_callback :: "DeviceManager \<Rightarrow> DeviceManager" where
  "set_device_online_callback m = m\<lparr>dm_has_callback := True\<rparr>"

definition get_by_device_id :: "string \<Rightarrow> DeviceManager \<Rightarrow> DeviceContext option" where
  "get_by_device_id device_id m = dict_get (dm_contexts m) device_id"

definition list_devices :: "DeviceManager \<Rightarrow> DeviceContext list" where
  "list_devices m = sort_key dx_device_id (map snd (dm_contexts m))"

definition device_ids :: "DeviceManager \<Rightarrow> string list" where
  "device_ids m = map dx_device_id (list_devices m)"

definition put_context :: "string \<Rightarrow> DeviceContext \<times> SharedStores \<Rightarrow> DeviceManager \<Rightarrow> DeviceManager" where
  "put_context d xs m = m\<lparr>dm_contexts := dict_set d (fst xs) (dm_contexts m), dm_stores := snd xs\<rparr>"

section \<open>Lifecycle\<close>

definition build_responder :: "DeviceManager \<Rightarrow> LocalResponder" where
  "build_responder m = init_responder (dm_responder_settings m) (sx_shadow (dm_stores m)) (dm_handled_ttl m) (dm_has_registrar m)"

definition ensure_device :: "seconds \<Rightarrow> DevicePresenceTracker \<Rightarrow> DeviceIdentity \<Rightarrow> DeviceManager \<Rightarrow> DeviceManager" where
  "ensure_device now presence identity m =
     (let d = di_client_id identity
      in case dict_get (dm_contexts m) d of
        Some _ \<Rightarrow> m
      | None \<Rightarrow>
          let (t, telemetry) = rt_device now d (sx_telemetry (dm_stores m));
              x = init_context identity t (Some (build_responder m));
              e = \<lparr>re_timestamp = now, re_kind = ''device_added'', re_message = ''Device '' @ d @ '' bridged'',
                   re_device_id = Some d, re_details = JsonDetails [(''product_id'', JStr (di_product_id identity))]\<rparr>;
              s = emit e ((dm_stores m)\<lparr>sx_telemetry := telemetry\<rparr>)
          in put_context d (if dm_started m \<and> is_online now d presence then snd (start_upstream now (x, s)) else (x, s)) m)"

definition sync_device :: "seconds \<Rightarrow> DevicePresenceTracker \<Rightarrow> string \<Rightarrow> DeviceManager \<Rightarrow> DeviceManager" where
  "sync_device now presence d m =
     (case dict_get (dm_contexts m) d of
       None \<Rightarrow> m
     | Some x \<Rightarrow>
         if is_online now d presence then
           let m1 = (case presence_record d presence of
                 Some rec \<Rightarrow> if pr_connected rec \<and> dm_has_callback m
                   then m\<lparr>dm_online_calls := dm_online_calls m @ [(d, pr_connection_generation rec)]\<rparr> else m
               | None \<Rightarrow> m)
           in put_context d (snd (start_upstream now (x, dm_stores m))) m1
         else put_context d (snd (stop_upstream now ''device not present locally'' (x, dm_stores m))) m)"

definition sync_upstream_sessions :: "seconds \<Rightarrow> DevicePresenceTracker \<Rightarrow> DeviceManager \<Rightarrow> DeviceManager" where
  "sync_upstream_sessions now presence m =
     (if \<not> dm_started m then m else fold (sync_device now presence) (device_ids m) m)"

definition start_manager :: "seconds \<Rightarrow> DevicePresenceTracker \<Rightarrow> DeviceRegistry \<Rightarrow> DeviceManager \<Rightarrow> DeviceManager" where
  "start_manager now presence registry m =
     sync_upstream_sessions now presence
       (fold (ensure_device now presence) (get_bridgeable now registry) (m\<lparr>dm_started := True\<rparr>))"

definition remove_device :: "seconds \<Rightarrow> string \<Rightarrow> DeviceManager \<Rightarrow> DeviceManager" where
  "remove_device now d m =
     (case dict_get (dm_contexts m) d of
       None \<Rightarrow> m
     | Some x \<Rightarrow>
         let s = snd (snd (stop_upstream now ''device removed'' (x, dm_stores m)))
         in m\<lparr>dm_contexts := dict_pop d (dm_contexts m), dm_stores := s\<lparr>sx_telemetry := forget_device d (sx_telemetry s)\<rparr>\<rparr>)"

text \<open>The relay telemetry keeps the device's metrics after its context is gone.\<close>

definition stop_context :: "seconds \<Rightarrow> DeviceContext \<Rightarrow> SharedStores \<Rightarrow> SharedStores" where
  "stop_context now x s =
     (case snd (stop_upstream now ''relay shutdown'' (x, s)) of (x1, s1) \<Rightarrow>
       let telemetry = sx_telemetry s1
       in s1\<lparr>sx_telemetry := telemetry\<lparr>rt_devices := dict_set (dx_device_id x1) (dx_telemetry x1) (rt_devices telemetry)\<rparr>\<rparr>)"

definition stop_manager :: "seconds \<Rightarrow> DeviceManager \<Rightarrow> DeviceManager" where
  "stop_manager now m =
     m\<lparr>dm_stores := fold (stop_context now) (map snd (dm_contexts m)) (dm_stores m), dm_contexts := [], dm_started := False\<rparr>"

section \<open>Camera addresses\<close>

text \<open>
  The IPv4 part of \<open>ipaddress.ip_address\<close>: four decimal octets without leading zeros. Its text form is
  the accepted text itself; every other address or text gives nothing.
\<close>

definition is_octet :: "string \<Rightarrow> bool" where
  "is_octet s \<longleftrightarrow> s \<noteq> [] \<and> length s \<le> 3 \<and> list_all is_digit s \<and> (hd s = CHR ''0'' \<longrightarrow> length s = 1) \<and> read_nat s \<le> 255"

definition parse_ipv4 :: "string option \<Rightarrow> string option" where
  "parse_ipv4 v = (case v of
     None \<Rightarrow> None
   | Some s \<Rightarrow>
       let octets = split_on CHR ''.'' s in if length octets = 4 \<and> list_all is_octet octets then Some s else None)"

definition register_camera :: "string \<Rightarrow> string \<Rightarrow> string option \<Rightarrow> DeviceManager \<Rightarrow> DeviceManager" where
  "register_camera d uid ip m = (if dm_has_registrar m then m\<lparr>dm_registered := dm_registered m @ [(d, uid, ip)]\<rparr> else m)"

definition set_shadow :: "StateShadow \<Rightarrow> DeviceManager \<Rightarrow> DeviceManager" where
  "set_shadow shadow m = m\<lparr>dm_stores := (dm_stores m)\<lparr>sx_shadow := shadow\<rparr>\<rparr>"

definition record_camera_peer_address :: "seconds \<Rightarrow> string \<Rightarrow> string option \<Rightarrow> DeviceManager \<Rightarrow> DeviceManager" where
  "record_camera_peer_address now d peer_address m =
     (case (get_camera_uid (sx_shadow (dm_stores m)) d, parse_ipv4 peer_address) of
       (Some camera_uid, Some ip) \<Rightarrow>
         register_camera d (cu_uid camera_uid) (Some ip)
           (set_shadow (snd (record_camera_uid now d (cu_uid camera_uid) (Some ip) (sx_shadow (dm_stores m)))) m)
     | _ \<Rightarrow> m)"

definition register_camera_uid :: "seconds \<Rightarrow> DevicePresenceTracker \<Rightarrow> string \<Rightarrow> string \<Rightarrow> DeviceManager \<Rightarrow> DeviceManager" where
  "register_camera_uid now presence d uid m =
     (let ip = parse_ipv4 (Option.bind (presence_record d presence) pr_peer_address)
      in register_camera d uid ip
           (set_shadow (snd (record_camera_uid now d uid ip (sx_shadow (dm_stores m)))) m))"

section \<open>Sessions and presence\<close>

definition manager_inv :: "DeviceManager \<Rightarrow> bool" where
  "manager_inv m \<longleftrightarrow> dict_wf (dm_contexts m) \<and> (\<forall>d x. dict_get (dm_contexts m) d = Some x \<longrightarrow> dx_device_id x = d)"

lemma start_upstream_facts:
  "upstream_running (fst (snd (start_upstream now xs)))" "dx_identity (fst (snd (start_upstream now xs))) = dx_identity (fst xs)"
proof -
  show "upstream_running (fst (snd (start_upstream now xs)))"
    using session_of_ops(1) [of now "fst xs" "snd xs"] by (auto simp: upstream_running_def session_def split: if_splits)
  show "dx_identity (fst (snd (start_upstream now xs))) = dx_identity (fst xs)"
    by (simp add: start_upstream_def case_prod_beta)
qed

lemma stop_upstream_facts:
  "\<not> upstream_running (fst (snd (stop_upstream now reason xs)))" "dx_identity (fst (snd (stop_upstream now reason xs))) = dx_identity (fst xs)"
proof -
  show "\<not> upstream_running (fst (snd (stop_upstream now reason xs)))"
    using session_of_ops(3) [of now reason "fst xs" "snd xs"] by (auto simp: upstream_running_def session_def split: if_splits)
  show "dx_identity (fst (snd (stop_upstream now reason xs))) = dx_identity (fst xs)"
    by (simp add: stop_upstream_def case_prod_beta Let_def)
qed

lemma sync_device_contexts:
  "dict_get (dm_contexts (sync_device now presence d m)) d' =
     (if d' = d then map_option (\<lambda>x. if is_online now d presence then fst (snd (start_upstream now (x, dm_stores m)))
        else fst (snd (stop_upstream now ''device not present locally'' (x, dm_stores m)))) (dict_get (dm_contexts m) d)
      else dict_get (dm_contexts m) d')"
  by (auto simp: sync_device_def put_context_def Let_def split: option.split)

lemma sync_device_keep:
  "dm_started (sync_device now presence d m) = dm_started m"
  "dict_wf (dm_contexts m) \<Longrightarrow> dict_wf (dm_contexts (sync_device now presence d m))"
  by (simp_all add: sync_device_def put_context_def Let_def split: option.split)

text \<open>After reconciling some devices, those are aligned with presence and the others are as before.\<close>

lemma fold_sync:
  "case dict_get (dm_contexts m) d of
     None \<Rightarrow> dict_get (dm_contexts (fold (sync_device now presence) ds m)) d = None
   | Some x \<Rightarrow> \<exists>x'. dict_get (dm_contexts (fold (sync_device now presence) ds m)) d = Some x' \<and> dx_identity x' = dx_identity x \<and>
       (if d \<in> set ds then upstream_running x' \<longleftrightarrow> is_online now d presence else x' = x)"
proof (induction ds rule: rev_induct)
  case Nil
  then show ?case by (simp split: option.split)
next
  case (snoc d1 ds)
  let ?m = "fold (sync_device now presence) ds m"
  show ?case
  proof (cases "dict_get (dm_contexts m) d")
    case None
    with snoc show ?thesis by (auto simp: sync_device_contexts)
  next
    case (Some x)
    with snoc obtain x' where x': "dict_get (dm_contexts ?m) d = Some x'" "dx_identity x' = dx_identity x"
      "if d \<in> set ds then upstream_running x' \<longleftrightarrow> is_online now d presence else x' = x" by auto
    show ?thesis
    proof (cases "d1 = d")
      case True
      with Some x' show ?thesis
        by (simp add: sync_device_contexts start_upstream_facts stop_upstream_facts)
    next
      case False
      with Some x' show ?thesis by (auto simp: sync_device_contexts)
    qed
  qed
qed

lemma device_ids_set: "manager_inv m \<Longrightarrow> set (device_ids m) = fst ` set (dm_contexts m)"
proof -
  assume inv: "manager_inv m"
  have "dx_device_id x = d" if "(d, x) \<in> set (dm_contexts m)" for d x
    using inv that dict_wf_mem [of "dm_contexts m" d x] by (simp add: manager_inv_def)
  then show ?thesis by (force simp: device_ids_def list_devices_def image_iff)
qed

lemma sync_aligns:
  assumes "manager_inv m" "dm_started m" "dict_get (dm_contexts m) d = Some x"
  shows "\<exists>x'. dict_get (dm_contexts (sync_upstream_sessions now presence m)) d = Some x' \<and> dx_identity x' = dx_identity x \<and>
    (upstream_running x' \<longleftrightarrow> is_online now d presence)"
proof -
  have "d \<in> set (device_ids m)" using device_ids_set [OF assms(1)] map_of_SomeD [OF assms(3)] by force
  with fold_sync [where m = m and d = d and now = now and presence = presence and ds = "device_ids m"] assms(2,3) show ?thesis by (simp add: sync_upstream_sessions_def)
qed

lemma sync_started: "dm_started (sync_upstream_sessions now presence m) = dm_started m"
proof -
  have "dm_started (fold (sync_device now presence) ds m) = dm_started m" for ds m
    by (induction ds arbitrary: m) (simp_all add: sync_device_keep)
  then show ?thesis by (simp add: sync_upstream_sessions_def)
qed

lemma manager_inv_sync:
  assumes "manager_inv m"
  shows "manager_inv (fold (sync_device now presence) ds m)"
proof -
  have wf: "dict_wf (dm_contexts m') \<Longrightarrow> dict_wf (dm_contexts (fold (sync_device now presence) ds m'))" for m'
    by (induction ds arbitrary: m') (simp_all add: sync_device_keep)
  have "dx_device_id x' = d" if "dict_get (dm_contexts (fold (sync_device now presence) ds m)) d = Some x'" for d x'
  proof (cases "dict_get (dm_contexts m) d")
    case (Some x)
    with assms have "dx_device_id x = d" by (simp add: manager_inv_def)
    moreover from Some that fold_sync [where m = m and d = d and now = now and presence = presence and ds = ds] have "dx_identity x' = dx_identity x" by auto
    ultimately show ?thesis by (simp add: dx_device_id_def)
  qed (use that fold_sync [where m = m and d = d and now = now and presence = presence and ds = ds] in simp)
  with wf assms show ?thesis by (simp add: manager_inv_def)
qed

lemma ensure_device_contexts:
  "\<exists>x. dict_get (dm_contexts (ensure_device now presence identity m)) (di_client_id identity) = Some x \<and>
     (dict_get (dm_contexts m) (di_client_id identity) = None \<longrightarrow> dx_identity x = identity)"
  "d \<noteq> di_client_id identity \<Longrightarrow> dict_get (dm_contexts (ensure_device now presence identity m)) d = dict_get (dm_contexts m) d"
  "dict_get (dm_contexts m) d = Some x \<Longrightarrow> dict_get (dm_contexts (ensure_device now presence identity m)) d = Some x"
  "dm_started (ensure_device now presence identity m) = dm_started m"
proof -
  show "\<exists>x. dict_get (dm_contexts (ensure_device now presence identity m)) (di_client_id identity) = Some x \<and>
     (dict_get (dm_contexts m) (di_client_id identity) = None \<longrightarrow> dx_identity x = identity)"
    by (auto simp: ensure_device_def put_context_def Let_def case_prod_beta start_upstream_facts init_context_def split: option.split)
qed (auto simp: ensure_device_def put_context_def Let_def case_prod_beta split: option.split)

lemma manager_inv_ensure:
  assumes "manager_inv m"
  shows "manager_inv (ensure_device now presence identity m)"
proof (cases "dict_get (dm_contexts m) (di_client_id identity)")
  case None
  have wf: "dict_wf (dm_contexts (ensure_device now presence identity m))"
    using assms None by (simp add: ensure_device_def put_context_def Let_def case_prod_beta manager_inv_def)
  obtain x where "dict_get (dm_contexts (ensure_device now presence identity m)) (di_client_id identity) = Some x" "dx_identity x = identity"
    using ensure_device_contexts(1) [of now presence identity m] None by blast
  then have "dx_device_id x' = d" if "dict_get (dm_contexts (ensure_device now presence identity m)) d = Some x'" for d x'
    using that assms ensure_device_contexts(2) [of d identity now presence m]
    by (cases "d = di_client_id identity") (simp_all add: dx_device_id_def manager_inv_def)
  with wf show ?thesis by (simp add: manager_inv_def)
next
  case (Some x)
  with assms show ?thesis by (simp add: ensure_device_def Let_def)
qed

lemma fold_ensure:
  "manager_inv m \<Longrightarrow> manager_inv (fold (ensure_device now presence) ids m) \<and> dm_started (fold (ensure_device now presence) ids m) = dm_started m \<and>
    (\<forall>d x. dict_get (dm_contexts m) d = Some x \<longrightarrow> dict_get (dm_contexts (fold (ensure_device now presence) ids m)) d = Some x) \<and>
    (\<forall>i\<in>set ids. dict_get (dm_contexts (fold (ensure_device now presence) ids m)) (di_client_id i) \<noteq> None)"
proof (induction ids arbitrary: m)
  case (Cons i ids)
  let ?m = "ensure_device now presence i m"
  have inv: "manager_inv ?m" using Cons.prems by (rule manager_inv_ensure)
  obtain x where x: "dict_get (dm_contexts ?m) (di_client_id i) = Some x" using ensure_device_contexts(1) [of now presence i m] by blast
  note IH = Cons.IH [OF inv]
  have "dict_get (dm_contexts (fold (ensure_device now presence) ids ?m)) (di_client_id i) = Some x" using IH x by blast
  with IH show ?case by (simp add: ensure_device_contexts(3,4))
qed simp

section \<open>Properties\<close>

lemma init_manager_inv: "manager_inv ((init_manager s settings ttl reg)\<lparr>dm_started := b\<rparr>)"
  by (simp add: manager_inv_def init_manager_def)

text \<open>
  C28: Starting the manager bridges every enrolled device that is not expired, and afterwards, as after
  every later reconciliation, a bridged device's cloud session runs exactly when the device is locally
  present.
\<close>

theorem sessions_follow_presence:
  assumes "identity \<in> set (get_bridgeable now registry)"
  shows "\<exists>x. dict_get (dm_contexts (start_manager now presence registry (init_manager s settings ttl reg))) (di_client_id identity) = Some x \<and>
    (upstream_running x \<longleftrightarrow> is_online now (di_client_id identity) presence) \<and>
    (\<exists>x'. dict_get (dm_contexts (sync_upstream_sessions now' presence'
        (start_manager now presence registry (init_manager s settings ttl reg)))) (di_client_id identity) = Some x' \<and>
      (upstream_running x' \<longleftrightarrow> is_online now' (di_client_id identity) presence'))"
proof -
  let ?m0 = "(init_manager s settings ttl reg)\<lparr>dm_started := True\<rparr>"
  let ?m1 = "fold (ensure_device now presence) (get_bridgeable now registry) ?m0"
  let ?m2 = "sync_upstream_sessions now presence ?m1"
  have "manager_inv ?m0" by (rule init_manager_inv)
  note e = fold_ensure [OF this, of now presence "get_bridgeable now registry"]
  have inv: "manager_inv ?m1" and started: "dm_started ?m1" using e by simp_all
  obtain x where x: "dict_get (dm_contexts ?m1) (di_client_id identity) = Some x" using e assms by blast
  obtain x1 where x1: "dict_get (dm_contexts ?m2) (di_client_id identity) = Some x1"
    "upstream_running x1 \<longleftrightarrow> is_online now (di_client_id identity) presence"
    using sync_aligns [OF inv started x] by blast
  have inv2: "manager_inv ?m2"
    unfolding sync_upstream_sessions_def using started inv by (simp add: manager_inv_sync)
  have started2: "dm_started ?m2" using started by (simp add: sync_started)
  from sync_aligns [OF inv2 started2 x1(1), of now' presence'] x1 show ?thesis by (auto simp: start_manager_def)
qed

theorem sessions_follow_presence_witness:
  "let r = snd (record_identity 7 demo_identity (open_registry None 100 True));
       m = init_manager demo_stores all_on 60 False;
       here = session_opened 8 ''AF03'' None (init_tracker 90);
       gone = session_closed 9 ''AF03'' here
   in \<exists>x x'. dict_get (dm_contexts (start_manager 8 here r m)) ''AF03'' = Some x \<and> upstream_running x \<and>
     dict_get (dm_contexts (sync_upstream_sessions 200 gone (start_manager 8 here r m))) ''AF03'' = Some x' \<and> \<not> upstream_running x'"
proof -
  let ?r = "snd (record_identity 7 demo_identity (open_registry None 100 True))"
  let ?here = "session_opened 8 ''AF03'' None (init_tracker 90)"
  let ?gone = "session_closed 9 ''AF03'' ?here"
  have b: "demo_identity \<in> set (get_bridgeable 8 ?r)"
    by (simp add: record_identity_def status_of_def upsert_def open_registry_def migrate_to_multi_device_def get_bridgeable_def
        bridgeable_row_def cutoff_def row_identity_def opt_str_or_def demo_identity_def IDENTITY_COLUMNS_def PRODUCT_ID_def map_rows_def Let_def)
  have p: "is_online 8 ''AF03'' ?here" "\<not> is_online 200 ''AF03'' ?gone"
    by (simp_all add: is_online_def presence_state_def session_opened_def session_closed_def init_tracker_def Let_def)
  have d: "di_client_id demo_identity = ''AF03''" by (simp add: demo_identity_def)
  show ?thesis
    using sessions_follow_presence [OF b, of ?here demo_stores all_on 60 False 200 ?gone] p unfolding d Let_def by blast
qed

end
