(* ===== verification/Device_Control.thy ===== *)
theory Device_Control
  imports Local_Responder
begin

text \<open>
  \<^verbatim>\<open>sound_switch_control.py\<close>: interactive settings, manual feeding and schedule edits, each published
  to the local feeder and successful only after the feeder's own acknowledgement.

  A transaction is split where the code takes and releases its lock: \<open>submit_begin\<close> (the checks, the
  registration and the publication), \<open>observe_device_message\<close> (an acknowledgement, from the MQTT thread)
  and \<open>submit_end\<close> (the outcome and the \<open>finally\<close> block). \<open>submit\<close> composes them with the messages the MQTT
  thread observes while the publication is confirmed, all of them, and those it observes while the caller
  waits, up to the one that completes the transaction; waking up and reading the code are one step. The
  bridged devices and their presence, clock readings, \<open>uuid4\<close>, what became of the publication, and the
  zone's UTC offset at a wall-clock time are arguments of a call. The messages handed to the broker are
  kept as a list. Decimal digits of a time are ASCII.

  The lemmas show that success is equivalent to a deciding acknowledgement with code 0 for this device,
  message id and command; that no interleaving gives a device two transactions; that only allowlisted
  fields are ever published or confirmed; that no feeding command leaves the portion bounds; and what a
  schedule edit stores.
\<close>

section \<open>Constants\<close>

definition SUPPORTED_PRODUCT_ID :: string where [relay_defs]: "SUPPORTED_PRODUCT_ID = ''PLAF203''"
definition MIN_GRAIN_NUM :: int where [relay_defs]: "MIN_GRAIN_NUM = 1"
definition MAX_GRAIN_NUM :: int where [relay_defs]: "MAX_GRAIN_NUM = 48"
definition MIN_AUDIO_TIMES :: int where [relay_defs]: "MIN_AUDIO_TIMES = 1"
definition MAX_AUDIO_TIMES :: int where [relay_defs]: "MAX_AUDIO_TIMES = 5"

definition GROUP_FIELDS :: "(string, string list) dict" where
  "GROUP_FIELDS =
    [(''motion'', [''motionDetectionSwitch'', ''motionDetectionAgingType'', ''motionDetectionStartTime'',
        ''motionDetectionEndTime'', ''motionDetectionStartTimeUtc'', ''motionDetectionEndTimeUtc'',
        ''motionDetectionSensitivity'', ''motionDetectionRange'']),
     (''sound_detection'', [''soundDetectionSwitch'', ''soundDetectionAgingType'', ''soundDetectionStartTime'',
        ''soundDetectionEndTime'', ''soundDetectionStartTimeUtc'', ''soundDetectionEndTimeUtc'',
        ''soundDetectionSensitivity'']),
     (''sound'', [''soundSwitch'', ''soundAgingType'', ''soundStartTime'', ''soundEndTime'', ''soundStartTimeUtc'',
        ''soundEndTimeUtc'', ''soundTimes'', ''volume'']),
     (''light'', [''lightSwitch'', ''lightAgingType'', ''lightingStartTime'', ''lightingEndTime'',
        ''lightingStartTimeUtc'', ''lightingEndTimeUtc'', ''lightingTimes'', ''filterLedSwitch'']),
     (''camera'', [''cameraSwitch'', ''cameraAgingType'', ''cameraStartTime'', ''cameraEndTime'',
        ''cameraStartTimeUtc'', ''cameraEndTimeUtc'', ''resolution'', ''nightVision'']),
     (''video'', [''videoRecordSwitch'', ''videoRecordMode'', ''videoRecordAgingType'', ''videoRecordStartTime'',
        ''videoRecordEndTime'', ''videoRecordStartTimeUtc'', ''videoRecordEndTimeUtc'',
        ''videoWatermarkSwitch'']),
     (''feeding_video'', [''feedingVideoSwitch'', ''enableVideoStartFeedingPlan'', ''beforeFeedingPlanTime'',
        ''automaticRecording'', ''enableVideoAfterManualFeeding'', ''afterManualFeedingTime'']),
     (''bowl'', [''bowlMode''])]"

record ControlCapability =
  cc_writable :: bool
  cc_device_ack_confirmed :: bool
  cc_cloud_sync_confirmed :: bool

definition CONTROL_CAPABILITIES :: "(string, ControlCapability) dict" where
  "CONTROL_CAPABILITIES =
     (let cap = (\<lambda>cloud. \<lparr>cc_writable = True, cc_device_ack_confirmed = True, cc_cloud_sync_confirmed = cloud\<rparr>)
      in [(''soundSwitch'', cap True), (''motionDetectionSwitch'', cap False), (''soundDetectionSwitch'', cap False),
          (''lightSwitch'', cap False), (''cameraSwitch'', cap False), (''videoRecordSwitch'', cap False),
          (''feedingVideoSwitch'', cap False), (''bowlMode'', cap False)])"

text \<open>The last constructor stands for exceptions the module does not define (\<open>KeyError\<close>, \<open>JSONDecodeError\<close>).\<close>

datatype control_error =
    ControlStateUnavailableError string
  | ControlOfflineError
  | ControlBusyError string
  | ControlPublishError
  | ControlAckTimeoutError
  | ControlAckRejectedError string "json option"
  | UncaughtError string

datatype LocalControlAckRoute = NOT_MATCHED | FORWARD_TO_CLOUD | LOCAL_ONLY

section \<open>State\<close>

record PendingControl =
  pc_command :: string
  pc_control_name :: string
  pc_values :: json_dict
  pc_sent_at :: seconds
  pc_completed :: bool
  pc_code :: "json option"

record ScheduleResyncResult =
  rr_device_id :: string
  rr_plans_total :: nat
  rr_cloud_plans :: nat
  rr_local_plans :: nat

record DeviceControlController =
  dc_shadow :: StateShadow
  dc_pending :: "(string \<times> string, PendingControl) dict"
  dc_active_devices :: "string list"
  dc_counters :: "(string, nat) dict"
  dc_published :: "(string \<times> string \<times> bytes) list"

definition init_controller :: "StateShadow \<Rightarrow> DeviceControlController" where
  "init_controller shadow = \<lparr>dc_shadow = shadow, dc_pending = [], dc_active_devices = [], dc_counters = [], dc_published = []\<rparr>"

record ControlEnv =
  env_product :: "string \<Rightarrow> string option"
  env_online :: "string \<Rightarrow> bool"

text \<open>
  What \<open>publish_local_control\<close> does: nothing without a connection or when the client refuses, otherwise the
  message is handed over and its publication confirmed or not. It returns whether it was confirmed.
\<close>

datatype publish_attempt = NotSent | SentUnconfirmed | SentConfirmed

record ControlCall =
  call_time :: seconds
  call_clock :: seconds
  call_msg_id :: string
  call_publish :: publish_attempt
  call_early :: "(string \<times> string \<times> bytes) list"
  call_observed :: "(string \<times> string \<times> bytes) list"
  call_wall_offset :: "int \<Rightarrow> int"

definition call_publish_ok :: "ControlCall \<Rightarrow> bool" where
  "call_publish_ok call \<longleftrightarrow> call_publish call = SentConfirmed"

record ControlResponse =
  cr_device_id :: string
  cr_control :: string
  cr_value :: json
  cr_cloud_sync_behavior :: string

section \<open>Times\<close>

text \<open>\<open>strptime\<close> with \<open>%H:%M\<close>: one or two digits on each side of the only colon, in range.\<close>

definition two_digits :: "nat \<Rightarrow> string \<Rightarrow> nat option" where
  "two_digits bound s =
     (if s \<noteq> [] \<and> length s \<le> 2 \<and> list_all is_digit s \<and> read_nat s < bound then Some (read_nat s) else None)"

definition parse_time :: "string \<Rightarrow> control_error + nat \<times> nat" where
  "parse_time s =
     (case split_on CHR '':'' s of
       [h, m] \<Rightarrow>
         (case (two_digits 24 h, two_digits 60 m) of
           (Some hour, Some minute) \<Rightarrow> Inr (hour, minute)
         | _ \<Rightarrow> Inl (ControlStateUnavailableError ''Time must use HH:MM''))
     | _ \<Rightarrow> Inl (ControlStateUnavailableError ''Time must use HH:MM''))"

definition minutes :: "string \<Rightarrow> control_error + int" where
  "minutes s = bind_res (parse_time s) (\<lambda>(hour, minute). Inr (int hour * 60 + int minute))"

definition pad2 :: "nat \<Rightarrow> string" where
  "pad2 n = [digit_char (n div 10 mod 10), digit_char (n mod 10)]"

definition utc_time :: "(int \<Rightarrow> int) \<Rightarrow> int \<Rightarrow> string" where
  "utc_time wall_offset minute =
     (let second = (minute * 60 - wall_offset minute) mod 86400
      in pad2 (nat (second div 3600)) @ '':'' @ pad2 (nat (second mod 3600 div 60)))"

definition TIME_PAIRS :: "(string \<times> string) list" where
  "TIME_PAIRS =
    [(''motionDetectionStartTime'', ''motionDetectionStartTimeUtc''), (''motionDetectionEndTime'', ''motionDetectionEndTimeUtc''),
     (''soundDetectionStartTime'', ''soundDetectionStartTimeUtc''), (''soundDetectionEndTime'', ''soundDetectionEndTimeUtc''),
     (''soundStartTime'', ''soundStartTimeUtc''), (''soundEndTime'', ''soundEndTimeUtc''),
     (''lightingStartTime'', ''lightingStartTimeUtc''), (''lightingEndTime'', ''lightingEndTimeUtc''),
     (''cameraStartTime'', ''cameraStartTimeUtc''), (''cameraEndTime'', ''cameraEndTimeUtc''),
     (''videoRecordStartTime'', ''videoRecordStartTimeUtc''), (''videoRecordEndTime'', ''videoRecordEndTimeUtc'')]"

fun populate_times :: "(int \<Rightarrow> int) \<Rightarrow> (string \<times> string) list \<Rightarrow> json_dict \<Rightarrow> control_error + json_dict" where
  "populate_times off [] vals = Inr vals"
| "populate_times off ((local_key, utc_key) # ps) vals =
     (case str_field vals local_key of
       None \<Rightarrow> populate_times off ps vals
     | Some t \<Rightarrow> bind_res (minutes t) (\<lambda>m. populate_times off ps (dict_set utc_key (JStr (utc_time off m)) vals)))"

definition populate_time_fields :: "(int \<Rightarrow> int) \<Rightarrow> json_dict \<Rightarrow> control_error + json_dict" where
  "populate_time_fields off vals = populate_times off TIME_PAIRS vals"

definition DURATIONS :: "(string \<times> string \<times> string) list" where
  "DURATIONS = [(''soundStartTime'', ''soundEndTime'', ''soundTimes''), (''lightingStartTime'', ''lightingEndTime'', ''lightingTimes'')]"

fun populate_durations :: "(string \<times> string \<times> string) list \<Rightarrow> json_dict \<Rightarrow> control_error + json_dict" where
  "populate_durations [] vals = Inr vals"
| "populate_durations ((start_key, end_key, duration_key) # ps) vals =
     (case (str_field vals start_key, str_field vals end_key) of
       (Some s, Some e) \<Rightarrow>
         bind_res (minutes e) (\<lambda>me. bind_res (minutes s) (\<lambda>ms.
           populate_durations ps (dict_set duration_key (JInt (me - ms)) vals)))
     | _ \<Rightarrow> populate_durations ps vals)"

definition populate_duration_fields :: "json_dict \<Rightarrow> control_error + json_dict" where
  "populate_duration_fields vals = populate_durations DURATIONS vals"

definition timestamp_ms :: "seconds \<Rightarrow> int" where
  "timestamp_ms now = \<lfloor>now * 1000\<rfloor>"

definition sync_time_ms :: "seconds \<Rightarrow> int" where
  "sync_time_ms now = \<lfloor>now\<rfloor> * 1000"

section \<open>Transactions\<close>

definition increment :: "string \<Rightarrow> DeviceControlController \<Rightarrow> DeviceControlController" where
  "increment counter c =
     c\<lparr>dc_counters := counter_add counter 1 (dc_counters c)\<rparr>"

definition submit_begin :: "ControlEnv \<Rightarrow> ControlCall \<Rightarrow> string \<Rightarrow> string \<Rightarrow> string \<Rightarrow> json_dict \<Rightarrow> json_dict
    \<Rightarrow> DeviceControlController \<Rightarrow> (control_error + bytes) \<times> DeviceControlController" where
  "submit_begin env call device_id command control_name vals payload c =
     (case env_product env device_id of
       None \<Rightarrow> (Inl (ControlStateUnavailableError ''Device is not bridged or supported''), c)
     | Some product_id \<Rightarrow>
         if product_id \<noteq> SUPPORTED_PRODUCT_ID then
           (Inl (ControlStateUnavailableError ''Device is not bridged or supported''), c)
         else if \<not> env_online env device_id then (Inl ControlOfflineError, increment ''control_rejected'' c)
         else if device_id \<in> set (dc_active_devices c) then
           (Inl (ControlBusyError device_id), increment ''control_rejected'' c)
         else
           let pending = \<lparr>pc_command = command, pc_control_name = control_name, pc_values = vals,
                 pc_sent_at = call_clock call, pc_completed = False, pc_code = None\<rparr>;
               raw = json_dumps_compact (JObj (dict_set ''msgId'' (JStr (call_msg_id call)) payload));
               c1 = c\<lparr>dc_active_devices := dc_active_devices c @ [device_id],
                      dc_pending := dict_set (device_id, call_msg_id call) pending (dc_pending c)\<rparr>;
               c2 = increment ''control_requests'' c1
           in (Inr raw, if call_publish call = NotSent then c2
                else c2\<lparr>dc_published := dc_published c2 @ [(device_id, product_id, raw)]\<rparr>))"

definition ack_topic :: "string \<Rightarrow> string" where
  "ack_topic device_id = topic_prefix device_id PRODUCT_ID @ ''/device/service/post''"

definition observe_device_message :: "string \<Rightarrow> string \<Rightarrow> bytes \<Rightarrow> DeviceControlController
    \<Rightarrow> LocalControlAckRoute \<times> DeviceControlController" where
  "observe_device_message device_id topic payload c =
     (if topic \<noteq> ack_topic device_id then (NOT_MATCHED, c)
      else (case json_loads payload of
        Some (JObj body) \<Rightarrow>
          (case (str_field body ''msgId'', str_field body ''cmd'') of
            (Some message_id, Some command) \<Rightarrow>
              (case dict_get (dc_pending c) (device_id, message_id) of
                None \<Rightarrow> (NOT_MATCHED, c)
              | Some pending \<Rightarrow>
                  if pc_command pending \<noteq> command then (NOT_MATCHED, c)
                  else (if command = cmd_FEEDING_PLAN_SERVICE then LOCAL_ONLY else FORWARD_TO_CLOUD,
                    c\<lparr>dc_pending := dict_set (device_id, message_id)
                        (pending\<lparr>pc_code := dict_get body ''code'', pc_completed := True\<rparr>) (dc_pending c)\<rparr>))
          | _ \<Rightarrow> (NOT_MATCHED, c))
      | _ \<Rightarrow> (NOT_MATCHED, c)))"

definition observe_all :: "(string \<times> string \<times> bytes) list \<Rightarrow> DeviceControlController \<Rightarrow> DeviceControlController" where
  "observe_all msgs c = fold (\<lambda>(d, topic, payload) c. snd (observe_device_message d topic payload c)) msgs c"

text \<open>\<open>completed.wait\<close>: messages are observed until the transaction is complete, or until the timeout.\<close>

definition is_completed :: "string \<times> string \<Rightarrow> DeviceControlController \<Rightarrow> bool" where
  "is_completed key c \<longleftrightarrow> (case dict_get (dc_pending c) key of None \<Rightarrow> False | Some p \<Rightarrow> pc_completed p)"

fun observe_until :: "string \<times> string \<Rightarrow> (string \<times> string \<times> bytes) list \<Rightarrow> DeviceControlController \<Rightarrow> DeviceControlController" where
  "observe_until key [] c = c"
| "observe_until key ((d, topic, payload) # msgs) c =
     (if is_completed key c then c else observe_until key msgs (snd (observe_device_message d topic payload c)))"

definition cloud_sync_behavior :: "string \<Rightarrow> string" where
  "cloud_sync_behavior control_name = (case dict_get CONTROL_CAPABILITIES control_name of
     Some cap \<Rightarrow> if cc_cloud_sync_confirmed cap then ''confirmed'' else ''unknown''
   | None \<Rightarrow> ''unknown'')"

definition submit_end :: "bool \<Rightarrow> string \<Rightarrow> string \<Rightarrow> string \<Rightarrow> json_dict \<Rightarrow> DeviceControlController
    \<Rightarrow> (control_error + ControlResponse) \<times> DeviceControlController" where
  "submit_end published device_id message_id control_name vals c =
     (let (completed, code) = (case dict_get (dc_pending c) (device_id, message_id) of
            None \<Rightarrow> (False, None) | Some p \<Rightarrow> (pc_completed p, pc_code p));
          (result, c1) =
            (if \<not> published then (Inl ControlPublishError, increment ''control_rejected'' c)
             else if \<not> completed then (Inl ControlAckTimeoutError, increment ''control_timeout'' c)
             else if code \<noteq> Some (JInt 0) then (Inl (ControlAckRejectedError control_name code), increment ''control_rejected'' c)
             else (Inr \<lparr>cr_device_id = device_id, cr_control = control_name, cr_value = JObj vals,
                     cr_cloud_sync_behavior = cloud_sync_behavior control_name\<rparr>,
                   increment ''control_success'' c))
      in (result, c1\<lparr>dc_pending := dict_pop (device_id, message_id) (dc_pending c1),
                      dc_active_devices := removeAll device_id (dc_active_devices c1)\<rparr>))"

definition submit :: "ControlEnv \<Rightarrow> ControlCall \<Rightarrow> string \<Rightarrow> string \<Rightarrow> string \<Rightarrow> json_dict \<Rightarrow> json_dict
    \<Rightarrow> DeviceControlController \<Rightarrow> (control_error + ControlResponse) \<times> DeviceControlController" where
  "submit env call device_id command control_name vals payload c =
     (case submit_begin env call device_id command control_name vals payload c of
       (Inl e, c1) \<Rightarrow> (Inl e, c1)
     | (Inr raw, c1) \<Rightarrow>
         let c2 = observe_all (call_early call) c1
         in submit_end (call_publish_ok call) device_id (call_msg_id call) control_name vals
           (if call_publish_ok call then observe_until (device_id, call_msg_id call) (call_observed call) c2 else c2))"

section \<open>Settings\<close>

text \<open>The statement after \<open>_submit\<close>, reached only when it returns.\<close>

definition then_record :: "(StateShadow \<Rightarrow> StateShadow) \<Rightarrow> (control_error + 'a) \<times> DeviceControlController
    \<Rightarrow> (control_error + 'a) \<times> DeviceControlController" where
  "then_record f r = (case r of
     (Inl e, c) \<Rightarrow> (Inl e, c)
   | (Inr response, c) \<Rightarrow> (Inr response, c\<lparr>dc_shadow := f (dc_shadow c)\<rparr>))"

definition effective_settings :: "StateShadow \<Rightarrow> string \<Rightarrow> control_error + json_dict" where
  "effective_settings s device_id =
     (case (get_desired s device_id, get_local_confirmed s device_id) of
       (Some desired, Some confirmed) \<Rightarrow> Inr (dict_merge desired confirmed)
     | _ \<Rightarrow> Inl (UncaughtError ''JSONDecodeError''))"

text \<open>The values of a group request, up to the transaction.\<close>

definition group_values :: "ControlCall \<Rightarrow> StateShadow \<Rightarrow> string \<Rightarrow> string \<Rightarrow> json_dict \<Rightarrow> bool \<Rightarrow> control_error + json_dict" where
  "group_values call shadow device_id group_name updates minimal =
     (case dict_get GROUP_FIELDS group_name of
       None \<Rightarrow> Inl (UncaughtError ''KeyError'')
     | Some allowed \<Rightarrow>
         if updates = [] \<or> (\<exists>kv\<in>set updates. fst kv \<notin> set allowed) then
           Inl (ControlStateUnavailableError ''Unsupported control fields'')
         else
           bind_res (if minimal then Inr updates
                     else bind_res (effective_settings shadow device_id) (\<lambda>s. Inr (filter (\<lambda>kv. fst kv \<in> set allowed) s)))
             (\<lambda>base. bind_res (populate_time_fields (call_wall_offset call) (dict_merge base updates)) populate_duration_fields))"

definition set_group :: "ControlEnv \<Rightarrow> ControlCall \<Rightarrow> string \<Rightarrow> string \<Rightarrow> json_dict \<Rightarrow> bool \<Rightarrow> DeviceControlController
    \<Rightarrow> (control_error + ControlResponse) \<times> DeviceControlController" where
  "set_group env call device_id group_name updates minimal c =
     (case group_values call (dc_shadow c) device_id group_name updates minimal of
       Inl e \<Rightarrow> (Inl e, c)
     | Inr vals \<Rightarrow>
         then_record (update_local_confirmed (call_time call) device_id vals)
           (submit env call device_id cmd_ATTR_SET_SERVICE (fst (hd updates)) vals
             (dict_merge [(''cmd'', JStr cmd_ATTR_SET_SERVICE), (''ts'', JInt (timestamp_ms (call_time call)))] vals) c))"

definition set_sound_switch :: "ControlEnv \<Rightarrow> ControlCall \<Rightarrow> string \<Rightarrow> bool \<Rightarrow> DeviceControlController
    \<Rightarrow> (control_error + ControlResponse) \<times> DeviceControlController" where
  "set_sound_switch env call device_id enabled c =
     (case effective_settings (dc_shadow c) device_id of
       Inl e \<Rightarrow> (Inl e, c)
     | Inr desired \<Rightarrow>
         (case dict_get desired ''soundAgingType'' of
           Some aging_type \<Rightarrow>
             if (case aging_type of JInt _ \<Rightarrow> True | JBool _ \<Rightarrow> True | _ \<Rightarrow> False) then
               (case set_group env call device_id ''sound'' [(''soundSwitch'', JBool enabled), (''soundAgingType'', aging_type)] True c of
                 (Inl e, c1) \<Rightarrow> (Inl e, c1)
               | (Inr response, c1) \<Rightarrow> (Inr (response\<lparr>cr_control := ''soundSwitch'', cr_value := JBool enabled,
                   cr_cloud_sync_behavior := ''confirmed''\<rparr>), c1))
             else (Inl (ControlStateUnavailableError ''Required soundSwitch control state is unavailable''), c)
         | None \<Rightarrow> (Inl (ControlStateUnavailableError ''Required soundSwitch control state is unavailable''), c)))"

definition set_motion_detection_switch :: "ControlEnv \<Rightarrow> ControlCall \<Rightarrow> string \<Rightarrow> bool \<Rightarrow> DeviceControlController
    \<Rightarrow> (control_error + ControlResponse) \<times> DeviceControlController" where
  "set_motion_detection_switch env call device_id enabled c =
     (case set_group env call device_id ''motion'' [(''motionDetectionSwitch'', JBool enabled)] True c of
       (Inl e, c1) \<Rightarrow> (Inl e, c1)
     | (Inr response, c1) \<Rightarrow> (Inr (response\<lparr>cr_control := ''motionDetectionSwitch'', cr_value := JBool enabled\<rparr>), c1))"

definition dispense :: "ControlEnv \<Rightarrow> ControlCall \<Rightarrow> string \<Rightarrow> int \<Rightarrow> DeviceControlController
    \<Rightarrow> (control_error + ControlResponse) \<times> DeviceControlController" where
  "dispense env call device_id grain_num c =
     (if \<not> (MIN_GRAIN_NUM \<le> grain_num \<and> grain_num \<le> MAX_GRAIN_NUM) then
        (Inl (ControlStateUnavailableError ''grainNum must be between 1 and 48''), c)
      else submit env call device_id cmd_MANUAL_FEEDING_SERVICE ''manual:dispense'' [(''grainNum'', JInt grain_num)]
        [(''cmd'', JStr cmd_MANUAL_FEEDING_SERVICE), (''ts'', JInt (timestamp_ms (call_time call))), (''grainNum'', JInt grain_num)] c)"

section \<open>Schedules\<close>

text \<open>\<open>dict(x)\<close> of a decoded plan; the stores only ever hold objects.\<close>

fun as_dicts :: "json list \<Rightarrow> control_error + json_dict list" where
  "as_dicts [] = Inr []"
| "as_dicts (JObj d # xs) = bind_res (as_dicts xs) (\<lambda>ds. Inr (d # ds))"
| "as_dicts (_ # xs) = Inl (UncaughtError ''TypeError'')"

definition schedule_plans :: "StateShadow \<Rightarrow> string \<Rightarrow> control_error + json_dict list" where
  "schedule_plans s device_id =
     (case get_schedule_plans s device_id of
       None \<Rightarrow> Inl (UncaughtError ''JSONDecodeError'')
     | Some stored \<Rightarrow>
         if stored \<noteq> [] then as_dicts (map sp_plan stored)
         else (case get_feeding_plans s device_id of
           None \<Rightarrow> Inl (UncaughtError ''JSONDecodeError'')
         | Some None \<Rightarrow> Inr []
         | Some (Some fallback) \<Rightarrow>
             (case fp_plans fallback of JList ps \<Rightarrow> as_dicts ps | _ \<Rightarrow> Inl (UncaughtError ''TypeError''))))"

definition persisted_schedule_plans :: "StateShadow \<Rightarrow> string \<Rightarrow> control_error + json_dict list" where
  "persisted_schedule_plans s device_id =
     (case get_schedule_plans s device_id of
       None \<Rightarrow> Inl (UncaughtError ''JSONDecodeError'')
     | Some stored \<Rightarrow>
         bind_res (as_dicts (map sp_plan stored))
           (\<lambda>plans. Inr (filter (\<lambda>plan. plan_id plan \<noteq> None \<and> plan_id plan \<noteq> Some 0) plans)))"

definition next_local_plan_id :: "json_dict list \<Rightarrow> int" where
  "next_local_plan_id plans =
     (let negatives = filter (\<lambda>i. i < 0) (map the (filter (\<lambda>x. x \<noteq> None) (map plan_id plans)))
      in (case negatives of [] \<Rightarrow> 0 | n # ns \<Rightarrow> fold min ns n) - 1)"

definition is_int_in :: "int \<Rightarrow> int \<Rightarrow> json option \<Rightarrow> bool" where
  "is_int_in lo hi v = (case v of Some (JInt i) \<Rightarrow> lo \<le> i \<and> i \<le> hi | _ \<Rightarrow> False)"

definition valid_days :: "json option \<Rightarrow> int list option" where
  "valid_days v = (case v of
     Some (JList days) \<Rightarrow>
       if list_all (\<lambda>x. is_int_in 0 7 (Some x)) days then Some (map (\<lambda>x. case x of JInt i \<Rightarrow> i | _ \<Rightarrow> 0) days) else None
   | _ \<Rightarrow> None)"

definition unavailable :: "string \<Rightarrow> control_error + 'a" where
  "unavailable reason = Inl (ControlStateUnavailableError reason)"

text \<open>The validated plan, with its days as a sorted set without 0.\<close>

definition validate_plan :: "json_dict \<Rightarrow> control_error + json_dict" where
  "validate_plan plan =
     (if plan_id plan = None then unavailable ''planId must be an integer''
      else (case str_field plan ''executionTime'' of
        None \<Rightarrow> unavailable ''executionTime must use HH:MM''
      | Some t \<Rightarrow>
          bind_res (parse_time t) (\<lambda>_.
            if \<not> is_int_in MIN_GRAIN_NUM MAX_GRAIN_NUM (dict_get plan ''grainNum'') then
              unavailable ''grainNum must be between 1 and 48''
            else if \<not> is_int_in MIN_AUDIO_TIMES MAX_AUDIO_TIMES (dict_get plan ''audioTimes'') then
              unavailable ''audioTimes must be between 1 and 5''
            else if dict_get plan ''enableAudio'' \<notin> {Some (JBool True), Some (JBool False)} then
              unavailable ''enableAudio must be a boolean''
            else (case valid_days (dict_get plan ''repeatDay'') of
              None \<Rightarrow> unavailable ''repeatDay must contain only 0..7''
            | Some days \<Rightarrow>
                Inr (dict_set ''repeatDay'' (JList (map JInt (sort (remdups (filter (\<lambda>d. d \<noteq> 0) days))))) plan)))))"

definition json_eq_int :: "json \<Rightarrow> int \<Rightarrow> bool" where
  "json_eq_int v i = (case v of
     JInt j \<Rightarrow> j = i
   | JBool b \<Rightarrow> (if b then 1 else 0) = i
   | JFloat m e \<Rightarrow> (of_int m * (if 0 \<le> e then 10 ^ nat e else 1 / 10 ^ nat (- e)) :: rat) = of_int i
   | _ \<Rightarrow> False)"

definition falsy_field :: "json_dict \<Rightarrow> string \<Rightarrow> bool" where
  "falsy_field d key = (case dict_get d key of None \<Rightarrow> True | Some v \<Rightarrow> falsy_json v)"

definition same_id :: "json option \<Rightarrow> int option \<Rightarrow> bool" where
  "same_id v ignored = (case ignored of
     None \<Rightarrow> v = None \<or> v = Some JNull
   | Some i \<Rightarrow> (case v of None \<Rightarrow> False | Some x \<Rightarrow> json_eq_int x i))"

definition reject_time_collision :: "json_dict list \<Rightarrow> json_dict \<Rightarrow> int option \<Rightarrow> control_error + unit" where
  "reject_time_collision plans candidate ignored =
     (if \<exists>plan\<in>set plans. \<not> same_id (dict_get plan ''planId'') ignored \<and> \<not> falsy_field plan ''repeatDay'' \<and>
           dict_get plan ''executionTime'' = dict_get candidate ''executionTime'' \<and> \<not> falsy_field candidate ''repeatDay''
      then unavailable ''Another active plan already uses this time'' else Inr ())"

definition schedule_payload :: "ControlCall \<Rightarrow> json_dict list \<Rightarrow> json_dict" where
  "schedule_payload call plans = [(''cmd'', JStr cmd_FEEDING_PLAN_SERVICE), (''ts'', JInt (timestamp_ms (call_time call))),
     (''plans'', JList (map JObj plans))]"

definition submit_schedule :: "ControlEnv \<Rightarrow> ControlCall \<Rightarrow> string \<Rightarrow> json_dict list \<Rightarrow> string \<Rightarrow> DeviceControlController
    \<Rightarrow> (control_error + ControlResponse) \<times> DeviceControlController" where
  "submit_schedule env call device_id plans control_name c =
     then_record (replace_local_schedule_plans (call_time call) device_id plans)
       (submit env call device_id cmd_FEEDING_PLAN_SERVICE control_name [(''plans'', JList (map JObj plans))]
         (schedule_payload call plans) c)"

definition create_schedule :: "ControlEnv \<Rightarrow> ControlCall \<Rightarrow> string \<Rightarrow> json_dict \<Rightarrow> DeviceControlController
    \<Rightarrow> (control_error + ControlResponse) \<times> DeviceControlController" where
  "create_schedule env call device_id requested c =
     (case bind_res (schedule_plans (dc_shadow c) device_id) (\<lambda>plans.
         bind_res (validate_plan (dict_set ''syncTime'' (JInt (sync_time_ms (call_time call)))
           (dict_set ''planId'' (JInt (next_local_plan_id plans)) requested))) (\<lambda>plan.
         bind_res (reject_time_collision plans plan None) (\<lambda>_. Inr (plans @ [plan])))) of
       Inl e \<Rightarrow> (Inl e, c)
     | Inr plans \<Rightarrow> submit_schedule env call device_id plans ''schedule:create'' c)"

text \<open>\<open>plan["planId"]\<close> raises for a plan without the key; the search stops at the first match.\<close>

fun find_plan :: "json_dict list \<Rightarrow> int \<Rightarrow> control_error + json_dict option" where
  "find_plan [] i = Inr None"
| "find_plan (plan # plans) i = (case dict_get plan ''planId'' of
     None \<Rightarrow> Inl (UncaughtError ''KeyError'')
   | Some v \<Rightarrow> if json_eq_int v i then Inr (Some plan) else find_plan plans i)"

definition all_have_id :: "json_dict list \<Rightarrow> control_error + unit" where
  "all_have_id plans = (if \<exists>plan\<in>set plans. dict_get plan ''planId'' = None then Inl (UncaughtError ''KeyError'') else Inr ())"

definition has_id :: "int \<Rightarrow> json_dict \<Rightarrow> bool" where
  "has_id i plan = (case dict_get plan ''planId'' of None \<Rightarrow> False | Some v \<Rightarrow> json_eq_int v i)"

definition update_schedule :: "ControlEnv \<Rightarrow> ControlCall \<Rightarrow> string \<Rightarrow> int \<Rightarrow> json_dict \<Rightarrow> DeviceControlController
    \<Rightarrow> (control_error + ControlResponse) \<times> DeviceControlController" where
  "update_schedule env call device_id i requested c =
     (case bind_res (schedule_plans (dc_shadow c) device_id) (\<lambda>plans.
         bind_res (find_plan plans i) (\<lambda>existing. case existing of
           None \<Rightarrow> unavailable ''Schedule plan is not known''
         | Some old \<Rightarrow>
             bind_res (validate_plan (dict_set ''syncTime'' (JInt (sync_time_ms (call_time call)))
               (dict_set ''planId'' (JInt i) (dict_merge old requested)))) (\<lambda>updated.
             bind_res (reject_time_collision plans updated (Some i)) (\<lambda>_.
             bind_res (all_have_id plans) (\<lambda>_.
             Inr (map (\<lambda>plan. if has_id i plan then updated else plan) plans)))))) of
       Inl e \<Rightarrow> (Inl e, c)
     | Inr plans \<Rightarrow> submit_schedule env call device_id plans ''schedule:update'' c)"

definition delete_schedule :: "ControlEnv \<Rightarrow> ControlCall \<Rightarrow> string \<Rightarrow> int \<Rightarrow> DeviceControlController
    \<Rightarrow> (control_error + ControlResponse) \<times> DeviceControlController" where
  "delete_schedule env call device_id i c =
     (case bind_res (schedule_plans (dc_shadow c) device_id) (\<lambda>plans.
         bind_res (all_have_id plans) (\<lambda>_.
         let remaining = filter (\<lambda>plan. \<not> has_id i plan) plans
         in if length remaining = length plans then unavailable ''Schedule plan is not known'' else Inr remaining)) of
       Inl e \<Rightarrow> (Inl e, c)
     | Inr plans \<Rightarrow> submit_schedule env call device_id plans ''schedule:delete'' c)"

definition resync_persisted_schedules :: "ControlEnv \<Rightarrow> ControlCall \<Rightarrow> string \<Rightarrow> DeviceControlController
    \<Rightarrow> (control_error + ScheduleResyncResult option) \<times> DeviceControlController" where
  "resync_persisted_schedules env call device_id c =
     (case persisted_schedule_plans (dc_shadow c) device_id of
       Inl e \<Rightarrow> (Inl e, c)
     | Inr plans \<Rightarrow>
         if plans = [] then (Inr None, c)
         else
           (case submit env call device_id cmd_FEEDING_PLAN_SERVICE ''schedule:resync'' [(''plans'', JList (map JObj plans))]
               (schedule_payload call plans) c of
             (Inl e, c1) \<Rightarrow> (Inl e, c1)
           | (Inr _, c1) \<Rightarrow>
               (Inr (Some \<lparr>rr_device_id = device_id, rr_plans_total = length plans,
                  rr_cloud_plans = length (filter (\<lambda>plan. the (plan_id plan) > 0) plans),
                  rr_local_plans = length (filter (\<lambda>plan. the (plan_id plan) < 0) plans)\<rparr>), c1)))"

section \<open>Capabilities\<close>

record CapabilityView =
  cv_control :: string
  cv_capability :: ControlCapability
  cv_device_online :: bool
  cv_required_state_available :: bool
  cv_pending :: bool

definition capability :: "ControlEnv \<Rightarrow> string \<Rightarrow> string \<Rightarrow> DeviceControlController \<Rightarrow> control_error + CapabilityView" where
  "capability env device_id control_name c =
     bind_res (effective_settings (dc_shadow c) device_id) (\<lambda>desired.
       case dict_get CONTROL_CAPABILITIES control_name of
         None \<Rightarrow> Inl (UncaughtError ''KeyError'')
       | Some definition \<Rightarrow> Inr
           \<lparr>cv_control = control_name,
            cv_capability = definition\<lparr>cc_writable := cc_writable definition \<and> env_product env device_id = Some SUPPORTED_PRODUCT_ID\<rparr>,
            cv_device_online = env_online env device_id,
            cv_required_state_available =
              (if control_name \<noteq> ''bowlMode'' then dict_get desired control_name \<in> {Some (JBool True), Some (JBool False)}
               else str_field desired control_name \<noteq> None),
            cv_pending = (device_id \<in> set (dc_active_devices c))\<rparr>)"

section \<open>Acknowledgements\<close>

text \<open>The code a message carries for transaction \<open>m\<close> of device \<open>d\<close>, if it acknowledges that transaction.\<close>

definition ack_of :: "string \<Rightarrow> string \<Rightarrow> string \<Rightarrow> string \<times> string \<times> bytes \<Rightarrow> json option option" where
  "ack_of d m cmd msg = (case msg of (d', topic, payload) \<Rightarrow>
     if d' = d \<and> topic = ack_topic d then
       (case json_loads payload of
         Some (JObj body) \<Rightarrow>
           if str_field body ''msgId'' = Some m \<and> str_field body ''cmd'' = Some cmd then Some (dict_get body ''code'') else None
       | _ \<Rightarrow> None)
     else None)"

definition last_ack :: "string \<Rightarrow> string \<Rightarrow> string \<Rightarrow> (string \<times> string \<times> bytes) list \<Rightarrow> json option option" where
  "last_ack d m cmd msgs =
     (let codes = List.map_filter (ack_of d m cmd) msgs in if codes = [] then None else Some (last codes))"

lemma last_ack_snoc [simp]:
  "last_ack d m cmd [] = None"
  "last_ack d m cmd (msgs @ [msg]) = (case ack_of d m cmd msg of None \<Rightarrow> last_ack d m cmd msgs | Some code \<Rightarrow> Some code)"
  by (simp_all add: last_ack_def map_filter_def Let_def split: option.split)

definition first_ack :: "string \<Rightarrow> string \<Rightarrow> string \<Rightarrow> (string \<times> string \<times> bytes) list \<Rightarrow> json option option" where
  "first_ack d m cmd msgs = (case List.map_filter (ack_of d m cmd) msgs of [] \<Rightarrow> None | code # _ \<Rightarrow> Some code)"

lemma first_ack_Cons [simp]:
  "first_ack d m cmd [] = None"
  "first_ack d m cmd (msg # msgs) = (case ack_of d m cmd msg of None \<Rightarrow> first_ack d m cmd msgs | Some code \<Rightarrow> Some code)"
  by (simp_all add: first_ack_def map_filter_simps split: option.split)

text \<open>
  The acknowledgement whose code decides: the last one observed before the caller waits, if there is one,
  otherwise the first one observed while it waits.
\<close>

definition deciding_ack :: "string \<Rightarrow> string \<Rightarrow> ControlCall \<Rightarrow> json option option" where
  "deciding_ack d cmd call = (case last_ack d (call_msg_id call) cmd (call_early call) of
     Some code \<Rightarrow> Some code
   | None \<Rightarrow> first_ack d (call_msg_id call) cmd (call_observed call))"

definition acknowledged :: "json option option \<Rightarrow> PendingControl \<Rightarrow> PendingControl" where
  "acknowledged ack p = (case ack of None \<Rightarrow> p | Some code \<Rightarrow> p\<lparr>pc_code := code, pc_completed := True\<rparr>)"

lemma acknowledged_command [simp]: "pc_command (acknowledged ack p) = pc_command p"
  by (simp add: acknowledged_def split: option.split)

text \<open>An observed message either does not match any transaction or marks exactly one.\<close>

lemma observe_cases:
  obtains "snd (observe_device_message d topic payload c) = c" "\<And>m p. dict_get (dc_pending c) (d, m) = Some p \<Longrightarrow> ack_of d m (pc_command p) (d, topic, payload) = None"
  | m p code where "dict_get (dc_pending c) (d, m) = Some p" "ack_of d m (pc_command p) (d, topic, payload) = Some code"
    "\<And>m' cmd'. m' \<noteq> m \<Longrightarrow> ack_of d m' cmd' (d, topic, payload) = None"
    "snd (observe_device_message d topic payload c) = c\<lparr>dc_pending := dict_set (d, m) (acknowledged (Some code) p) (dc_pending c)\<rparr>"
proof (cases "\<exists>body m cmd p. topic = ack_topic d \<and> json_loads payload = Some (JObj body) \<and> str_field body ''msgId'' = Some m \<and>
    str_field body ''cmd'' = Some cmd \<and> dict_get (dc_pending c) (d, m) = Some p \<and> pc_command p = cmd")
  case True
  then obtain body m cmd p where "topic = ack_topic d" "json_loads payload = Some (JObj body)" "str_field body ''msgId'' = Some m"
    "str_field body ''cmd'' = Some cmd" "dict_get (dc_pending c) (d, m) = Some p" "pc_command p = cmd" by blast
  then show thesis
    by (intro that(2) [of m p "dict_get body ''code''"]) (simp_all add: observe_device_message_def ack_of_def acknowledged_def)
next
  case False
  then have "snd (observe_device_message d topic payload c) = c"
    by (auto simp: observe_device_message_def split: option.splits json.splits)
  moreover have "ack_of d m (pc_command p) (d, topic, payload) = None" if "dict_get (dc_pending c) (d, m) = Some p" for m p
    using False that by (fastforce simp: ack_of_def split: option.splits json.splits)
  ultimately show thesis by (rule that(1))
qed

lemma observe_pending:
  assumes "dict_get (dc_pending c) (d, m) = Some p"
  shows "dict_get (dc_pending (snd (observe_device_message d' topic payload c))) (d, m) =
    Some (acknowledged (ack_of d m (pc_command p) (d', topic, payload)) p)"
proof (cases rule: observe_cases [of d' topic payload c])
  case 1
  with assms show ?thesis by (cases "d' = d") (auto simp: acknowledged_def ack_of_def)
next
  case (2 m' p' code)
  with assms show ?thesis by (cases "d' = d"; cases "m' = m") (auto simp: acknowledged_def ack_of_def)
qed

lemma observe_all_pending:
  assumes "dict_get (dc_pending c) (d, m) = Some p"
  shows "dict_get (dc_pending (observe_all msgs c)) (d, m) = Some (acknowledged (last_ack d m (pc_command p) msgs) p)"
proof (induction msgs rule: rev_induct)
  case Nil
  with assms show ?case by (simp add: observe_all_def acknowledged_def)
next
  case (snoc msg msgs)
  obtain d' topic payload where msg: "msg = (d', topic, payload)" by (cases msg)
  show ?case
    using observe_pending [OF snoc, of d' topic payload]
    by (simp add: observe_all_def msg acknowledged_def split: option.splits)
qed

lemma observe_until_pending:
  "dict_get (dc_pending c) (d, m) = Some p \<Longrightarrow>
    dict_get (dc_pending (observe_until (d, m) msgs c)) (d, m) =
      Some (if pc_completed p then p else acknowledged (first_ack d m (pc_command p) msgs) p)"
proof (induction "(d, m)" msgs c arbitrary: p rule: observe_until.induct)
  case (1 c)
  then show ?case by (simp add: acknowledged_def)
next
  case (2 d' topic payload msgs c)
  show ?case
  proof (cases "pc_completed p")
    case True
    with "2.prems" show ?thesis by (simp add: is_completed_def)
  next
    case False
    let ?ack = "ack_of d m (pc_command p) (d', topic, payload)"
    have waiting: "\<not> is_completed (d, m) c" using False "2.prems" by (simp add: is_completed_def)
    from "2.hyps" [OF waiting observe_pending [OF "2.prems", of d' topic payload]] False waiting show ?thesis
      by (cases ?ack) (simp_all add: acknowledged_def)
  qed
qed

lemma observe_ack_keep [simp]:
  "dc_shadow (snd (observe_device_message d topic payload c)) = dc_shadow c"
  "dc_active_devices (snd (observe_device_message d topic payload c)) = dc_active_devices c"
  "dc_published (snd (observe_device_message d topic payload c)) = dc_published c"
  by (cases rule: observe_cases [of d topic payload c]; simp)+

lemma observe_all_keep [simp]:
  "dc_shadow (observe_all msgs c) = dc_shadow c" "dc_active_devices (observe_all msgs c) = dc_active_devices c"
  "dc_published (observe_all msgs c) = dc_published c"
  by (induction msgs rule: rev_induct) (simp_all add: observe_all_def case_prod_beta)

lemma observe_until_keep [simp]:
  "dc_shadow (observe_until k msgs c) = dc_shadow c" "dc_active_devices (observe_until k msgs c) = dc_active_devices c"
  "dc_published (observe_until k msgs c) = dc_published c"
  by (induction k msgs c rule: observe_until.induct) simp_all

lemma increment_keep [simp]:
  "dc_shadow (increment k c) = dc_shadow c" "dc_active_devices (increment k c) = dc_active_devices c"
  "dc_published (increment k c) = dc_published c" "dc_pending (increment k c) = dc_pending c"
  by (simp_all add: increment_def)

lemma submit_end_keep [simp]:
  "dc_shadow (snd (submit_end ok d m cn vals c)) = dc_shadow c"
  "dc_published (snd (submit_end ok d m cn vals c)) = dc_published c"
  "dc_pending (snd (submit_end ok d m cn vals c)) = dict_pop (d, m) (dc_pending c)"
  "dc_active_devices (snd (submit_end ok d m cn vals c)) = removeAll d (dc_active_devices c)"
  by (simp_all add: submit_end_def case_prod_beta Let_def)

text \<open>What \<open>submit_begin\<close> accepts, and the state it leaves then.\<close>

definition accepts :: "ControlEnv \<Rightarrow> string \<Rightarrow> DeviceControlController \<Rightarrow> bool" where
  "accepts env d c \<longleftrightarrow> env_product env d = Some SUPPORTED_PRODUCT_ID \<and> env_online env d \<and> d \<notin> set (dc_active_devices c)"

definition control_message :: "ControlCall \<Rightarrow> json_dict \<Rightarrow> bytes" where
  "control_message call payload = json_dumps_compact (JObj (dict_set ''msgId'' (JStr (call_msg_id call)) payload))"

definition handed_over :: "ControlCall \<Rightarrow> string \<Rightarrow> json_dict \<Rightarrow> (string \<times> string \<times> bytes) list" where
  "handed_over call d payload = (if call_publish call = NotSent then [] else [(d, SUPPORTED_PRODUCT_ID, control_message call payload)])"

lemma submit_begin_refused:
  assumes "\<not> accepts env d c"
  shows "\<exists>e c'. submit_begin env call d cmd cn vals payload c = (Inl e, c') \<and> (c' = c \<or> c' = increment ''control_rejected'' c)"
  using assms by (cases "env_product env d") (auto simp: submit_begin_def accepts_def)

lemma submit_begin_accepted:
  assumes "accepts env d c"
  obtains c' p where "submit_begin env call d cmd cn vals payload c = (Inr (control_message call payload), c')"
    "dc_shadow c' = dc_shadow c" "dc_active_devices c' = dc_active_devices c @ [d]"
    "dc_pending c' = dict_set (d, call_msg_id call) p (dc_pending c)"
    "dc_published c' = dc_published c @ handed_over call d payload"
    "pc_command p = cmd" "\<not> pc_completed p"
  using assms
  by (intro that [of "snd (submit_begin env call d cmd cn vals payload c)" "\<lparr>pc_command = cmd, pc_control_name = cn, pc_values = vals, pc_sent_at = call_clock call,
      pc_completed = False, pc_code = None\<rparr>"]) (auto simp: submit_begin_def accepts_def control_message_def handed_over_def Let_def)

lemma submit_cases:
  obtains e c' where "\<not> accepts env d c" "submit env call d cmd cn vals payload c = (Inl e, c')" "dc_shadow c' = dc_shadow c"
    "dc_published c' = dc_published c" "dc_pending c' = dc_pending c" "dc_active_devices c' = dc_active_devices c"
  | res c' where "accepts env d c" "submit env call d cmd cn vals payload c = (res, c')" "dc_shadow c' = dc_shadow c"
    "dc_published c' = dc_published c @ handed_over call d payload"
    "isl res \<longleftrightarrow> \<not> (call_publish_ok call \<and> deciding_ack d cmd call = Some (Some (JInt 0)))"
proof (cases "accepts env d c")
  case True
  from submit_begin_accepted [OF True] obtain c1 p where
    b: "submit_begin env call d cmd cn vals payload c = (Inr (control_message call payload), c1)"
    "dc_shadow c1 = dc_shadow c" "dc_pending c1 = dict_set (d, call_msg_id call) p (dc_pending c)"
    "dc_published c1 = dc_published c @ handed_over call d payload"
    "pc_command p = cmd" "\<not> pc_completed p" by metis
  let ?c1 = "observe_all (call_early call) c1"
  let ?c2 = "if call_publish_ok call then observe_until (d, call_msg_id call) (call_observed call) ?c1 else ?c1"
  let ?r = "submit_end (call_publish_ok call) d (call_msg_id call) cn vals ?c2"
  have "submit env call d cmd cn vals payload c = (fst ?r, snd ?r)"
    by (simp add: submit_def b(1) Let_def)
  moreover have "isl (fst ?r) \<longleftrightarrow> \<not> (call_publish_ok call \<and> deciding_ack d cmd call = Some (Some (JInt 0)))"
  proof (cases "call_publish_ok call")
    case ok: True
    have "dict_get (dc_pending ?c1) (d, call_msg_id call) = Some (acknowledged (last_ack d (call_msg_id call) cmd (call_early call)) p)"
      using observe_all_pending [of c1 d "call_msg_id call" p] b(3,5) by simp
    from observe_until_pending [OF this, of "call_observed call"] b(5,6) ok
    have "dict_get (dc_pending ?c2) (d, call_msg_id call) = Some (acknowledged (deciding_ack d cmd call) p)"
      by (cases "last_ack d (call_msg_id call) cmd (call_early call)") (simp_all add: deciding_ack_def acknowledged_def)
    with ok b(6) show ?thesis by (simp add: submit_end_def acknowledged_def Let_def split: option.split)
  qed (simp add: submit_end_def case_prod_beta Let_def)
  ultimately show thesis using True b(2,4) by (intro that(2) [of "fst ?r" "snd ?r"]) simp_all
next
  case False
  from submit_begin_refused [OF this] obtain e c' where
    "submit_begin env call d cmd cn vals payload c = (Inl e, c')" "c' = c \<or> c' = increment ''control_rejected'' c" by metis
  with False show thesis by (intro that(1) [of e c']) (auto simp: submit_def)
qed

section \<open>One transaction per device\<close>

inductive control_reachable :: "DeviceControlController \<Rightarrow> bool" where
  control_start: "control_reachable (init_controller shadow)"
| control_begin: "control_reachable c \<Longrightarrow> control_reachable (snd (submit_begin env call d cmd cn vals payload c))"
| control_observe: "control_reachable c \<Longrightarrow> control_reachable (snd (observe_device_message d topic payload c))"
| control_end: "control_reachable c \<Longrightarrow> dict_get (dc_pending c) (d, m) = Some p \<Longrightarrow>
    control_reachable (snd (submit_end ok d m cn vals c))"
| control_record: "control_reachable c \<Longrightarrow> control_reachable (c\<lparr>dc_shadow := shadow\<rparr>)"

definition control_inv :: "DeviceControlController \<Rightarrow> bool" where
  "control_inv c \<longleftrightarrow>
     (\<forall>d. (d \<in> set (dc_active_devices c) \<longleftrightarrow> (\<exists>m. dict_get (dc_pending c) (d, m) \<noteq> None)) \<and>
       (\<forall>m m'. dict_get (dc_pending c) (d, m) \<noteq> None \<longrightarrow> dict_get (dc_pending c) (d, m') \<noteq> None \<longrightarrow> m = m'))"

lemma control_inv_cong:
  assumes "dc_active_devices c' = dc_active_devices c" "\<And>k. dict_get (dc_pending c') k \<noteq> None \<longleftrightarrow> dict_get (dc_pending c) k \<noteq> None"
  shows "control_inv c' = control_inv c"
  unfolding control_inv_def assms(1) assms(2) by (rule refl)

lemma control_inv_begin:
  assumes "control_inv c"
  shows "control_inv (snd (submit_begin env call d cmd cn vals payload c))"
proof (cases "accepts env d c")
  case True
  from submit_begin_accepted [OF True] obtain c' p where
    b: "submit_begin env call d cmd cn vals payload c = (Inr (control_message call payload), c')"
    "dc_active_devices c' = dc_active_devices c @ [d]" "dc_pending c' = dict_set (d, call_msg_id call) p (dc_pending c)" by metis
  have "\<forall>m. dict_get (dc_pending c) (d, m) = None" using assms True by (auto simp: control_inv_def accepts_def)
  with assms show ?thesis unfolding control_inv_def b(1) snd_conv b(2,3) by auto
next
  case False
  from submit_begin_refused [OF this] obtain e c' where
    r: "submit_begin env call d cmd cn vals payload c = (Inl e, c')" "c' = c \<or> c' = increment ''control_rejected'' c" by metis
  then have "control_inv c' = control_inv c" by (intro control_inv_cong) auto
  with assms r(1) show ?thesis by simp
qed

lemma control_inv_observe:
  assumes "control_inv c"
  shows "control_inv (snd (observe_device_message d topic payload c))"
proof (cases rule: observe_cases [of d topic payload c])
  case (2 m p code)
  have "control_inv (snd (observe_device_message d topic payload c)) = control_inv c"
    by (rule control_inv_cong) (auto simp: "2"(1,4))
  with assms show ?thesis by simp
qed (simp add: assms)

lemma control_inv_end:
  assumes "control_inv c" "dict_get (dc_pending c) (d, m) = Some p"
  shows "control_inv (snd (submit_end ok d m cn vals c))"
proof -
  have "dict_get (dc_pending c) (d, m') \<noteq> None \<Longrightarrow> m' = m" for m'
    using assms unfolding control_inv_def by (metis option.distinct(1))
  with assms show ?thesis unfolding control_inv_def submit_end_keep by auto
qed

lemma control_reachable_inv: "control_reachable c \<Longrightarrow> control_inv c"
proof (induction rule: control_reachable.induct)
  case (control_start shadow)
  then show ?case by (simp add: control_inv_def init_controller_def)
next
  case (control_record c shadow)
  then show ?case by (simp add: control_inv_def)
qed (simp_all add: control_inv_begin control_inv_observe control_inv_end)

section \<open>Allowlisted fields\<close>

abbreviation keys :: "('k, 'v) dict \<Rightarrow> 'k set" where
  "keys d \<equiv> fst ` set d"

lemma keys_set [simp]: "keys (dict_set k v d) = insert k (keys d)"
  by (simp add: dom_update)

lemma keys_merge: "keys (dict_merge a b) = keys a \<union> keys b"
  by (induction a b rule: dict_merge.induct) auto

lemma dict_get_merge_other: "k \<notin> keys b \<Longrightarrow> dict_get (dict_merge a b) k = dict_get a k"
  by (induction a b rule: dict_merge.induct) auto

text \<open>A field set in which every local time brings its UTC field and every duration is present.\<close>

definition time_closed :: "string list \<Rightarrow> bool" where
  "time_closed allowed \<longleftrightarrow> list_all (\<lambda>(l, u). l \<in> set allowed \<longrightarrow> u \<in> set allowed) TIME_PAIRS \<and>
     list_all (\<lambda>(s, e, t). s \<in> set allowed \<longrightarrow> e \<in> set allowed \<longrightarrow> t \<in> set allowed) DURATIONS"

lemma groups_time_closed: "list_all (\<lambda>g. time_closed (snd g)) GROUP_FIELDS"
  by code_simp

lemma str_field_key: "str_field d k = Some s \<Longrightarrow> k \<in> keys d"
  by (auto simp: str_field_def split: option.splits dest: map_of_SomeD) (force dest: map_of_SomeD)

lemma populate_times_keys:
  "populate_times off ps vals = Inr vals' \<Longrightarrow> keys vals \<subseteq> A \<Longrightarrow> \<forall>(l, u)\<in>set ps. l \<in> A \<longrightarrow> u \<in> A \<Longrightarrow> keys vals' \<subseteq> A"
proof (induction off ps vals rule: populate_times.induct)
  case (2 off l u ps vals)
  show ?case
  proof (cases "str_field vals l")
    case None
    with "2" show ?thesis by simp
  next
    case (Some t)
    from "2.prems"(1) Some obtain m where m: "minutes t = Inr m"
      "populate_times off ps (dict_set u (JStr (utc_time off m)) vals) = Inr vals'" by (auto simp: bind_res_Inr)
    have "l \<in> A" using str_field_key [OF Some] "2.prems"(2) by blast
    with "2.prems" have "keys (dict_set u (JStr (utc_time off m)) vals) \<subseteq> A" "\<forall>(l, u)\<in>set ps. l \<in> A \<longrightarrow> u \<in> A" by auto
    with "2.IH"(2) [OF Some m(2)] show ?thesis by blast
  qed
qed simp

lemma populate_durations_keys:
  "populate_durations ps vals = Inr vals' \<Longrightarrow> keys vals \<subseteq> A \<Longrightarrow>
    \<forall>(s, e, t)\<in>set ps. s \<in> A \<longrightarrow> e \<in> A \<longrightarrow> t \<in> A \<Longrightarrow> keys vals' \<subseteq> A"
proof (induction ps arbitrary: vals)
  case (Cons p ps)
  obtain s e t where p: "p = (s, e, t)" by (cases p)
  show ?case
  proof (cases "\<exists>x y. str_field vals s = Some x \<and> str_field vals e = Some y")
    case True
    then obtain x y where xy: "str_field vals s = Some x" "str_field vals e = Some y" by blast
    with Cons.prems(1) p obtain me ms where
      r: "populate_durations ps (dict_set t (JInt (me - ms)) vals) = Inr vals'" by (auto simp: bind_res_Inr)
    have "s \<in> A" "e \<in> A" using xy [THEN str_field_key] Cons.prems(2) by blast+
    with Cons.prems(2,3) p have "keys (dict_set t (JInt (me - ms)) vals) \<subseteq> A" by auto
    with Cons.IH [OF r] Cons.prems(3) show ?thesis by simp
  next
    case False
    with Cons.prems(1) p have "populate_durations ps vals = Inr vals'" by (auto split: option.splits)
    with Cons.IH Cons.prems(2,3) show ?thesis by simp
  qed
qed simp

lemma group_values_keys:
  assumes g: "dict_get GROUP_FIELDS g = Some allowed" and r: "group_values call s d g updates minimal = Inr vals"
  shows "keys vals \<subseteq> set allowed"
proof -
  have closed: "time_closed allowed"
    using groups_time_closed map_of_SomeD [OF g] by (auto simp: list_all_iff)
  from r g obtain base v1 where ok: "\<forall>kv\<in>set updates. fst kv \<in> set allowed"
    and base: "(if minimal then Inr updates else bind_res (effective_settings s d) (\<lambda>s. Inr (filter (\<lambda>kv. fst kv \<in> set allowed) s))) = Inr base"
    and v1: "populate_time_fields (call_wall_offset call) (dict_merge base updates) = Inr v1" "populate_duration_fields v1 = Inr vals"
    by (auto simp: group_values_def bind_res_Inr split: if_splits)
  from base ok have "keys base \<subseteq> set allowed" by (auto simp: bind_res_Inr split: if_splits)
  with ok have "keys (dict_merge base updates) \<subseteq> set allowed" by (auto simp: keys_merge)
  with populate_times_keys [OF v1(1) [unfolded populate_time_fields_def]] closed have "keys v1 \<subseteq> set allowed"
    by (auto simp: time_closed_def list_all_iff)
  with populate_durations_keys [OF v1(2) [unfolded populate_duration_fields_def]] closed show ?thesis
    by (auto simp: time_closed_def list_all_iff)
qed

text \<open>The command of a settings message is never replaced by a requested value.\<close>

lemma groups_without_cmd: "list_all (\<lambda>g. ''cmd'' \<notin> set (snd g)) GROUP_FIELDS"
  by code_simp

lemma group_payload_cmd:
  assumes "group_values call s d g updates minimal = Inr vals"
  shows "dict_get (dict_merge [(''cmd'', JStr cmd), (''ts'', v)] vals) ''cmd'' = Some (JStr cmd)"
proof -
  obtain allowed where g: "dict_get GROUP_FIELDS g = Some allowed"
    using assms by (cases "dict_get GROUP_FIELDS g") (auto simp: group_values_def)
  have "''cmd'' \<notin> keys vals"
    using group_values_keys [OF g assms] groups_without_cmd map_of_SomeD [OF g] by (force simp: list_all_iff)
  then show ?thesis by (simp add: dict_get_merge_other)
qed

section \<open>The contract of every operation\<close>

text \<open>
  Every interactive operation publishes at most one message, to its own device, feeds no number of portions
  outside the bounds, and leaves the shadow alone unless it succeeds.
\<close>

definition feeds_in_bounds :: "json_dict \<Rightarrow> bool" where
  "feeds_in_bounds body \<longleftrightarrow> (dict_get body ''cmd'' = Some (JStr cmd_MANUAL_FEEDING_SERVICE) \<longrightarrow>
     (\<exists>n. dict_get body ''grainNum'' = Some (JInt n) \<and> 1 \<le> n \<and> n \<le> 48))"

definition sends_to :: "string \<Rightarrow> nat \<Rightarrow> DeviceControlController \<Rightarrow> DeviceControlController \<Rightarrow> bool" where
  "sends_to d n c c' \<longleftrightarrow> (\<exists>sent. dc_published c' = dc_published c @ sent \<and> length sent \<le> n \<and>
     (\<forall>m\<in>set sent. fst m = d \<and> (\<exists>body. snd (snd m) = json_dumps_compact (JObj body) \<and> feeds_in_bounds body)))"

lemma sends_to_same: "dc_published c' = dc_published c \<Longrightarrow> sends_to d n c c'"
  by (simp add: sends_to_def)

lemma sends_to_trans: "sends_to d m c c1 \<Longrightarrow> sends_to d n c1 c2 \<Longrightarrow> sends_to d (m + n) c c2"
  unfolding sends_to_def by (elim exE conjE, rule exI [of _ "_ @ _"]) auto

locale feeder_operation =
  fixes device :: string
    and run :: "DeviceControlController \<Rightarrow> (control_error + 'a) \<times> DeviceControlController"
  assumes failure_keeps_shadow: "isl (fst (run c)) \<Longrightarrow> dc_shadow (snd (run c)) = dc_shadow c"
    and publishes_once: "sends_to device (Suc 0) c (snd (run c))"
begin

fun attempts :: "nat \<Rightarrow> DeviceControlController \<Rightarrow> DeviceControlController" where
  "attempts 0 c = c"
| "attempts (Suc n) c = (let (res, c') = run c in if isl res then attempts n c' else c')"

text \<open>Retrying until success publishes at most one message per attempt, all to the device.\<close>

lemma attempts_publish: "sends_to device n c (attempts n c)"
proof (induction n arbitrary: c)
  case (Suc n)
  obtain res c' where r: "run c = (res, c')" by force
  have 1: "sends_to device (Suc 0) c c'" using publishes_once [of c] r by simp
  show ?case
  proof (cases "isl res")
    case True
    with r sends_to_trans [OF 1 Suc] show ?thesis by simp
  next
    case False
    with r 1 show ?thesis by (auto simp: sends_to_def)
  qed
qed (simp add: sends_to_same)

lemma failed_attempts_keep_shadow:
  "isl (fst (run (attempts n c))) \<Longrightarrow> dc_shadow (snd (run (attempts n c))) = dc_shadow (attempts n c)"
  by (rule failure_keeps_shadow)

end

lemma submit_shadow: "dc_shadow (snd (submit env call d cmd cn vals payload c)) = dc_shadow c"
  by (cases rule: submit_cases [where env = env and call = call and d = d and cmd = cmd and cn = cn and vals = vals
        and payload = payload and c = c]; simp)

lemma submit_sends:
  assumes "feeds_in_bounds payload"
  shows "sends_to d (Suc 0) c (snd (submit env call d cmd cn vals payload c))"
proof -
  have "feeds_in_bounds (dict_set ''msgId'' (JStr (call_msg_id call)) payload)" using assms by (simp add: feeds_in_bounds_def)
  then show ?thesis
    by (cases rule: submit_cases [where env = env and call = call and d = d and cmd = cmd and cn = cn and vals = vals
        and payload = payload and c = c]) (auto simp: sends_to_def handed_over_def control_message_def)
qed

text \<open>Recording in the shadow after a successful transaction keeps the contract.\<close>

lemma then_record_simps [simp]:
  "fst (then_record f r) = fst r" "dc_published (snd (then_record f r)) = dc_published (snd r)"
  "dc_shadow (snd (then_record f r)) = (if isl (fst r) then dc_shadow (snd r) else f (dc_shadow (snd r)))"
  by (simp_all add: then_record_def split: prod.split sum.split)

lemma then_record_sends: "sends_to d n c (snd r) \<Longrightarrow> sends_to d n c (snd (then_record f r))"
  by (simp add: sends_to_def)

lemma set_group_contract:
  "isl (fst (set_group env call d g updates minimal c)) \<Longrightarrow> dc_shadow (snd (set_group env call d g updates minimal c)) = dc_shadow c"
  "sends_to d (Suc 0) c (snd (set_group env call d g updates minimal c))"
proof -
  show "isl (fst (set_group env call d g updates minimal c)) \<Longrightarrow> dc_shadow (snd (set_group env call d g updates minimal c)) = dc_shadow c"
    by (cases "group_values call (dc_shadow c) d g updates minimal") (simp_all add: set_group_def submit_shadow)
  show "sends_to d (Suc 0) c (snd (set_group env call d g updates minimal c))"
  proof (cases "group_values call (dc_shadow c) d g updates minimal")
    case (Inr vals)
    have "feeds_in_bounds (dict_merge [(''cmd'', JStr cmd_ATTR_SET_SERVICE), (''ts'', JInt (timestamp_ms (call_time call)))] vals)"
      using group_payload_cmd [OF Inr] by (simp add: feeds_in_bounds_def relay_defs)
    then show ?thesis using Inr by (simp add: set_group_def then_record_sends submit_sends)
  qed (simp add: set_group_def sends_to_same)
qed

lemma submit_schedule_contract:
  "isl (fst (submit_schedule env call d plans cn c)) \<Longrightarrow> dc_shadow (snd (submit_schedule env call d plans cn c)) = dc_shadow c"
  "sends_to d (Suc 0) c (snd (submit_schedule env call d plans cn c))"
  by (simp_all add: submit_schedule_def submit_shadow then_record_sends submit_sends schedule_payload_def feeds_in_bounds_def relay_defs)

lemma dispense_contract:
  "dc_shadow (snd (dispense env call d n c)) = dc_shadow c" "sends_to d (Suc 0) c (snd (dispense env call d n c))"
  by (simp_all add: dispense_def submit_shadow sends_to_same submit_sends feeds_in_bounds_def MIN_GRAIN_NUM_def MAX_GRAIN_NUM_def)

interpretation group_control: feeder_operation d "set_group env call d g updates minimal" for env call d g updates minimal
  by unfold_locales (rule set_group_contract; assumption?)+

interpretation feed_control: feeder_operation d "dispense env call d n" for env call d n
  by unfold_locales (simp_all add: dispense_contract)

interpretation create_control: feeder_operation d "create_schedule env call d requested" for env call d requested
  by unfold_locales (auto simp: create_schedule_def submit_schedule_contract sends_to_same split: sum.splits)

interpretation update_control: feeder_operation d "update_schedule env call d i requested" for env call d i requested
  by unfold_locales (auto simp: update_schedule_def submit_schedule_contract sends_to_same split: sum.splits)

interpretation delete_control: feeder_operation d "delete_schedule env call d i" for env call d i
  by unfold_locales (auto simp: delete_schedule_def submit_schedule_contract sends_to_same split: sum.splits)

section \<open>Published settings\<close>

lemma set_group_cases:
  obtains e where "group_values call (dc_shadow c) d g updates minimal = Inl e" "set_group env call d g updates minimal c = (Inl e, c)"
  | vals payload where "group_values call (dc_shadow c) d g updates minimal = Inr vals"
    "payload = dict_merge [(''cmd'', JStr cmd_ATTR_SET_SERVICE), (''ts'', JInt (timestamp_ms (call_time call)))] vals"
    "set_group env call d g updates minimal c = then_record (update_local_confirmed (call_time call) d vals)
       (submit env call d cmd_ATTR_SET_SERVICE (fst (hd updates)) vals payload c)"
  by (cases "group_values call (dc_shadow c) d g updates minimal") (auto simp: set_group_def)

lemma submit_published:
  "\<exists>sent. dc_published (snd (submit env call d cmd cn vals payload c)) = dc_published c @ sent \<and>
    (\<forall>m\<in>set sent. m = (d, SUPPORTED_PRODUCT_ID, control_message call payload) \<and> accepts env d c)"
  by (cases rule: submit_cases [where env = env and call = call and d = d and cmd = cmd and cn = cn and vals = vals
        and payload = payload and c = c]) (auto simp: handed_over_def)

lemma set_group_published:
  assumes "dict_get GROUP_FIELDS g = Some allowed"
  shows "\<exists>sent. dc_published (snd (set_group env call d g updates minimal c)) = dc_published c @ sent \<and>
    (\<forall>m\<in>set sent. \<exists>body. m = (d, SUPPORTED_PRODUCT_ID, json_dumps_compact (JObj body)) \<and>
      keys body \<subseteq> RESERVED \<union> set allowed \<and> env_online env d)"
proof (cases rule: set_group_cases [where call = call and c = c and d = d and g = g and updates = updates
      and minimal = minimal and env = env])
  case (2 vals payload)
  have "keys (dict_set ''msgId'' (JStr (call_msg_id call)) payload) \<subseteq> RESERVED \<union> set allowed"
    using group_values_keys [OF assms "2"(1)] "2"(2) by (auto simp: keys_merge RESERVED_def)
  with submit_published [of env call d cmd_ATTR_SET_SERVICE "fst (hd updates)" vals payload c] show ?thesis
    unfolding "2"(3) then_record_simps control_message_def accepts_def by blast
qed auto

section \<open>Schedule edits\<close>

lemma fold_min_le: "fold min xs (a :: int) \<le> a \<and> (\<forall>x\<in>set xs. fold min xs a \<le> x)"
proof (induction xs arbitrary: a)
  case (Cons x xs)
  from Cons [of "min x a"] show ?case by auto
qed simp

lemma next_id_below: "p \<in> set plans \<Longrightarrow> plan_id p = Some i \<Longrightarrow> next_local_plan_id plans < i"
  and next_id_negative: "next_local_plan_id plans < 0"
proof -
  let ?neg = "filter (\<lambda>i. i < 0) (map the (filter (\<lambda>x. x \<noteq> None) (map plan_id plans)))"
  have low: "(case ?neg of [] \<Rightarrow> 0 | n # ns \<Rightarrow> fold min ns n) \<le> 0 \<and>
      (\<forall>i\<in>set ?neg. (case ?neg of [] \<Rightarrow> 0 | n # ns \<Rightarrow> fold min ns n) \<le> i)"
  proof (cases ?neg)
    case (Cons n ns)
    have "n < 0" using Cons by (metis (mono_tags, lifting) filter_eq_ConsD)
    with fold_min_le [of ns n] show ?thesis unfolding Cons by auto
  qed simp
  then show "next_local_plan_id plans < 0" by (simp add: next_local_plan_id_def)
  show "next_local_plan_id plans < i" if "p \<in> set plans" "plan_id p = Some i"
  proof (cases "i < 0")
    case True
    with that have "i \<in> set ?neg" by (force simp: image_iff)
    with low have "(case ?neg of [] \<Rightarrow> 0 | n # ns \<Rightarrow> fold min ns n) \<le> i" by blast
    then show ?thesis unfolding next_local_plan_id_def Let_def by linarith
  next
    case False
    with low show ?thesis by (simp add: next_local_plan_id_def)
  qed
qed

lemma validate_plan_id: "validate_plan plan = Inr plan' \<Longrightarrow> plan_id plan' = plan_id plan"
  by (auto simp: validate_plan_def unavailable_def bind_res_Inr plan_id_def split: if_splits option.splits)

lemma create_schedule_stores:
  assumes "schedule_plans (dc_shadow c) d = Inr plans" "create_schedule env call d requested c = (Inr resp, c')"
  shows "\<exists>plan. plan_id plan = Some (next_local_plan_id plans) \<and>
    dc_shadow c' = replace_local_schedule_plans (call_time call) d (plans @ [plan]) (dc_shadow c)"
proof -
  let ?new = "dict_set ''syncTime'' (JInt (sync_time_ms (call_time call)))
    (dict_set ''planId'' (JInt (next_local_plan_id plans)) requested)"
  from assms obtain plan where v: "validate_plan ?new = Inr plan"
    and s: "submit_schedule env call d (plans @ [plan]) ''schedule:create'' c = (Inr resp, c')"
    by (auto simp: create_schedule_def bind_res_Inr split: sum.splits)
  let ?sub = "submit env call d cmd_FEEDING_PLAN_SERVICE ''schedule:create'' [(''plans'', JList (map JObj (plans @ [plan])))]
    (schedule_payload call (plans @ [plan])) c"
  have t: "then_record (replace_local_schedule_plans (call_time call) d (plans @ [plan])) ?sub = (Inr resp, c')"
    using s by (simp add: submit_schedule_def)
  have "\<not> isl (fst ?sub)" using then_record_simps(1) [of _ ?sub] t by (metis fst_conv sum.disc(2))
  then have "dc_shadow c' = replace_local_schedule_plans (call_time call) d (plans @ [plan]) (dc_shadow (snd ?sub))"
    using then_record_simps(3) [of "replace_local_schedule_plans (call_time call) d (plans @ [plan])" ?sub]
    unfolding t snd_conv by simp
  then have "dc_shadow c' = replace_local_schedule_plans (call_time call) d (plans @ [plan]) (dc_shadow c)"
    unfolding submit_shadow .
  moreover have "plan_id plan = Some (next_local_plan_id plans)"
    using validate_plan_id [OF v] by (simp add: plan_id_def)
  ultimately show ?thesis by blast
qed

lemma submit_result:
  "\<not> isl (fst (submit env call d cmd cn vals payload c)) \<longleftrightarrow>
    accepts env d c \<and> call_publish_ok call \<and> deciding_ack d cmd call = Some (Some (JInt 0))"
  by (cases rule: submit_cases [where env = env and call = call and d = d and cmd = cmd and cn = cn and vals = vals
        and payload = payload and c = c]) auto

lemma submit_published_exact:
  "dc_published (snd (submit env call d cmd cn vals payload c)) = dc_published c @
    (if accepts env d c then handed_over call d payload else [])"
  by (cases rule: submit_cases [where env = env and call = call and d = d and cmd = cmd and cn = cn and vals = vals
        and payload = payload and c = c]) auto

section \<open>An example feeder\<close>

definition example_env :: ControlEnv where
  "example_env = \<lparr>env_product = \<lambda>d. if d = ''A'' then Some ''PLAF203'' else None, env_online = \<lambda>d. d = ''A''\<rparr>"

definition example_call :: "string \<Rightarrow> ControlCall" where
  "example_call cmd = \<lparr>call_time = 5, call_clock = 1, call_msg_id = ''m'', call_publish = SentConfirmed, call_early = [],
     call_observed = [(''A'', ack_topic ''A'', json_dumps (JObj [(''msgId'', JStr ''m''), (''cmd'', JStr cmd), (''code'', JInt 0)]))],
     call_wall_offset = \<lambda>_. 3600\<rparr>"

lemma example_ack: "is_ascii cmd \<Longrightarrow> deciding_ack ''A'' cmd (example_call cmd) = Some (Some (JInt 0))"
proof -
  assume "is_ascii cmd"
  then have "json_loads (json_dumps (JObj [(''msgId'', JStr ''m''), (''cmd'', JStr cmd), (''code'', JInt 0)])) =
      Some (JObj [(''msgId'', JStr ''m''), (''cmd'', JStr cmd), (''code'', JInt 0)])"
    by (intro json_loads_dumps) simp
  then show ?thesis by (simp add: deciding_ack_def example_call_def ack_of_def str_field_def)
qed

lemma example_submit: "is_ascii cmd \<Longrightarrow>
    \<not> isl (fst (submit example_env (example_call cmd) ''A'' cmd cn vals payload (init_controller shadow)))"
  using example_ack [of cmd]
  by (simp add: submit_result accepts_def example_env_def call_publish_ok_def init_controller_def SUPPORTED_PRODUCT_ID_def)
    (simp add: example_call_def)

definition example_plan :: json_dict where
  "example_plan = [(''executionTime'', JStr ''7:30''), (''grainNum'', JInt 3), (''audioTimes'', JInt 1),
     (''enableAudio'', JBool True), (''repeatDay'', JList [JInt 1, JInt 2])]"

lemma example_validates: "\<exists>plan. validate_plan (dict_set ''syncTime'' (JInt i) (dict_set ''planId'' (JInt j) example_plan)) = Inr plan"
proof -
  have "parse_time ''7:30'' = Inr (7, 30)" by code_simp
  then show ?thesis
    by (simp add: validate_plan_def example_plan_def plan_id_def str_field_def is_int_in_def valid_days_def
        MIN_GRAIN_NUM_def MAX_GRAIN_NUM_def MIN_AUDIO_TIMES_def MAX_AUDIO_TIMES_def)
qed

lemma example_no_plans: "schedule_plans open_shadow d = Inr []"
  by (simp add: schedule_plans_def get_schedule_plans_def get_feeding_plans_def open_shadow_def)

lemma example_create:
  obtains resp c' where "create_schedule example_env (example_call cmd_FEEDING_PLAN_SERVICE) ''A'' example_plan
    (init_controller open_shadow) = (Inr resp, c')"
proof -
  let ?call = "example_call cmd_FEEDING_PLAN_SERVICE" and ?c = "init_controller open_shadow"
  have plans: "schedule_plans (dc_shadow ?c) ''A'' = Inr []" by (simp add: init_controller_def example_no_plans)
  obtain plan where plan: "validate_plan (dict_set ''syncTime'' (JInt (sync_time_ms (call_time ?call)))
      (dict_set ''planId'' (JInt (next_local_plan_id [])) example_plan)) = Inr plan" using example_validates by blast
  have "create_schedule example_env ?call ''A'' example_plan ?c = submit_schedule example_env ?call ''A'' [plan] ''schedule:create'' ?c"
    using plan by (simp add: create_schedule_def plans reject_time_collision_def)
  moreover have "\<not> isl (fst (submit_schedule example_env ?call ''A'' [plan] ''schedule:create'' ?c))"
    by (simp add: submit_schedule_def example_submit)
  ultimately show thesis using that by (metis isl_def prod.collapse sum.collapse(2))
qed

section \<open>Properties\<close>

text \<open>
  C11: An interactive command succeeds exactly when the feeder is a bridged, supported and present one
  with no other transaction, the local broker confirmed the publication, and the deciding acknowledgement
  carries code 0. That is, among the messages the feeder posted for this message id and command, the last
  one observed before the caller starts to wait, or, if there was none, the first one observed before the
  timeout; later ones are ignored.
\<close>

theorem control_succeeds_iff_acknowledged:
  "\<not> isl (fst (submit env call d cmd cn vals payload c)) \<longleftrightarrow>
    env_product env d = Some SUPPORTED_PRODUCT_ID \<and> env_online env d \<and> d \<notin> set (dc_active_devices c) \<and>
    call_publish call = SentConfirmed \<and>
    (case last_ack d (call_msg_id call) cmd (call_early call) of
       Some code \<Rightarrow> code = Some (JInt 0)
     | None \<Rightarrow> first_ack d (call_msg_id call) cmd (call_observed call) = Some (Some (JInt 0)))"
  using submit_result [of env call d cmd cn vals payload c]
  by (simp add: accepts_def call_publish_ok_def deciding_ack_def split: option.split)

text \<open>
  C19: In every interleaving of control requests, acknowledgements and completions a device marked busy
  has exactly one transaction registered, and a device not marked busy has none.
\<close>

theorem one_transaction_per_device:
  assumes "control_reachable c"
  shows "if d \<in> set (dc_active_devices c) then \<exists>!m. dict_get (dc_pending c) (d, m) \<noteq> None
    else (\<forall>m. dict_get (dc_pending c) (d, m) = None)"
proof -
  have a: "d \<in> set (dc_active_devices c) \<longleftrightarrow> (\<exists>m. dict_get (dc_pending c) (d, m) \<noteq> None)"
    and u: "dict_get (dc_pending c) (d, m) \<noteq> None \<Longrightarrow> dict_get (dc_pending c) (d, m') \<noteq> None \<Longrightarrow> m = m'" for m m'
    using control_reachable_inv [OF assms] unfolding control_inv_def by blast+
  show ?thesis using a u by (cases "d \<in> set (dc_active_devices c)") (simp_all, metis)
qed

theorem one_transaction_per_device_witness:
  "\<exists>c :: DeviceControlController. ''A'' \<in> set (dc_active_devices c) \<and> (\<exists>!m. dict_get (dc_pending c) (''A'', m) \<noteq> None)"
proof -
  let ?c = "snd (submit_begin example_env (example_call ''X'') ''A'' ''X'' ''x'' [] [] (init_controller open_shadow))"
  have r: "control_reachable ?c" by (intro control_begin control_start)
  have a: "''A'' \<in> set (dc_active_devices ?c)"
    by (simp add: submit_begin_def example_env_def init_controller_def SUPPORTED_PRODUCT_ID_def Let_def)
  show ?thesis
    by (rule exI [of _ ?c], rule conjI [OF a]) (use one_transaction_per_device [OF r, of "''A''"] in \<open>simp only: a if_True\<close>)
qed

text \<open>
  C15: Whatever a caller asks for, a settings request publishes only to its own feeder, only while that
  feeder is present, and only fields of the requested group besides command, time and message id.
\<close>

theorem only_allowlisted_fields_published:
  assumes "dict_get GROUP_FIELDS g = Some allowed"
  shows "\<exists>sent. dc_published (snd (set_group env call d g updates minimal c)) = dc_published c @ sent \<and>
    (\<forall>m\<in>set sent. \<exists>body. m = (d, SUPPORTED_PRODUCT_ID, json_dumps_compact (JObj body)) \<and>
      keys body \<subseteq> {''cmd'', ''ts'', ''msgId''} \<union> set allowed \<and> env_online env d)"
  using set_group_published [OF assms] unfolding RESERVED_def .

theorem only_allowlisted_fields_published_witness:
  "\<exists>sent. dc_published (snd (set_group example_env (example_call cmd_ATTR_SET_SERVICE) ''A'' ''bowl'' [(''bowlMode'', JStr ''x'')] True
      (init_controller open_shadow))) = sent \<and>
    (\<forall>m\<in>set sent. \<exists>body. m = (''A'', SUPPORTED_PRODUCT_ID, json_dumps_compact (JObj body)) \<and>
      keys body \<subseteq> {''cmd'', ''ts'', ''msgId'', ''bowlMode''})"
proof -
  have "dict_get GROUP_FIELDS ''bowl'' = Some [''bowlMode'']" by (simp add: GROUP_FIELDS_def)
  from only_allowlisted_fields_published [OF this, of example_env "example_call cmd_ATTR_SET_SERVICE" "''A''"
      "[(''bowlMode'', JStr ''x'')]" True "init_controller open_shadow"]
  show ?thesis by (auto simp: init_controller_def insert_commute)
qed

text \<open>
  A failed settings, feeding or schedule operation leaves everything recorded about every device
  as it was.
\<close>

theorem failed_control_records_nothing:
  "(isl (fst (set_group env call d g updates minimal c)) \<longrightarrow> dc_shadow (snd (set_group env call d g updates minimal c)) = dc_shadow c) \<and>
   (isl (fst (create_schedule env call d requested c)) \<longrightarrow> dc_shadow (snd (create_schedule env call d requested c)) = dc_shadow c) \<and>
   (isl (fst (update_schedule env call d i requested c)) \<longrightarrow> dc_shadow (snd (update_schedule env call d i requested c)) = dc_shadow c) \<and>
   (isl (fst (delete_schedule env call d i c)) \<longrightarrow> dc_shadow (snd (delete_schedule env call d i c)) = dc_shadow c) \<and>
   dc_shadow (snd (dispense env call d n c)) = dc_shadow c"
  by (intro conjI impI group_control.failure_keeps_shadow create_control.failure_keeps_shadow
      update_control.failure_keeps_shadow delete_control.failure_keeps_shadow)
    (simp_all add: dispense_contract)

theorem failed_control_records_nothing_witness:
  "dc_shadow (snd (delete_schedule example_env (example_call cmd_FEEDING_PLAN_SERVICE) ''A'' 7 (init_controller open_shadow))) = open_shadow"
proof -
  let ?c = "init_controller open_shadow"
  have "schedule_plans (dc_shadow ?c) ''A'' = Inr []" by (simp add: init_controller_def example_no_plans)
  then have "isl (fst (delete_schedule example_env (example_call cmd_FEEDING_PLAN_SERVICE) ''A'' 7 ?c))"
    by (simp add: delete_schedule_def all_have_id_def unavailable_def)
  with failed_control_records_nothing [of example_env "example_call cmd_FEEDING_PLAN_SERVICE" "''A''" _ _ _ ?c _ 7]
  show ?thesis by (simp add: init_controller_def)
qed

text \<open>
  A created schedule entry gets a negative id below every id in use and is stored as local; the
  entries known before remain stored, and other devices' entries are untouched.
\<close>

theorem created_plan_is_local_and_fresh:
  assumes "schedule_inv (dc_shadow c)" "schedule_plans (dc_shadow c) d = Inr plans"
    "create_schedule env call d requested c = (Inr resp, c')"
  shows "\<exists>i js. i < 0 \<and> (\<forall>p\<in>set plans. plan_id p \<noteq> Some i) \<and> plan_at (dc_shadow c') d i = Some (js, ''local'', call_time call) \<and>
    (\<forall>p\<in>set plans. \<forall>j. plan_id p = Some j \<longrightarrow> j \<noteq> 0 \<longrightarrow> plan_at (dc_shadow c') d j \<noteq> None) \<and>
    (\<forall>d' j. d' \<noteq> d \<longrightarrow> plan_at (dc_shadow c') d' j = plan_at (dc_shadow c) d' j)"
proof -
  obtain plan where p: "plan_id plan = Some (next_local_plan_id plans)"
    "dc_shadow c' = replace_local_schedule_plans (call_time call) d (plans @ [plan]) (dc_shadow c)"
    using create_schedule_stores [OF assms(2,3)] by blast
  note stored = local_plans_at [of "dc_shadow c" "call_time call" d "plans @ [plan]", folded p(2)]
  have wf: "dict_wf (sh_schedule_plans (dc_shadow c))" using assms(1) by (simp add: schedule_inv_def)
  have neg: "next_local_plan_id plans < 0" by (rule next_id_negative)
  have fresh: "\<forall>q\<in>set plans. plan_id q \<noteq> Some (next_local_plan_id plans)" using next_id_below by fastforce
  have "Some (next_local_plan_id plans) \<in> plan_id ` set (plans @ [plan])" using p(1) by (auto simp: image_iff)
  then have new: "\<exists>js. plan_at (dc_shadow c') d (next_local_plan_id plans) = Some (js, ''local'', call_time call)"
    using neg by (simp add: stored [OF wf])
  have old: "plan_at (dc_shadow c') d j \<noteq> None" if "q \<in> set plans" "plan_id q = Some j" "j \<noteq> 0" for q j
  proof -
    have "Some j \<in> plan_id ` set (plans @ [plan])" using that by (metis Un_iff image_eqI set_append)
    with that(3) show ?thesis by (simp add: stored [OF wf])
  qed
  have "\<forall>d' j. d' \<noteq> d \<longrightarrow> plan_at (dc_shadow c') d' j = plan_at (dc_shadow c) d' j" by (simp add: stored [OF wf])
  with neg fresh new old show ?thesis by blast
qed

theorem created_plan_is_local_and_fresh_witness:
  "\<exists>(c' :: DeviceControlController) i js. i < 0 \<and> plan_at (dc_shadow c') ''A'' i = Some (js, ''local'', 5)"
proof -
  obtain resp c' where e: "create_schedule example_env (example_call cmd_FEEDING_PLAN_SERVICE) ''A'' example_plan
    (init_controller open_shadow) = (Inr resp, c')" by (rule example_create)
  have s: "schedule_inv (dc_shadow (init_controller open_shadow))" "schedule_plans (dc_shadow (init_controller open_shadow)) ''A'' = Inr []"
    by (simp_all add: init_controller_def schedule_inv_open example_no_plans)
  have t: "call_time (example_call cmd_FEEDING_PLAN_SERVICE) = 5" by (simp add: example_call_def)
  from created_plan_is_local_and_fresh [OF s e] obtain i js where
    "i < 0" "plan_at (dc_shadow c') ''A'' i = Some (js, ''local'', call_time (example_call cmd_FEEDING_PLAN_SERVICE))" by blast
  then show ?thesis unfolding t by blast
qed

text \<open>
  An identifier is reused: after the newest local entry is deleted, the next entry created gets the
  deleted entry's id, although \<open>_next_local_plan_id\<close> is documented to return ids without reuse.
\<close>

theorem deleted_local_id_is_reused:
  assumes "plan_id plan = Some (next_local_plan_id plans)"
  shows "next_local_plan_id (filter (\<lambda>p. \<not> has_id (next_local_plan_id plans) p) (plans @ [plan])) = next_local_plan_id plans"
proof -
  let ?n = "next_local_plan_id plans"
  have "has_id ?n plan" using assms next_id_negative [of plans]
    by (auto simp: plan_id_def has_id_def json_eq_int_def split: option.splits json.splits if_splits)
  moreover have "plan_id p = None" if "p \<in> set plans" "has_id ?n p" for p
    using that next_id_below [of p plans] next_id_negative [of plans]
    by (fastforce simp: plan_id_def has_id_def json_eq_int_def split: option.splits json.splits if_splits)
  ultimately have "List.map_filter plan_id (filter (\<lambda>p. \<not> has_id ?n p) (plans @ [plan])) = List.map_filter plan_id plans"
    by (auto simp: map_filter_def filter_filter_conj intro!: arg_cong [where f = "map (the \<circ> plan_id)"] filter_cong)
  moreover have "next_local_plan_id ps = (case filter (\<lambda>i. i < 0) (List.map_filter plan_id ps) of [] \<Rightarrow> 0 | n # ns \<Rightarrow> fold min ns n) - 1" for ps
    by (simp add: next_local_plan_id_def map_filter_def filter_map o_def)
  ultimately show ?thesis by simp
qed

end
