(* ===== verification/Log_Buffer.thy ===== *)
theory Log_Buffer
  imports Sanitizer
begin

text \<open>
  \<^verbatim>\<open>observability/log_buffer.py\<close>: the ring buffer of sanitized log records behind the dashboard's log view
  and its event stream. A record is its rendered text with the attributes a caller may have attached;
  \<open>wait_after\<close> is split at its wait, so the entries it returns are those of a later state. Formatting
  errors of the logging library are not modelled. The regular expressions are scanned as written: the
  first position from the left where the pattern matches.

  The lemmas show that sequence numbers are consecutive, that the buffer is the last part of the history,
  and that a reader that asks again after the last number it saw misses nothing the buffer still holds.
\<close>

definition DEFAULT_LOG_BUFFER_SIZE :: nat where [relay_defs]: "DEFAULT_LOG_BUFFER_SIZE = 5000"

record BufferedLogEntry =
  ble_sequence :: nat
  ble_timestamp :: seconds
  ble_level :: string
  ble_component :: string
  ble_message :: string
  ble_device_id :: "string option"
  ble_cmd :: "string option"

record log_record =
  lrec_created :: seconds
  lrec_level :: string
  lrec_name :: "string option"
  lrec_rendered :: string
  lrec_device_id :: "string option"
  lrec_cmd :: "string option"

record RingBufferLogHandler =
  rb_max_entries :: nat
  rb_entries :: "BufferedLogEntry list"
  rb_next_sequence :: nat

definition init_handler :: "nat \<Rightarrow> RingBufferLogHandler" where
  "init_handler max_entries = \<lparr>rb_max_entries = max_entries, rb_entries = [], rb_next_sequence = 1\<rparr>"

section \<open>Attributes of a line\<close>

definition COMPONENT_MAPPING :: "(string \<times> string) list" where
  "COMPONENT_MAPPING = [(''credential_capture_proxy'', ''proxy''), (''device_registry'', ''registry''), (''mqtt_bridge'', ''bridge''),
     (''delivery_pump'', ''replay''), (''message_queue'', ''queue''), (''state_shadow'', ''shadow''),
     (''local_responder'', ''responder''), (''sound_switch_control'', ''control''), (''web'', ''web'')]"

definition component_from_logger :: "string option \<Rightarrow> string" where
  "component_from_logger name = (case name of
     None \<Rightarrow> ''system''
   | Some n \<Rightarrow> (case find (\<lambda>(sfx, component). suffix sfx n) COMPONENT_MAPPING of
       None \<Rightarrow> ''system'' | Some (sfx, component) \<Rightarrow> component))"

text \<open>\<open>re.search\<close>: the first suffix of the text whose front matches.\<close>

fun search :: "(string \<Rightarrow> string option) \<Rightarrow> string \<Rightarrow> string option" where
  "search m [] = m []"
| "search m (c # s) = (case m (c # s) of Some x \<Rightarrow> Some x | None \<Rightarrow> search m s)"

text \<open>\<^verbatim>\<open>dl/[^/]+/([^/]+)/\<close>\<close>

definition match_device_topic :: "string \<Rightarrow> string option" where
  "match_device_topic s =
     (if prefix ''dl/'' s then
        (let r = drop 3 s; product = takeWhile (\<lambda>c. c \<noteq> CHR ''/'') r; r1 = drop (length product) r;
             device = takeWhile (\<lambda>c. c \<noteq> CHR ''/'') (tl r1); r2 = drop (length device) (tl r1)
         in if product \<noteq> [] \<and> r1 \<noteq> [] \<and> device \<noteq> [] \<and> r2 \<noteq> [] then Some device else None)
      else None)"

text \<open>A key followed by one or more characters of a class, as in \<^verbatim>\<open>client_id=([A-Za-z0-9_-]+)\<close>.\<close>

definition match_keyed :: "string \<Rightarrow> (char \<Rightarrow> bool) \<Rightarrow> string \<Rightarrow> string option" where
  "match_keyed key P s =
     (if prefix key s \<and> takeWhile P (drop (length key) s) \<noteq> [] then Some (takeWhile P (drop (length key) s)) else None)"

definition device_id_from_record :: "log_record \<Rightarrow> string option" where
  "device_id_from_record r = (case lrec_device_id r of
     Some d \<Rightarrow> Some d
   | None \<Rightarrow>
       (case search match_device_topic (lrec_rendered r) of
         Some d \<Rightarrow> Some d
       | None \<Rightarrow>
           (case search (match_keyed ''device_id='' (\<lambda>c. is_word_char c \<or> c = CHR ''.'' \<or> c = CHR ''-'')) (lrec_rendered r) of
             Some d \<Rightarrow> Some d
           | None \<Rightarrow> search (match_keyed ''client_id='' (\<lambda>c. is_word_char c \<or> c = CHR ''-'')) (lrec_rendered r))))"

text \<open>\<^verbatim>\<open>\bcmd[= ]([A-Z][A-Z0-9_]+)\<close>, with the character before the position for the boundary.\<close>

definition is_upper :: "char \<Rightarrow> bool" where
  "is_upper c \<longleftrightarrow> CHR ''A'' \<le> c \<and> c \<le> CHR ''Z''"

definition match_command :: "string \<Rightarrow> string option" where
  "match_command s =
     (if prefix ''cmd'' s \<and> length s > 4 \<and> s ! 3 \<in> {CHR ''='', CHR '' ''} \<and> is_upper (s ! 4) then
        (let more = takeWhile (\<lambda>c. is_upper c \<or> is_digit c \<or> c = CHR ''_'') (drop 5 s)
         in if more \<noteq> [] then Some (s ! 4 # more) else None)
      else None)"

fun search_command :: "char option \<Rightarrow> string \<Rightarrow> string option" where
  "search_command prev [] = None"
| "search_command prev (c # s) =
     (case (if (case prev of None \<Rightarrow> True | Some b \<Rightarrow> \<not> is_word_char b) then match_command (c # s) else None) of
       Some x \<Rightarrow> Some x
     | None \<Rightarrow> search_command (Some c) s)"

definition command_from_record :: "log_record \<Rightarrow> string option" where
  "command_from_record r = (case lrec_cmd r of Some c \<Rightarrow> Some c | None \<Rightarrow> search_command None (lrec_rendered r))"

section \<open>The buffer\<close>

definition emit_record :: "log_record \<Rightarrow> RingBufferLogHandler \<Rightarrow> RingBufferLogHandler" where
  "emit_record r h =
     (let entry = \<lparr>ble_sequence = rb_next_sequence h, ble_timestamp = lrec_created r, ble_level = lrec_level r,
            ble_component = component_from_logger (lrec_name r), ble_message = sanitize_text (lrec_rendered r) [],
            ble_device_id = device_id_from_record r, ble_cmd = command_from_record r\<rparr>
      in h\<lparr>rb_next_sequence := rb_next_sequence h + 1, rb_entries := deque_append (rb_max_entries h) entry (rb_entries h)\<rparr>)"

definition log_snapshot :: "int \<Rightarrow> RingBufferLogHandler \<Rightarrow> BufferedLogEntry list" where
  "log_snapshot limit h =
     (let safe_limit = nat (max 1 (min limit (int DEFAULT_LOG_BUFFER_SIZE)))
      in drop (length (rb_entries h) - safe_limit) (rb_entries h))"

definition must_wait :: "nat \<Rightarrow> RingBufferLogHandler \<Rightarrow> bool" where
  "must_wait sequence h \<longleftrightarrow> \<not> (rb_entries h \<noteq> [] \<and> ble_sequence (last (rb_entries h)) > sequence)"

text \<open>The entries returned once the wait, if there was one, is over.\<close>

definition entries_after :: "nat \<Rightarrow> RingBufferLogHandler \<Rightarrow> BufferedLogEntry list" where
  "entries_after sequence h = filter (\<lambda>e. ble_sequence e > sequence) (rb_entries h)"

section \<open>Histories\<close>

definition logged :: "nat \<Rightarrow> log_record list \<Rightarrow> RingBufferLogHandler" where
  "logged n rs = fold emit_record rs (init_handler n)"

lemma deque_append_drop: "deque_append n x (drop (k - n) xs) = drop (Suc k - n) (xs @ [x])" if "k = length xs"
  using that by (cases "k < n") (auto simp: deque_append_def Suc_diff_le)

text \<open>The buffer holds the last part of a history, numbered from one.\<close>

lemma logged_entries:
  "rb_next_sequence (logged n rs) = Suc (length rs) \<and> rb_max_entries (logged n rs) = n \<and>
   map ble_sequence (rb_entries (logged n rs)) = drop (length rs - n) [1..<Suc (length rs)]"
proof (induction rs rule: rev_induct)
  case Nil
  then show ?case by (simp add: logged_def init_handler_def)
next
  case (snoc r rs)
  let ?h = "logged n rs"
  have e: "logged n (rs @ [r]) = emit_record r ?h" by (simp add: logged_def)
  have m: "map f (deque_append k x xs) = deque_append k (f x) (map f xs)" for f :: "BufferedLogEntry \<Rightarrow> nat" and k x xs
    unfolding deque_append_def using drop_map [of "Suc (length xs) - k" f "xs @ [x]"] by simp
  from snoc have "map ble_sequence (rb_entries (emit_record r ?h)) =
      deque_append n (Suc (length rs)) (drop (length rs - n) [1..<Suc (length rs)])"
    by (simp add: emit_record_def Let_def m)
  also have "\<dots> = drop (Suc (length rs) - n) [1..<Suc (Suc (length rs))]"
    using deque_append_drop [of "length rs" "[1..<Suc (length rs)]" n "Suc (length rs)"] upt_Suc [of 1 "Suc (length rs)"]
    by (simp del: upt_Suc)
  finally show ?case using snoc by (simp add: e) (simp add: emit_record_def Let_def)
qed

text \<open>
  A reader that has seen everything up to a number gets all later lines, unless more than the capacity
  were logged in between.
\<close>

lemma reader_misses_nothing:
  assumes "seen \<le> length rs" "length rs - seen \<le> n"
  shows "map ble_sequence (entries_after seen (logged n rs)) = [Suc seen..<Suc (length rs)]"
proof -
  have "map ble_sequence (entries_after seen (logged n rs)) = filter (\<lambda>i. i > seen) (drop (length rs - n) [1..<Suc (length rs)])"
    using logged_entries [of n rs] by (metis (no_types, lifting) entries_after_def filter_cong filter_map o_def)
  also have "drop (length rs - n) [1..<Suc (length rs)] = [Suc (length rs - n)..<Suc seen] @ [Suc seen..<Suc (length rs)]"
    using assms upt_add_eq_append [of "Suc (length rs - n)" "Suc seen" "length rs - seen"] by (simp del: upt_Suc add: drop_upt)
  also have "filter (\<lambda>i. i > seen) \<dots> = [Suc seen..<Suc (length rs)]"
    by (simp add: filter_id_conv)
  finally show ?thesis .
qed

section \<open>Installing the handlers\<close>

text \<open>
  \<^verbatim>\<open>logging_config.py\<close>: the root logger with its level and its handlers. \<open>logging.getLevelName\<close> gives a
  number for the names the library defines and a text for all others.
\<close>

datatype log_handler = ConsoleHandler | BufferHandler RingBufferLogHandler | OtherHandler

record root_logger =
  lg_level :: nat
  lg_handlers :: "log_handler list"

definition LEVEL_NAMES :: "(string, nat) dict" where
  "LEVEL_NAMES = [(''CRITICAL'', 50), (''FATAL'', 50), (''ERROR'', 40), (''WARN'', 30), (''WARNING'', 30), (''INFO'', 20), (''DEBUG'', 10), (''NOTSET'', 0)]"

definition upper_name :: "string \<Rightarrow> string" where
  "upper_name s = map (\<lambda>c. if CHR ''a'' \<le> c \<and> c \<le> CHR ''z'' then char_of (of_char c - 32 :: nat) else c) s"

definition configure_logging :: "string \<Rightarrow> root_logger \<Rightarrow> root_logger \<times> RingBufferLogHandler" where
  "configure_logging level_name r =
     (let level = (case dict_get LEVEL_NAMES (upper_name level_name) of Some n \<Rightarrow> n | None \<Rightarrow> 20);
          console = (if lg_handlers r = [] then [ConsoleHandler] else []);
          log_buffer = init_handler DEFAULT_LOG_BUFFER_SIZE
      in (\<lparr>lg_level = level, lg_handlers = lg_handlers r @ console @ [BufferHandler log_buffer]\<rparr>, log_buffer))"

text \<open>Any level name gives one of the library's levels, and one buffer is added after the handlers that were there.\<close>

lemma configure_logging_installs:
  "lg_level (fst (configure_logging name r)) \<in> {0, 10, 20, 30, 40, 50}"
  "\<exists>hs. lg_handlers (fst (configure_logging name r)) = lg_handlers r @ hs @ [BufferHandler (snd (configure_logging name r))] \<and> set hs \<subseteq> {ConsoleHandler}"
proof -
  have levels: "snd ` set LEVEL_NAMES \<subseteq> {0, 10, 20, 30, 40, 50}" by (simp add: LEVEL_NAMES_def)
  show "lg_level (fst (configure_logging name r)) \<in> {0, 10, 20, 30, 40, 50}"
  proof (cases "dict_get LEVEL_NAMES (upper_name name)")
    case (Some n)
    from map_of_SomeD [OF this] have "n \<in> snd ` set LEVEL_NAMES" by force
    from subsetD [OF levels this] Some show ?thesis by (simp add: configure_logging_def Let_def)
  qed (simp add: configure_logging_def Let_def)
  show "\<exists>hs. lg_handlers (fst (configure_logging name r)) = lg_handlers r @ hs @ [BufferHandler (snd (configure_logging name r))] \<and> set hs \<subseteq> {ConsoleHandler}"
    by (auto simp: configure_logging_def Let_def)
qed

end
