(* ===== verification/Delivery_Pump.thy ===== *)
theory Delivery_Pump
  imports Message_Queue "HOL-Library.Multiset"
begin

text \<open>
  \<^verbatim>\<open>delivery_pump.py\<close>: the scheduler thread that drains one direction of the queue for all bridged
  devices. Its state is the record \<open>DeliveryPump\<close>, the shared queue included; the destination client,
  the clock, the random source, the stop event and the insertions other threads make while the pump
  waits for a publish confirmation are the environment \<open>pump_env\<close>, read at successive ticks. The field
  \<open>dp_log\<close> records the publishes, drops and telemetry increments in order.

  The lemmas show that a scheduling pass never raises, that a row leaves the queue only when its publish
  was confirmed or its age limit had passed, that stale rows are never published, that confirmed replay
  publishes respect the global rate over a whole run, that devices do not touch each other's rows, and
  that every device is first in turn.
\<close>

section \<open>Environment and state\<close>

text \<open>What Paho answers to one publish: refused, \<open>wait_for_publish\<close> raised, timed out, or confirmed.\<close>

datatype publish_outcome = Rejected | WaitFailed | Unconfirmed | Confirmed

record pump_env =
  env_clock :: "nat \<Rightarrow> seconds"
  env_random :: "nat \<Rightarrow> seconds"
  env_publish :: "nat \<Rightarrow> publish_outcome"
  env_stop :: "nat \<Rightarrow> bool"
  env_arrivals :: "nat \<Rightarrow> queue_op list"

datatype pump_event =
  Publish device_id QueuedMessage publish_outcome seconds
| Expired device_id QueuedMessage seconds
| Increment device_id string

definition IDLE_POLL_INTERVAL_SECONDS :: seconds where [relay_defs]: "IDLE_POLL_INTERVAL_SECONDS = 1"
definition LEGACY_DEVICE_BATCH_SIZE :: nat where [relay_defs]: "LEGACY_DEVICE_BATCH_SIZE = 50"
definition MIN_SCHEDULER_WAIT_SECONDS :: seconds where [relay_defs]: "MIN_SCHEDULER_WAIT_SECONDS = 1 / 100"

record PumpTarget =
  pt_device_id :: device_id
  pt_connected :: bool
  pt_replay_ready :: bool

record ReplayProgress =
  rp_scheduled_at :: seconds
  rp_ready_at :: seconds
  rp_sent :: nat
  rp_expired :: nat
  rp_started :: bool

record DeliveryPump =
  dp_direction :: string
  dp_queue :: MessageQueue
  dp_is_cloud_to_device :: bool
  dp_replay_rate_per_device :: "seconds option"
  dp_replay_rate_global :: "seconds option"
  dp_replay_start_delay_seconds :: seconds
  dp_replay_jitter :: seconds
  dp_next_device_send_at :: "(device_id, seconds) dict"
  dp_next_global_send_at :: seconds
  dp_replay_progress :: "(device_id, ReplayProgress) dict"
  dp_round_robin_offset :: nat
  dp_offline_devices :: "device_id list"
  dp_tick :: nat
  dp_log :: "pump_event list"

datatype pump_error = ValueError string

section \<open>Construction\<close>

definition init_pump :: "string \<Rightarrow> MessageQueue \<Rightarrow> bool \<Rightarrow> seconds option \<Rightarrow> seconds option
    \<Rightarrow> seconds \<Rightarrow> seconds \<Rightarrow> pump_error + DeliveryPump" where
  "init_pump direction queue is_cloud_to_device rate_device rate_global start_delay jitter =
     (if (rate_device = None) \<noteq> (rate_global = None) then
        Inl (ValueError ''Replay per-device and global rates must be configured together'')
      else if (case rate_device of None \<Rightarrow> False | Some r \<Rightarrow> r \<le> 0) then
        Inl (ValueError ''Replay per-device rate must be greater than zero'')
      else if (case rate_global of None \<Rightarrow> False | Some r \<Rightarrow> r \<le> 0) then
        Inl (ValueError ''Replay global rate must be greater than zero'')
      else if start_delay < 0 then
        Inl (ValueError ''Replay start delay must not be negative'')
      else if \<not> (0 \<le> jitter \<and> jitter \<le> 1) then
        Inl (ValueError ''Replay jitter must be between zero and one'')
      else Inr \<lparr>dp_direction = direction, dp_queue = queue, dp_is_cloud_to_device = is_cloud_to_device,
        dp_replay_rate_per_device = rate_device, dp_replay_rate_global = rate_global,
        dp_replay_start_delay_seconds = start_delay, dp_replay_jitter = jitter,
        dp_next_device_send_at = [], dp_next_global_send_at = 0, dp_replay_progress = [],
        dp_round_robin_offset = 0, dp_offline_devices = [], dp_tick = 0, dp_log = []\<rparr>)"

definition controlled_replay_enabled :: "DeliveryPump \<Rightarrow> bool" where
  "controlled_replay_enabled p \<longleftrightarrow> \<not> dp_is_cloud_to_device p \<and> dp_replay_rate_per_device p \<noteq> None"

section \<open>Operations\<close>

definition emit :: "pump_event \<Rightarrow> DeliveryPump \<Rightarrow> DeliveryPump" where
  "emit e p = p\<lparr>dp_log := dp_log p @ [e]\<rparr>"

definition increment :: "PumpTarget \<Rightarrow> string \<Rightarrow> DeliveryPump \<Rightarrow> DeliveryPump" where
  "increment target name p = emit (Increment (pt_device_id target) name) p"

definition clock :: "pump_env \<Rightarrow> DeliveryPump \<Rightarrow> seconds \<times> DeliveryPump" where
  "clock env p = (env_clock env (dp_tick p), p\<lparr>dp_tick := Suc (dp_tick p)\<rparr>)"

definition stop_event_is_set :: "pump_env \<Rightarrow> DeliveryPump \<Rightarrow> bool \<times> DeliveryPump" where
  "stop_event_is_set env p = (env_stop env (dp_tick p), p\<lparr>dp_tick := Suc (dp_tick p)\<rparr>)"

definition pause_replay :: "device_id \<Rightarrow> DeliveryPump \<Rightarrow> DeliveryPump" where
  "pause_replay device_id p =
     p\<lparr>dp_replay_progress := dict_pop device_id (dp_replay_progress p),
       dp_next_device_send_at := dict_pop device_id (dp_next_device_send_at p)\<rparr>"

text \<open>A random number is drawn only when there is jitter.\<close>

definition jittered_interval :: "pump_env \<Rightarrow> seconds \<Rightarrow> DeliveryPump \<Rightarrow> seconds \<times> DeliveryPump" where
  "jittered_interval env rate_per_second p =
     (let base_interval = 1 / rate_per_second
      in if dp_replay_jitter p = 0 then (base_interval, p)
         else (base_interval * (1 + env_random env (dp_tick p) * dp_replay_jitter p),
               p\<lparr>dp_tick := Suc (dp_tick p)\<rparr>))"

definition complete_replay_if_needed :: "pump_env \<Rightarrow> PumpTarget \<Rightarrow> DeliveryPump \<Rightarrow> DeliveryPump" where
  "complete_replay_if_needed env target p =
     (let device_id = pt_device_id target
      in if dict_get (dp_replay_progress p) device_id = None \<or>
            backlog_count (dp_queue p) device_id (dp_direction p) \<noteq> 0 then p
         else
           let (now, p1) = clock env p
           in p1\<lparr>dp_replay_progress := dict_pop device_id (dp_replay_progress p1),
                 dp_next_device_send_at := dict_pop device_id (dp_next_device_send_at p1)\<rparr>)"

definition can_send_replay :: "pump_env \<Rightarrow> PumpTarget \<Rightarrow> DeliveryPump \<Rightarrow> bool \<times> DeliveryPump" where
  "can_send_replay env target p =
     (if \<not> pt_replay_ready target then (False, p)
      else
        let device_id = pt_device_id target;
            (now, p1) = clock env p;
            (progress, p2) =
              (case dict_get (dp_replay_progress p1) device_id of
                Some progress \<Rightarrow> (progress, p1)
              | None \<Rightarrow>
                  let progress = \<lparr>rp_scheduled_at = now, rp_ready_at = now + dp_replay_start_delay_seconds p1,
                        rp_sent = 0, rp_expired = 0, rp_started = False\<rparr>
                  in (progress, p1\<lparr>dp_replay_progress := dict_set device_id progress (dp_replay_progress p1)\<rparr>))
        in if now < rp_ready_at progress then (False, p2)
           else (now \<ge> (case dict_get (dp_next_device_send_at p2) device_id of None \<Rightarrow> 0 | Some t \<Rightarrow> t) \<and>
                 now \<ge> dp_next_global_send_at p2, p2))"

text \<open>\<open>None\<close> is a failed assertion or a missing progress entry (\<open>KeyError\<close>).\<close>

definition record_replay_sent :: "pump_env \<Rightarrow> PumpTarget \<Rightarrow> DeliveryPump \<Rightarrow> DeliveryPump option" where
  "record_replay_sent env target p =
     (case (dp_replay_rate_per_device p, dp_replay_rate_global p) of
       (Some rate_device, Some rate_global) \<Rightarrow>
         let device_id = pt_device_id target; (now, p1) = clock env p
         in (case dict_get (dp_replay_progress p1) device_id of
              None \<Rightarrow> None
            | Some progress \<Rightarrow>
                let progress' = progress\<lparr>rp_started := True, rp_sent := rp_sent progress + 1\<rparr>;
                    p2 = p1\<lparr>dp_replay_progress := dict_set device_id progress' (dp_replay_progress p1)\<rparr>;
                    p3 = increment target ''replay_sent'' p2;
                    (interval_device, p4) = jittered_interval env rate_device p3;
                    p5 = p4\<lparr>dp_next_device_send_at :=
                          dict_set device_id (now + interval_device) (dp_next_device_send_at p4)\<rparr>;
                    (interval_global, p6) = jittered_interval env rate_global p5;
                    p7 = p6\<lparr>dp_next_global_send_at := now + interval_global\<rparr>
                in Some (complete_replay_if_needed env target p7))
     | _ \<Rightarrow> None)"

definition record_expired_replay :: "pump_env \<Rightarrow> PumpTarget \<Rightarrow> DeliveryPump \<Rightarrow> DeliveryPump" where
  "record_expired_replay env target p =
     (let device_id = pt_device_id target;
          p1 = (case dict_get (dp_replay_progress p) device_id of
                 None \<Rightarrow> p
               | Some progress \<Rightarrow>
                   p\<lparr>dp_replay_progress :=
                      dict_set device_id (progress\<lparr>rp_expired := rp_expired progress + 1\<rparr>) (dp_replay_progress p)\<rparr>)
      in complete_replay_if_needed env target (increment target ''replay_dropped_expired'' p1))"

definition next_wait_seconds :: "pump_env \<Rightarrow> DeliveryPump \<Rightarrow> seconds \<times> DeliveryPump" where
  "next_wait_seconds env p =
     (if \<not> controlled_replay_enabled p then (IDLE_POLL_INTERVAL_SECONDS, p)
      else
        let (now, p1) = clock env p;
            deadlines = (if dp_next_global_send_at p1 > now then [dp_next_global_send_at p1] else []) @
              filter (\<lambda>deadline. deadline > now) (map snd (dp_next_device_send_at p1)) @
              map (rp_ready_at \<circ> snd) (dp_replay_progress p1);
            future = map (\<lambda>deadline. deadline - now) (filter (\<lambda>deadline. deadline > now) deadlines)
        in if future = [] then (IDLE_POLL_INTERVAL_SECONDS, p1)
           else (max MIN_SCHEDULER_WAIT_SECONDS (min IDLE_POLL_INTERVAL_SECONDS (Min (set future))), p1))"

definition is_expired :: "pump_env \<Rightarrow> QueuedMessage \<Rightarrow> DeliveryPump \<Rightarrow> bool \<times> DeliveryPump" where
  "is_expired env message p =
     (case qm_max_age_seconds message of
       None \<Rightarrow> (False, p)
     | Some max_age \<Rightarrow>
         let (now, p1) = clock env p; age_seconds = now - qm_created_at message
         in (\<not> age_seconds \<le> max_age, p1))"

text \<open>
  The publish and the wait for its confirmation. While the pump waits, other threads may insert into
  the queue: these operations are \<open>env_arrivals\<close>.
\<close>

definition publish_confirmed :: "pump_env \<Rightarrow> PumpTarget \<Rightarrow> QueuedMessage \<Rightarrow> DeliveryPump \<Rightarrow> bool \<times> DeliveryPump" where
  "publish_confirmed env target message p =
     (let outcome = env_publish env (dp_tick p);
          p1 = emit (Publish (pt_device_id target) message outcome (env_clock env (dp_tick p)))
            (p\<lparr>dp_queue := queue_run (env_arrivals env (dp_tick p)) (dp_queue p), dp_tick := Suc (dp_tick p)\<rparr>)
      in (outcome = Confirmed, p1))"

text \<open>
  One round of the loop of \<open>_drain_device\<close>: \<open>Return\<close> leaves the loop with the current value of
  \<open>delivered\<close>, \<open>Continue\<close> goes on with \<open>delivered = True\<close>.
\<close>

datatype loop_signal = Return | Continue

definition drain_iteration :: "pump_env \<Rightarrow> PumpTarget \<Rightarrow> DeliveryPump \<Rightarrow> (loop_signal \<times> DeliveryPump) option" where
  "drain_iteration env target p =
     (let (stopped, p1) = stop_event_is_set env p
      in if stopped then Some (Return, p1)
         else (case peek_oldest (dp_queue p1) (pt_device_id target) (dp_direction p1) (controlled_replay_enabled p1) of
           None \<Rightarrow> Some (Return, complete_replay_if_needed env target p1)
         | Some message \<Rightarrow>
             let (expired, p2) = is_expired env message p1;
                 replay = (controlled_replay_enabled p2 \<and> \<not> qm_is_live message)
             in if expired then
                  let p3 = p2\<lparr>dp_queue := remove (qm_id message) (dp_queue p2)\<rparr>;
                      p4 = emit (Expired (pt_device_id target) message (env_clock env (dp_tick p1))) p3
                  in Some (Continue, if replay then record_expired_replay env target p4
                                     else increment target ''queue_expired'' p4)
                else
                  let (allowed, p3) = (if replay then can_send_replay env target p2 else (True, p2))
                  in if \<not> allowed then Some (Return, increment target ''replay_rate_limited'' p3)
                     else
                       let (confirmed, p4) = publish_confirmed env target message p3
                       in if \<not> confirmed then Some (Return, p4)
                          else
                            let p5 = p4\<lparr>dp_queue := remove (qm_id message) (dp_queue p4)\<rparr>;
                                p6 = increment target (''queue_delivered_'' @ dp_direction p5) p5
                            in if replay then map_option (Pair Continue) (record_replay_sent env target p6)
                               else Some (Continue, p6)))"

fun drain_loop :: "pump_env \<Rightarrow> PumpTarget \<Rightarrow> nat \<Rightarrow> bool \<Rightarrow> DeliveryPump \<Rightarrow> (bool \<times> DeliveryPump) option" where
  "drain_loop env target 0 delivered p = Some (delivered, p)"
| "drain_loop env target (Suc n) delivered p =
     (case drain_iteration env target p of
       None \<Rightarrow> None
     | Some (Return, p') \<Rightarrow> Some (delivered, p')
     | Some (Continue, p') \<Rightarrow> drain_loop env target n True p')"

definition drain_device :: "pump_env \<Rightarrow> PumpTarget \<Rightarrow> DeliveryPump \<Rightarrow> (bool \<times> DeliveryPump) option" where
  "drain_device env target p =
     (let device_id = pt_device_id target
      in if \<not> pt_connected target then
           let p1 = (if device_id \<in> set (dp_offline_devices p) then p
                     else p\<lparr>dp_queue := snd (demote_live_messages device_id (dp_direction p) (dp_queue p)),
                            dp_offline_devices := device_id # dp_offline_devices p\<rparr>)
           in Some (False, pause_replay device_id p1)
         else
           let p1 = p\<lparr>dp_offline_devices := removeAll device_id (dp_offline_devices p)\<rparr>;
               batch_size = (if controlled_replay_enabled p1 then 1 else LEGACY_DEVICE_BATCH_SIZE)
           in drain_loop env target batch_size False p1)"

definition rotated_targets :: "PumpTarget list \<Rightarrow> DeliveryPump \<Rightarrow> PumpTarget list \<times> DeliveryPump" where
  "rotated_targets targets p =
     (if targets = [] then ([], p)
      else
        let start = dp_round_robin_offset p mod length targets
        in (drop start targets @ take start targets,
            p\<lparr>dp_round_robin_offset := (dp_round_robin_offset p + 1) mod length targets\<rparr>))"

definition forget_unknown :: "device_id list \<Rightarrow> DeliveryPump \<Rightarrow> DeliveryPump" where
  "forget_unknown known_device_ids p =
     (let gone = filter (\<lambda>d. d \<notin> set known_device_ids) (map fst (dp_replay_progress p))
      in p\<lparr>dp_replay_progress := filter (\<lambda>e. fst e \<notin> set gone) (dp_replay_progress p),
           dp_next_device_send_at := filter (\<lambda>e. fst e \<notin> set gone) (dp_next_device_send_at p)\<rparr>)"

fun drain_targets :: "pump_env \<Rightarrow> PumpTarget list \<Rightarrow> bool \<Rightarrow> DeliveryPump \<Rightarrow> (bool \<times> DeliveryPump) option" where
  "drain_targets env [] delivered p = Some (delivered, p)"
| "drain_targets env (target # targets) delivered p =
     (let (stopped, p1) = stop_event_is_set env p
      in if stopped then Some (delivered, p1)
         else (case drain_device env target p1 of
           None \<Rightarrow> None
         | Some (d, p2) \<Rightarrow> drain_targets env targets (delivered \<or> d) p2))"

definition run_once :: "pump_env \<Rightarrow> PumpTarget list \<Rightarrow> DeliveryPump \<Rightarrow> (bool \<times> DeliveryPump) option" where
  "run_once env targets p =
     (let (ts, p1) = rotated_targets targets p
      in drain_targets env ts False (forget_unknown (map pt_device_id ts) p1))"

text \<open>
  The thread's loop: one pass per list of targets; after a pass without a delivery the wait is computed
  (the wait itself passes time, which the clock shows). Between passes other threads may use the queue.
\<close>

fun run_passes :: "pump_env \<Rightarrow> (queue_op list \<times> PumpTarget list) list \<Rightarrow> DeliveryPump \<Rightarrow> DeliveryPump option" where
  "run_passes env [] p = Some p"
| "run_passes env ((ops, targets) # passes) p =
     (let (stopped, p1) = stop_event_is_set env (p\<lparr>dp_queue := queue_run ops (dp_queue p)\<rparr>)
      in if stopped then Some p1
         else (case run_once env targets p1 of
           None \<Rightarrow> None
         | Some (delivered, p2) \<Rightarrow>
             run_passes env passes (if delivered then p2 else snd (next_wait_seconds env p2))))"

section \<open>What every operation keeps\<close>

definition pump_config :: "DeliveryPump \<Rightarrow> string \<times> bool \<times> seconds option \<times> seconds option \<times> seconds \<times> seconds" where
  "pump_config p = (dp_direction p, dp_is_cloud_to_device p, dp_replay_rate_per_device p,
     dp_replay_rate_global p, dp_replay_start_delay_seconds p, dp_replay_jitter p)"

text \<open>When backlog messages were published with confirmation, in a pump that controls their replay.\<close>

fun replay_time :: "pump_event \<Rightarrow> seconds option" where
  "replay_time (Publish _ m x t) = (if x = Confirmed \<and> \<not> qm_is_live m then Some t else None)"
| "replay_time _ = None"

definition replay_times :: "DeliveryPump \<Rightarrow> seconds list" where
  "replay_times p = (if controlled_replay_enabled p then List.map_filter replay_time (dp_log p) else [])"

text \<open>No backlog message was published: configuration and global budget are as before.\<close>

definition keeps_budget :: "DeliveryPump \<Rightarrow> DeliveryPump \<Rightarrow> bool" where
  "keeps_budget p p' \<longleftrightarrow> pump_config p' = pump_config p \<and> replay_times p' = replay_times p \<and>
     dp_next_global_send_at p' = dp_next_global_send_at p \<and> dp_tick p \<le> dp_tick p'"

lemma keeps_budget_refl [simp, intro]: "keeps_budget p p"
  by (simp add: keeps_budget_def)

lemma keeps_budget_trans [trans]: "keeps_budget p q \<Longrightarrow> keeps_budget q r \<Longrightarrow> keeps_budget p r"
  by (simp add: keeps_budget_def)

lemmas pump_ops = emit_def increment_def clock_def stop_event_is_set_def

lemma map_filter_append [simp]: "List.map_filter f (xs @ ys) = List.map_filter f xs @ List.map_filter f ys"
  by (induction xs) (simp_all add: List.map_filter_def)

lemma keeps_increment: "keeps_budget p (increment target name p)"
  by (simp add: keeps_budget_def pump_config_def replay_times_def controlled_replay_enabled_def pump_ops List.map_filter_def)

lemma keeps_clock: "keeps_budget p (snd (clock env p))"
  by (simp add: keeps_budget_def pump_config_def replay_times_def controlled_replay_enabled_def pump_ops)

lemma keeps_stop: "keeps_budget p (snd (stop_event_is_set env p))"
  by (simp add: keeps_budget_def pump_config_def replay_times_def controlled_replay_enabled_def pump_ops)

lemma keeps_complete: "keeps_budget p (complete_replay_if_needed env target p)"
  by (simp add: keeps_budget_def pump_config_def replay_times_def controlled_replay_enabled_def complete_replay_if_needed_def Let_def clock_def)

lemma keeps_can_send: "keeps_budget p (snd (can_send_replay env target p))"
  by (auto simp: keeps_budget_def pump_config_def replay_times_def controlled_replay_enabled_def can_send_replay_def Let_def clock_def
      split: option.splits)

lemma keeps_expired_replay: "keeps_budget p (record_expired_replay env target p)"
proof -
  let ?p1 = "case dict_get (dp_replay_progress p) (pt_device_id target) of
      None \<Rightarrow> p
    | Some progress \<Rightarrow> p\<lparr>dp_replay_progress :=
        dict_set (pt_device_id target) (progress\<lparr>rp_expired := rp_expired progress + 1\<rparr>) (dp_replay_progress p)\<rparr>"
  have "keeps_budget p ?p1"
    by (auto simp: keeps_budget_def pump_config_def replay_times_def controlled_replay_enabled_def split: option.splits)
  from keeps_budget_trans [OF this keeps_budget_trans [OF keeps_increment keeps_complete]] show ?thesis
    by (simp add: record_expired_replay_def Let_def)
qed

lemma keeps_is_expired: "keeps_budget p (snd (is_expired env m p))"
  by (auto simp: is_expired_def Let_def keeps_budget_def pump_config_def replay_times_def controlled_replay_enabled_def clock_def
      split: option.splits)

lemma keeps_publish:
  "\<not> (controlled_replay_enabled p \<and> \<not> qm_is_live m \<and> env_publish env (dp_tick p) = Confirmed) \<Longrightarrow>
    keeps_budget p (snd (publish_confirmed env target m p))"
  by (auto simp: publish_confirmed_def Let_def keeps_budget_def pump_config_def replay_times_def controlled_replay_enabled_def emit_def List.map_filter_def)

lemma keeps_queue: "keeps_budget p (p\<lparr>dp_queue := q\<rparr>)"
  by (simp add: keeps_budget_def pump_config_def replay_times_def controlled_replay_enabled_def)

lemma keeps_expired_event: "keeps_budget p (emit (Expired d m t) p)"
  by (simp add: keeps_budget_def pump_config_def replay_times_def controlled_replay_enabled_def emit_def List.map_filter_def)

lemma keeps_pause: "keeps_budget p (pause_replay d p)"
  by (simp add: keeps_budget_def pump_config_def replay_times_def controlled_replay_enabled_def pause_replay_def)

lemma keeps_forget: "keeps_budget p (forget_unknown ds p)"
  by (simp add: keeps_budget_def pump_config_def replay_times_def controlled_replay_enabled_def forget_unknown_def Let_def)

lemma keeps_rotate: "keeps_budget p (snd (rotated_targets ts p))"
  by (simp add: keeps_budget_def pump_config_def replay_times_def controlled_replay_enabled_def rotated_targets_def Let_def)

lemma keeps_wait: "keeps_budget p (snd (next_wait_seconds env p))"
  by (simp add: next_wait_seconds_def Let_def keeps_budget_def pump_config_def replay_times_def controlled_replay_enabled_def clock_def)

lemmas keeps_steps = keeps_increment keeps_clock keeps_stop keeps_complete keeps_can_send keeps_expired_replay
  keeps_is_expired keeps_queue keeps_expired_event keeps_pause keeps_forget keeps_rotate keeps_wait

text \<open>The parts of the state the helpers leave alone.\<close>

lemma same_queue [simp]:
  "dp_queue (emit e p) = dp_queue p" "dp_queue (increment target n p) = dp_queue p"
  "dp_queue (snd (clock env p)) = dp_queue p" "dp_queue (snd (stop_event_is_set env p)) = dp_queue p"
  "dp_queue (complete_replay_if_needed env target p) = dp_queue p"
  "dp_queue (snd (can_send_replay env target p)) = dp_queue p"
  "dp_queue (record_expired_replay env target p) = dp_queue p"
  "dp_queue (snd (is_expired env m p)) = dp_queue p" "dp_queue (pause_replay d p) = dp_queue p"
  "dp_queue (forget_unknown ds p) = dp_queue p" "dp_queue (snd (rotated_targets ts p)) = dp_queue p"
  "dp_queue (snd (next_wait_seconds env p)) = dp_queue p"
  by (simp_all add: pump_ops complete_replay_if_needed_def can_send_replay_def record_expired_replay_def
      is_expired_def pause_replay_def forget_unknown_def rotated_targets_def next_wait_seconds_def Let_def
      split: option.splits)

lemma publish_queue [simp]:
  "dp_queue (snd (publish_confirmed env target m p)) = queue_run (env_arrivals env (dp_tick p)) (dp_queue p)"
  by (simp add: publish_confirmed_def Let_def)

section \<open>Well-formed pumps never raise\<close>

definition pump_wf :: "DeliveryPump \<Rightarrow> bool" where
  "pump_wf p \<longleftrightarrow>
     (case (dp_replay_rate_per_device p, dp_replay_rate_global p) of
       (None, None) \<Rightarrow> True
     | (Some a, Some b) \<Rightarrow> 0 < a \<and> 0 < b
     | _ \<Rightarrow> False) \<and>
     0 \<le> dp_replay_start_delay_seconds p \<and> 0 \<le> dp_replay_jitter p \<and> dp_replay_jitter p \<le> 1"

lemma init_pump_wf: "init_pump dir q c2d rd rg delay j = Inr p \<Longrightarrow> pump_wf p"
  by (auto simp: init_pump_def pump_wf_def split: if_splits option.splits)

lemma wf_config: "pump_config p' = pump_config p \<Longrightarrow> pump_wf p' = pump_wf p"
  by (simp add: pump_config_def pump_wf_def)

lemma wf_keeps: "keeps_budget p p' \<Longrightarrow> pump_wf p' = pump_wf p"
  unfolding keeps_budget_def by (intro wf_config) blast

lemma controlled_config: "pump_config p' = pump_config p \<Longrightarrow> controlled_replay_enabled p' = controlled_replay_enabled p"
  by (simp add: pump_config_def controlled_replay_enabled_def)

text \<open>A replay send is accounted for after \<open>can_send_replay\<close> agreed, so the entry it needs exists.\<close>

lemma can_send_progress:
  "fst (can_send_replay env target p) \<Longrightarrow>
    dict_get (dp_replay_progress (snd (can_send_replay env target p))) (pt_device_id target) \<noteq> None"
  by (auto simp: can_send_replay_def Let_def clock_def split: option.splits if_splits)

lemma can_send_budget:
  "fst (can_send_replay env target p) \<Longrightarrow>
    dp_next_global_send_at p \<le> env_clock env (dp_tick p) \<and> dp_tick p < dp_tick (snd (can_send_replay env target p))"
  by (auto simp: can_send_replay_def Let_def clock_def split: option.splits if_splits)

lemma jitter_lower:
  assumes "0 < r" "0 \<le> dp_replay_jitter p" "\<And>n. 0 \<le> env_random env n"
  shows "1 / r \<le> fst (jittered_interval env r p)"
proof -
  have "1 / r * 1 \<le> 1 / r * (1 + env_random env (dp_tick p) * dp_replay_jitter p)"
    using assms by (intro mult_left_mono) (simp_all)
  then show ?thesis by (simp add: jittered_interval_def Let_def)
qed

lemma jitter_same:
  "pump_config (snd (jittered_interval env r p)) = pump_config p"
  "dp_queue (snd (jittered_interval env r p)) = dp_queue p"
  "dp_replay_jitter (snd (jittered_interval env r p)) = dp_replay_jitter p"
  "replay_times (snd (jittered_interval env r p)) = replay_times p"
  "dp_tick p \<le> dp_tick (snd (jittered_interval env r p))"
  "dp_log (snd (jittered_interval env r p)) = dp_log p"
  by (simp_all add: jittered_interval_def pump_config_def replay_times_def controlled_replay_enabled_def Let_def)

lemma jitter_upd:
  "pump_config (p\<lparr>dp_next_device_send_at := a\<rparr>) = pump_config p"
  "pump_config (p\<lparr>dp_next_global_send_at := b\<rparr>) = pump_config p"
  "replay_times (p\<lparr>dp_next_device_send_at := a\<rparr>) = replay_times p"
  "replay_times (p\<lparr>dp_next_global_send_at := b\<rparr>) = replay_times p"
  by (simp_all add: pump_config_def replay_times_def controlled_replay_enabled_def)

lemma record_replay_sent_raises:
  assumes "pump_wf p" "dp_replay_rate_per_device p \<noteq> None"
    "dict_get (dp_replay_progress p) (pt_device_id target) \<noteq> None"
  shows "record_replay_sent env target p \<noteq> None"
proof -
  from assms(1,2) obtain a b where "dp_replay_rate_per_device p = Some a" "dp_replay_rate_global p = Some b"
    by (auto simp: pump_wf_def split: option.splits)
  moreover from assms(3) obtain g where "dict_get (dp_replay_progress p) (pt_device_id target) = Some g" by blast
  ultimately show ?thesis by (simp add: record_replay_sent_def clock_def Let_def case_prod_beta)
qed

section \<open>The rate invariant\<close>

text \<open>What the environment is trusted for: time does not run backwards and random numbers are not negative.\<close>

definition env_ok :: "pump_env \<Rightarrow> bool" where
  "env_ok env \<longleftrightarrow> mono (env_clock env) \<and> (\<forall>n. 0 \<le> env_random env n)"

definition rate_inv :: "DeliveryPump \<Rightarrow> bool" where
  "rate_inv p \<longleftrightarrow> (\<forall>r. dp_replay_rate_global p = Some r \<longrightarrow>
     sorted_wrt (\<lambda>t t'. t + 1 / r \<le> t') (replay_times p) \<and>
     (\<forall>t\<in>set (replay_times p). t + 1 / r \<le> dp_next_global_send_at p))"

lemma rate_keeps: "keeps_budget p p' \<Longrightarrow> rate_inv p \<Longrightarrow> rate_inv p'"
  by (simp add: rate_inv_def keeps_budget_def pump_config_def)

text \<open>The exact effect of accounting for a replay publish, up to the completion check.\<close>

lemma record_replay_sent_Some:
  assumes "record_replay_sent env target p = Some p'"
  obtains ra rb x p7 where "dp_replay_rate_per_device p = Some ra" "dp_replay_rate_global p = Some rb"
    "p' = complete_replay_if_needed env target p7" "pump_config p7 = pump_config p" "dp_queue p7 = dp_queue p"
    "replay_times p7 = replay_times p"
    "dp_next_global_send_at p7 = env_clock env (dp_tick p) + fst (jittered_interval env rb x)"
    "dp_replay_jitter x = dp_replay_jitter p" "dp_tick p \<le> dp_tick p7"
proof -
  from assms obtain ra rb where r: "dp_replay_rate_per_device p = Some ra" "dp_replay_rate_global p = Some rb"
    by (auto simp: record_replay_sent_def split: option.splits)
  from assms r obtain g where g: "dict_get (dp_replay_progress p) (pt_device_id target) = Some g"
    by (cases "dict_get (dp_replay_progress p) (pt_device_id target)")
      (auto simp: record_replay_sent_def clock_def Let_def)
  let ?now = "env_clock env (dp_tick p)" and ?d = "pt_device_id target"
  define p3 where "p3 = increment target ''replay_sent'' (p\<lparr>dp_tick := Suc (dp_tick p),
    dp_replay_progress := dict_set ?d (g\<lparr>rp_started := True, rp_sent := rp_sent g + 1\<rparr>) (dp_replay_progress p)\<rparr>)"
  define p4 where "p4 = snd (jittered_interval env ra p3)"
  define p5 where "p5 = p4\<lparr>dp_next_device_send_at :=
    dict_set ?d (?now + fst (jittered_interval env ra p3)) (dp_next_device_send_at p4)\<rparr>"
  define p7 where "p7 = (snd (jittered_interval env rb p5))\<lparr>dp_next_global_send_at :=
    ?now + fst (jittered_interval env rb p5)\<rparr>"
  have p': "p' = complete_replay_if_needed env target p7"
    using assms r g
    by (simp add: record_replay_sent_def clock_def Let_def case_prod_beta p3_def p4_def p5_def p7_def)
  have p3: "pump_config p3 = pump_config p" "dp_queue p3 = dp_queue p" "dp_replay_jitter p3 = dp_replay_jitter p"
    "dp_tick p3 = Suc (dp_tick p)" "replay_times p3 = replay_times p"
    by (simp_all add: p3_def pump_ops pump_config_def replay_times_def controlled_replay_enabled_def List.map_filter_def)
  have p5: "pump_config p5 = pump_config p3" "dp_queue p5 = dp_queue p3" "dp_replay_jitter p5 = dp_replay_jitter p3"
    "replay_times p5 = replay_times p3" "dp_tick p3 \<le> dp_tick p5"
    by (simp_all add: p5_def p4_def jitter_same jitter_upd)
  have p7: "pump_config p7 = pump_config p5" "dp_queue p7 = dp_queue p5" "replay_times p7 = replay_times p5"
    "dp_tick p5 \<le> dp_tick p7" "dp_next_global_send_at p7 = ?now + fst (jittered_interval env rb p5)"
    by (simp_all add: p7_def jitter_same jitter_upd)
  show ?thesis
    by (rule that [OF r p', of p5]) (use p3 p5 p7 in simp_all)
qed

lemma record_replay_sent_keeps:
  assumes "record_replay_sent env target p = Some p'"
  shows "pump_config p' = pump_config p" "dp_queue p' = dp_queue p" "dp_tick p \<le> dp_tick p'"
proof -
  from record_replay_sent_Some [OF assms] obtain p7 where "p' = complete_replay_if_needed env target p7"
    "pump_config p7 = pump_config p" "dp_queue p7 = dp_queue p" "dp_tick p \<le> dp_tick p7" by metis
  with keeps_complete [of p7 env target]
  show "pump_config p' = pump_config p" "dp_queue p' = dp_queue p" "dp_tick p \<le> dp_tick p'"
    by (simp_all add: keeps_budget_def)
qed

text \<open>
  The publish at time \<open>t\<close> was admitted by the global budget and the accounting follows it: the times stay
  a global interval apart, and the next publish is due an interval after the last.
\<close>

lemma rate_record:
  assumes env: "env_ok env" and wf: "pump_wf p" and inv: "rate_inv p0"
    and times: "replay_times p = replay_times p0 @ [t]" "pump_config p = pump_config p0"
    and budget: "dp_next_global_send_at p0 \<le> t" "t \<le> env_clock env (dp_tick p)"
    and sent: "record_replay_sent env target p = Some p'"
  shows "rate_inv p'"
proof -
  from record_replay_sent_Some [OF sent] obtain ra rb x p7 where
    rates: "dp_replay_rate_per_device p = Some ra" "dp_replay_rate_global p = Some rb" and
    p': "p' = complete_replay_if_needed env target p7" and
    cfg: "pump_config p7 = pump_config p" and
    times7: "replay_times p7 = replay_times p" and
    budget7: "dp_next_global_send_at p7 = env_clock env (dp_tick p) + fst (jittered_interval env rb x)" and
    jitter: "dp_replay_jitter x = dp_replay_jitter p" by metis
  from wf rates have "0 < rb" "0 \<le> dp_replay_jitter p" by (auto simp: pump_wf_def)
  with env jitter have i: "1 / rb \<le> fst (jittered_interval env rb x)"
    by (intro jitter_lower) (simp_all add: env_ok_def)
  have r7: "dp_replay_rate_global p7 = Some rb" "dp_replay_rate_global p0 = Some rb"
    using cfg rates times(2) by (simp_all add: pump_config_def)
  have old: "t' + 1 / rb \<le> t" if "t' \<in> set (replay_times p0)" for t'
    using inv r7(2) that budget(1) by (auto simp: rate_inv_def)
  have new: "t + 1 / rb \<le> dp_next_global_send_at p7" unfolding budget7 using budget(2) i by (rule add_mono)
  have "t' + 1 / rb \<le> dp_next_global_send_at p7" if "t' \<in> set (replay_times p0)" for t'
  proof -
    have "0 \<le> 1 / rb" using \<open>0 < rb\<close> by simp
    with old [OF that] new show ?thesis by linarith
  qed
  then have "rate_inv p7" using inv r7 old new unfolding rate_inv_def times7 times(1)
    by (auto simp: sorted_wrt_append)
  with rate_keeps [OF keeps_complete] show ?thesis by (simp add: p')
qed

section \<open>One round of the drain loop\<close>

text \<open>The branches of a round, with what each does to the queue and to the log.\<close>

definition expired_at :: "QueuedMessage \<Rightarrow> seconds \<Rightarrow> bool" where
  "expired_at m now \<longleftrightarrow> (case qm_max_age_seconds m of None \<Rightarrow> False | Some a \<Rightarrow> a < now - qm_created_at m)"

lemma is_expired_iff: "fst (is_expired env m p) \<longleftrightarrow> expired_at m (env_clock env (dp_tick p))"
  by (auto simp: is_expired_def expired_at_def clock_def split: option.splits)

definition published :: "DeliveryPump \<Rightarrow> (device_id \<times> QueuedMessage \<times> publish_outcome) list" where
  "published p = List.map_filter (\<lambda>e. case e of Publish d m x _ \<Rightarrow> Some (d, m, x) | _ \<Rightarrow> None) (dp_log p)"

lemma published_helpers [simp]:
  "published (increment target n p) = published p" "published (snd (clock env p)) = published p"
  "published (snd (stop_event_is_set env p)) = published p"
  "published (complete_replay_if_needed env target p) = published p"
  "published (snd (can_send_replay env target p)) = published p"
  "published (record_expired_replay env target p) = published p"
  "published (snd (is_expired env m p)) = published p" "published (pause_replay d p) = published p"
  "published (p\<lparr>dp_queue := q\<rparr>) = published p" "published (emit (Expired d m t) p) = published p"
  by (simp_all add: published_def pump_ops complete_replay_if_needed_def can_send_replay_def
      record_expired_replay_def is_expired_def pause_replay_def Let_def List.map_filter_def split: option.splits)

lemma published_publish [simp]:
  "published (snd (publish_confirmed env target m p)) =
    published p @ [(pt_device_id target, m, env_publish env (dp_tick p))]"
  by (simp add: published_def publish_confirmed_def Let_def emit_def List.map_filter_def)

lemma published_record: "record_replay_sent env target p = Some p' \<Longrightarrow> published p' = published p"
  by (auto simp: record_replay_sent_def Let_def clock_def published_def pump_ops jitter_same case_prod_beta
      complete_replay_if_needed_def List.map_filter_def split: option.splits)

text \<open>The messages a round dropped as stale, with the time that was read for the decision.\<close>

definition dropped :: "DeliveryPump \<Rightarrow> (device_id \<times> QueuedMessage \<times> seconds) list" where
  "dropped p = List.map_filter (\<lambda>e. case e of Expired d m t \<Rightarrow> Some (d, m, t) | _ \<Rightarrow> None) (dp_log p)"

lemma dropped_helpers [simp]:
  "dropped (increment target n p) = dropped p" "dropped (snd (clock env p)) = dropped p"
  "dropped (snd (stop_event_is_set env p)) = dropped p"
  "dropped (complete_replay_if_needed env target p) = dropped p"
  "dropped (snd (can_send_replay env target p)) = dropped p"
  "dropped (record_expired_replay env target p) = dropped p"
  "dropped (snd (is_expired env m p)) = dropped p" "dropped (pause_replay d p) = dropped p"
  "dropped (p\<lparr>dp_queue := q\<rparr>) = dropped p" "dropped (emit (Expired d m t) p) = dropped p @ [(d, m, t)]"
  "dropped (snd (publish_confirmed env target m p)) = dropped p"
  by (simp_all add: dropped_def pump_ops complete_replay_if_needed_def can_send_replay_def publish_confirmed_def
      record_expired_replay_def is_expired_def pause_replay_def Let_def List.map_filter_def split: option.splits)

lemma dropped_record: "record_replay_sent env target p = Some p' \<Longrightarrow> dropped p' = dropped p"
  by (auto simp: record_replay_sent_def Let_def clock_def dropped_def pump_ops jitter_same case_prod_beta
      complete_replay_if_needed_def List.map_filter_def split: option.splits)

text \<open>
  A round ends in one of five ways: nothing to do (stop requested or empty queue), the message was
  stale and dropped, the replay budget refused it, its publish was not confirmed, or it was published
  and removed.
\<close>

inductive drain_outcome :: "pump_env \<Rightarrow> PumpTarget \<Rightarrow> DeliveryPump \<Rightarrow> loop_signal \<Rightarrow> DeliveryPump \<Rightarrow> bool"
  for env :: pump_env and target :: PumpTarget and p :: DeliveryPump where
  Idle: "keeps_budget p p' \<Longrightarrow> dp_queue p' = dp_queue p \<Longrightarrow> published p' = published p \<Longrightarrow> dropped p' = dropped p \<Longrightarrow>
    env_stop env (dp_tick p) \<or>
      peek_oldest (dp_queue p) (pt_device_id target) (dp_direction p) (controlled_replay_enabled p) = None \<Longrightarrow>
    drain_outcome env target p Return p'"
| Stale: "peek_oldest (dp_queue p) (pt_device_id target) (dp_direction p) (controlled_replay_enabled p) = Some m \<Longrightarrow>
    expired_at m (env_clock env (Suc (dp_tick p))) \<Longrightarrow> keeps_budget p p' \<Longrightarrow> Suc (dp_tick p) \<le> dp_tick p' \<Longrightarrow>
    dp_queue p' = remove (qm_id m) (dp_queue p) \<Longrightarrow> published p' = published p \<Longrightarrow>
    dropped p' = dropped p @ [(pt_device_id target, m, env_clock env (Suc (dp_tick p)))] \<Longrightarrow>
    drain_outcome env target p Continue p'"
| Limited: "peek_oldest (dp_queue p) (pt_device_id target) (dp_direction p) (controlled_replay_enabled p) = Some m \<Longrightarrow>
    \<not> expired_at m (env_clock env (Suc (dp_tick p))) \<Longrightarrow> \<not> qm_is_live m \<Longrightarrow> controlled_replay_enabled p \<Longrightarrow>
    keeps_budget p p' \<Longrightarrow> dp_queue p' = dp_queue p \<Longrightarrow> published p' = published p \<Longrightarrow> dropped p' = dropped p \<Longrightarrow>
    drain_outcome env target p Return p'"
| Failed: "peek_oldest (dp_queue p) (pt_device_id target) (dp_direction p) (controlled_replay_enabled p) = Some m \<Longrightarrow>
    \<not> expired_at m (env_clock env (Suc (dp_tick p))) \<Longrightarrow> env_publish env n = x \<Longrightarrow> x \<noteq> Confirmed \<Longrightarrow>
    keeps_budget p p' \<Longrightarrow> Suc (dp_tick p) \<le> dp_tick p' \<Longrightarrow>
    dp_queue p' = queue_run (env_arrivals env n) (dp_queue p) \<Longrightarrow>
    published p' = published p @ [(pt_device_id target, m, x)] \<Longrightarrow> dropped p' = dropped p \<Longrightarrow>
    drain_outcome env target p Return p'"
| Sent: "peek_oldest (dp_queue p) (pt_device_id target) (dp_direction p) (controlled_replay_enabled p) = Some m \<Longrightarrow>
    \<not> expired_at m (env_clock env (Suc (dp_tick p))) \<Longrightarrow> env_publish env n = Confirmed \<Longrightarrow>
    env_ok env \<and> rate_inv p \<longrightarrow> rate_inv p' \<Longrightarrow> pump_config p' = pump_config p \<Longrightarrow> Suc (dp_tick p) \<le> dp_tick p' \<Longrightarrow>
    dp_queue p' = remove (qm_id m) (queue_run (env_arrivals env n) (dp_queue p)) \<Longrightarrow>
    published p' = published p @ [(pt_device_id target, m, Confirmed)] \<Longrightarrow> dropped p' = dropped p \<Longrightarrow>
    drain_outcome env target p Continue p'"

lemma keeps_fields:
  assumes "keeps_budget p p'"
  shows "dp_direction p' = dp_direction p" "controlled_replay_enabled p' = controlled_replay_enabled p"
    "dp_tick p \<le> dp_tick p'" "pump_config p' = pump_config p"
    "dp_next_global_send_at p' = dp_next_global_send_at p"
    "dp_replay_rate_per_device p' = dp_replay_rate_per_device p"
  using assms by (auto simp: keeps_budget_def pump_config_def controlled_replay_enabled_def)

lemma tick_stop [simp]: "dp_tick (snd (stop_event_is_set env p)) = Suc (dp_tick p)"
    "fst (stop_event_is_set env p) = env_stop env (dp_tick p)"
  by (simp_all add: stop_event_is_set_def)

text \<open>Publishing a message that was admitted, with the accounting that follows a confirmation.\<close>

definition publish_and_account :: "pump_env \<Rightarrow> PumpTarget \<Rightarrow> QueuedMessage \<Rightarrow> bool \<Rightarrow> DeliveryPump
    \<Rightarrow> (loop_signal \<times> DeliveryPump) option" where
  "publish_and_account env target message replay p3 =
     (let (confirmed, p4) = publish_confirmed env target message p3
      in if \<not> confirmed then Some (Return, p4)
         else
           let p5 = p4\<lparr>dp_queue := remove (qm_id message) (dp_queue p4)\<rparr>;
               p6 = increment target (''queue_delivered_'' @ dp_direction p5) p5
           in if replay then map_option (Pair Continue) (record_replay_sent env target p6)
              else Some (Continue, p6))"

lemma fst_publish [simp]: "fst (publish_confirmed env target m p) \<longleftrightarrow> env_publish env (dp_tick p) = Confirmed"
  by (simp add: publish_confirmed_def Let_def)

lemma progress_publish [simp]:
  "dp_replay_progress (increment target n (snd (publish_confirmed env target m p)\<lparr>dp_queue := q\<rparr>)) = dp_replay_progress p"
  by (simp add: publish_confirmed_def Let_def pump_ops)

lemma publish_failed:
  "env_publish env (dp_tick p3) \<noteq> Confirmed \<Longrightarrow> publish_and_account env target m replay p3 =
    Some (Return, snd (publish_confirmed env target m p3))"
  by (simp add: publish_and_account_def case_prod_beta Let_def)

lemma publish_sent:
  assumes ok: "env_publish env (dp_tick p3) = Confirmed" and wf: "pump_wf p3"
    and admitted: "replay \<Longrightarrow> dict_get (dp_replay_progress p3) (pt_device_id target) \<noteq> None \<and>
      dp_replay_rate_per_device p3 \<noteq> None \<and>
      (env_ok env \<longrightarrow> dp_next_global_send_at p3 \<le> env_clock env (dp_tick p3))"
    and replay: "replay \<longleftrightarrow> controlled_replay_enabled p3 \<and> \<not> qm_is_live m"
  obtains p' where "publish_and_account env target m replay p3 = Some (Continue, p')"
    "env_ok env \<and> rate_inv p3 \<longrightarrow> rate_inv p'" "pump_config p' = pump_config p3" "dp_tick p3 \<le> dp_tick p'"
    "dp_queue p' = remove (qm_id m) (queue_run (env_arrivals env (dp_tick p3)) (dp_queue p3))"
    "published p' = published p3 @ [(pt_device_id target, m, Confirmed)]" "dropped p' = dropped p3"
proof -
  define p4 where "p4 = snd (publish_confirmed env target m p3)"
  define p6 where "p6 = increment target (''queue_delivered_'' @ dp_direction p4)
    (p4\<lparr>dp_queue := remove (qm_id m) (dp_queue p4)\<rparr>)"
  have k46: "keeps_budget p4 p6" unfolding p6_def by (rule keeps_budget_trans [OF keeps_queue keeps_increment])
  have cfg: "pump_config p6 = pump_config p3" "dp_tick p3 \<le> dp_tick p6" "dropped p6 = dropped p3"
    by (simp_all add: p6_def p4_def) (simp_all add: pump_config_def publish_confirmed_def Let_def pump_ops)
  have q6: "dp_queue p6 = remove (qm_id m) (queue_run (env_arrivals env (dp_tick p3)) (dp_queue p3))"
    and pub: "published p6 = published p3 @ [(pt_device_id target, m, Confirmed)]"
    by (simp_all add: p6_def p4_def ok)
  have eq: "publish_and_account env target m replay p3 =
      (if replay then map_option (Pair Continue) (record_replay_sent env target p6) else Some (Continue, p6))"
    using ok by (simp add: publish_and_account_def case_prod_beta Let_def p6_def p4_def)
  show ?thesis
  proof (cases replay)
    case False
    have k: "keeps_budget p3 p6" unfolding p4_def by (rule keeps_budget_trans [OF keeps_publish k46 [unfolded p4_def]]) (use False replay in auto)
    with eq q6 pub cfg rate_keeps [OF k] False show ?thesis by (intro that [of p6]) auto
  next
    case True
    have prog: "dp_replay_progress p6 = dp_replay_progress p3" by (simp add: p6_def p4_def)
    have "dp_replay_rate_per_device p6 = dp_replay_rate_per_device p3" using cfg(1) by (simp add: pump_config_def)
    with prog True admitted wf wf_config [OF cfg(1)] have "record_replay_sent env target p6 \<noteq> None"
      by (intro record_replay_sent_raises) simp_all
    then obtain p' where p': "record_replay_sent env target p6 = Some p'" by blast
    have times: "replay_times p6 = replay_times p3 @ [env_clock env (dp_tick p3)]"
      using True replay ok
      by (simp add: p6_def p4_def) (simp add: publish_confirmed_def Let_def pump_ops replay_times_def controlled_replay_enabled_def List.map_filter_def)
    have rec: "rate_inv p'" if "env_ok env" "rate_inv p3"
    proof (rule rate_record [OF that(1) _ that(2) times cfg(1) _ _ p'])
      show "pump_wf p6" using wf wf_config [OF cfg(1)] by simp
      show "dp_next_global_send_at p3 \<le> env_clock env (dp_tick p3)" using that True admitted by simp
      show "env_clock env (dp_tick p3) \<le> env_clock env (dp_tick p6)" using that(1) cfg(2) by (auto simp: env_ok_def mono_def)
    qed
    from record_replay_sent_keeps [OF p'] True eq p' rec q6 pub published_record [OF p'] dropped_record [OF p'] cfg
    show ?thesis by (intro that [of p']) simp_all
  qed
qed

lemma stop_fields [simp]:
  "dp_direction (snd (stop_event_is_set env p)) = dp_direction p"
  "controlled_replay_enabled (snd (stop_event_is_set env p)) = controlled_replay_enabled p"
  by (simp_all add: stop_event_is_set_def controlled_replay_enabled_def)

lemma is_expired_fields [simp]:
  "controlled_replay_enabled (snd (is_expired env m p)) = controlled_replay_enabled p"
  by (simp add: keeps_fields [OF keeps_is_expired])

lemma drain_iteration_eq:
  "drain_iteration env target p =
    (let p1 = snd (stop_event_is_set env p)
     in if env_stop env (dp_tick p) then Some (Return, p1)
        else (case peek_oldest (dp_queue p) (pt_device_id target) (dp_direction p) (controlled_replay_enabled p) of
          None \<Rightarrow> Some (Return, complete_replay_if_needed env target p1)
        | Some m \<Rightarrow>
            let p2 = snd (is_expired env m p1); replay = (controlled_replay_enabled p \<and> \<not> qm_is_live m)
            in if expired_at m (env_clock env (Suc (dp_tick p))) then
                 let p4 = emit (Expired (pt_device_id target) m (env_clock env (Suc (dp_tick p))))
                   (p2\<lparr>dp_queue := remove (qm_id m) (dp_queue p)\<rparr>)
                 in Some (Continue, if replay then record_expired_replay env target p4
                                    else increment target ''queue_expired'' p4)
               else let r = (if replay then can_send_replay env target p2 else (True, p2))
                 in if \<not> fst r then Some (Return, increment target ''replay_rate_limited'' (snd r))
                    else publish_and_account env target m replay (snd r)))"
proof -
  have split: "(let (a, b) = x in f a b) = f (fst x) (snd x)" for x and f :: "'x \<Rightarrow> 'y \<Rightarrow> 'z"
    by (simp add: case_prod_beta)
  show ?thesis
    unfolding drain_iteration_def split tick_stop stop_fields is_expired_fields same_queue is_expired_iff
      publish_and_account_def
    by (simp only: Let_def)
qed

text \<open>The branches after a message was peeked: it is stale, or it is admitted to the publish step.\<close>

lemma drain_stale:
  assumes stop: "\<not> env_stop env (dp_tick p)"
    and peek: "peek_oldest (dp_queue p) (pt_device_id target) (dp_direction p) (controlled_replay_enabled p) = Some m"
    and stale: "expired_at m (env_clock env (Suc (dp_tick p)))"
  obtains p' where "drain_iteration env target p = Some (Continue, p')" "drain_outcome env target p Continue p'"
proof -
  define p1 where "p1 = snd (stop_event_is_set env p)"
  define p2 where "p2 = snd (is_expired env m p1)"
  define replay where "replay \<longleftrightarrow> controlled_replay_enabled p \<and> \<not> qm_is_live m"
  define p4 where "p4 = emit (Expired (pt_device_id target) m (env_clock env (Suc (dp_tick p))))
    (p2\<lparr>dp_queue := remove (qm_id m) (dp_queue p)\<rparr>)"
  define p5 where "p5 = (if replay then record_expired_replay env target p4 else increment target ''queue_expired'' p4)"
  have "keeps_budget p1 p4" unfolding p4_def p2_def
    by (rule keeps_budget_trans [OF keeps_is_expired keeps_budget_trans [OF keeps_queue keeps_expired_event]])
  then have k5: "keeps_budget p1 p5"
    using keeps_budget_trans [OF _ keeps_expired_replay] keeps_budget_trans [OF _ keeps_increment] by (simp add: p5_def)
  have "dp_queue p5 = remove (qm_id m) (dp_queue p)" "published p5 = published p"
    "dropped p5 = dropped p @ [(pt_device_id target, m, env_clock env (Suc (dp_tick p)))]"
    by (simp_all add: p5_def p4_def p2_def p1_def)
  moreover have "Suc (dp_tick p) \<le> dp_tick p5" using keeps_fields(3) [OF k5] by (simp add: p1_def)
  moreover have "keeps_budget p p5" using keeps_budget_trans [OF keeps_stop k5 [unfolded p1_def]] .
  ultimately show ?thesis
    using assms by (intro that [of p5] drain_outcome.Stale)
      (simp_all add: drain_iteration_eq Let_def p1_def [symmetric] p2_def [symmetric] p4_def [symmetric]
        p5_def replay_def)
qed

lemma drain_admitted:
  assumes wf: "pump_wf p" and stop: "\<not> env_stop env (dp_tick p)"
    and peek: "peek_oldest (dp_queue p) (pt_device_id target) (dp_direction p) (controlled_replay_enabled p) = Some m"
    and fresh: "\<not> expired_at m (env_clock env (Suc (dp_tick p)))"
    and p2: "p2 = snd (is_expired env m (snd (stop_event_is_set env p)))"
    and replay: "replay \<longleftrightarrow> controlled_replay_enabled p \<and> \<not> qm_is_live m"
    and r: "r = (if replay then can_send_replay env target p2 else (True, p2))" "fst r"
  obtains sig p' where "publish_and_account env target m replay (snd r) = Some (sig, p')"
    "drain_outcome env target p sig p'"
proof -
  have k2: "keeps_budget p p2" unfolding p2 by (rule keeps_budget_trans [OF keeps_stop keeps_is_expired])
  have k3: "keeps_budget p2 (snd r)" by (simp add: r keeps_can_send)
  note k = keeps_budget_trans [OF k2 k3]
  have [simp]: "dp_queue (snd r) = dp_queue p" "published (snd r) = published p" "dropped (snd r) = dropped p" by (simp_all add: r p2)
  have tick: "Suc (dp_tick p) \<le> dp_tick (snd r)"
    using keeps_fields(3) [OF keeps_budget_trans [OF keeps_is_expired k3 [unfolded p2]]] by simp
  show ?thesis
  proof (cases "env_publish env (dp_tick (snd r)) = Confirmed")
    case False
    have kp: "keeps_budget (snd r) (snd (publish_confirmed env target m (snd r)))" using False by (intro keeps_publish) simp
    from tick keeps_fields(3) [OF kp] have "Suc (dp_tick p) \<le> dp_tick (snd (publish_confirmed env target m (snd r)))"
      by (rule order_trans)
    with False peek fresh keeps_budget_trans [OF k kp] show ?thesis
      by (intro that [of Return "snd (publish_confirmed env target m (snd r))"] drain_outcome.Failed)
        (simp_all add: publish_failed)
  next
    case ok: True
    have adm: "dict_get (dp_replay_progress (snd r)) (pt_device_id target) \<noteq> None \<and>
        dp_replay_rate_per_device (snd r) \<noteq> None \<and>
        (env_ok env \<longrightarrow> dp_next_global_send_at (snd r) \<le> env_clock env (dp_tick (snd r)))" if replay
      using that r(2) can_send_progress can_send_budget [of env target p2] keeps_fields [OF k3] keeps_fields(6) [OF k2]
      by (auto simp: r(1) replay controlled_replay_enabled_def env_ok_def mono_def intro: order_trans dest: less_imp_le)
    from wf wf_keeps [OF k] have "pump_wf (snd r)" by simp
    have "replay \<longleftrightarrow> controlled_replay_enabled (snd r) \<and> \<not> qm_is_live m" using replay keeps_fields(2) [OF k] by simp
    from publish_sent [OF ok \<open>pump_wf (snd r)\<close> adm this] obtain p' where
      "publish_and_account env target m replay (snd r) = Some (Continue, p')"
      "env_ok env \<and> rate_inv (snd r) \<longrightarrow> rate_inv p'" "pump_config p' = pump_config (snd r)"
      "dp_tick (snd r) \<le> dp_tick p'"
      "dp_queue p' = remove (qm_id m) (queue_run (env_arrivals env (dp_tick (snd r))) (dp_queue p))"
      "published p' = published p @ [(pt_device_id target, m, Confirmed)]" "dropped p' = dropped p" by auto
    with ok peek fresh tick keeps_fields [OF k] rate_keeps [OF k] show ?thesis
      by (intro that [of Continue p'] drain_outcome.Sent) auto
  qed
qed

lemma drain_iteration_outcome:
  assumes wf: "pump_wf p"
  obtains sig p' where "drain_iteration env target p = Some (sig, p')" "drain_outcome env target p sig p'"
proof -
  let ?peek = "peek_oldest (dp_queue p) (pt_device_id target) (dp_direction p) (controlled_replay_enabled p)"
  define p1 where "p1 = snd (stop_event_is_set env p)"
  have k1: "keeps_budget p p1" and [simp]: "dp_queue p1 = dp_queue p" "published p1 = published p" "dropped p1 = dropped p"
    by (simp_all add: p1_def keeps_stop)
  consider (stop) "env_stop env (dp_tick p)" | (empty) "\<not> env_stop env (dp_tick p)" "?peek = None"
    | (some) m where "\<not> env_stop env (dp_tick p)" "?peek = Some m" by (cases ?peek) auto
  then show ?thesis
  proof cases
    case stop
    with k1 show ?thesis by (intro that [of Return p1])
      (simp_all add: drain_iteration_eq Let_def p1_def drain_outcome.Idle)
  next
    case empty
    with keeps_budget_trans [OF k1 keeps_complete [of p1 env target]] show ?thesis
      by (intro that [of Return "complete_replay_if_needed env target p1"])
        (simp_all add: drain_iteration_eq Let_def p1_def drain_outcome.Idle)
  next
    case some
    define p2 where "p2 = snd (is_expired env m p1)"
    define replay where "replay \<longleftrightarrow> controlled_replay_enabled p \<and> \<not> qm_is_live m"
    define r where "r = (if replay then can_send_replay env target p2 else (True, p2))"
    show ?thesis
    proof (cases "expired_at m (env_clock env (Suc (dp_tick p)))")
      case True
      from drain_stale [OF some True] that show ?thesis by metis
    next
      case fresh: False
      have eq: "drain_iteration env target p =
          (if \<not> fst r then Some (Return, increment target ''replay_rate_limited'' (snd r))
           else publish_and_account env target m replay (snd r))"
        using some fresh by (simp add: drain_iteration_eq Let_def p1_def p2_def r_def replay_def)
      show ?thesis
      proof (cases "fst r")
        case True
        from drain_admitted [OF wf some fresh p2_def [unfolded p1_def] replay_def r_def True] eq True that
        show ?thesis by metis
      next
        case False
        then have "replay" by (simp add: r_def split: if_splits)
        have "keeps_budget p (increment target ''replay_rate_limited'' (snd r))"
          using \<open>replay\<close> keeps_budget_trans [OF k1 keeps_budget_trans [OF keeps_is_expired
              keeps_budget_trans [OF keeps_can_send keeps_increment]]] by (simp add: r_def p2_def)
        moreover have "dp_queue (snd r) = dp_queue p" "published (snd r) = published p" "dropped (snd r) = dropped p"
          by (simp_all add: r_def p2_def)
        ultimately show ?thesis using False eq some fresh \<open>replay\<close>
          by (intro that [of Return "increment target ''replay_rate_limited'' (snd r)"] drain_outcome.Limited)
            (auto simp: replay_def)
      qed
    qed
  qed
qed

section \<open>Whole passes\<close>

definition quiet_step :: "DeliveryPump \<Rightarrow> DeliveryPump \<Rightarrow> bool" where
  "quiet_step p p' \<longleftrightarrow> keeps_budget p p' \<and> dp_queue p' = dp_queue p \<and> published p' = published p \<and> dropped p' = dropped p"

definition demote_device :: "device_id \<Rightarrow> DeliveryPump \<Rightarrow> DeliveryPump" where
  "demote_device d p = p\<lparr>dp_queue := snd (demote_live_messages d (dp_direction p) (dp_queue p))\<rparr>"

lemma quiet_stop: "quiet_step p (snd (stop_event_is_set env p))"
  by (simp add: quiet_step_def keeps_stop)

lemma wf_outcome:
  assumes "drain_outcome env target p sig p'"
  shows "pump_config p' = pump_config p" "pump_wf p' = pump_wf p"
proof -
  from assms show c: "pump_config p' = pump_config p"
    by (cases rule: drain_outcome.cases) (simp_all add: keeps_budget_def)
  show "pump_wf p' = pump_wf p" by (rule wf_config [OF c])
qed

lemma set_rotated: "set (fst (rotated_targets ts p)) = set ts"
proof -
  have "set (drop n ts) \<union> set (take n ts) = set ts" for n
    by (metis append_take_drop_id set_append sup_commute)
  then show ?thesis by (simp add: rotated_targets_def Let_def)
qed

text \<open>
  A predicate that every round, every demotion of a disconnected device (for devices in \<open>T\<close>) and
  every operation outside the queue keeps is an invariant of whole passes, which never raise.
\<close>

locale pump_invariant =
  fixes env :: pump_env and T :: "device_id set" and P :: "DeliveryPump \<Rightarrow> bool"
  assumes round: "pump_wf p \<Longrightarrow> P p \<Longrightarrow> pt_device_id target \<in> T \<Longrightarrow> drain_outcome env target p sig p' \<Longrightarrow> P p'"
    and quiet: "P p \<Longrightarrow> quiet_step p p' \<Longrightarrow> P p'"
    and demote: "P p \<Longrightarrow> d \<in> T \<Longrightarrow> P (demote_device d p)"
begin

lemma drain_loop_keeps:
  "pump_wf p \<Longrightarrow> P p \<Longrightarrow> pt_device_id target \<in> T \<Longrightarrow>
    \<exists>d p'. drain_loop env target n delivered p = Some (d, p') \<and> P p' \<and> pump_config p' = pump_config p"
proof (induction n arbitrary: delivered p)
  case (Suc n)
  from drain_iteration_outcome [OF Suc.prems(1)] obtain sig p1 where
    it: "drain_iteration env target p = Some (sig, p1)" "drain_outcome env target p sig p1" by metis
  note wf1 = wf_outcome [OF it(2)]
  from round [OF Suc.prems(1,2,3) it(2)] have P1: "P p1" .
  show ?case
  proof (cases sig)
    case Return
    with it P1 wf1 show ?thesis by simp
  next
    case Continue
    from Suc.prems wf1 have "pump_wf p1" by simp
    from Suc.IH [OF this P1 Suc.prems(3), of True] it wf1 Continue show ?thesis by auto
  qed
qed simp

lemma drain_connected:
  assumes "pump_wf p" "P p" "pt_connected target" "pt_device_id target \<in> T"
  shows "\<exists>d p'. drain_device env target p = Some (d, p') \<and> P p' \<and> pump_config p' = pump_config p"
proof -
  define p1 where "p1 = p\<lparr>dp_offline_devices := removeAll (pt_device_id target) (dp_offline_devices p)\<rparr>"
  have k: "keeps_budget p p1" by (simp add: p1_def keeps_budget_def pump_config_def replay_times_def controlled_replay_enabled_def)
  have "quiet_step p p1" using k by (simp add: quiet_step_def p1_def published_def dropped_def)
  with assms quiet have "P p1" by blast
  moreover from assms(1) have "pump_wf p1" using wf_keeps [OF k] by simp
  ultimately obtain d p' where
    "drain_loop env target (if controlled_replay_enabled p1 then 1 else LEGACY_DEVICE_BATCH_SIZE) False p1 = Some (d, p')"
    "P p'" "pump_config p' = pump_config p1" using drain_loop_keeps assms(4) by metis
  with assms(3) keeps_fields(4) [OF k] show ?thesis by (auto simp: drain_device_def Let_def p1_def)
qed

lemma drain_disconnected:
  assumes "P p" "\<not> pt_connected target" "pt_device_id target \<in> T"
  shows "\<exists>d p'. drain_device env target p = Some (d, p') \<and> P p' \<and> pump_config p' = pump_config p"
proof -
  let ?d = "pt_device_id target"
  define p1 where "p1 = (if ?d \<in> set (dp_offline_devices p) then p else demote_device ?d p)"
  define p2 where "p2 = (if ?d \<in> set (dp_offline_devices p) then p
    else p\<lparr>dp_queue := snd (demote_live_messages ?d (dp_direction p) (dp_queue p)),
           dp_offline_devices := ?d # dp_offline_devices p\<rparr>)"
  have "P p1" using assms(1,3) demote by (simp add: p1_def)
  moreover have "quiet_step p1 (pause_replay ?d p2)"
    by (auto simp: quiet_step_def p1_def p2_def demote_device_def pause_replay_def keeps_budget_def
        pump_config_def replay_times_def controlled_replay_enabled_def published_def dropped_def)
  ultimately have "P (pause_replay ?d p2)" using quiet by blast
  moreover have "pump_config (pause_replay ?d p2) = pump_config p"
    by (simp add: p2_def pause_replay_def pump_config_def)
  ultimately show ?thesis using assms by (auto simp: drain_device_def Let_def p2_def)
qed

lemma drain_device_keeps:
  "pump_wf p \<Longrightarrow> P p \<Longrightarrow> pt_device_id target \<in> T \<Longrightarrow>
    \<exists>d p'. drain_device env target p = Some (d, p') \<and> P p' \<and> pump_config p' = pump_config p"
  using drain_connected drain_disconnected by blast

lemma drain_targets_keeps:
  "pump_wf p \<Longrightarrow> P p \<Longrightarrow> pt_device_id ` set targets \<subseteq> T \<Longrightarrow>
    \<exists>d p'. drain_targets env targets delivered p = Some (d, p') \<and> P p' \<and> pump_config p' = pump_config p"
proof (induction targets arbitrary: delivered p)
  case (Cons target targets)
  define p1 where "p1 = snd (stop_event_is_set env p)"
  have q: "quiet_step p p1" by (simp add: p1_def quiet_stop)
  then have k: "keeps_budget p p1" by (simp add: quiet_step_def)
  from Cons.prems wf_keeps [OF k] quiet [OF _ q] have p1: "pump_wf p1" "P p1" by simp_all
  show ?case
  proof (cases "env_stop env (dp_tick p)")
    case True
    with p1 keeps_fields(4) [OF k] show ?thesis by (simp add: case_prod_beta Let_def p1_def)
  next
    case False
    from Cons.prems have T: "pt_device_id target \<in> T" "pt_device_id ` set targets \<subseteq> T" by auto
    from drain_device_keeps [OF p1 T(1)] obtain d p2 where
      p2: "drain_device env target p1 = Some (d, p2)" "P p2" "pump_config p2 = pump_config p1" by blast
    from p1(1) wf_config [OF p2(3)] have "pump_wf p2" by simp
    from Cons.IH [OF this p2(2) T(2), of "delivered \<or> d"] False p2 keeps_fields(4) [OF k] show ?thesis
      by (auto simp: case_prod_beta Let_def p1_def)
  qed
qed simp

lemma run_once_keeps:
  assumes "pump_wf p" "P p" "pt_device_id ` set targets \<subseteq> T"
  shows "\<exists>d p'. run_once env targets p = Some (d, p') \<and> P p' \<and> pump_config p' = pump_config p"
proof -
  define ts where "ts = fst (rotated_targets targets p)"
  define p1 where "p1 = forget_unknown (map pt_device_id ts) (snd (rotated_targets targets p))"
  have k: "keeps_budget p p1" unfolding p1_def by (rule keeps_budget_trans [OF keeps_rotate keeps_forget])
  moreover have "published p1 = published p" "dropped p1 = dropped p"
    by (simp_all add: p1_def published_def dropped_def forget_unknown_def rotated_targets_def Let_def)
  ultimately have "quiet_step p p1" by (simp add: quiet_step_def p1_def)
  with quiet assms(2) have "P p1" by blast
  moreover from assms(1) have "pump_wf p1" using wf_keeps [OF k] by simp
  ultimately obtain d p' where "drain_targets env ts False p1 = Some (d, p')" "P p'" "pump_config p' = pump_config p1"
    using drain_targets_keeps assms(3) set_rotated [of targets p] by (metis ts_def)
  with keeps_fields(4) [OF k] show ?thesis by (simp add: run_once_def case_prod_beta Let_def p1_def ts_def)
qed

end

section \<open>The invariants of passes\<close>

lemma queue_inv_run: "queue_inv q \<Longrightarrow> queue_inv (queue_run ops q)"
  unfolding queue_run_def by (induction ops arbitrary: q) (simp_all add: queue_inv_step)

lemma queue_inv_outcome:
  "drain_outcome env target p sig p' \<Longrightarrow> queue_inv (dp_queue p) \<Longrightarrow> queue_inv (dp_queue p')"
  by (erule drain_outcome.cases) (simp_all add: queue_inv_remove queue_inv_run)

lemma rate_outcome:
  "drain_outcome env target p sig p' \<Longrightarrow> env_ok env \<Longrightarrow> rate_inv p \<Longrightarrow> rate_inv p'"
  by (erule drain_outcome.cases) (auto intro: rate_keeps)

lemma tick_outcome: "drain_outcome env target p sig p' \<Longrightarrow> dp_tick p \<le> dp_tick p'"
  by (erule drain_outcome.cases) (auto simp: keeps_budget_def)

lemma keeps_demote: "keeps_budget p (demote_device d p)" "published (demote_device d p) = published p"
  "dropped (demote_device d p) = dropped p"
  "queue_inv (dp_queue p) \<Longrightarrow> queue_inv (dp_queue (demote_device d p))"
  by (simp_all add: demote_device_def keeps_queue queue_inv_demote)

text \<open>The table invariant and the replay rate.\<close>

definition pass_inv :: "pump_env \<Rightarrow> DeliveryPump \<Rightarrow> bool" where
  "pass_inv env p \<longleftrightarrow> queue_inv (dp_queue p) \<and> (env_ok env \<longrightarrow> rate_inv p)"

interpretation rate: pump_invariant env UNIV "pass_inv env" for env
  by unfold_locales
    (auto simp: pass_inv_def quiet_step_def keeps_demote intro: queue_inv_outcome rate_outcome rate_keeps rate_keeps [OF keeps_demote(1)])

text \<open>A message that is stale when time \<open>n\<close> is read is not published from then on.\<close>

definition stale_inv :: "pump_env \<Rightarrow> nat \<Rightarrow> QueuedMessage \<Rightarrow> nat \<Rightarrow> DeliveryPump \<Rightarrow> bool" where
  "stale_inv env n m k p \<longleftrightarrow> n \<le> dp_tick p \<and>
     (env_ok env \<and> expired_at m (env_clock env n) \<longrightarrow>
       length (filter (\<lambda>(d, m', x). m' = m) (published p)) = k)"

lemma expired_at_mono: "expired_at m t \<Longrightarrow> t \<le> t' \<Longrightarrow> expired_at m t'"
  by (auto simp: expired_at_def split: option.splits)

lemma stale_round:
  assumes "stale_inv env n m k p" "drain_outcome env target p sig p'"
  shows "stale_inv env n m k p'"
proof -
  from assms(1) have "env_ok env \<Longrightarrow> expired_at m (env_clock env n) \<Longrightarrow> expired_at m (env_clock env (Suc (dp_tick p)))"
    by (rule_tac expired_at_mono) (auto simp: stale_inv_def env_ok_def mono_def)
  from assms(2) this assms(1) tick_outcome [OF assms(2)] show ?thesis
    by (cases rule: drain_outcome.cases) (auto simp: stale_inv_def)
qed

interpretation stale: pump_invariant env UNIV "stale_inv env n m k" for env n m k
  by unfold_locales
    (auto simp: stale_round, auto simp: stale_inv_def quiet_step_def keeps_budget_def keeps_demote demote_device_def)

text \<open>The log of publishes only grows.\<close>

definition growing_inv :: "(device_id \<times> QueuedMessage \<times> publish_outcome) list \<Rightarrow> DeliveryPump \<Rightarrow> bool" where
  "growing_inv ps p \<longleftrightarrow> prefix ps (published p)"

lemma growing_round: "drain_outcome env target p sig p' \<Longrightarrow> growing_inv ps p \<Longrightarrow> growing_inv ps p'"
  by (erule drain_outcome.cases) (simp_all add: growing_inv_def)

interpretation growing: pump_invariant env UNIV "growing_inv ps" for env ps
  by unfold_locales (simp_all add: growing_round, simp_all add: growing_inv_def quiet_step_def keeps_demote)

text \<open>Without insertions by other threads, a device that is no target keeps its queues.\<close>

definition apart_inv :: "pump_env \<Rightarrow> device_id \<Rightarrow> string \<Rightarrow> QueuedMessage list \<Rightarrow> DeliveryPump \<Rightarrow> bool" where
  "apart_inv env d dir v p \<longleftrightarrow> queue_inv (dp_queue p) \<and>
     ((\<forall>n. env_arrivals env n = []) \<longrightarrow> queue_view (dp_queue p) (d, dir) = v)"

lemma queue_run_Nil [simp]: "queue_run [] q = q"
  by (simp add: queue_run_def)

lemma apart_round:
  assumes inv: "apart_inv env d dir v p" and other: "pt_device_id target \<noteq> d"
    and out: "drain_outcome env target p sig p'"
  shows "apart_inv env d dir v p'"
proof -
  have "queue_view (remove (qm_id m) (dp_queue p)) (d, dir) = queue_view (dp_queue p) (d, dir)"
    if "peek_oldest (dp_queue p) (pt_device_id target) (dp_direction p) prio = Some m" for m prio
  proof (rule mq.discard_other)
    show "m \<in> set (queue_view (dp_queue p) (pt_device_id target, dp_direction p))"
      using inv that by (intro mq.peek_mem [where prio = prio]) (simp_all add: apart_inv_def queue_peek_def)
  qed (use inv other in \<open>simp_all add: apart_inv_def\<close>)
  from out this inv queue_inv_outcome [OF out] show ?thesis
    by (cases rule: drain_outcome.cases) (auto simp: apart_inv_def)
qed

lemma view_demote_other: "d \<noteq> d' \<Longrightarrow>
    queue_view (snd (demote_live_messages d' dir' q)) (d, dir) = queue_view q (d, dir)"
  by (simp add: queue_view_def select_demote_other)

interpretation apart: pump_invariant env "- {d}" "apart_inv env d dir v" for env d dir v
  by unfold_locales
    (auto simp: apart_round, auto simp: apart_inv_def quiet_step_def demote_device_def view_demote_other queue_inv_demote)

text \<open>
  Without insertions by other threads, a pending message stays in its queue until its publish was
  confirmed or its age limit had passed; only its live mark may be cleared.
\<close>

definition same_message :: "QueuedMessage \<Rightarrow> QueuedMessage \<Rightarrow> bool" where
  "same_message m m' \<longleftrightarrow> m\<lparr>qm_is_live := False\<rparr> = m'\<lparr>qm_is_live := False\<rparr>"

definition accounted :: "pump_env \<Rightarrow> device_id \<times> string \<Rightarrow> QueuedMessage \<Rightarrow> DeliveryPump \<Rightarrow> bool" where
  "accounted env k m p \<longleftrightarrow> (\<exists>m'. same_message m m' \<and>
     (m' \<in> set (queue_view (dp_queue p) k) \<or> (fst k, m', Confirmed) \<in> set (published p) \<or>
      (\<exists>n\<le>dp_tick p. expired_at m' (env_clock env n) \<and> (fst k, m', env_clock env n) \<in> set (dropped p))))"

definition kept_inv :: "pump_env \<Rightarrow> device_id \<times> string \<Rightarrow> QueuedMessage \<Rightarrow> DeliveryPump \<Rightarrow> bool" where
  "kept_inv env k m p \<longleftrightarrow> queue_inv (dp_queue p) \<and> dp_direction p = snd k \<and>
     ((\<forall>n. env_arrivals env n = []) \<longrightarrow> accounted env k m p)"

lemma removed_is_peeked:
  assumes "queue_inv q" "peek_oldest q d dir prio = Some m" "m' \<in> set (queue_view q k)"
    "m' \<notin> set (queue_view (remove (qm_id m) q) k)"
  shows "m' = m \<and> k = (d, dir)"
proof -
  from assms have m: "m \<in> set (queue_view q (d, dir))"
    by (intro mq.peek_mem [where prio = prio]) (simp_all add: queue_peek_def)
  from assms have eq: "qm_id m' = qm_id m" by (simp add: mq.view_discard)
  with mq.ident_disjoint [OF assms(1) _ assms(3) m] have "k = (d, dir)" by blast
  with eq mq.ident_distinct [OF assms(1), of k] assms(3) m show ?thesis
    by (auto simp: distinct_map inj_on_def)
qed

lemma accounted_mono:
  assumes "accounted env k m p" "dp_tick p \<le> dp_tick p'" "set (published p) \<subseteq> set (published p')" "set (dropped p) \<subseteq> set (dropped p')"
    "\<And>m'. m' \<in> set (queue_view (dp_queue p) k) \<Longrightarrow> accounted env k m' p'"
  shows "accounted env k m p'"
proof -
  from assms(1) obtain m' where m': "same_message m m'" "m' \<in> set (queue_view (dp_queue p) k) \<or>
      (fst k, m', Confirmed) \<in> set (published p) \<or>
      (\<exists>n\<le>dp_tick p. expired_at m' (env_clock env n) \<and> (fst k, m', env_clock env n) \<in> set (dropped p))"
    by (auto simp: accounted_def)
  then consider "m' \<in> set (queue_view (dp_queue p) k)" | "(fst k, m', Confirmed) \<in> set (published p')"
    | n where "n \<le> dp_tick p'" "expired_at m' (env_clock env n)" "(fst k, m', env_clock env n) \<in> set (dropped p')"
    using assms(2-4) order_trans by blast
  then show ?thesis
  proof cases
    case 1
    from assms(5) [OF this] m'(1) show ?thesis by (auto simp: accounted_def same_message_def)
  qed (use m'(1) in \<open>auto simp: accounted_def\<close>)
qed

lemma accounted_here: "m \<in> set (queue_view (dp_queue p) k) \<Longrightarrow> accounted env k m p"
  by (auto simp: accounted_def same_message_def)

lemma kept_round:
  assumes inv: "kept_inv env k m p" and out: "drain_outcome env target p sig p'"
  shows "kept_inv env k m p'"
proof -
  have dir: "dp_direction p' = dp_direction p" using wf_outcome(1) [OF out] by (simp add: pump_config_def)
  have pub: "set (published p) \<subseteq> set (published p')" "set (dropped p) \<subseteq> set (dropped p')"
    using out by (cases rule: drain_outcome.cases; auto)+
  have "accounted env k m' p'" if m': "m' \<in> set (queue_view (dp_queue p) k)" and "\<forall>n. env_arrivals env n = []" for m'
  proof (cases "m' \<in> set (queue_view (dp_queue p') k)")
    case True
    then show ?thesis by (rule accounted_here)
  next
    case False
    from inv have q: "queue_inv (dp_queue p)" by (simp add: kept_inv_def)
    have sm: "same_message m' m'" by (simp add: same_message_def)
    from out show ?thesis
    proof (cases rule: drain_outcome.cases)
      case (Stale m1)
      from removed_is_peeked [OF q Stale(2) m'] False Stale have "m' = m1" "k = (pt_device_id target, dp_direction p)"
        by simp_all
      with Stale sm show ?thesis by (auto simp: accounted_def)
    next
      case (Sent m1 n)
      from removed_is_peeked [OF q Sent(2) m'] False Sent that(2) have "m' = m1" "k = (pt_device_id target, dp_direction p)"
        by simp_all
      with Sent sm show ?thesis by (auto simp: accounted_def)
    qed (use False m' that(2) in auto)
  qed
  with accounted_mono [OF _ tick_outcome [OF out] pub] inv dir queue_inv_outcome [OF out] show ?thesis
    by (simp add: kept_inv_def)
qed

lemma same_message_demoted: "m \<in> set (queue_view q k) \<Longrightarrow>
    \<exists>m'\<in>set (queue_view (snd (demote_live_messages d dir q)) k). same_message m m'"
proof (cases "k = (d, dir)")
  case True
  assume "m \<in> set (queue_view q k)"
  with True show ?thesis
    by (auto simp: queue_view_def select_demote_same same_message_def queued_message_def)
next
  case False
  assume "m \<in> set (queue_view q k)"
  with False show ?thesis
    by (cases k) (auto simp: queue_view_def select_demote_other same_message_def)
qed

lemma kept_demote: "kept_inv env k m p \<Longrightarrow> kept_inv env k m (demote_device d p)"
proof -
  assume inv: "kept_inv env k m p"
  have "accounted env k m' (demote_device d p)" if "m' \<in> set (queue_view (dp_queue p) k)" for m'
    using same_message_demoted [OF that, of d "dp_direction p"] by (auto simp: accounted_def demote_device_def)
  with inv accounted_mono [of env k m p "demote_device d p"] show ?thesis
    by (auto simp: kept_inv_def keeps_demote demote_device_def queue_inv_demote)
qed

lemma kept_quiet: "kept_inv env k m p \<Longrightarrow> quiet_step p p' \<Longrightarrow> kept_inv env k m p'"
  using accounted_mono [of env k m p p']
  by (auto simp: kept_inv_def quiet_step_def keeps_budget_def pump_config_def accounted_here)

interpretation kept: pump_invariant env UNIV "kept_inv env k m" for env k m
  by unfold_locales (rule kept_round kept_demote kept_quiet; assumption)+

section \<open>Runs of the scheduler thread\<close>

lemma replay_queue [simp]: "rate_inv (p\<lparr>dp_queue := q\<rparr>) = rate_inv p"
  by (simp add: rate_inv_def replay_times_def controlled_replay_enabled_def)

lemma pass_inv_keeps: "keeps_budget p p' \<Longrightarrow> dp_queue p' = dp_queue p \<Longrightarrow> pass_inv env p \<Longrightarrow> pass_inv env p'"
  using rate_keeps by (auto simp: pass_inv_def)

lemma run_passes_keeps:
  "pump_wf p \<Longrightarrow> pass_inv env p \<Longrightarrow>
    \<exists>p'. run_passes env passes p = Some p' \<and> pass_inv env p' \<and> pump_config p' = pump_config p"
proof (induction passes arbitrary: p)
  case (Cons pass passes)
  obtain ops targets where pass: "pass = (ops, targets)" by (cases pass)
  define p0 where "p0 = p\<lparr>dp_queue := queue_run ops (dp_queue p)\<rparr>"
  define p1 where "p1 = snd (stop_event_is_set env p0)"
  have k: "keeps_budget p p1" unfolding p1_def p0_def by (rule keeps_budget_trans [OF keeps_queue keeps_stop])
  have "pass_inv env p0" using Cons.prems by (simp add: pass_inv_def p0_def queue_inv_run)
  then have inv1: "pass_inv env p1" unfolding p1_def by (rule pass_inv_keeps [OF keeps_stop, rotated]) simp
  have wf1: "pump_wf p1" using Cons.prems wf_keeps [OF k] by simp
  show ?case
  proof (cases "env_stop env (dp_tick p)")
    case True
    with inv1 keeps_fields(4) [OF k] show ?thesis
      by (simp add: pass case_prod_beta Let_def p1_def p0_def stop_event_is_set_def)
  next
    case False
    from rate.run_once_keeps [OF wf1 inv1] obtain d p2 where
      p2: "run_once env targets p1 = Some (d, p2)" "pass_inv env p2" "pump_config p2 = pump_config p1" by blast
    define p3 where "p3 = (if d then p2 else snd (next_wait_seconds env p2))"
    have k3: "keeps_budget p2 p3" by (simp add: p3_def keeps_wait)
    have inv3: "pass_inv env p3" using p2(2) by (rule pass_inv_keeps [OF k3, rotated]) (simp add: p3_def)
    have "pump_wf p3" using wf1 wf_config [OF p2(3)] wf_keeps [OF k3] by simp
    from Cons.IH [OF this inv3] obtain p' where "run_passes env passes p3 = Some p'" "pass_inv env p'"
      "pump_config p' = pump_config p3" by blast
    with False p2 keeps_fields(4) [OF k] keeps_fields(4) [OF k3] show ?thesis
      by (auto simp: pass case_prod_beta Let_def p1_def p0_def p3_def stop_event_is_set_def)
  qed
qed simp

lemma fresh_pump:
  assumes "init_pump dir q c2d rd rg delay j = Inr p"
  shows "pump_wf p" "replay_times p = []" "dp_queue p = q" "rate_inv p"
    "dp_replay_rate_global p = rg" "dp_direction p = dir" "published p = []" "dp_tick p = 0"
  using assms by (auto simp: init_pump_def pump_wf_def replay_times_def rate_inv_def published_def List.map_filter_def
      split: if_splits option.splits)

text \<open>Gaps between neighbours add up.\<close>

lemma spaced_nth:
  assumes "sorted_wrt (\<lambda>t t'. t + g \<le> t') ts" "(0 :: rat) \<le> g" "i \<le> j" "j < length ts"
  shows "ts ! i + of_nat (j - i) * g \<le> ts ! j"
  using assms(3,4)
proof (induction j)
  case (Suc j)
  show ?case
  proof (cases "i = Suc j")
    case False
    with Suc have "ts ! i + of_nat (j - i) * g \<le> ts ! j" by simp
    moreover from assms(1) Suc.prems have "ts ! j + g \<le> ts ! Suc j" by (simp add: sorted_wrt_iff_nth_less)
    moreover from False Suc.prems have "Suc j - i = Suc (j - i)" by simp
    ultimately show ?thesis by (simp add: algebra_simps)
  qed simp
qed simp

section \<open>Fairness and waiting\<close>

lemma rotated_perm: "mset (fst (rotated_targets ts p)) = mset ts"
proof -
  have "mset (drop n ts) + mset (take n ts) = mset ts" for n
    by (metis add.commute append_take_drop_id mset_append)
  then show ?thesis by (simp add: rotated_targets_def Let_def)
qed

lemma rotated_first:
  assumes "ts \<noteq> []"
  shows "hd (fst (rotated_targets ts p)) = ts ! (dp_round_robin_offset p mod length ts)"
proof -
  let ?s = "dp_round_robin_offset p mod length ts"
  have "?s < length ts" using assms by simp
  then have "hd (drop ?s ts @ take ?s ts) = ts ! ?s" by (simp add: hd_drop_conv_nth)
  with assms show ?thesis by (simp add: rotated_targets_def Let_def)
qed

text \<open>The scheduling order of \<open>n\<close> consecutive passes over the same targets.\<close>

fun rotations :: "nat \<Rightarrow> PumpTarget list \<Rightarrow> DeliveryPump \<Rightarrow> PumpTarget list list" where
  "rotations 0 ts p = []"
| "rotations (Suc n) ts p = (let (order, p') = rotated_targets ts p in order # rotations n ts p')"

lemma rotations_nth:
  "ts \<noteq> [] \<Longrightarrow> i < n \<Longrightarrow> length (rotations n ts p) = n \<and>
    hd (rotations n ts p ! i) = ts ! ((dp_round_robin_offset p + i) mod length ts)"
proof (induction n arbitrary: i p)
  case (Suc n)
  let ?p' = "snd (rotated_targets ts p)"
  have off: "dp_round_robin_offset ?p' = (dp_round_robin_offset p + 1) mod length ts"
    using Suc.prems by (simp add: rotated_targets_def Let_def)
  have len: "length (rotations n ts ?p') = n" using Suc by (cases n) auto
  show ?case
  proof (cases i)
    case 0
    with Suc.prems rotated_first [of ts p] len show ?thesis by (simp add: case_prod_beta)
  next
    case (Suc j)
    with Suc.IH [of j ?p'] Suc.prems off len show ?thesis by (simp add: case_prod_beta mod_simps)
  qed
qed simp

lemma mod_hits: "0 < n \<Longrightarrow> i < n \<Longrightarrow> \<exists>k<n. (off + k) mod n = (i :: nat)"
proof -
  assume n: "0 < n" and i: "i < n"
  let ?k = "(i + (n - off mod n)) mod n"
  have "(off + ?k) mod n = (off mod n + (i + (n - off mod n))) mod n" by (simp add: mod_simps)
  also have "off mod n + (i + (n - off mod n)) = i + n" using mod_less_divisor [OF n, of off] by simp
  also have "(i + n) mod n = i" using i by simp
  finally show ?thesis using n by (intro exI [of _ ?k]) simp
qed

lemma wait_bounds: "MIN_SCHEDULER_WAIT_SECONDS \<le> fst (next_wait_seconds env p) \<and>
    fst (next_wait_seconds env p) \<le> IDLE_POLL_INTERVAL_SECONDS"
proof -
  have "MIN_SCHEDULER_WAIT_SECONDS \<le> IDLE_POLL_INTERVAL_SECONDS" by (simp add: relay_defs)
  then show ?thesis unfolding next_wait_seconds_def Let_def case_prod_beta by (auto simp: max_def)
qed

section \<open>Properties\<close>

text \<open>A small system for the witnesses: two queued rows, one with an age limit, and a steady environment.\<close>

definition demo_env :: pump_env where
  "demo_env = \<lparr>env_clock = (\<lambda>n. 20), env_random = (\<lambda>n. 0), env_publish = (\<lambda>n. Confirmed),
     env_stop = (\<lambda>n. False), env_arrivals = (\<lambda>n. [])\<rparr>"

definition demo_pump :: DeliveryPump where
  "demo_pump = (case init_pump ''up'' demo_queue False (Some 2) (Some 4) 0 0 of Inr p \<Rightarrow> p)"

lemma demo_pump_init: "init_pump ''up'' demo_queue False (Some 2) (Some 4) 0 0 = Inr demo_pump"
  by (simp add: demo_pump_def init_pump_def)

lemma demo_env_ok: "env_ok demo_env" "\<forall>n. env_arrivals demo_env n = []"
  by (simp_all add: env_ok_def demo_env_def mono_def)

lemmas demo_pump_facts = fresh_pump [OF demo_pump_init]

text \<open>
  C4: Over any run of the scheduler thread, with any insertions by other threads, the run does not
  raise and the backlog messages it publishes with confirmation keep to the global rate: the \<open>j\<close>-th is
  published at least \<open>(j - i) / rate\<close> seconds after the \<open>i\<close>-th, jitter included. The times are those of the
  publishes themselves, as the log of the run has them; the clock is assumed not to run backwards and
  random draws not to be negative.
\<close>

theorem replay_rate_respected:
  assumes "init_pump dir q c2d rd (Some r) delay jitter = Inr p" "queue_inv q" "env_ok env"
  shows "\<exists>p'. run_passes env passes p = Some p' \<and>
    (\<forall>i j. i \<le> j \<and> j < length (replay_times p') \<longrightarrow>
       replay_times p' ! i + of_nat (j - i) * (1 / r) \<le> replay_times p' ! j)"
proof -
  note f = fresh_pump [OF assms(1)]
  have "pass_inv env p" using f assms(2) by (simp add: pass_inv_def)
  from run_passes_keeps [OF f(1) this] obtain p' where
    p': "run_passes env passes p = Some p'" "pass_inv env p'" "pump_config p' = pump_config p" by blast
  then have "sorted_wrt (\<lambda>t t'. t + 1 / r \<le> t') (replay_times p')"
    using assms(3) f(5) by (auto simp: pass_inv_def rate_inv_def pump_config_def)
  moreover have "0 \<le> 1 / r" using f(1,5) by (auto simp: pump_wf_def split: option.splits)
  ultimately show ?thesis using p'(1) spaced_nth by blast
qed

theorem replay_rate_respected_witness:
  "\<exists>p'. run_passes demo_env [([Remove 1], [\<lparr>pt_device_id = ''F1'', pt_connected = True, pt_replay_ready = True\<rparr>])] demo_pump =
      Some p' \<and>
    (\<forall>i j. i \<le> j \<and> j < length (replay_times p') \<longrightarrow>
       replay_times p' ! i + of_nat (j - i) * (1 / 4) \<le> replay_times p' ! j)"
  by (rule replay_rate_respected [OF demo_pump_init demo_queue_inv(1) demo_env_ok(1)])

text \<open>
  C6: A scheduling pass loses nothing of its own accord: while no other thread inserts into or removes from
  the queue during the pass, every message pending before the pass is afterwards still pending (perhaps no
  longer marked live), or its publish to its own device was confirmed, or the pass dropped it for its own
  device at a time it read from the clock and at which the age limit of the message had passed.
\<close>

theorem pass_loses_nothing:
  assumes "pump_wf p" "queue_inv (dp_queue p)" "\<forall>n. env_arrivals env n = []"
    "m \<in> set (queue_view (dp_queue p) (d, dp_direction p))"
  shows "\<exists>delivered p' m'. run_once env targets p = Some (delivered, p') \<and> same_message m m' \<and>
    (m' \<in> set (queue_view (dp_queue p') (d, dp_direction p)) \<or> (d, m', Confirmed) \<in> set (published p') \<or>
     (\<exists>n\<le>dp_tick p'. expired_at m' (env_clock env n) \<and> (d, m', env_clock env n) \<in> set (dropped p')))"
proof -
  have "kept_inv env (d, dp_direction p) m p" using assms by (simp add: kept_inv_def accounted_here)
  from kept.run_once_keeps [OF assms(1) this, of targets] assms(3) show ?thesis
    by (auto simp: kept_inv_def accounted_def)
qed

theorem pass_loses_nothing_witness:
  "let m = hd (queue_view demo_queue (''F1'', ''up''))
   in \<exists>delivered p' m'. run_once demo_env [\<lparr>pt_device_id = ''F1'', pt_connected = False, pt_replay_ready = True\<rparr>] demo_pump =
        Some (delivered, p') \<and> same_message m m' \<and>
      (m' \<in> set (queue_view (dp_queue p') (''F1'', ''up'')) \<or> (''F1'', m', Confirmed) \<in> set (published p') \<or>
       (\<exists>n\<le>dp_tick p'. expired_at m' (env_clock demo_env n) \<and> (''F1'', m', env_clock demo_env n) \<in> set (dropped p')))"
proof -
  have "queue_view demo_queue (''F1'', ''up'') \<noteq> []" by code_simp
  then have "hd (queue_view demo_queue (''F1'', ''up'')) \<in> set (queue_view (dp_queue demo_pump) (''F1'', dp_direction demo_pump))"
    by (simp add: demo_pump_facts)
  from pass_loses_nothing [OF demo_pump_facts(1) _ demo_env_ok(2) this] demo_queue_inv(1) show ?thesis
    by (simp add: demo_pump_facts Let_def)
qed

text \<open>
  C7: A message whose age limit has passed when a scheduling pass begins is not published by that
  pass, to any device.
\<close>

theorem stale_never_published:
  assumes "pump_wf p" "env_ok env" "expired_at m (env_clock env (dp_tick p))"
  shows "\<exists>delivered p'. run_once env targets p = Some (delivered, p') \<and>
    filter (\<lambda>(d, m', x). m' = m) (drop (length (published p)) (published p')) = []"
proof -
  let ?k = "length (filter (\<lambda>(d, m', x). m' = m) (published p))"
  have "stale_inv env (dp_tick p) m ?k p" by (simp add: stale_inv_def)
  from stale.run_once_keeps [OF assms(1) this, of targets] obtain d p' where
    p': "run_once env targets p = Some (d, p')" "stale_inv env (dp_tick p) m ?k p'" by auto
  have "growing_inv (published p) p" by (simp add: growing_inv_def)
  from growing.run_once_keeps [where env = env, OF assms(1) this, of targets] p'(1)
  obtain new where "published p' = published p @ new" by (auto simp: growing_inv_def prefix_def)
  with p' assms(2,3) show ?thesis by (auto simp: stale_inv_def)
qed

theorem stale_never_published_witness:
  "let m = \<lparr>qm_id = 9, qm_topic = ''t'', qm_payload = ''x'', qm_qos = 1, qm_created_at = 0,
         qm_max_age_seconds = Some 5, qm_is_live = False\<rparr>
   in \<exists>delivered p'. run_once demo_env [] demo_pump = Some (delivered, p') \<and>
        filter (\<lambda>(d, m', x). m' = m) (drop (length (published demo_pump)) (published p')) = []"
  unfolding Let_def
  by (rule stale_never_published [OF demo_pump_facts(1) demo_env_ok(1)]) (simp add: expired_at_def demo_env_def)

text \<open>
  Devices are isolated: when no other thread uses the queue, a pass over targets that do not
  include a device leaves all of that device's queues exactly as they were.
\<close>

theorem pass_isolates_devices:
  assumes "pump_wf p" "queue_inv (dp_queue p)" "\<forall>n. env_arrivals env n = []"
    "d \<notin> pt_device_id ` set targets"
  shows "\<exists>delivered p'. run_once env targets p = Some (delivered, p') \<and>
    queue_view (dp_queue p') (d, dir) = queue_view (dp_queue p) (d, dir)"
proof -
  have "apart_inv env d dir (queue_view (dp_queue p) (d, dir)) p" using assms(2) by (simp add: apart_inv_def)
  from apart.run_once_keeps [OF assms(1) this, of targets] assms(3,4) show ?thesis
    by (auto simp: apart_inv_def)
qed

theorem pass_isolates_devices_witness:
  "\<exists>delivered p'. run_once demo_env [\<lparr>pt_device_id = ''F1'', pt_connected = True, pt_replay_ready = True\<rparr>] demo_pump =
      Some (delivered, p') \<and>
    queue_view (dp_queue p') (''F2'', ''up'') = queue_view (dp_queue demo_pump) (''F2'', ''up'')"
  by (rule pass_isolates_devices) (simp_all add: demo_pump_facts demo_queue_inv demo_env_ok)

text \<open>
  Scheduling is fair: every pass visits every target once, and among as many consecutive passes
  as there are targets each target is visited first in one of them.
\<close>

theorem every_target_gets_first_turn:
  assumes "i < length ts"
  shows "mset (fst (rotated_targets ts p)) = mset ts \<and>
    (\<exists>k<length ts. hd (rotations (length ts) ts p ! k) = ts ! i)"
proof -
  from assms have ne: "ts \<noteq> []" by auto
  with assms mod_hits [of "length ts" i "dp_round_robin_offset p"] obtain k where
    "k < length ts" "(dp_round_robin_offset p + k) mod length ts = i" by auto
  with rotations_nth [OF ne, of k "length ts" p] rotated_perm show ?thesis by auto
qed

theorem every_target_gets_first_turn_witness:
  "let ts = [\<lparr>pt_device_id = ''A'', pt_connected = True, pt_replay_ready = True\<rparr>,
             \<lparr>pt_device_id = ''B'', pt_connected = True, pt_replay_ready = True\<rparr>]
   in mset (fst (rotated_targets ts demo_pump)) = mset ts \<and>
      (\<exists>k<length ts. hd (rotations (length ts) ts demo_pump ! k) = ts ! 1)"
  unfolding Let_def by (rule every_target_gets_first_turn) simp

end
