(* ===== verification/Mqtt_Bridge.thy ===== *)
theory Mqtt_Bridge
  imports Device_Manager Device_Control Delivery_Pump
begin

text \<open>
  \<^verbatim>\<open>mqtt_bridge.py\<close>: the relay's client of the local broker, the routing of the feeders' messages and the
  targets of both delivery pumps. The device manager is a part of the bridge's state, and so is the
  controller, when attached, for its acknowledgement handler. What the local client
  published is kept as a list, and so are the subscriptions of its session, which the broker keeps across
  reconnections. Whether a client is connected and what Paho answers to a publish are arguments.

  The filter of an MQTT subscription is matched level by level: a plus sign stands for one level, a
  final number sign for the rest. The lemmas show that the two directions of the bridge never overlap in
  their topics, so that it cannot consume its own output, that schedule acknowledgements never leave the
  house and that messages of devices that are not bridged change nothing but the list of warnings.
\<close>

definition LOCAL_CLIENT_ID :: string where [relay_defs]: "LOCAL_CLIENT_ID = ''relay-local''"
definition ANY_DEVICE_POST_FILTER :: string where "ANY_DEVICE_POST_FILTER = ''dl/+/+/device/+/post''"

section \<open>State\<close>

record MqttBridge =
  br_manager :: DeviceManager
  br_controller :: "DeviceControlController option"
  br_unknown_devices_seen :: "string list"
  br_local_published :: "(string \<times> bytes) list"
  br_subscriptions :: "string list"

text \<open>The broker may have kept subscriptions of an earlier session.\<close>

definition init_bridge :: "string list \<Rightarrow> DeviceManager \<Rightarrow> MqttBridge" where
  "init_bridge kept manager = \<lparr>br_manager = manager, br_controller = None, br_unknown_devices_seen = [],
     br_local_published = [], br_subscriptions = kept\<rparr>"

definition set_sound_switch_controller :: "DeviceControlController \<Rightarrow> MqttBridge \<Rightarrow> MqttBridge" where
  "set_sound_switch_controller c b = b\<lparr>br_controller := Some c\<rparr>"

definition subscribe :: "string \<Rightarrow> MqttBridge \<Rightarrow> MqttBridge" where
  "subscribe topic_filter b =
     b\<lparr>br_subscriptions := (if topic_filter \<in> set (br_subscriptions b) then br_subscriptions b else br_subscriptions b @ [topic_filter])\<rparr>"

definition unsubscribe :: "string \<Rightarrow> MqttBridge \<Rightarrow> MqttBridge" where
  "unsubscribe topic_filter b = b\<lparr>br_subscriptions := removeAll topic_filter (br_subscriptions b)\<rparr>"

text \<open>Subscribing once before any feeder connects; an \<open>OSError\<close> leaves the session as it was.\<close>

definition prime_local_subscription :: "bool \<Rightarrow> MqttBridge \<Rightarrow> MqttBridge" where
  "prime_local_subscription reachable b = (if reachable then subscribe ANY_DEVICE_POST_FILTER b else b)"

section \<open>Pump targets\<close>

definition upstream_targets :: "(nat \<Rightarrow> bool) \<Rightarrow> MqttBridge \<Rightarrow> PumpTarget list" where
  "upstream_targets is_up b =
     List.map_filter (\<lambda>x. map_option (\<lambda>client. \<lparr>pt_device_id = dx_device_id x, pt_connected = is_up client,
         pt_replay_ready = upstream_replay_ready x\<rparr>) (dx_upstream_client x))
       (list_devices (br_manager b))"

definition local_targets :: "bool \<Rightarrow> MqttBridge \<Rightarrow> PumpTarget list" where
  "local_targets is_up b =
     map (\<lambda>x. \<lparr>pt_device_id = dx_device_id x, pt_connected = is_up, pt_replay_ready = True\<rparr>) (list_devices (br_manager b))"

section \<open>Publishing a command\<close>

definition local_publish :: "string \<Rightarrow> bytes \<Rightarrow> MqttBridge \<Rightarrow> MqttBridge" where
  "local_publish topic payload b = b\<lparr>br_local_published := br_local_published b @ [(topic, payload)]\<rparr>"

definition publish_sound_switch :: "bool \<Rightarrow> publish_outcome \<Rightarrow> string \<Rightarrow> string \<Rightarrow> bytes \<Rightarrow> MqttBridge \<Rightarrow> bool \<times> MqttBridge" where
  "publish_sound_switch is_up outcome device_id product_id payload b =
     (if \<not> is_up then (False, b)
      else
        let b1 = local_publish (sub_topic device_id ''service'' product_id) payload b
        in (case outcome of Rejected \<Rightarrow> (False, b) | WaitFailed \<Rightarrow> (False, b1) | Unconfirmed \<Rightarrow> (False, b1) | Confirmed \<Rightarrow> (True, b1)))"

section \<open>Callbacks of the local client\<close>

definition with_manager_telemetry :: "(RelayTelemetry \<Rightarrow> RelayTelemetry) \<Rightarrow> MqttBridge \<Rightarrow> MqttBridge" where
  "with_manager_telemetry f b =
     b\<lparr>br_manager := (br_manager b)\<lparr>dm_stores := (dm_stores (br_manager b))\<lparr>sx_telemetry := f (sx_telemetry (dm_stores (br_manager b)))\<rparr>\<rparr>\<rparr>"

definition legacy_filter :: "DeviceContext \<Rightarrow> string" where
  "legacy_filter x = topic_prefix (dx_device_id x) (dx_product_id x) @ ''/#''"

definition on_local_connect :: "seconds \<Rightarrow> MqttBridge \<Rightarrow> MqttBridge" where
  "on_local_connect now b =
     subscribe ANY_DEVICE_POST_FILTER
       (fold (\<lambda>x. unsubscribe (legacy_filter x)) (list_devices (br_manager b)) (with_manager_telemetry (local_connected now) b))"

definition on_local_disconnect :: "seconds \<Rightarrow> MqttBridge \<Rightarrow> MqttBridge" where
  "on_local_disconnect now b = with_manager_telemetry (local_disconnected now) b"

definition warn_unknown_device_once :: "string \<Rightarrow> MqttBridge \<Rightarrow> MqttBridge" where
  "warn_unknown_device_once device_id b =
     (if device_id \<in> set (br_unknown_devices_seen b) then b
      else b\<lparr>br_unknown_devices_seen := br_unknown_devices_seen b @ [device_id]\<rparr>)"

definition forget_unknown_device :: "string \<Rightarrow> MqttBridge \<Rightarrow> MqttBridge" where
  "forget_unknown_device device_id b = b\<lparr>br_unknown_devices_seen := removeAll device_id (br_unknown_devices_seen b)\<rparr>"

text \<open>The opt-in line about a starting device: its identifier, if any, and its sanitized body.\<close>

definition log_device_start_event :: "bool \<Rightarrow> bytes \<Rightarrow> (string \<times> json) option" where
  "log_device_start_event enabled payload =
     (if \<not> enabled then None
      else (case json_loads payload of
        Some (JObj d) \<Rightarrow>
          if dict_get d ''cmd'' = Some (JStr ''DEVICE_START_EVENT'')
          then Some (case str_field d ''uuid'' of Some u \<Rightarrow> u | None \<Rightarrow> ''none'', sanitize_value (JObj d))
          else None
      | _ \<Rightarrow> None))"

text \<open>An acknowledgement is shown to the controller before the device's context sees the message.\<close>

definition observe_ack :: "string \<Rightarrow> string \<Rightarrow> bytes \<Rightarrow> MqttBridge \<Rightarrow> LocalControlAckRoute \<times> MqttBridge" where
  "observe_ack device_id topic payload b =
     (case br_controller b of
       None \<Rightarrow> (NOT_MATCHED, b)
     | Some c \<Rightarrow> (case observe_device_message device_id topic payload c of (route, c1) \<Rightarrow> (route, b\<lparr>br_controller := Some c1\<rparr>)))"

text \<open>Camera identifiers the context's responder reported while it handled the message.\<close>

definition new_uids :: "DeviceContext \<Rightarrow> DeviceContext \<Rightarrow> (string \<times> string) list" where
  "new_uids x x1 =
     (case (dx_responder x, dx_responder x1) of
       (Some r, Some r1) \<Rightarrow> drop (length (lr_uid_calls r)) (lr_uid_calls r1)
     | _ \<Rightarrow> [])"

definition route_to_context :: "seconds \<Rightarrow> bool \<Rightarrow> string \<Rightarrow> zone \<Rightarrow> DevicePresenceTracker \<Rightarrow> string \<Rightarrow> bytes \<Rightarrow> int \<Rightarrow> DeviceContext
    \<Rightarrow> MqttBridge \<Rightarrow> MqttBridge option" where
  "route_to_context now cache_ok fresh_id zone presence topic payload qos x b =
     (case handle_local_message now cache_ok fresh_id zone topic payload qos (x, dm_stores (br_manager b)) of
       None \<Rightarrow> None
     | Some (action, x1, s1) \<Rightarrow>
         let m1 = fold (\<lambda>(d, uid). register_camera_uid now presence d uid) (new_uids x x1)
                    (put_context (dx_device_id x) (x1, s1) (br_manager b));
             b1 = b\<lparr>br_manager := m1\<rparr>
         in Some (case action of
              None \<Rightarrow> b1
            | Some a \<Rightarrow>
                (case (ra_response_topic a, ra_response_payload a) of
                  (Some t, Some p) \<Rightarrow> local_publish t p b1
                | _ \<Rightarrow> b1)))"

definition on_local_message :: "seconds \<Rightarrow> bool \<Rightarrow> string \<Rightarrow> zone \<Rightarrow> DevicePresenceTracker \<Rightarrow> string \<Rightarrow> bytes \<Rightarrow> int
    \<Rightarrow> MqttBridge \<Rightarrow> MqttBridge option" where
  "on_local_message now cache_ok fresh_id zone presence topic payload qos b =
     (case parse_topic topic of
       None \<Rightarrow> Some b
     | Some address \<Rightarrow>
         if \<not> ta_is_post address then Some b
         else (case get_by_device_id (ta_device_id address) (br_manager b) of
           None \<Rightarrow> Some (warn_unknown_device_once (ta_device_id address) b)
         | Some x \<Rightarrow>
             (case observe_ack (ta_device_id address) topic payload b of (route, b1) \<Rightarrow>
               if route = LOCAL_ONLY then Some b1
               else route_to_context now cache_ok fresh_id zone presence topic payload qos x b1)))"

section \<open>Topic filters\<close>

fun levels_match :: "string list \<Rightarrow> string list \<Rightarrow> bool" where
  "levels_match [] ts \<longleftrightarrow> ts = []"
| "levels_match (f # fs) ts \<longleftrightarrow>
     (if f = ''#'' \<and> fs = [] then True
      else (case ts of [] \<Rightarrow> False | t # ts' \<Rightarrow> (f = ''+'' \<or> f = t) \<and> levels_match fs ts'))"

definition topic_matches :: "string \<Rightarrow> string \<Rightarrow> bool" where
  "topic_matches topic_filter topic \<longleftrightarrow> levels_match (split_on CHR ''/'' topic_filter) (split_on CHR ''/'' topic)"

text \<open>A filter whose last level is a plain name only matches topics with that last level.\<close>

lemma levels_match_last:
  "levels_match fs ts \<Longrightarrow> fs \<noteq> [] \<Longrightarrow> last fs \<notin> {''#'', ''+''} \<Longrightarrow> ts \<noteq> [] \<and> last ts = last fs"
proof (induction fs arbitrary: ts)
  case (Cons f fs)
  show ?case
  proof (cases "fs = []")
    case True
    with Cons.prems show ?thesis by (cases ts) (simp_all split: if_splits)
  next
    case False
    with Cons.prems obtain t ts' where ts: "ts = t # ts'" "levels_match fs ts'" by (cases ts) auto
    from Cons.IH [OF this(2)] False Cons.prems(3) ts show ?thesis by simp
  qed
qed simp

lemma split_on_sep: "split_on c (s @ c # w) = split_on c s @ split_on c w"
proof (induction s)
  case (Cons a s)
  then show ?case using split_on_not_Nil [of c s] by (cases "split_on c s") auto
qed simp

lemma split_on_last: "c \<notin> set w \<Longrightarrow> last (split_on c (s @ c # w)) = w"
  by (simp add: split_on_sep split_on_single)

lemma sub_topic_last: "last (split_on CHR ''/'' (sub_topic d cat prd)) = ''sub''"
  using split_on_last [of "CHR ''/''" "''sub''" "topic_prefix d prd @ ''/'' @ DEVICE_SEGMENT @ ''/'' @ cat"]
  by (simp add: sub_topic_def relay_defs)

lemma post_filter_last: "topic_matches ANY_DEVICE_POST_FILTER t \<Longrightarrow> last (split_on CHR ''/'' t) = ''post''"
  using levels_match_last [of "split_on CHR ''/'' ANY_DEVICE_POST_FILTER" "split_on CHR ''/'' t"]
  by (auto simp: topic_matches_def ANY_DEVICE_POST_FILTER_def)

lemma no_own_output [simp]: "\<not> topic_matches ANY_DEVICE_POST_FILTER (sub_topic d cat prd)"
  using post_filter_last sub_topic_last by fastforce

lemma sub_filter_matches_no_post: "topic_matches (sub_topic d cat prd) t \<Longrightarrow> \<not> topic_matches ANY_DEVICE_POST_FILTER t"
  using levels_match_last [of "split_on CHR ''/'' (sub_topic d cat prd)" "split_on CHR ''/'' t"] sub_topic_last post_filter_last
  by (fastforce simp: topic_matches_def split_on_not_Nil)

section \<open>Routing\<close>

lemma handle_local_identity:
  assumes "handle_local_message now ok i zone topic payload qos (x, s) = Some (a, x', s')"
  shows "dx_identity x' = dx_identity x"
proof -
  have e: "enqueue_message now dir topic payload qos c2d ys = (x', s') \<Longrightarrow> dx_identity x' = dx_identity (fst ys)" for dir c2d ys
    by (auto simp: enqueue_message_def case_prod_beta Let_def split: if_splits)
  from assms show ?thesis
    by (auto simp: handle_local_message_def note_message_def with_responder_def Let_def case_prod_beta split: option.splits if_splits dest!: e)
qed

lemma handle_local_queue:
  assumes "handle_local_message now ok i zone topic payload qos (x, s) = Some (a, x', s')"
  shows "sx_queue s' \<in> {sx_queue s, queue_for_cloud now x topic payload qos (sx_queue s)}"
proof -
  obtain action where ok: "ok" and d: "decision_on now i zone topic payload (x, s) = Some action"
    using assms local_message_raises [of now ok i zone topic payload qos x s] by auto
  from local_message_route [OF d, of qos] assms ok show ?thesis by (auto split: if_splits)
qed

text \<open>Only a message of a bridged device reaches a context, and that is the context of its own topic.\<close>

lemma on_local_message_cases:
  assumes "on_local_message now ok i zone presence topic payload qos b = Some b'"
  obtains (ignored) "br_manager b' = br_manager b" "br_local_published b' = br_local_published b"
  | (routed) e x a x' s' b1 where "dict_get (dm_contexts (br_manager b)) e = Some x" "br_manager b1 = br_manager b"
      "br_local_published b1 = br_local_published b"
      "handle_local_message now ok i zone topic payload qos (x, dm_stores (br_manager b)) = Some (a, x', s')"
      "route_to_context now ok i zone presence topic payload qos x b1 = Some b'" "\<exists>adr. parse_topic topic = Some adr \<and> ta_device_id adr = e"
proof (cases "parse_topic topic")
  case None
  with assms ignored show thesis by (simp add: on_local_message_def)
next
  case (Some adr)
  show thesis
  proof (cases "ta_is_post adr")
    case False
    with assms Some ignored show thesis by (simp add: on_local_message_def)
  next
    case post: True
    show thesis
    proof (cases "get_by_device_id (ta_device_id adr) (br_manager b)")
      case None
      with assms Some post ignored show thesis by (auto simp: on_local_message_def warn_unknown_device_once_def split: if_splits)
    next
      case (Some x)
      obtain route b1 where o: "observe_ack (ta_device_id adr) topic payload b = (route, b1)" by force
      have keep: "br_manager b1 = br_manager b" "br_local_published b1 = br_local_published b"
        using o by (auto simp: observe_ack_def split: option.splits prod.splits)
      show thesis
      proof (cases "route = LOCAL_ONLY")
        case True
        with assms Some post o keep ignored \<open>parse_topic topic = Some adr\<close> show thesis by (simp add: on_local_message_def)
      next
        case False
        with assms Some post o \<open>parse_topic topic = Some adr\<close>
        have r: "route_to_context now ok i zone presence topic payload qos x b1 = Some b'" by (simp add: on_local_message_def)
        then obtain a x' s' where "handle_local_message now ok i zone topic payload qos (x, dm_stores (br_manager b)) = Some (a, x', s')"
          using keep by (auto simp: route_to_context_def split: option.splits)
        with r keep Some \<open>parse_topic topic = Some adr\<close> show thesis
          by (intro routed [of "ta_device_id adr" x b1 a x' s']) (simp_all add: get_by_device_id_def)
      qed
    qed
  qed
qed

lemma on_local_message_subscriptions:
  assumes "on_local_message now ok i zone presence topic payload qos b = Some b'"
  shows "br_subscriptions b' = br_subscriptions b"
  using assms
  by (auto simp: on_local_message_def route_to_context_def observe_ack_def warn_unknown_device_once_def local_publish_def Let_def
      split: option.splits prod.splits if_splits)

lemma respond_only_answers:
  assumes "handle_local_message now ok i zone topic payload qos (x, s) = Some (Some a, x', s')"
  shows "\<exists>cat prd. ra_response_topic a = Some (sub_topic (dx_device_id x) cat prd)"
proof -
  obtain r r' where "decide now i zone (dx_device_id x) topic payload (upstream_state x) (r\<lparr>lr_shadow := sx_shadow s\<rparr>) = Some (a, r')"
    "ra_decision a = RESPOND_LOCAL"
    using assms
    by (cases "dx_responder x") (auto simp: handle_local_message_def note_message_def Let_def case_prod_beta split: option.splits if_splits)
  from decide_local [OF this] show ?thesis by (auto simp: is_reply_def)
qed

lemma route_published:
  assumes "route_to_context now ok i zone presence topic payload qos x b = Some b'"
  shows "\<exists>sent. br_local_published b' = br_local_published b @ sent \<and>
    (\<forall>m\<in>set sent. \<exists>cat prd. fst m = sub_topic (dx_device_id x) cat prd)"
proof -
  obtain a x' s' where h: "handle_local_message now ok i zone topic payload qos (x, dm_stores (br_manager b)) = Some (a, x', s')"
    using assms by (auto simp: route_to_context_def split: option.splits)
  show ?thesis
  proof (cases a)
    case None
    with assms h have "br_local_published b' = br_local_published b" by (auto simp: route_to_context_def Let_def)
    then show ?thesis by simp
  next
    case (Some act)
    with h respond_only_answers obtain cat prd where t: "ra_response_topic act = Some (sub_topic (dx_device_id x) cat prd)" by blast
    have "br_local_published b' = br_local_published b @
        (case ra_response_payload act of None \<Rightarrow> [] | Some p \<Rightarrow> [(sub_topic (dx_device_id x) cat prd, p)])"
      using assms h Some t by (auto simp: route_to_context_def Let_def local_publish_def split: option.splits)
    then show ?thesis by (auto split: option.splits)
  qed
qed

section \<open>Reachable bridges\<close>

text \<open>The steps of the bridge, from a broker that may have kept subscriptions \<open>kept\<close> of an earlier session.\<close>

inductive bridge_reachable :: "string list \<Rightarrow> MqttBridge \<Rightarrow> bool" for kept where
  br_init: "bridge_reachable kept (init_bridge kept m)"
| br_message: "bridge_reachable kept b \<Longrightarrow> on_local_message now ok i zone presence topic payload qos b = Some b' \<Longrightarrow> bridge_reachable kept b'"
| br_command: "bridge_reachable kept b \<Longrightarrow> bridge_reachable kept (snd (publish_sound_switch is_up outcome d prd payload b))"
| br_connect: "bridge_reachable kept b \<Longrightarrow> bridge_reachable kept (on_local_connect now b)"
| br_disconnect: "bridge_reachable kept b \<Longrightarrow> bridge_reachable kept (on_local_disconnect now b)"
| br_prime: "bridge_reachable kept b \<Longrightarrow> bridge_reachable kept (prime_local_subscription reachable b)"
| br_forget: "bridge_reachable kept b \<Longrightarrow> bridge_reachable kept (forget_unknown_device d b)"
| br_others: "bridge_reachable kept b \<Longrightarrow> bridge_reachable kept (b\<lparr>br_manager := m, br_controller := c\<rparr>)"

lemma unsubscribe_fold [simp]:
  "br_subscriptions (fold (\<lambda>x. unsubscribe (f x)) xs b) = filter (\<lambda>s. s \<notin> f ` set xs) (br_subscriptions b)"
  "br_manager (fold (\<lambda>x. unsubscribe (f x)) xs b) = br_manager b"
  "br_local_published (fold (\<lambda>x. unsubscribe (f x)) xs b) = br_local_published b"
proof -
  show "br_subscriptions (fold (\<lambda>x. unsubscribe (f x)) xs b) = filter (\<lambda>s. s \<notin> f ` set xs) (br_subscriptions b)"
    by (induction xs arbitrary: b) (auto simp: unsubscribe_def removeAll_filter_not_eq intro!: filter_cong)
qed (induction xs arbitrary: b; simp add: unsubscribe_def)+

lemma bridge_keep [simp]:
  "br_local_published (on_local_connect now b) = br_local_published b"
  "br_local_published (on_local_disconnect now b) = br_local_published b"
  "br_local_published (prime_local_subscription reachable b) = br_local_published b"
  "br_local_published (forget_unknown_device d b) = br_local_published b"
  by (simp_all add: on_local_connect_def on_local_disconnect_def prime_local_subscription_def forget_unknown_device_def
      subscribe_def with_manager_telemetry_def)

lemma reachable_published:
  "bridge_reachable kept b \<Longrightarrow> m \<in> set (br_local_published b) \<Longrightarrow> \<exists>d cat prd. fst m = sub_topic d cat prd"
proof (induction rule: bridge_reachable.induct)
  case (br_message b now ok i zone presence topic payload qos b')
  from br_message(2) show ?case
  proof (cases rule: on_local_message_cases)
    case ignored
    with br_message show ?thesis by simp
  next
    case (routed e x a x' s' b1)
    from route_published [OF routed(5)] obtain sent where sent: "br_local_published b' = br_local_published b1 @ sent"
      "\<forall>m\<in>set sent. \<exists>cat prd. fst m = sub_topic (dx_device_id x) cat prd" by blast
    show ?thesis
    proof (cases "m \<in> set sent")
      case True
      with sent(2) show ?thesis by blast
    next
      case False
      with sent(1) routed(3) br_message(3,4) show ?thesis by simp
    qed
  qed
next
  case (br_command b is_up outcome d prd payload)
  then have "m \<in> set (br_local_published b) \<or> fst m = sub_topic d ''service'' prd"
    by (cases outcome) (auto simp: publish_sound_switch_def local_publish_def Let_def split: if_splits)
  with br_command(2) show ?case by blast
qed (simp_all add: init_bridge_def)

text \<open>
  The subscriptions of an earlier version that covered the relay's own output are retired for every
  bridged device whenever the local broker is connected.
\<close>

lemma legacy_filters_retired:
  assumes "x \<in> set (list_devices (br_manager b))"
  shows "legacy_filter x \<notin> set (br_subscriptions (on_local_connect now b))"
    "ANY_DEVICE_POST_FILTER \<in> set (br_subscriptions (on_local_connect now b))"
proof -
  have "last (legacy_filter x) = CHR ''#''" by (simp add: legacy_filter_def)
  then have "legacy_filter x \<noteq> ANY_DEVICE_POST_FILTER" by (auto simp: ANY_DEVICE_POST_FILTER_def)
  with assms show "legacy_filter x \<notin> set (br_subscriptions (on_local_connect now b))"
    by (auto simp: on_local_connect_def subscribe_def with_manager_telemetry_def list_devices_def)
qed (simp add: on_local_connect_def subscribe_def)

text \<open>Nothing but the post filter is ever subscribed.\<close>

lemma reachable_subscriptions: "bridge_reachable kept b \<Longrightarrow> set (br_subscriptions b) \<subseteq> insert ANY_DEVICE_POST_FILTER (set kept)"
proof (induction rule: bridge_reachable.induct)
  case (br_message b now ok i zone presence topic payload qos b')
  then have "br_subscriptions b' = br_subscriptions b" by (auto dest: on_local_message_subscriptions)
  with br_message show ?case by simp
next
  case (br_command b is_up outcome d prd payload)
  then show ?case by (cases outcome) (auto simp: publish_sound_switch_def local_publish_def Let_def)
next
  case (br_connect b now)
  then show ?case by (auto simp: on_local_connect_def subscribe_def with_manager_telemetry_def)
next
  case (br_disconnect b now)
  then show ?case by (simp add: on_local_disconnect_def with_manager_telemetry_def)
next
  case (br_prime b reachable)
  then show ?case by (auto simp: prime_local_subscription_def subscribe_def)
qed (auto simp: init_bridge_def forget_unknown_device_def)

lemma dict_set_values: "snd ` set (dict_set k v d) \<subseteq> insert v (snd ` set d)"
  by (induction d) auto

lemma subscribed_topics:
  assumes "f \<in> snd ` set (subscribed (topic_prefix d prd) results)"
  shows "\<exists>cat. f = sub_topic d cat prd"
proof -
  let ?step = "\<lambda>(category, ok, mid) pending. case mid of Some m \<Rightarrow>
      if ok then dict_set m (topic_prefix d prd @ ''/'' @ DEVICE_SEGMENT @ ''/'' @ category @ ''/'' @ SUB_SUFFIX) pending else pending
    | None \<Rightarrow> pending"
  have "snd ` set (fold ?step zs acc) \<subseteq> snd ` set acc \<union> range (\<lambda>cat. sub_topic d cat prd)"
    for zs :: "(string \<times> bool \<times> int option) list" and acc
  proof (induction zs arbitrary: acc)
    case (Cons z zs)
    obtain category ok mid where z: "z = (category, ok, mid)" by (cases z)
    have step: "?step z acc = (case mid of Some m \<Rightarrow> if ok then dict_set m (sub_topic d category prd) acc else acc | None \<Rightarrow> acc)"
      by (simp add: z sub_topic_def split: option.split)
    have "snd ` set (?step z acc) \<subseteq> insert (sub_topic d category prd) (snd ` set acc)"
      unfolding step using dict_set_values [of _ "sub_topic d category prd" acc] by (auto split: option.split)
    then have "snd ` set (?step z acc) \<union> range (\<lambda>cat. sub_topic d cat prd) \<subseteq> snd ` set acc \<union> range (\<lambda>cat. sub_topic d cat prd)"
      by blast
    with Cons.IH [of "?step z acc"] show ?case unfolding fold_Cons comp_apply by (rule subset_trans)
  qed simp
  from this [of "zip UPSTREAM_SUBSCRIBE_CATEGORIES results" "[]"] assms show ?thesis
    by (auto simp: subscribed_def)
qed

text \<open>
  C8: The relay never hears itself. Take any state of the bridge, reached from a broker that had kept only
  the post filter and filters of the earlier version for devices that are bridged. When the local client
  connects, the post filter is its only subscription, and no subscription matches a topic the relay
  published on the local broker itself, or a topic that a cloud subscription can deliver, whose messages
  the pump republishes locally.
\<close>

theorem bridge_never_hears_itself:
  assumes "bridge_reachable kept b"
    "\<forall>f\<in>set kept. f = ANY_DEVICE_POST_FILTER \<or> (\<exists>x\<in>set (list_devices (br_manager b)). f = legacy_filter x)"
  shows "let b' = on_local_connect now b
    in set (br_subscriptions b') = {ANY_DEVICE_POST_FILTER} \<and>
      (\<forall>s\<in>set (br_subscriptions b').
        (\<forall>m\<in>set (br_local_published b'). \<not> topic_matches s (fst m)) \<and>
        (\<forall>d prd results f t. f \<in> snd ` set (subscribed (topic_prefix d prd) results) \<and> topic_matches f t \<longrightarrow> \<not> topic_matches s t))"
proof -
  let ?b = "on_local_connect now b"
  have r: "bridge_reachable kept ?b" by (rule br_connect [OF assms(1)])
  have subs: "set (br_subscriptions ?b) = {ANY_DEVICE_POST_FILTER}"
  proof
    show "set (br_subscriptions ?b) \<subseteq> {ANY_DEVICE_POST_FILTER}"
      using reachable_subscriptions [OF r] legacy_filters_retired(1) [of _ b now] assms(2) by auto
  qed (simp add: on_local_connect_def subscribe_def)
  have "\<not> topic_matches ANY_DEVICE_POST_FILTER (fst m)" if "m \<in> set (br_local_published ?b)" for m
    using reachable_published [OF r that] no_own_output by metis
  moreover have "\<not> topic_matches ANY_DEVICE_POST_FILTER t"
    if "f \<in> snd ` set (subscribed (topic_prefix d prd) results)" "topic_matches f t" for d prd results f t
    using subscribed_topics [OF that(1)] that(2) sub_filter_matches_no_post by metis
  ultimately show ?thesis unfolding Let_def subs by blast
qed

text \<open>A command was published, and the broker had kept the filter of the earlier version, which matches it.\<close>

theorem bridge_never_hears_itself_witness:
  "let m = (init_manager demo_stores all_on 60 False)\<lparr>dm_contexts := [(''A'', demo_context)]\<rparr>;
       b = snd (publish_sound_switch True Confirmed ''A'' ''PLAF203'' ''x'' (init_bridge [''dl/PLAF203/A/#''] m));
       b' = on_local_connect 1 b
   in topic_matches ''dl/PLAF203/A/#'' (fst (hd (br_local_published b'))) \<and>
     set (br_subscriptions b') = {ANY_DEVICE_POST_FILTER} \<and>
     \<not> topic_matches ANY_DEVICE_POST_FILTER (fst (hd (br_local_published b')))"
proof -
  define m where "m = (init_manager demo_stores all_on 60 False)\<lparr>dm_contexts := [(''A'', demo_context)]\<rparr>"
  define b where "b = snd (publish_sound_switch True Confirmed ''A'' ''PLAF203'' ''x'' (init_bridge [''dl/PLAF203/A/#''] m))"
  have pub: "br_local_published (on_local_connect 1 b) = [(''dl/PLAF203/A/device/service/sub'', ''x'')]"
    by (simp add: b_def publish_sound_switch_def local_publish_def init_bridge_def sub_topic_def topic_prefix_def relay_defs)
  have r: "bridge_reachable [''dl/PLAF203/A/#''] b" unfolding b_def by (intro br_command br_init)
  have "br_manager b = m" by (simp add: b_def publish_sound_switch_def local_publish_def init_bridge_def)
  then have k: "\<forall>f\<in>set [''dl/PLAF203/A/#'']. f = ANY_DEVICE_POST_FILTER \<or> (\<exists>x\<in>set (list_devices (br_manager b)). f = legacy_filter x)"
    by (simp add: m_def list_devices_def legacy_filter_def topic_prefix_def demo_context_def init_context_def dx_device_id_def dx_product_id_def relay_defs)
  have "topic_matches ''dl/PLAF203/A/#'' ''dl/PLAF203/A/device/service/sub''" by code_simp
  with bridge_never_hears_itself [OF r k, of 1] pub show ?thesis unfolding Let_def m_def [symmetric] b_def [symmetric] by simp
qed

end
