(* ===== verification/Relay_Config.thy ===== *)
theory Relay_Config
  imports Mqtt_Bridge
begin

text \<open>
  \<^verbatim>\<open>config.py\<close>: reading the environment and validating the configuration before anything is built. The
  environment is a dictionary. \<open>int\<close> and \<open>float\<close> of a text are modelled as Python reads them (surrounding
  white space, a sign, underscores between digits, \<open>inf\<close> and \<open>nan\<close>); a finite float is the exact decimal.
  \<open>urlsplit\<close> is modelled for the parts the validation looks at, on ASCII text without brackets.

  The lemmas show that an accepted configuration cannot connect the relay to itself, that both delivery
  pumps can be built from it, and that the master switch of the local responder turns every local answer
  off; and that a rate that is not a number passes the validation.
\<close>

section \<open>Numbers\<close>

datatype pyfloat = Fin rat | PosInf | NegInf | NaN

text \<open>Comparisons with a number; every comparison with \<open>NaN\<close> is false.\<close>

fun float_le :: "pyfloat \<Rightarrow> rat \<Rightarrow> bool" where
  "float_le (Fin x) y = (x \<le> y)" | "float_le NegInf y = True" | "float_le PosInf y = False" | "float_le NaN y = False"

fun float_less :: "pyfloat \<Rightarrow> rat \<Rightarrow> bool" where
  "float_less (Fin x) y = (x < y)" | "float_less NegInf y = True" | "float_less PosInf y = False" | "float_less NaN y = False"

fun float_ge :: "pyfloat \<Rightarrow> rat \<Rightarrow> bool" where
  "float_ge (Fin x) y = (x \<ge> y)" | "float_ge NegInf y = False" | "float_ge PosInf y = True" | "float_ge NaN y = False"

definition is_finite :: "pyfloat \<Rightarrow> bool" where
  "is_finite x = (case x of Fin _ \<Rightarrow> True | _ \<Rightarrow> False)"

text \<open>\<open>max(1.0, x)\<close> returns its first argument unless the second is greater.\<close>

definition max_float :: "rat \<Rightarrow> pyfloat \<Rightarrow> pyfloat" where
  "max_float y x = (case x of Fin v \<Rightarrow> if v > y then Fin v else Fin y | PosInf \<Rightarrow> PosInf | _ \<Rightarrow> Fin y)"

text \<open>Digits with single underscores between them.\<close>

fun digits_tail :: "string \<Rightarrow> nat \<Rightarrow> nat option" where
  "digits_tail [] n = Some n"
| "digits_tail (c # s) n =
     (if is_digit c then digits_tail s (10 * n + digit_val c)
      else if c = CHR ''_'' \<and> s \<noteq> [] \<and> is_digit (hd s) then digits_tail s n
      else None)"

definition read_digits :: "string \<Rightarrow> nat option" where
  "read_digits s = (if s \<noteq> [] \<and> is_digit (hd s) then digits_tail s 0 else None)"

definition split_sign :: "string \<Rightarrow> bool \<times> string" where
  "split_sign s = (case s of [] \<Rightarrow> (False, []) | c # r \<Rightarrow> if c = CHR ''-'' then (True, r) else if c = CHR ''+'' then (False, r) else (False, s))"

definition python_int :: "string \<Rightarrow> int option" where
  "python_int s = (case split_sign (strip s) of (neg, r) \<Rightarrow> map_option (\<lambda>n. if neg then - int n else int n) (read_digits r))"

definition read_fixed :: "string \<Rightarrow> rat option" where
  "read_fixed s = (case split_on CHR ''.'' s of
     [ip] \<Rightarrow> map_option of_nat (read_digits ip)
   | [ip, fp] \<Rightarrow>
       (if ip = [] \<and> fp = [] then None
        else (case (if ip = [] then Some 0 else read_digits ip, if fp = [] then Some 0 else read_digits fp) of
          (Some i, Some f) \<Rightarrow> Some (of_nat i + of_nat f / 10 ^ length (filter is_digit fp))
        | _ \<Rightarrow> None))
   | _ \<Rightarrow> None)"

definition read_decimal :: "string \<Rightarrow> rat option" where
  "read_decimal s =
     (let m = takeWhile (\<lambda>c. lower_char c \<noteq> CHR ''e'') s; r = drop (length m) s
      in case read_fixed m of
        None \<Rightarrow> None
      | Some v \<Rightarrow>
          if r = [] then Some v
          else (case split_sign (tl r) of (neg, ex) \<Rightarrow>
            map_option (\<lambda>e. if neg then v / 10 ^ e else v * 10 ^ e) (read_digits ex)))"

definition python_float :: "string \<Rightarrow> pyfloat option" where
  "python_float s = (case split_sign (strip s) of (neg, r) \<Rightarrow>
     if lower r \<in> {''inf'', ''infinity''} then Some (if neg then NegInf else PosInf)
     else if lower r = ''nan'' then Some NaN
     else map_option (\<lambda>v. Fin (if neg then - v else v)) (read_decimal r))"

lemma number_examples:
  "python_int '' -1_000 '' = Some (- 1000)" "python_int ''1__0'' = None" "python_int ''1.5'' = None"
  "python_float ''1_0.5e1'' = Some (Fin 105)" "python_float ''.5'' = Some (Fin (1 / 2))" "python_float ''-Infinity'' = Some NegInf"
  "python_float ''.'' = None" "python_float ''1e'' = None"
  by code_simp+

section \<open>Settings\<close>

datatype config_error = ConfigError string

record Go2RtcSettings =
  gs_enabled :: bool
  gs_host :: string
  gs_port :: int
  gs_timeout_seconds :: pyfloat
  gs_source_host :: string
  gs_source_port :: int
  gs_reconcile_interval_seconds :: pyfloat

record CameraBridgeSettings =
  cs_enabled :: bool
  cs_url :: "string option"
  cs_host :: string
  cs_port :: int
  cs_timeout_seconds :: pyfloat
  cs_reconcile_interval_seconds :: pyfloat

text \<open>The responder's flags as read; its clock tolerance is still a Python float here.\<close>

record ResponderFlags =
  rf_enabled :: bool
  rf_ntp :: bool
  rf_config :: bool
  rf_feeding_plan :: bool
  rf_always_answer_ntp_locally :: bool
  rf_device_timezone :: string
  rf_clock_drift_tolerance_seconds :: pyfloat

record RelayConfig =
  cf_device_client_id :: "string option"
  cf_device_username :: "string option"
  cf_device_password :: "string option"
  cf_topic_prefix_override :: "string option"
  cf_upstream_host :: string
  cf_upstream_port :: int
  cf_local_host :: string
  cf_local_port :: int
  cf_capture_proxy_listen_host :: string
  cf_capture_proxy_listen_port :: int
  cf_keepalive_seconds :: int
  cf_state_cache_path :: string
  cf_queue_db_path :: string
  cf_device_registry_db_path :: string
  cf_device_retention_hours :: pyfloat
  cf_auto_enroll :: bool
  cf_state_shadow_db_path :: string
  cf_handled_msg_id_ttl_seconds :: pyfloat
  cf_local_responder :: ResponderFlags
  cf_web_enabled :: bool
  cf_web_host :: string
  cf_web_port :: int
  cf_max_queue_size :: int
  cf_log_level :: string
  cf_replay_rate_per_device :: pyfloat
  cf_replay_rate_global :: pyfloat
  cf_replay_start_delay_seconds :: pyfloat
  cf_replay_jitter :: pyfloat
  cf_log_upstream_service_payloads :: bool
  cf_log_device_start_event :: bool
  cf_go2rtc :: Go2RtcSettings
  cf_camera_bridge :: CameraBridgeSettings

section \<open>Reading the environment\<close>

type_synonym environ = "(string, string) dict"

definition env_str :: "environ \<Rightarrow> string \<Rightarrow> string \<Rightarrow> string" where
  "env_str env name dflt = (case dict_get env name of None \<Rightarrow> dflt | Some s \<Rightarrow> s)"

definition env_or_none :: "environ \<Rightarrow> string \<Rightarrow> string option" where
  "env_or_none env name = opt_str_or (dict_get env name) None"

definition env_int :: "environ \<Rightarrow> string \<Rightarrow> int \<Rightarrow> config_error + int" where
  "env_int env name dflt = (case dict_get env name of
     None \<Rightarrow> Inr dflt
   | Some s \<Rightarrow> (case python_int s of None \<Rightarrow> Inl (ConfigError name) | Some i \<Rightarrow> Inr i))"

definition env_float :: "environ \<Rightarrow> string \<Rightarrow> rat \<Rightarrow> config_error + pyfloat" where
  "env_float env name dflt = (case dict_get env name of
     None \<Rightarrow> Inr (Fin dflt)
   | Some s \<Rightarrow> (case python_float s of None \<Rightarrow> Inl (ConfigError name) | Some x \<Rightarrow> Inr x))"

definition env_flag :: "environ \<Rightarrow> string \<Rightarrow> bool \<Rightarrow> bool" where
  "env_flag env name dflt = (case dict_get env name of
     None \<Rightarrow> dflt
   | Some raw \<Rightarrow> lower (strip raw) \<in> {''1'', ''true'', ''yes'', ''on''})"

definition optional_http_url_from_env :: "environ \<Rightarrow> string \<Rightarrow> string option" where
  "optional_http_url_from_env env name = opt_str_or (Some (strip (env_str env name []))) None"

definition MINIMUM_CAMERA_BRIDGE_RECONCILE_INTERVAL_SECONDS :: rat where
  [relay_defs]: "MINIMUM_CAMERA_BRIDGE_RECONCILE_INTERVAL_SECONDS = 1"

definition camera_bridge_reconcile_interval_from_env :: "environ \<Rightarrow> config_error + pyfloat" where
  "camera_bridge_reconcile_interval_from_env env =
     bind_res (env_float env ''PETLIBRO_CAMERA_BRIDGE_RECONCILE_INTERVAL_SECONDS'' 5)
       (\<lambda>x. Inr (max_float MINIMUM_CAMERA_BRIDGE_RECONCILE_INTERVAL_SECONDS x))"

definition local_responder_from_env :: "environ \<Rightarrow> config_error + ResponderFlags" where
  "local_responder_from_env env =
     (let enabled = env_flag env ''PETLIBRO_LOCAL_RESPONDER'' False
      in bind_res (env_float env ''PETLIBRO_CLOCK_DRIFT_TOLERANCE_SECONDS'' 10) (\<lambda>tolerance. Inr
        \<lparr>rf_enabled = enabled, rf_ntp = enabled \<and> env_flag env ''PETLIBRO_LOCAL_NTP'' False,
         rf_config = enabled \<and> env_flag env ''PETLIBRO_LOCAL_CONFIG'' False,
         rf_feeding_plan = enabled \<and> env_flag env ''PETLIBRO_LOCAL_FEEDING_PLAN'' False,
         rf_always_answer_ntp_locally = env_flag env ''PETLIBRO_LOCAL_NTP_ALWAYS'' False,
         rf_device_timezone = env_str env ''PETLIBRO_DEVICE_TIMEZONE'' ''UTC'',
         rf_clock_drift_tolerance_seconds = tolerance\<rparr>))"

definition go2rtc_from_env :: "environ \<Rightarrow> config_error + Go2RtcSettings" where
  "go2rtc_from_env env =
     bind_res (env_int env ''PETLIBRO_GO2RTC_PORT'' 1984) (\<lambda>port.
     bind_res (env_float env ''PETLIBRO_GO2RTC_TIMEOUT_SECONDS'' 1) (\<lambda>timeout.
     bind_res (env_int env ''PETLIBRO_GO2RTC_SOURCE_PORT'' 8554) (\<lambda>source_port.
     bind_res (env_float env ''PETLIBRO_GO2RTC_RECONCILE_INTERVAL_SECONDS'' 5) (\<lambda>interval. Inr
       \<lparr>gs_enabled = env_flag env ''PETLIBRO_GO2RTC_ENABLED'' False, gs_host = env_str env ''PETLIBRO_GO2RTC_HOST'' ''go2rtc'',
        gs_port = port, gs_timeout_seconds = timeout,
        gs_source_host = env_str env ''PETLIBRO_GO2RTC_SOURCE_HOST'' ''127.0.0.1'', gs_source_port = source_port,
        gs_reconcile_interval_seconds = interval\<rparr>))))"

definition camera_bridge_from_env :: "environ \<Rightarrow> config_error + CameraBridgeSettings" where
  "camera_bridge_from_env env =
     bind_res (env_int env ''PETLIBRO_CAMERA_BRIDGE_PORT'' 8081) (\<lambda>port.
     bind_res (env_float env ''PETLIBRO_CAMERA_BRIDGE_TIMEOUT_SECONDS'' 1) (\<lambda>timeout.
     bind_res (camera_bridge_reconcile_interval_from_env env) (\<lambda>interval. Inr
       \<lparr>cs_enabled = env_flag env ''PETLIBRO_CAMERA_BRIDGE_ENABLED'' False,
        cs_url = optional_http_url_from_env env ''PETLIBRO_CAMERA_BRIDGE_URL'',
        cs_host = env_str env ''PETLIBRO_CAMERA_BRIDGE_HOST'' ''camera-bridge'', cs_port = port, cs_timeout_seconds = timeout,
        cs_reconcile_interval_seconds = interval\<rparr>)))"

definition from_env :: "environ \<Rightarrow> config_error + RelayConfig" where
  "from_env env =
     bind_res (env_int env ''PETLIBRO_UPSTREAM_PORT'' 1883) (\<lambda>upstream_port.
     bind_res (env_int env ''PETLIBRO_LOCAL_PORT'' 1883) (\<lambda>local_port.
     bind_res (env_int env ''PETLIBRO_CAPTURE_PROXY_PORT'' 1883) (\<lambda>capture_port.
     bind_res (env_int env ''PETLIBRO_KEEPALIVE_SECONDS'' 90) (\<lambda>keepalive.
     bind_res (env_float env ''PETLIBRO_DEVICE_RETENTION_HOURS'' 72) (\<lambda>retention.
     bind_res (env_float env ''PETLIBRO_HANDLED_MSG_ID_TTL_SECONDS'' 120) (\<lambda>ttl.
     bind_res (local_responder_from_env env) (\<lambda>responder.
     bind_res (env_int env ''PETLIBRO_WEB_PORT'' 8080) (\<lambda>web_port.
     bind_res (env_int env ''PETLIBRO_MAX_QUEUE_SIZE'' 5000) (\<lambda>max_queue.
     bind_res (env_float env ''PETLIBRO_REPLAY_RATE_PER_DEVICE'' 5) (\<lambda>rate_device.
     bind_res (env_float env ''PETLIBRO_REPLAY_RATE_GLOBAL'' 20) (\<lambda>rate_global.
     bind_res (env_float env ''PETLIBRO_REPLAY_START_DELAY'' (3 / 2)) (\<lambda>start_delay.
     bind_res (env_float env ''PETLIBRO_REPLAY_JITTER'' (15 / 100)) (\<lambda>jitter.
     bind_res (go2rtc_from_env env) (\<lambda>go2rtc.
     bind_res (camera_bridge_from_env env) (\<lambda>camera_bridge. Inr
       \<lparr>cf_device_client_id = env_or_none env ''PETLIBRO_DEVICE_CLIENT_ID'',
        cf_device_username = env_or_none env ''PETLIBRO_DEVICE_USERNAME'',
        cf_device_password = env_or_none env ''PETLIBRO_DEVICE_PASSWORD'',
        cf_topic_prefix_override = env_or_none env ''PETLIBRO_TOPIC_PREFIX'',
        cf_upstream_host = env_str env ''PETLIBRO_UPSTREAM_HOST'' ''mqtt.us.petlibro.com'', cf_upstream_port = upstream_port,
        cf_local_host = env_str env ''PETLIBRO_LOCAL_HOST'' ''localhost'', cf_local_port = local_port,
        cf_capture_proxy_listen_host = env_str env ''PETLIBRO_CAPTURE_PROXY_HOST'' ''0.0.0.0'',
        cf_capture_proxy_listen_port = capture_port, cf_keepalive_seconds = keepalive,
        cf_state_cache_path = env_str env ''PETLIBRO_STATE_CACHE_PATH'' ''/data/state_cache.json'',
        cf_queue_db_path = env_str env ''PETLIBRO_QUEUE_DB_PATH'' ''/data/relay_queue.sqlite3'',
        cf_device_registry_db_path = env_str env ''PETLIBRO_DEVICE_REGISTRY_DB_PATH'' ''/data/device_registry.sqlite3'',
        cf_device_retention_hours = retention, cf_auto_enroll = env_flag env ''PETLIBRO_AUTO_ENROLL'' True,
        cf_state_shadow_db_path = env_str env ''PETLIBRO_STATE_SHADOW_DB_PATH'' ''/data/state_shadow.sqlite3'',
        cf_handled_msg_id_ttl_seconds = ttl, cf_local_responder = responder,
        cf_web_enabled = env_flag env ''PETLIBRO_WEB_ENABLED'' False, cf_web_host = env_str env ''PETLIBRO_WEB_HOST'' ''0.0.0.0'',
        cf_web_port = web_port, cf_max_queue_size = max_queue, cf_log_level = env_str env ''PETLIBRO_LOG_LEVEL'' ''INFO'',
        cf_replay_rate_per_device = rate_device, cf_replay_rate_global = rate_global,
        cf_replay_start_delay_seconds = start_delay, cf_replay_jitter = jitter,
        cf_log_upstream_service_payloads = env_flag env ''PETLIBRO_LOG_UPSTREAM_SERVICE_PAYLOADS'' False,
        cf_log_device_start_event = env_flag env ''PETLIBRO_LOG_DEVICE_START_EVENT'' False,
        cf_go2rtc = go2rtc, cf_camera_bridge = camera_bridge\<rparr>)))))))))))))))"

definition manually_configured_identity :: "RelayConfig \<Rightarrow> (string \<times> string \<times> string) option" where
  "manually_configured_identity c =
     (case (opt_str_or (cf_device_client_id c) None, opt_str_or (cf_device_username c) None, opt_str_or (cf_device_password c) None) of
       (Some i, Some u, Some p) \<Rightarrow> Some (i, u, p)
     | _ \<Rightarrow> None)"

section \<open>Validation\<close>

definition LOOPBACK_UPSTREAM_HOSTS :: "string list" where
  "LOOPBACK_UPSTREAM_HOSTS = [''127.0.0.1'', ''::1'', ''localhost'', ''0.0.0.0'', ''::'']"

definition require :: "bool \<Rightarrow> string \<Rightarrow> config_error + unit \<Rightarrow> config_error + unit" where
  "require ok message next_checks = (if ok then next_checks else Inl (ConfigError message))"

definition normalized_host :: "string \<Rightarrow> string" where
  "normalized_host s = rstrip_on (\<lambda>c. c = CHR ''.'') (lower (strip s))"

definition validate_upstream_safety :: "RelayConfig \<Rightarrow> config_error + unit" where
  "validate_upstream_safety c =
     require (\<not> (normalized_host (cf_upstream_host c) \<in> set LOOPBACK_UPSTREAM_HOSTS \<and>
       cf_upstream_port c \<in> {cf_local_port c, cf_capture_proxy_listen_port c})) ''Unsafe upstream configuration'' (Inr ())"

text \<open>
  \<open>urlsplit\<close>: the scheme before a colon, the authority after two slashes up to the path, query or
  fragment; a user name or password is what stands before the last at sign.
\<close>

record split_url =
  su_scheme :: string
  su_netloc :: string
  su_path :: string
  su_query :: string
  su_fragment :: string

definition is_alpha :: "char \<Rightarrow> bool" where
  "is_alpha c \<longleftrightarrow> CHR ''a'' \<le> lower_char c \<and> lower_char c \<le> CHR ''z''"

definition cut_at :: "char \<Rightarrow> string \<Rightarrow> string \<times> string" where
  "cut_at c s = (takeWhile (\<lambda>x. x \<noteq> c) s, drop 1 (dropWhile (\<lambda>x. x \<noteq> c) s))"

definition urlsplit :: "string \<Rightarrow> split_url" where
  "urlsplit url =
     (let s0 = filter (\<lambda>c. c \<notin> {CHR 0x09, CHR 0x0A, CHR 0x0D}) (lstrip_on (\<lambda>c. of_char c \<le> (32 :: nat)) url);
          sc = takeWhile (\<lambda>c. c \<noteq> CHR '':'') s0;
          has_scheme = (sc \<noteq> [] \<and> length sc < length s0 \<and> is_alpha (hd sc) \<and>
            list_all (\<lambda>c. is_alpha c \<or> is_digit c \<or> c \<in> {CHR ''+'', CHR ''-'', CHR ''.''}) sc);
          scheme = (if has_scheme then lower sc else []);
          s1 = (if has_scheme then drop (length sc + 1) s0 else s0);
          has_netloc = prefix ''//'' s1;
          netloc = (if has_netloc then takeWhile (\<lambda>c. c \<notin> {CHR ''/'', CHR ''?'', CHR ''#''}) (drop 2 s1) else []);
          s2 = (if has_netloc then drop (2 + length netloc) s1 else s1);
          (s3, fragment) = cut_at CHR ''#'' s2;
          (path, query) = cut_at CHR ''?'' s3
      in \<lparr>su_scheme = scheme, su_netloc = netloc, su_path = path, su_query = query, su_fragment = fragment\<rparr>)"

definition has_userinfo :: "split_url \<Rightarrow> bool" where
  "has_userinfo u \<longleftrightarrow> CHR ''@'' \<in> set (su_netloc u)"

definition validate_camera_bridge_url :: "string \<Rightarrow> config_error + unit" where
  "validate_camera_bridge_url url =
     (let parsed = urlsplit url
      in require (\<not> (su_scheme parsed \<noteq> ''http'' \<or> su_netloc parsed = [] \<or> su_path parsed \<notin> {[], ''/''} \<or> su_query parsed \<noteq> [] \<or>
            su_fragment parsed \<noteq> [] \<or> has_userinfo parsed))
           ''camera bridge URL must be an absolute http://host[:port] endpoint'' (Inr ()))"

definition port_ok :: "int \<Rightarrow> bool" where
  "port_ok p \<longleftrightarrow> \<not> (p \<le> 0 \<or> p > 65535)"

definition validate_startup_configuration :: "RelayConfig \<Rightarrow> config_error + unit" where
  "validate_startup_configuration c =
     bind_res (validate_upstream_safety c) (\<lambda>_.
     require (\<not> (float_le (cf_replay_rate_per_device c) 0 \<or> float_le (cf_replay_rate_global c) 0)) ''Replay rates must be greater than zero'' (
     require (\<not> float_less (cf_replay_start_delay_seconds c) 0) ''Replay start delay must not be negative'' (
     require (float_ge (cf_replay_jitter c) 0 \<and> float_le (cf_replay_jitter c) 1) ''Replay jitter must be between zero and one'' (
     require (port_ok (gs_port (cf_go2rtc c))) ''go2rtc port must be between 1 and 65535'' (
     require (\<not> float_le (gs_timeout_seconds (cf_go2rtc c)) 0) ''go2rtc timeout must be greater than zero'' (
     require (port_ok (gs_source_port (cf_go2rtc c))) ''go2rtc source port must be between 1 and 65535'' (
     require (\<not> float_less (gs_reconcile_interval_seconds (cf_go2rtc c)) MINIMUM_CAMERA_BRIDGE_RECONCILE_INTERVAL_SECONDS)
       ''go2rtc reconciliation interval must be at least 1 second'' (
     require (port_ok (cs_port (cf_camera_bridge c))) ''camera bridge port must be between 1 and 65535'' (
     require (\<not> float_le (cs_timeout_seconds (cf_camera_bridge c)) 0) ''camera bridge timeout must be greater than zero'' (
     bind_res (case cs_url (cf_camera_bridge c) of None \<Rightarrow> Inr () | Some url \<Rightarrow> validate_camera_bridge_url url) (\<lambda>_.
     require (\<not> (\<not> is_finite (cs_reconcile_interval_seconds (cf_camera_bridge c)) \<or>
         float_less (cs_reconcile_interval_seconds (cf_camera_bridge c)) MINIMUM_CAMERA_BRIDGE_RECONCILE_INTERVAL_SECONDS))
       ''camera bridge reconciliation interval must be at least 1.0 second'' (Inr ()))))))))))))"

section \<open>Pumps and responder of a configuration\<close>

text \<open>The two pumps \<open>MqttBridge.__init__\<close> builds; a rate that is not a finite number is outside the pump's model.\<close>

definition build_pumps :: "RelayConfig \<Rightarrow> MessageQueue \<Rightarrow> (pump_error + DeliveryPump) \<times> (pump_error + DeliveryPump)" where
  "build_pumps c q =
     ((case (cf_replay_rate_per_device c, cf_replay_rate_global c, cf_replay_start_delay_seconds c, cf_replay_jitter c) of
         (Fin rd, Fin rg, Fin delay, Fin jitter) \<Rightarrow> init_pump LOCAL_TO_UPSTREAM q False (Some rd) (Some rg) delay jitter
       | _ \<Rightarrow> Inl (ValueError ''not finite'')),
      init_pump UPSTREAM_TO_LOCAL q True None None 0 0)"

definition responder_settings :: "ResponderFlags \<Rightarrow> rat \<Rightarrow> LocalResponderSettings" where
  "responder_settings f tolerance = \<lparr>ls_enabled = rf_enabled f, ls_ntp = rf_ntp f, ls_config = rf_config f, ls_feeding_plan = rf_feeding_plan f,
     ls_always_answer_ntp_locally = rf_always_answer_ntp_locally f, ls_clock_drift_tolerance_seconds = tolerance\<rparr>"

section \<open>Accepted configurations\<close>

lemma require_Inr [simp]: "require ok msg k = Inr u \<longleftrightarrow> ok \<and> k = Inr u"
  by (simp add: require_def)

subsection \<open>Spellings of a loopback host\<close>

text \<open>
  One of the five loopback and wildcard hosts, in any mixture of cases, with dots after it and white space
  around it.
\<close>

definition names_loopback :: "string \<Rightarrow> bool" where
  "names_loopback s \<longleftrightarrow> (\<exists>before h n after. s = before @ h @ replicate n CHR ''.'' @ after \<and>
     (\<forall>c\<in>set before \<union> set after. is_py_space c) \<and> lower h \<in> {''127.0.0.1'', ''::1'', ''localhost'', ''0.0.0.0'', ''::''})"

lemma char_facts: "is_py_space c \<Longrightarrow> lower_char c = c" "lower_char c = CHR ''.'' \<longleftrightarrow> c = CHR ''.''"
proof -
  have all: "list_all (\<lambda>c. (is_py_space c \<longrightarrow> lower_char c = c) \<and> (lower_char c = CHR ''.'' \<longleftrightarrow> c = CHR ''.'')) (map char_of [0..<256 :: nat])"
    by code_simp
  have "c \<in> set (map char_of [0..<256 :: nat])" using UNIV_char_of_nat UNIV_I [of c] by simp
  with all show "is_py_space c \<Longrightarrow> lower_char c = c" "lower_char c = CHR ''.'' \<longleftrightarrow> c = CHR ''.''"
    by (auto simp: list_all_iff)
qed

lemma dropWhile_span: "\<forall>x\<in>set xs. P x \<Longrightarrow> \<not> P y \<Longrightarrow> dropWhile P (xs @ y # ys) = y # ys"
  by (induction xs) auto

lemma strip_around:
  assumes "\<forall>c\<in>set before \<union> set after. is_py_space c" "t \<noteq> []" "\<not> is_py_space (hd t)" "\<not> is_py_space (last t)"
  shows "strip (before @ t @ after) = t"
proof -
  have "dropWhile is_py_space (before @ t @ after) = t @ after"
    using assms(1-3) by (cases t) (simp_all add: dropWhile_span)
  moreover have "dropWhile is_py_space (rev (t @ after)) = rev t"
    using assms(1,2,4) by (cases t rule: rev_cases) (simp_all add: dropWhile_span)
  ultimately show ?thesis by (simp add: strip_def lstrip_on_def rstrip_on_def)
qed

lemma strip_parts: "\<exists>before after. s = before @ strip s @ after \<and> (\<forall>c\<in>set before \<union> set after. is_py_space c)"
proof -
  let ?t = "dropWhile is_py_space s"
  have "s = takeWhile is_py_space s @ ?t" by simp
  also have "?t = rev (dropWhile is_py_space (rev ?t)) @ rev (takeWhile is_py_space (rev ?t))"
    by (metis rev_append rev_rev_ident takeWhile_dropWhile_id)
  finally have "s = takeWhile is_py_space s @ strip s @ rev (takeWhile is_py_space (rev ?t))"
    by (simp add: strip_def lstrip_on_def rstrip_on_def)
  then show ?thesis by (intro exI [of _ "takeWhile is_py_space s"] exI [of _ "rev (takeWhile is_py_space (rev ?t))"]) (auto dest: set_takeWhileD)
qed

lemma rstrip_dots:
  "x \<noteq> [] \<Longrightarrow> last x \<noteq> CHR ''.'' \<Longrightarrow> rstrip_on (\<lambda>c. c = CHR ''.'') (x @ replicate n CHR ''.'') = x"
  "\<exists>n. s = rstrip_on (\<lambda>c. c = CHR ''.'') s @ replicate n CHR ''.''"
proof -
  show "x \<noteq> [] \<Longrightarrow> last x \<noteq> CHR ''.'' \<Longrightarrow> rstrip_on (\<lambda>c. c = CHR ''.'') (x @ replicate n CHR ''.'') = x"
    by (cases x rule: rev_cases) (simp_all add: rstrip_on_def dropWhile_span)
  let ?w = "takeWhile (\<lambda>c. c = CHR ''.'') (rev s)"
  have "?w = replicate (length ?w) CHR ''.''" by (rule replicate_eqI [OF refl]) (auto dest: set_takeWhileD)
  then have "rev ?w = replicate (length ?w) CHR ''.''" by (metis rev_replicate)
  moreover have "s = rstrip_on (\<lambda>c. c = CHR ''.'') s @ rev ?w"
    unfolding rstrip_on_def by (metis rev_append rev_rev_ident takeWhile_dropWhile_id)
  ultimately show "\<exists>n. s = rstrip_on (\<lambda>c. c = CHR ''.'') s @ replicate n CHR ''.''" by metis
qed

lemma normalized_host_loopback: "normalized_host s \<in> set LOOPBACK_UPSTREAM_HOSTS \<longleftrightarrow> names_loopback s"
proof
  assume "normalized_host s \<in> set LOOPBACK_UPSTREAM_HOSTS"
  then have l: "normalized_host s \<in> {''127.0.0.1'', ''::1'', ''localhost'', ''0.0.0.0'', ''::''}" by (simp add: LOOPBACK_UPSTREAM_HOSTS_def)
  obtain before after where s: "s = before @ strip s @ after" "\<forall>c\<in>set before \<union> set after. is_py_space c" using strip_parts by blast
  obtain n where n: "lower (strip s) = normalized_host s @ replicate n CHR ''.''"
    using rstrip_dots(2) [of "lower (strip s)"] unfolding normalized_host_def by blast
  let ?h = "take (length (normalized_host s)) (strip s)" and ?u = "drop (length (normalized_host s)) (strip s)"
  have h: "lower ?h = normalized_host s" using n by (simp add: lower_def take_map [symmetric])
  have u: "map lower_char ?u = replicate n CHR ''.''" using n by (simp add: lower_def drop_map [symmetric])
  have "?u = replicate n CHR ''.''"
  proof (rule replicate_eqI)
    show "length ?u = n" using arg_cong [OF u, of length] by simp
    show "y = CHR ''.''" if "y \<in> set ?u" for y
      using imageI [OF that, of lower_char] arg_cong [OF u, of set] char_facts(2) by (auto split: if_splits)
  qed
  then have "s = before @ ?h @ replicate n CHR ''.'' @ after" using s(1) by (metis append_assoc append_take_drop_id)
  with s(2) h l show "names_loopback s" unfolding names_loopback_def by metis
next
  assume "names_loopback s"
  then obtain before h n after where s: "s = before @ h @ replicate n CHR ''.'' @ after" "\<forall>c\<in>set before \<union> set after. is_py_space c"
    and h: "lower h \<in> {''127.0.0.1'', ''::1'', ''localhost'', ''0.0.0.0'', ''::''}" unfolding names_loopback_def by blast
  have facts: "lower h \<noteq> []" "last (lower h) \<noteq> CHR ''.''" "\<forall>c\<in>set (lower h). \<not> is_py_space c" using h by (auto simp: is_py_space_def)
  have ns: "\<not> is_py_space c" if "c \<in> set h" for c
  proof
    assume c: "is_py_space c"
    then have "c \<in> set (lower h)" using that char_facts(1) [OF c] by (force simp: lower_def)
    with facts(3) c show False by blast
  qed
  let ?t = "h @ replicate n CHR ''.''"
  have ne: "h \<noteq> []" using facts(1) by (auto simp: lower_def)
  have "\<not> is_py_space (hd ?t)" using ne ns by simp
  moreover have "\<not> is_py_space (last ?t)" using ne ns by (cases n) (simp_all add: is_py_space_def)
  ultimately have "strip (before @ ?t @ after) = ?t" using s(2) ne by (intro strip_around) simp_all
  then have "lower (strip s) = lower h @ replicate n CHR ''.''"
    by (simp add: s(1) lower_def map_replicate_const) (simp add: char_facts(2) map_replicate)
  then have "normalized_host s = lower h" using rstrip_dots(1) [OF facts(1,2)] by (simp add: normalized_host_def)
  with h show "normalized_host s \<in> set LOOPBACK_UPSTREAM_HOSTS" by (simp add: LOOPBACK_UPSTREAM_HOSTS_def)
qed

subsection \<open>What validation accepts\<close>

lemma accepted:
  assumes "validate_startup_configuration c = Inr ()"
  shows "\<not> (names_loopback (cf_upstream_host c) \<and> cf_upstream_port c \<in> {cf_local_port c, cf_capture_proxy_listen_port c})"
    "\<not> float_le (cf_replay_rate_per_device c) 0" "\<not> float_le (cf_replay_rate_global c) 0"
    "\<not> float_less (cf_replay_start_delay_seconds c) 0" "float_ge (cf_replay_jitter c) 0" "float_le (cf_replay_jitter c) 1"
    "is_finite (cs_reconcile_interval_seconds (cf_camera_bridge c))"
  using assms by (auto simp: validate_startup_configuration_def validate_upstream_safety_def bind_res_Inr normalized_host_loopback)

lemma from_env_responder: "from_env env = Inr c \<Longrightarrow> local_responder_from_env env = Inr (cf_local_responder c)"
  unfolding from_env_def bind_res_Inr by auto

lemma flags_enabled: "local_responder_from_env env = Inr f \<Longrightarrow> rf_enabled f = env_flag env ''PETLIBRO_LOCAL_RESPONDER'' False"
  by (auto simp: local_responder_from_env_def bind_res_Inr Let_def)

definition reads :: "environ \<Rightarrow> (RelayConfig \<Rightarrow> bool) \<Rightarrow> bool" where
  "reads env P = (case from_env env of Inl e \<Rightarrow> False | Inr c \<Rightarrow> P c)"

lemma reads_iff: "reads env P \<longleftrightarrow> (\<exists>c. from_env env = Inr c \<and> P c)"
  by (simp add: reads_def split: sum.split)

text \<open>The environment without any variable gives a configuration that passes.\<close>

lemma defaults_accepted: "reads [] (\<lambda>c. validate_startup_configuration c = Inr () \<and> is_finite (cf_replay_rate_per_device c) \<and>
    is_finite (cf_replay_rate_global c) \<and> is_finite (cf_replay_start_delay_seconds c))"
  by code_simp

text \<open>
  C35: A configuration that passes the startup validation never sends the relay's cloud sessions to its own
  broker or capture proxy: if its upstream host is 127.0.0.1, ::1, localhost, 0.0.0.0 or ::, however it is
  capitalised, followed by dots or surrounded by white space, then its upstream port is neither of the two.
  And if the two replay rates and the start delay are finite numbers, both delivery pumps can be built
  from it.
\<close>

theorem accepted_configuration_builds_pumps:
  assumes "validate_startup_configuration c = Inr ()" "is_finite (cf_replay_rate_per_device c)" "is_finite (cf_replay_rate_global c)"
    "is_finite (cf_replay_start_delay_seconds c)"
  shows "(\<exists>p p'. build_pumps c q = (Inr p, Inr p')) \<and>
    (\<forall>before h n after. cf_upstream_host c = before @ h @ replicate n CHR ''.'' @ after \<longrightarrow>
      (\<forall>ch\<in>set before \<union> set after. is_py_space ch) \<longrightarrow> lower h \<in> {''127.0.0.1'', ''::1'', ''localhost'', ''0.0.0.0'', ''::''} \<longrightarrow>
      cf_upstream_port c \<noteq> cf_local_port c \<and> cf_upstream_port c \<noteq> cf_capture_proxy_listen_port c)"
proof -
  note a = accepted [OF assms(1)]
  from assms(2-4) obtain rd rg delay where f: "cf_replay_rate_per_device c = Fin rd" "cf_replay_rate_global c = Fin rg"
    "cf_replay_start_delay_seconds c = Fin delay" by (auto simp: is_finite_def split: pyfloat.splits)
  from a(5,6) obtain j where j: "cf_replay_jitter c = Fin j" "0 \<le> j" "j \<le> 1" by (cases "cf_replay_jitter c") auto
  from f j a(2-4) have "\<exists>p p'. build_pumps c q = (Inr p, Inr p')" by (simp add: build_pumps_def init_pump_def)
  with a(1) show ?thesis unfolding names_loopback_def by blast
qed

theorem accepted_configuration_builds_pumps_witness:
  "\<exists>c p p'. from_env [(''PETLIBRO_UPSTREAM_HOST'', '' LocalHost. ''), (''PETLIBRO_UPSTREAM_PORT'', ''9'')] = Inr c \<and>
     build_pumps c (open_queue None 1 10) = (Inr p, Inr p') \<and> cf_upstream_port c \<noteq> cf_local_port c"
proof -
  let ?env = "[(''PETLIBRO_UPSTREAM_HOST'', '' LocalHost. ''), (''PETLIBRO_UPSTREAM_PORT'', ''9'')]"
  have "reads ?env (\<lambda>c. validate_startup_configuration c = Inr () \<and> is_finite (cf_replay_rate_per_device c) \<and>
      is_finite (cf_replay_rate_global c) \<and> is_finite (cf_replay_start_delay_seconds c) \<and> cf_upstream_host c = '' LocalHost. '')"
    by code_simp
  then obtain c where c: "from_env ?env = Inr c" "validate_startup_configuration c = Inr ()" "is_finite (cf_replay_rate_per_device c)"
      "is_finite (cf_replay_rate_global c)" "is_finite (cf_replay_start_delay_seconds c)" "cf_upstream_host c = '' LocalHost. ''"
    unfolding reads_iff by blast
  have h: "cf_upstream_host c = '' '' @ ''LocalHost'' @ replicate 1 CHR ''.'' @ '' ''" "lower ''LocalHost'' = ''localhost''"
    "\<forall>ch\<in>set '' '' \<union> set '' ''. is_py_space ch" using c(6) by (simp, code_simp, simp add: is_py_space_def)
  from accepted_configuration_builds_pumps [OF c(2-5), of "open_queue None 1 10"] h c(1) show ?thesis by blast
qed

text \<open>
  With the responder's master switch off, no request is ever answered locally, whatever the
  switches of the single functions say.
\<close>

theorem master_switch_disables_local_answers:
  assumes "from_env env = Inr c" "\<not> env_flag env ''PETLIBRO_LOCAL_RESPONDER'' False"
    "lr_settings r = responder_settings (cf_local_responder c) tolerance"
    "decide now i zone d topic payload u r = Some (a, r')"
  shows "ra_decision a \<noteq> RESPOND_LOCAL"
proof
  assume "ra_decision a = RESPOND_LOCAL"
  with decide_local [OF assms(4)] have "ls_enabled (lr_settings r)" by (auto simp: may_answer_def)
  with assms(2,3) flags_enabled [OF from_env_responder [OF assms(1)]] show False by (simp add: responder_settings_def)
qed

theorem master_switch_disables_local_answers_witness:
  "\<exists>c a r'. from_env [(''PETLIBRO_LOCAL_NTP'', ''1''), (''PETLIBRO_LOCAL_NTP_ALWAYS'', ''on'')] = Inr c \<and>
     decide 1 ''i'' (\<lambda>_. 0) ''A'' ''t'' ''{}'' DISCONNECTED
       (init_responder (responder_settings (cf_local_responder c) 10) open_shadow 60 False) = Some (a, r') \<and> ra_decision a \<noteq> RESPOND_LOCAL"
proof -
  let ?env = "[(''PETLIBRO_LOCAL_NTP'', ''1''), (''PETLIBRO_LOCAL_NTP_ALWAYS'', ''on'')]"
  have "reads ?env (\<lambda>_. True)" by code_simp
  then obtain c where c: "from_env ?env = Inr c" unfolding reads_iff by blast
  let ?r = "init_responder (responder_settings (cf_local_responder c) 10) open_shadow 60 False"
  have off: "\<not> env_flag ?env ''PETLIBRO_LOCAL_RESPONDER'' False" by (simp add: env_flag_def)
  have s: "lr_settings ?r = responder_settings (cf_local_responder c) 10" by (simp add: init_responder_def)
  have "parse ''{}'' = (None, Some [])" by code_simp
  then obtain a r' where d: "decide 1 ''i'' (\<lambda>_. 0) ''A'' ''t'' ''{}'' DISCONNECTED ?r = Some (a, r')"
    by (auto simp: decide_def Let_def)
  from master_switch_disables_local_answers [OF c off s d] c d show ?thesis by blast
qed

text \<open>A rate that is not a number passes, although it is not greater than zero.\<close>

theorem nan_rate_accepted:
  "\<exists>c. from_env [(''PETLIBRO_REPLAY_RATE_GLOBAL'', ''nan'')] = Inr c \<and> cf_replay_rate_global c = NaN \<and> validate_startup_configuration c = Inr ()"
proof -
  have "reads [(''PETLIBRO_REPLAY_RATE_GLOBAL'', ''nan'')] (\<lambda>c. cf_replay_rate_global c = NaN \<and> validate_startup_configuration c = Inr ())"
    by code_simp
  then show ?thesis unfolding reads_iff .
qed

end
