(* ===== verification/Camera_Service.thy ===== *)
theory Camera_Service
  imports Relay_Config
begin

text \<open>
  \<^verbatim>\<open>camera.py\<close>: registration of camera identifiers with the camera bridge, reconciliation after its
  restarts, and the streams and viewers of go2rtc. The two side programs are reached over HTTP: the
  outcome of a request is an argument (no usable answer, or a status with a body), and the requests
  made are kept as a list. An undecodable body counts as no usable answer. Timers are identified by
  numbers; a timer that fires calls its operation. Operations are split where the code releases its lock
  between two parts that belong together.

  The lemmas show that the registrar never queues a mapping twice, that a reconciliation schedules
  everything the bridge lacks, that every viewer has a watchdog and that a device with viewers has no
  pending stop; and two interleavings that leave a stream without its viewers or viewers without their
  stream.
\<close>

section \<open>HTTP\<close>

datatype http_result = NoAnswer | Response int bytes

datatype http_method = GET | PUT | POST | DELETE

definition is_success :: "http_result \<Rightarrow> bool" where
  "is_success r = (case r of NoAnswer \<Rightarrow> False | Response status body \<Rightarrow> 200 \<le> status \<and> status < 300)"

definition json_body :: "http_result \<Rightarrow> json option" where
  "json_body r = (case r of NoAnswer \<Rightarrow> None | Response status body \<Rightarrow> json_loads body)"

section \<open>Camera bridge client\<close>

definition bridge_base_url :: "CameraBridgeSettings \<Rightarrow> string" where
  "bridge_base_url s = (case cs_url s of
     Some url \<Rightarrow> rstrip_on (\<lambda>c. c = CHR ''/'') url
   | None \<Rightarrow> ''http://'' @ cs_host s @ '':'' @ show_int (cs_port s))"

text \<open>The request of a registration; nothing is sent while the bridge is disabled.\<close>

definition register_request :: "CameraBridgeSettings \<Rightarrow> string \<Rightarrow> string \<Rightarrow> string option \<Rightarrow> (http_method \<times> string \<times> bytes) option" where
  "register_request s device_id uid feeder_ip =
     (if \<not> cs_enabled s then None
      else Some (PUT, bridge_base_url s @ ''/devices/'' @ device_id,
        json_dumps (JObj ((''uid'', JStr uid) # (case feeder_ip of None \<Rightarrow> [] | Some ip \<Rightarrow> [(''ip'', JStr ip)])))))"

definition bridge_register :: "CameraBridgeSettings \<Rightarrow> http_result \<Rightarrow> bool" where
  "bridge_register s answer \<longleftrightarrow> cs_enabled s \<and> is_success answer"

definition bridge_health :: "CameraBridgeSettings \<Rightarrow> http_result \<Rightarrow> bool" where
  "bridge_health s answer \<longleftrightarrow> cs_enabled s \<and> is_success answer"

definition add_registration :: "json \<Rightarrow> (string, string option) dict \<Rightarrow> (string, string option) dict" where
  "add_registration device acc = (case device of
     JObj d \<Rightarrow> (case str_field d ''device_id'' of
       Some i \<Rightarrow> if i = [] then acc else dict_set i (str_field d ''ip'') acc
     | None \<Rightarrow> acc)
   | _ \<Rightarrow> acc)"

definition registrations :: "CameraBridgeSettings \<Rightarrow> http_result \<Rightarrow> (string, string option) dict option" where
  "registrations s answer =
     (if \<not> cs_enabled s then None
      else (case json_body answer of
        Some (JObj payload) \<Rightarrow>
          (case dict_get payload ''devices'' of
            Some (JList devices) \<Rightarrow> Some (fold add_registration devices [])
          | _ \<Rightarrow> None)
      | _ \<Rightarrow> None))"

definition bridge_status :: "CameraBridgeSettings \<Rightarrow> http_result \<Rightarrow> string \<Rightarrow> bool \<times> bool" where
  "bridge_status s answer device_id = (case registrations s answer of
     None \<Rightarrow> (False, False)
   | Some regs \<Rightarrow> (True, dict_get regs device_id \<noteq> None))"

section \<open>Registrar\<close>

type_synonym camera_mapping = "string \<times> string \<times> string option"

definition REGISTRATION_QUEUE_MAXSIZE :: nat where [relay_defs]: "REGISTRATION_QUEUE_MAXSIZE = 128"

text \<open>The worker holds at most one mapping taken from the queue.\<close>

record CameraBridgeRegistrar =
  rg_enabled :: bool
  rg_registered :: "camera_mapping list"
  rg_in_flight :: "camera_mapping list"
  rg_pending :: "camera_mapping list"
  rg_current :: "camera_mapping option"
  rg_stopped :: bool

definition init_registrar :: "bool \<Rightarrow> CameraBridgeRegistrar" where
  "init_registrar enabled = \<lparr>rg_enabled = enabled, rg_registered = [], rg_in_flight = [], rg_pending = [], rg_current = None, rg_stopped = False\<rparr>"

definition registrar_register :: "camera_mapping \<Rightarrow> bool \<Rightarrow> CameraBridgeRegistrar \<Rightarrow> bool \<times> CameraBridgeRegistrar" where
  "registrar_register m force g =
     (if rg_stopped g \<or> \<not> rg_enabled g \<or> \<not> is_camera_uid (Some (JStr (fst (snd m)))) then (False, g)
      else if m \<in> set (rg_in_flight g) \<or> (\<not> force \<and> m \<in> set (rg_registered g)) then (False, g)
      else if length (rg_pending g) \<ge> REGISTRATION_QUEUE_MAXSIZE then (False, g)
      else (True, g\<lparr>rg_in_flight := rg_in_flight g @ [m], rg_pending := rg_pending g @ [m]\<rparr>))"

fun registrar_reconcile :: "camera_mapping list \<Rightarrow> bool \<Rightarrow> CameraBridgeRegistrar \<Rightarrow> nat \<times> CameraBridgeRegistrar" where
  "registrar_reconcile [] force g = (0, g)"
| "registrar_reconcile (m # ms) force g =
     (case registrar_register m force g of (queued, g1) \<Rightarrow>
       case registrar_reconcile ms force g1 of (n, g2) \<Rightarrow> ((if queued then Suc n else n), g2))"

definition registrar_take :: "CameraBridgeRegistrar \<Rightarrow> CameraBridgeRegistrar" where
  "registrar_take g =
     (if rg_stopped g then g
      else (case (rg_current g, rg_pending g) of
        (None, m # ms) \<Rightarrow> g\<lparr>rg_pending := ms, rg_current := Some m\<rparr>
      | _ \<Rightarrow> g))"

text \<open>The answer to the registration the worker is waiting for.\<close>

definition registrar_answer :: "bool \<Rightarrow> CameraBridgeRegistrar \<Rightarrow> CameraBridgeRegistrar" where
  "registrar_answer accepted g = (case rg_current g of
     None \<Rightarrow> g
   | Some m \<Rightarrow>
       let g1 = g\<lparr>rg_current := None, rg_in_flight := removeAll m (rg_in_flight g)\<rparr>
       in if accepted then g1\<lparr>rg_registered := (if m \<in> set (rg_registered g) then rg_registered g else rg_registered g @ [m])\<rparr>
          else g1\<lparr>rg_registered := removeAll m (rg_registered g)\<rparr>)"

definition registrar_close :: "CameraBridgeRegistrar \<Rightarrow> CameraBridgeRegistrar" where
  "registrar_close g = (if rg_enabled g then g\<lparr>rg_stopped := True\<rparr> else g)"

section \<open>Reconciler\<close>

record CameraBridgeReconciler =
  rk_registrar :: CameraBridgeRegistrar
  rk_available :: "bool option"

definition missing_mappings :: "(string, string option) dict \<Rightarrow> camera_mapping list \<Rightarrow> camera_mapping list" where
  "missing_mappings bridge_registry persisted =
     filter (\<lambda>m. dict_get bridge_registry (fst m) \<noteq> Some (snd (snd m))) persisted"

definition reconcile_once :: "bool \<Rightarrow> (string, string option) dict option \<Rightarrow> camera_mapping list \<Rightarrow> CameraBridgeReconciler \<Rightarrow> CameraBridgeReconciler" where
  "reconcile_once healthy answer persisted k =
     (if \<not> rg_enabled (rk_registrar k) then k
      else if \<not> healthy then k\<lparr>rk_available := Some False\<rparr>
      else (case answer of
        None \<Rightarrow> k\<lparr>rk_available := Some False\<rparr>
      | Some bridge_registry \<Rightarrow>
          let recovered = (rk_available k = Some False);
              targets = (if recovered then persisted else missing_mappings bridge_registry persisted)
          in k\<lparr>rk_available := Some True, rk_registrar := snd (registrar_reconcile targets True (rk_registrar k))\<rparr>))"

section \<open>Status\<close>

definition PLAF203_PRODUCT_ID :: string where [relay_defs]: "PLAF203_PRODUCT_ID = ''PLAF203''"
definition CACHE_SECONDS :: seconds where [relay_defs]: "CACHE_SECONDS = 2"

record CameraStatus =
  st_available :: bool
  st_configured :: bool
  st_online :: bool
  st_stream :: string
  st_webrtc :: bool
  st_go2rtc_reachable :: bool
  st_reason :: "string option"
  st_bridge_reachable :: bool
  st_bridge_registered :: bool
  st_uid_learned :: bool
  st_player_available :: bool
  st_media_consumers :: nat

definition no_camera :: "string \<Rightarrow> string \<Rightarrow> CameraStatus" where
  "no_camera stream reason = \<lparr>st_available = False, st_configured = False, st_online = False, st_stream = stream, st_webrtc = False,
     st_go2rtc_reachable = False, st_reason = Some reason, st_bridge_reachable = False, st_bridge_registered = False,
     st_uid_learned = False, st_player_available = False, st_media_consumers = 0\<rparr>"

definition stream_name_for_device :: "string \<Rightarrow> string" where
  "stream_name_for_device device_id = ''plaf203_'' @ device_id"

definition fetch_status :: "string \<Rightarrow> http_result \<Rightarrow> CameraStatus" where
  "fetch_status stream answer = (case json_body answer of
     None \<Rightarrow> no_camera stream ''go2rtc_unreachable''
   | Some payload \<Rightarrow>
       let data = (case payload of JObj streams \<Rightarrow> (case dict_get streams stream of Some (JObj d) \<Rightarrow> Some d | _ \<Rightarrow> None) | _ \<Rightarrow> None);
           configured = (data \<noteq> None);
           online = (case data of None \<Rightarrow> False | Some d \<Rightarrow> \<not> falsy_field d ''producers'');
           consumers = (case data of None \<Rightarrow> 0 | Some d \<Rightarrow> (case dict_get d ''consumers'' of Some (JList xs) \<Rightarrow> length xs | _ \<Rightarrow> 0))
       in \<lparr>st_available = configured, st_configured = configured, st_online = online, st_stream = stream, st_webrtc = configured,
           st_go2rtc_reachable = True, st_reason = (if configured then None else Some ''stream_not_registered''),
           st_bridge_reachable = False, st_bridge_registered = False, st_uid_learned = False, st_player_available = configured,
           st_media_consumers = consumers\<rparr>)"

text \<open>The client's short cache; the clock is read once for the lookup and once for the entry.\<close>

definition go2rtc_status :: "Go2RtcSettings \<Rightarrow> seconds \<Rightarrow> http_result \<Rightarrow> string \<Rightarrow> string option \<Rightarrow> (string, seconds \<times> CameraStatus) dict
    \<Rightarrow> CameraStatus \<times> (string, seconds \<times> CameraStatus) dict" where
  "go2rtc_status s now answer device_id product_id cache =
     (let stream = stream_name_for_device device_id
      in if product_id \<noteq> Some PLAF203_PRODUCT_ID then (no_camera stream ''unsupported_product'', cache)
         else if \<not> gs_enabled s then (no_camera stream ''go2rtc_disabled'', cache)
         else (case dict_get cache device_id of
           Some (t, status) \<Rightarrow>
             if now - t < CACHE_SECONDS then (status, cache)
             else (let fresh = fetch_status stream answer in (fresh, dict_set device_id (now, fresh) cache))
         | None \<Rightarrow> (let fresh = fetch_status stream answer in (fresh, dict_set device_id (now, fresh) cache))))"

definition camera_status :: "Go2RtcSettings \<Rightarrow> CameraBridgeSettings \<Rightarrow> seconds \<Rightarrow> http_result \<Rightarrow> http_result \<Rightarrow> string \<Rightarrow> string option
    \<Rightarrow> (string, seconds \<times> CameraStatus) dict \<Rightarrow> CameraStatus \<times> (string, seconds \<times> CameraStatus) dict" where
  "camera_status gs cs now go_answer bridge_answer device_id product_id cache =
     (case go2rtc_status gs now go_answer device_id product_id cache of (status, cache1) \<Rightarrow>
      case bridge_status cs bridge_answer device_id of (reachable, registered) \<Rightarrow>
        (status\<lparr>st_bridge_reachable := reachable, st_bridge_registered := registered,
           st_available := st_player_available status \<and> reachable \<and> registered\<rparr>, cache1))"

section \<open>Streams and viewers\<close>

definition VIEWER_TIMEOUT_SECONDS :: seconds where [relay_defs]: "VIEWER_TIMEOUT_SECONDS = 20"

record Go2RtcStreamClient =
  sc_ensured_streams :: "string list"
  sc_webrtc_sessions :: "(string, string \<times> string option) dict"
  sc_stop_timers :: "(string, nat) dict"
  sc_viewers :: "(string, (string, seconds) dict) dict"
  sc_watchdogs :: "(string \<times> string, nat) dict"
  sc_next_timer :: nat
  sc_requests :: "(http_method \<times> string) list"

definition init_stream_client :: Go2RtcStreamClient where
  "init_stream_client = \<lparr>sc_ensured_streams = [], sc_webrtc_sessions = [], sc_stop_timers = [], sc_viewers = [], sc_watchdogs = [],
     sc_next_timer = 0, sc_requests = []\<rparr>"

definition request :: "http_method \<Rightarrow> string \<Rightarrow> Go2RtcStreamClient \<Rightarrow> Go2RtcStreamClient" where
  "request method target c = c\<lparr>sc_requests := sc_requests c @ [(method, target)]\<rparr>"

definition viewers_of :: "string \<Rightarrow> Go2RtcStreamClient \<Rightarrow> (string, seconds) dict" where
  "viewers_of d c = (case dict_get (sc_viewers c) d of None \<Rightarrow> [] | Some vs \<Rightarrow> vs)"

text \<open>The stream list is asked twice: before and, unless the known stream exists, after the creation.\<close>

definition ensure_stream :: "bool \<Rightarrow> bool \<Rightarrow> bool \<Rightarrow> string \<Rightarrow> Go2RtcStreamClient \<Rightarrow> bool \<times> Go2RtcStreamClient" where
  "ensure_stream enabled exists_before exists_after device_id c =
     (let stream = stream_name_for_device device_id
      in if \<not> enabled then (False, c)
         else if exists_before \<and> stream \<in> set (sc_ensured_streams c) then (True, c)
         else
           let c1 = (if exists_before then request DELETE stream c else c);
               c2 = request PUT stream c1
           in if exists_after
              then (True, c2\<lparr>sc_ensured_streams := (if stream \<in> set (sc_ensured_streams c) then sc_ensured_streams c else sc_ensured_streams c @ [stream])\<rparr>)
              else (False, c2\<lparr>sc_ensured_streams := removeAll stream (sc_ensured_streams c)\<rparr>))"

definition arm_viewer_watchdog :: "string \<Rightarrow> string \<Rightarrow> Go2RtcStreamClient \<Rightarrow> Go2RtcStreamClient" where
  "arm_viewer_watchdog d v c =
     c\<lparr>sc_watchdogs := dict_set (d, v) (sc_next_timer c) (dict_pop (d, v) (sc_watchdogs c)), sc_next_timer := Suc (sc_next_timer c)\<rparr>"

definition set_viewer :: "seconds \<Rightarrow> string \<Rightarrow> string \<Rightarrow> Go2RtcStreamClient \<Rightarrow> Go2RtcStreamClient" where
  "set_viewer now d v c = c\<lparr>sc_viewers := dict_set d (dict_set v now (viewers_of d c)) (sc_viewers c)\<rparr>"

definition cancel_stop :: "string \<Rightarrow> Go2RtcStreamClient \<Rightarrow> Go2RtcStreamClient" where
  "cancel_stop d c = c\<lparr>sc_stop_timers := dict_pop d (sc_stop_timers c)\<rparr>"

text \<open>The operations are composed of their lock-protected sections, which other threads can separate.\<close>

definition register_viewer :: "seconds \<Rightarrow> string \<Rightarrow> string \<Rightarrow> Go2RtcStreamClient \<Rightarrow> Go2RtcStreamClient" where
  "register_viewer now d v c = cancel_stop d (arm_viewer_watchdog d v (set_viewer now d v c))"

definition activate_viewer :: "bool \<Rightarrow> bool \<Rightarrow> bool \<Rightarrow> seconds \<Rightarrow> string \<Rightarrow> string \<Rightarrow> Go2RtcStreamClient \<Rightarrow> bool \<times> Go2RtcStreamClient" where
  "activate_viewer enabled exists_before exists_after now d v c =
     ensure_stream enabled exists_before exists_after d (register_viewer now d v c)"

definition heartbeat_viewer :: "seconds \<Rightarrow> string \<Rightarrow> string \<Rightarrow> Go2RtcStreamClient \<Rightarrow> bool \<times> Go2RtcStreamClient" where
  "heartbeat_viewer now d v c = (case dict_get (viewers_of d c) v of
     None \<Rightarrow> (False, c)
   | Some _ \<Rightarrow> (True, arm_viewer_watchdog d v (set_viewer now d v c)))"

definition schedule_idle_stream_stop :: "string \<Rightarrow> Go2RtcStreamClient \<Rightarrow> Go2RtcStreamClient" where
  "schedule_idle_stream_stop d c =
     (if viewers_of d c \<noteq> [] \<or> dict_get (sc_stop_timers c) d \<noteq> None then c
      else c\<lparr>sc_stop_timers := dict_set d (sc_next_timer c) (sc_stop_timers c), sc_next_timer := Suc (sc_next_timer c)\<rparr>)"

text \<open>The viewers left, if the viewer was there.\<close>

definition remove_viewer :: "string \<Rightarrow> string \<Rightarrow> Go2RtcStreamClient \<Rightarrow> nat option \<times> Go2RtcStreamClient" where
  "remove_viewer d v c =
     (if dict_get (viewers_of d c) v = None then (None, c)
      else
        let left = dict_pop v (viewers_of d c)
        in (Some (length left),
            c\<lparr>sc_viewers := dict_set d left (sc_viewers c), sc_watchdogs := dict_pop (d, v) (sc_watchdogs c)\<rparr>))"

definition deactivate_viewer :: "string \<Rightarrow> string \<Rightarrow> Go2RtcStreamClient \<Rightarrow> bool \<times> Go2RtcStreamClient" where
  "deactivate_viewer d v c =
     (case remove_viewer d v c of
       (None, c1) \<Rightarrow> (False, c1)
     | (Some remaining, c1) \<Rightarrow> (True, if remaining = 0 then schedule_idle_stream_stop d c1 else c1))"

text \<open>Whether the viewer is to be removed: one seen recently gets a new watchdog.\<close>

definition expire_check :: "seconds \<Rightarrow> string \<Rightarrow> string \<Rightarrow> Go2RtcStreamClient \<Rightarrow> bool \<times> Go2RtcStreamClient" where
  "expire_check now d v c = (case dict_get (viewers_of d c) v of
     None \<Rightarrow> (False, c)
   | Some seen \<Rightarrow> if now - seen < VIEWER_TIMEOUT_SECONDS then (False, arm_viewer_watchdog d v c) else (True, c))"

definition expire_viewer :: "seconds \<Rightarrow> string \<Rightarrow> string \<Rightarrow> Go2RtcStreamClient \<Rightarrow> Go2RtcStreamClient" where
  "expire_viewer now d v c = (case expire_check now d v c of (go, c1) \<Rightarrow> if go then snd (deactivate_viewer d v c1) else c1)"

text \<open>A fired stop timer: the decision under the lock, then the request.\<close>

definition stop_idle_check :: "string \<Rightarrow> Go2RtcStreamClient \<Rightarrow> bool \<times> Go2RtcStreamClient" where
  "stop_idle_check d c =
     (let c1 = cancel_stop d c
      in if viewers_of d c1 \<noteq> [] then (False, c1)
         else (True, c1\<lparr>sc_ensured_streams := removeAll (stream_name_for_device d) (sc_ensured_streams c1)\<rparr>))"

definition delete_stream :: "string \<Rightarrow> Go2RtcStreamClient \<Rightarrow> Go2RtcStreamClient" where
  "delete_stream stream c = request DELETE stream c"

definition stop_idle_stream :: "string \<Rightarrow> Go2RtcStreamClient \<Rightarrow> Go2RtcStreamClient" where
  "stop_idle_stream d c = (case stop_idle_check d c of (go, c1) \<Rightarrow> if go then delete_stream (stream_name_for_device d) c1 else c1)"

text \<open>An exchange of session descriptions: up to the request, and the session remembered from its answer.\<close>

definition exchange_begin :: "bool \<Rightarrow> bool \<Rightarrow> bool \<Rightarrow> seconds \<Rightarrow> string \<Rightarrow> string \<Rightarrow> Go2RtcStreamClient \<Rightarrow> bool \<times> Go2RtcStreamClient" where
  "exchange_begin enabled exists_before exists_after now d v c =
     (if \<not> enabled then (False, c)
      else (case heartbeat_viewer now d v c of (known, c1) \<Rightarrow>
        if \<not> known then (False, c1)
        else (case ensure_stream enabled exists_before exists_after d c1 of (ok, c2) \<Rightarrow>
          if ok then (True, request POST (stream_name_for_device d) c2) else (False, c2))))"

definition remember_webrtc_session :: "string \<Rightarrow> string \<Rightarrow> string \<Rightarrow> string option \<Rightarrow> Go2RtcStreamClient \<Rightarrow> Go2RtcStreamClient" where
  "remember_webrtc_session base_url session_id d location c =
     (let session_url = (case opt_str_or location None of
            None \<Rightarrow> None
          | Some l \<Rightarrow> Some (if prefix ''http'' l then l else base_url @ l));
          c1 = cancel_stop d c
      in c1\<lparr>sc_webrtc_sessions := dict_set session_id (d, session_url) (sc_webrtc_sessions c1)\<rparr>)"

definition close_webrtc :: "http_result \<Rightarrow> string \<Rightarrow> string \<Rightarrow> Go2RtcStreamClient \<Rightarrow> bool \<times> Go2RtcStreamClient" where
  "close_webrtc answer d session_id c =
     (let c1 = c\<lparr>sc_webrtc_sessions := dict_pop session_id (sc_webrtc_sessions c)\<rparr>
      in case dict_get (sc_webrtc_sessions c) session_id of
        None \<Rightarrow> (False, c1)
      | Some (owner, url) \<Rightarrow>
          if owner \<noteq> d then (False, c1)
          else (case url of
            None \<Rightarrow> (True, c1)
          | Some u \<Rightarrow> (answer \<noteq> NoAnswer, request DELETE u c1)))"

text \<open>\<open>Go2RtcStreamReconciler.reconcile_once\<close>: the answers to its probes are given per device.\<close>

definition reconcile_streams :: "bool \<Rightarrow> (string \<Rightarrow> bool \<times> bool) \<Rightarrow> camera_mapping list \<Rightarrow> Go2RtcStreamClient \<Rightarrow> Go2RtcStreamClient" where
  "reconcile_streams enabled probes mappings c =
     (if \<not> enabled then c
      else fold (\<lambda>m c. snd (ensure_stream enabled (fst (probes (fst m))) (snd (probes (fst m))) (fst m) c)) mappings c)"

section \<open>The registrar's queue\<close>

datatype registrar_op = Register camera_mapping bool | Take | Answer bool | Close

fun registrar_step :: "registrar_op \<Rightarrow> CameraBridgeRegistrar \<Rightarrow> CameraBridgeRegistrar" where
  "registrar_step (Register m force) g = snd (registrar_register m force g)"
| "registrar_step Take g = registrar_take g"
| "registrar_step (Answer ok) g = registrar_answer ok g"
| "registrar_step Close g = registrar_close g"

definition registrar_work :: "CameraBridgeRegistrar \<Rightarrow> camera_mapping list" where
  "registrar_work g = (case rg_current g of None \<Rightarrow> [] | Some m \<Rightarrow> [m]) @ rg_pending g"

definition registrar_inv :: "CameraBridgeRegistrar \<Rightarrow> bool" where
  "registrar_inv g \<longleftrightarrow> distinct (registrar_work g) \<and> set (rg_in_flight g) = set (registrar_work g) \<and>
     length (rg_pending g) \<le> REGISTRATION_QUEUE_MAXSIZE \<and> (\<forall>m\<in>set (registrar_work g). is_camera_uid (Some (JStr (fst (snd m)))))"

lemma registrar_inv_register: "registrar_inv g \<Longrightarrow> registrar_inv (snd (registrar_register m force g))"
  by (auto simp: registrar_inv_def registrar_register_def registrar_work_def split: option.splits)

lemma registrar_inv_step: "registrar_inv g \<Longrightarrow> registrar_inv (registrar_step x g)"
proof (cases x)
  case Take
  assume "registrar_inv g"
  then show ?thesis unfolding Take
    by (cases "rg_pending g"; cases "rg_current g") (auto simp: registrar_inv_def registrar_take_def registrar_work_def)
next
  case (Answer ok)
  assume "registrar_inv g"
  then show ?thesis unfolding Answer
    by (cases "rg_current g") (auto simp: registrar_inv_def registrar_answer_def registrar_work_def Let_def)
next
  case Close
  assume "registrar_inv g"
  then show ?thesis unfolding Close by (simp add: registrar_inv_def registrar_close_def registrar_work_def)
qed (simp add: registrar_inv_register)

text \<open>Whatever is not queued by a reconciliation was refused for one of four reasons.\<close>

lemma register_refused:
  "\<not> rg_stopped g \<Longrightarrow> rg_enabled g \<Longrightarrow> is_camera_uid (Some (JStr (fst (snd m)))) \<Longrightarrow> length (rg_pending g) < REGISTRATION_QUEUE_MAXSIZE \<Longrightarrow>
    m \<in> set (rg_in_flight (snd (registrar_register m True g)))"
  by (auto simp: registrar_register_def)

lemma register_keeps:
  "set (rg_in_flight g) \<subseteq> set (rg_in_flight (snd (registrar_register m force g)))"
  "length (rg_pending (snd (registrar_register m force g))) \<le> Suc (length (rg_pending g))"
  "rg_stopped (snd (registrar_register m force g)) = rg_stopped g" "rg_enabled (snd (registrar_register m force g)) = rg_enabled g"
  by (auto simp: registrar_register_def)

lemma reconcile_schedules:
  assumes "\<not> rg_stopped g" "rg_enabled g" "length (rg_pending g) + length ms \<le> REGISTRATION_QUEUE_MAXSIZE"
  shows "set (rg_in_flight g) \<subseteq> set (rg_in_flight (snd (registrar_reconcile ms True g))) \<and>
    (\<forall>m\<in>set ms. is_camera_uid (Some (JStr (fst (snd m)))) \<longrightarrow> m \<in> set (rg_in_flight (snd (registrar_reconcile ms True g))))"
  using assms
proof (induction ms arbitrary: g)
  case (Cons m ms)
  let ?g = "snd (registrar_register m True g)"
  have "length (rg_pending ?g) + length ms \<le> REGISTRATION_QUEUE_MAXSIZE" using Cons.prems(3) register_keeps(2) [of m True g] by simp
  then have IH: "set (rg_in_flight ?g) \<subseteq> set (rg_in_flight (snd (registrar_reconcile ms True ?g))) \<and>
      (\<forall>m\<in>set ms. is_camera_uid (Some (JStr (fst (snd m)))) \<longrightarrow> m \<in> set (rg_in_flight (snd (registrar_reconcile ms True ?g))))"
    using Cons.IH [of ?g] Cons.prems by (simp add: register_keeps)
  have "snd (registrar_reconcile (m # ms) True g) = snd (registrar_reconcile ms True ?g)" by (simp add: case_prod_beta)
  moreover have "m \<in> set (rg_in_flight ?g)" if "is_camera_uid (Some (JStr (fst (snd m))))"
    using register_refused [OF Cons.prems(1,2) that] Cons.prems(3) by simp
  ultimately show ?case using IH register_keeps(1) [of g m True] by auto
qed simp

section \<open>Viewers\<close>

text \<open>
  The sections as steps. A thread between two sections of its operation can be overtaken by any others, so
  a step that continues an operation - scheduling the stop, removing an expired viewer, ensuring or
  deleting a stream, remembering a session - may come at any time.
\<close>

datatype viewer_op = Register seconds string string | Heartbeat seconds string string | Remove string string | ScheduleStop string
  | ExpireCheck seconds string string | StopCheck string | DeleteStream string | EnsureStream bool bool string | PostOffer string
  | RememberSession string string "string option" | CloseWebrtc http_result string string

fun viewer_step :: "viewer_op \<Rightarrow> Go2RtcStreamClient \<Rightarrow> Go2RtcStreamClient" where
  "viewer_step (Register now d v) c = register_viewer now d v c"
| "viewer_step (Heartbeat now d v) c = snd (heartbeat_viewer now d v c)"
| "viewer_step (Remove d v) c = snd (remove_viewer d v c)"
| "viewer_step (ScheduleStop d) c = schedule_idle_stream_stop d c"
| "viewer_step (ExpireCheck now d v) c = snd (expire_check now d v c)"
| "viewer_step (StopCheck d) c = snd (stop_idle_check d c)"
| "viewer_step (DeleteStream d) c = delete_stream (stream_name_for_device d) c"
| "viewer_step (EnsureStream b a d) c = snd (ensure_stream True b a d c)"
| "viewer_step (PostOffer d) c = request POST (stream_name_for_device d) c"
| "viewer_step (RememberSession sid d location) c = remember_webrtc_session ''http://go2rtc:1984'' sid d location c"
| "viewer_step (CloseWebrtc answer d sid) c = snd (close_webrtc answer d sid c)"

text \<open>The operations are runs of their sections.\<close>

lemma operations_are_runs:
  "\<exists>xs. snd (activate_viewer True b a now d v c) = fold viewer_step xs c"
  "\<exists>xs. snd (deactivate_viewer d v c) = fold viewer_step xs c"
  "\<exists>xs. expire_viewer now d v c = fold viewer_step xs c"
  "\<exists>xs. stop_idle_stream d c = fold viewer_step xs c"
  "\<exists>xs. snd (exchange_begin True b a now d v c) = fold viewer_step xs c"
proof -
  show "\<exists>xs. snd (activate_viewer True b a now d v c) = fold viewer_step xs c"
    by (rule exI [of _ "[Register now d v, EnsureStream b a d]"]) (simp add: activate_viewer_def)
  have deactivate: "\<exists>xs. snd (deactivate_viewer d v c) = fold viewer_step xs c" for c
    by (rule exI [of _ "if fst (remove_viewer d v c) = Some 0 then [Remove d v, ScheduleStop d] else [Remove d v]"])
      (auto simp: deactivate_viewer_def split: prod.split option.split)
  then show "\<exists>xs. snd (deactivate_viewer d v c) = fold viewer_step xs c" .
  show "\<exists>xs. expire_viewer now d v c = fold viewer_step xs c"
  proof -
    obtain go c1 where e: "expire_check now d v c = (go, c1)" by force
    obtain xs where "snd (deactivate_viewer d v c1) = fold viewer_step xs c1" using deactivate by blast
    with e show ?thesis
      by (intro exI [of _ "ExpireCheck now d v # (if go then xs else [])"]) (simp add: expire_viewer_def)
  qed
  show "\<exists>xs. stop_idle_stream d c = fold viewer_step xs c"
    by (rule exI [of _ "StopCheck d # (if fst (stop_idle_check d c) then [DeleteStream d] else [])"])
      (simp add: stop_idle_stream_def split: prod.split)
  show "\<exists>xs. snd (exchange_begin True b a now d v c) = fold viewer_step xs c"
    by (rule exI [of _ "Heartbeat now d v # (if fst (heartbeat_viewer now d v c) then EnsureStream b a d #
        (if fst (ensure_stream True b a d (snd (heartbeat_viewer now d v c))) then [PostOffer d] else []) else [])"])
      (simp add: exchange_begin_def split: prod.split)
qed

definition viewers_inv :: "Go2RtcStreamClient \<Rightarrow> bool" where
  "viewers_inv c \<longleftrightarrow> (\<forall>d v. dict_get (viewers_of d c) v \<noteq> None \<longleftrightarrow> dict_get (sc_watchdogs c) (d, v) \<noteq> None) \<and>
     (\<forall>d. dict_get (sc_stop_timers c) d \<noteq> None \<longrightarrow> viewers_of d c = [])"

lemma viewers_simps [simp]:
  "viewers_of d (arm_viewer_watchdog d' v c) = viewers_of d c" "viewers_of d (cancel_stop d' c) = viewers_of d c"
  "viewers_of d (request m t c) = viewers_of d c"
  "viewers_of d (set_viewer now d' v c) = (if d = d' then dict_set v now (viewers_of d c) else viewers_of d c)"
  by (simp_all add: viewers_of_def arm_viewer_watchdog_def cancel_stop_def request_def set_viewer_def)

lemma ensure_keep [simp]:
  "sc_viewers (snd (ensure_stream e b a d c)) = sc_viewers c" "sc_watchdogs (snd (ensure_stream e b a d c)) = sc_watchdogs c"
  "sc_stop_timers (snd (ensure_stream e b a d c)) = sc_stop_timers c"
  by (simp_all add: ensure_stream_def request_def Let_def)

lemma viewers_inv_cong:
  "viewers_inv c \<Longrightarrow> sc_viewers c' = sc_viewers c \<Longrightarrow> sc_watchdogs c' = sc_watchdogs c \<Longrightarrow> sc_stop_timers c' = sc_stop_timers c \<Longrightarrow> viewers_inv c'"
  by (simp add: viewers_inv_def viewers_of_def)

lemma viewers_inv_fewer_timers:
  "viewers_inv c \<Longrightarrow> sc_viewers c' = sc_viewers c \<Longrightarrow> sc_watchdogs c' = sc_watchdogs c \<Longrightarrow>
    (\<And>d. dict_get (sc_stop_timers c') d \<noteq> None \<Longrightarrow> dict_get (sc_stop_timers c) d \<noteq> None) \<Longrightarrow> viewers_inv c'"
  unfolding viewers_inv_def viewers_of_def by (metis (no_types, lifting))

lemma dict_set_not_Nil [simp]: "dict_set k v d \<noteq> []"
  by (induction d) auto

lemma watched:
  "sc_watchdogs (set_viewer now d v c) = sc_watchdogs c" "sc_stop_timers (set_viewer now d v c) = sc_stop_timers c"
  "dict_get (sc_watchdogs (arm_viewer_watchdog d v c)) x = (if x = (d, v) then Some (sc_next_timer c) else dict_get (sc_watchdogs c) x)"
  "sc_stop_timers (arm_viewer_watchdog d v c) = sc_stop_timers c" "sc_watchdogs (cancel_stop d c) = sc_watchdogs c"
  "dict_get (sc_stop_timers (cancel_stop d c)) e = (if e = d then None else dict_get (sc_stop_timers c) e)"
  by (auto simp: set_viewer_def arm_viewer_watchdog_def cancel_stop_def)

lemma viewers_inv_activate: "viewers_inv c \<Longrightarrow> viewers_inv (register_viewer now d v c)"
  unfolding viewers_inv_def register_viewer_def by (auto simp: watched)

lemma viewed_not_stopping: "viewers_inv c \<Longrightarrow> dict_get (viewers_of d c) v \<noteq> None \<Longrightarrow> dict_get (sc_stop_timers c) d = None"
  unfolding viewers_inv_def by (metis map_of.simps(1))

lemma viewers_inv_heartbeat:
  assumes "viewers_inv c" "dict_get (viewers_of d c) v \<noteq> None"
  shows "viewers_inv (arm_viewer_watchdog d v (set_viewer now d v c))"
  using assms viewed_not_stopping [OF assms] unfolding viewers_inv_def by (auto simp: watched)

lemma viewers_inv_schedule: "viewers_inv c \<Longrightarrow> viewers_inv (schedule_idle_stream_stop d c)"
proof -
  assume c: "viewers_inv c"
  have "viewers_of e (c\<lparr>sc_stop_timers := t, sc_next_timer := n\<rparr>) = viewers_of e c" for e t n by (simp add: viewers_of_def)
  with c show ?thesis unfolding viewers_inv_def schedule_idle_stream_stop_def by auto
qed

lemma viewers_inv_remove:
  assumes c: "viewers_inv c"
  shows "viewers_inv (snd (remove_viewer d v c))"
proof (cases "dict_get (viewers_of d c) v")
  case None
  with c show ?thesis by (simp add: remove_viewer_def)
next
  case (Some seen)
  let ?left = "dict_pop v (viewers_of d c)"
  let ?c1 = "c\<lparr>sc_viewers := dict_set d ?left (sc_viewers c), sc_watchdogs := dict_pop (d, v) (sc_watchdogs c)\<rparr>"
  have v: "viewers_of e ?c1 = (if e = d then ?left else viewers_of e c)" for e by (simp add: viewers_of_def)
  have "dict_get (sc_stop_timers c) d = None" using viewed_not_stopping [OF c] Some by blast
  with c have "viewers_inv ?c1" unfolding viewers_inv_def v by (auto simp: delete_conv)
  with Some show ?thesis by (simp add: remove_viewer_def Let_def)
qed

lemma viewers_inv_step: "viewers_inv c \<Longrightarrow> viewers_inv (viewer_step x c)"
proof (cases x)
  case (Heartbeat now d v)
  assume "viewers_inv c"
  with viewers_inv_heartbeat [of c d v now] show ?thesis unfolding Heartbeat
    by (auto simp: heartbeat_viewer_def split: option.split)
next
  case (ExpireCheck now d v)
  assume c: "viewers_inv c"
  then have "viewers_inv (arm_viewer_watchdog d v c)" if "dict_get (viewers_of d c) v \<noteq> None"
    using that unfolding viewers_inv_def by (auto simp: watched)
  with c show ?thesis unfolding ExpireCheck by (auto simp: expire_check_def split: option.split)
next
  case (StopCheck d)
  assume c: "viewers_inv c"
  show ?thesis unfolding StopCheck
    by (rule viewers_inv_fewer_timers [OF c])
      (auto simp: stop_idle_check_def cancel_stop_def Let_def split: if_splits)
next
  case (RememberSession sid d location)
  assume c: "viewers_inv c"
  show ?thesis unfolding RememberSession
    by (rule viewers_inv_fewer_timers [OF c]) (auto simp: remember_webrtc_session_def cancel_stop_def Let_def split: if_splits)
next
  case (CloseWebrtc answer d sid)
  assume c: "viewers_inv c"
  show ?thesis unfolding CloseWebrtc
    by (rule viewers_inv_cong [OF c]) (simp_all add: close_webrtc_def request_def Let_def split: option.split)
next
  case (EnsureStream b a d)
  assume c: "viewers_inv c"
  show ?thesis unfolding EnsureStream by (rule viewers_inv_cong [OF c]) simp_all
next
  case (DeleteStream d)
  assume c: "viewers_inv c"
  show ?thesis unfolding DeleteStream by (rule viewers_inv_cong [OF c]) (simp_all add: delete_stream_def request_def)
next
  case (PostOffer d)
  assume c: "viewers_inv c"
  show ?thesis unfolding PostOffer by (rule viewers_inv_cong [OF c]) (simp_all add: request_def)
qed (simp_all add: viewers_inv_activate viewers_inv_remove viewers_inv_schedule)

lemma viewers_inv_run: "viewers_inv (fold viewer_step xs init_stream_client)"
proof (induction xs rule: rev_induct)
  case Nil
  then show ?case by (simp add: viewers_inv_def init_stream_client_def viewers_of_def)
qed (simp add: viewers_inv_step)

section \<open>Properties\<close>

text \<open>
  However registrations, the worker and shutdown interleave, a camera mapping is queued or being
  sent at most once, exactly those mappings count as in flight, the queue never exceeds its capacity and
  holds only well-formed camera identifiers.
\<close>

theorem registrar_never_duplicates:
  "registrar_inv (fold registrar_step xs (init_registrar enabled))"
proof (induction xs rule: rev_induct)
  case Nil
  then show ?case by (simp add: registrar_inv_def init_registrar_def registrar_work_def)
qed (simp add: registrar_inv_step)

text \<open>
  A reconciliation with a healthy bridge leaves every stored camera the bridge does not know, or
  knows under another address, in flight; after an outage every stored camera is, known or not. The
  queue must have room for them.
\<close>

theorem reconciliation_schedules_missing:
  assumes "rg_enabled (rk_registrar k)" "\<not> rg_stopped (rk_registrar k)"
    "length (rg_pending (rk_registrar k)) + length persisted \<le> 128"
    "(d, uid, ip) \<in> set persisted" "is_camera_uid (Some (JStr uid))"
    "rk_available k = Some False \<or> dict_get bridge_registry d \<noteq> Some ip"
  shows "(d, uid, ip) \<in> set (rg_in_flight (rk_registrar (reconcile_once True (Some bridge_registry) persisted k))) \<and>
    rk_available (reconcile_once True (Some bridge_registry) persisted k) = Some True"
proof -
  let ?ts = "if rk_available k = Some False then persisted else missing_mappings bridge_registry persisted"
  have "length ?ts \<le> length persisted" by (simp add: missing_mappings_def)
  with assms(3) have "length (rg_pending (rk_registrar k)) + length ?ts \<le> REGISTRATION_QUEUE_MAXSIZE" by (simp add: relay_defs)
  moreover have "(d, uid, ip) \<in> set ?ts" using assms(4,6) by (auto simp: missing_mappings_def)
  ultimately have "(d, uid, ip) \<in> set (rg_in_flight (snd (registrar_reconcile ?ts True (rk_registrar k))))"
    using reconcile_schedules [OF assms(2,1), of ?ts] assms(5) by auto
  with assms(1) show ?thesis by (simp add: reconcile_once_def Let_def)
qed

theorem reconciliation_schedules_missing_witness:
  "let k = \<lparr>rk_registrar = init_registrar True, rk_available = None\<rparr>; uid = replicate 20 CHR ''A''
   in (''D'', uid, Some ''10.0.0.2'') \<in> set (rg_in_flight (rk_registrar (reconcile_once True (Some [(''D'', Some ''10.0.0.1'')]) [(''D'', uid, Some ''10.0.0.2'')] k)))"
proof -
  let ?k = "\<lparr>rk_registrar = init_registrar True, rk_available = None\<rparr>"
  have "is_camera_uid (Some (JStr (replicate 20 CHR ''A'')))" by code_simp
  then show ?thesis
    using reconciliation_schedules_missing [of ?k "[(''D'', replicate 20 CHR ''A'', Some ''10.0.0.2'')]" "''D''" "replicate 20 CHR ''A''"
        "Some ''10.0.0.2''" "[(''D'', Some ''10.0.0.1'')]"]
    by (simp add: init_registrar_def)
qed

text \<open>
  C36: In every interleaving of the lock-protected sections of viewers, watchdogs, stop timers and session
  exchanges - a viewer may return between the removal of the last one and the scheduling of the stop -
  each viewer has a watchdog armed and each watchdog a viewer, and a stop is pending only for a device
  without viewers.
\<close>

theorem viewers_are_watched:
  "(dict_get (viewers_of d (fold viewer_step xs init_stream_client)) v \<noteq> None \<longleftrightarrow>
      dict_get (sc_watchdogs (fold viewer_step xs init_stream_client)) (d, v) \<noteq> None) \<and>
   (dict_get (sc_stop_timers (fold viewer_step xs init_stream_client)) d = None \<or> viewers_of d (fold viewer_step xs init_stream_client) = [])"
  using viewers_inv_run [of xs] unfolding viewers_inv_def by blast

text \<open>
  A viewer that leaves while its exchange is under way: the answer cancels the pending stop, and the
  stream stays registered with no viewer and nothing left to stop it.
\<close>

theorem late_exchange_cancels_stop:
  "let c1 = snd (exchange_begin True True True 1 ''D'' ''v'' (snd (activate_viewer True False True 0 ''D'' ''v'' init_stream_client)));
       c = remember_webrtc_session ''http://go2rtc:1984'' ''sid'' ''D'' None (snd (deactivate_viewer ''D'' ''v'' c1))
   in viewers_of ''D'' c = [] \<and> sc_stop_timers c = [] \<and> stream_name_for_device ''D'' \<in> set (sc_ensured_streams c)"
  by code_simp

text \<open>
  A viewer that arrives between the decision to stop a stream and the request for it: the stream it just
  got is deleted.
\<close>

theorem late_stop_deletes_viewed_stream:
  "let c0 = snd (deactivate_viewer ''D'' ''v'' (snd (activate_viewer True False True 0 ''D'' ''v'' init_stream_client)));
       (go, c1) = stop_idle_check ''D'' c0;
       c2 = delete_stream (stream_name_for_device ''D'') (snd (activate_viewer True True True 9 ''D'' ''w'' c1))
   in go \<and> viewers_of ''D'' c2 = [(''w'', 9)] \<and> last (sc_requests c2) = (DELETE, stream_name_for_device ''D'')"
  by code_simp

text \<open>
  Closing a session under another device's name fails, but forgets the session without closing it.
\<close>

theorem foreign_close_forgets_session:
  assumes "dict_get (sc_webrtc_sessions c) sid = Some (owner, url)" "owner \<noteq> d"
  shows "fst (close_webrtc answer d sid c) = False \<and> dict_get (sc_webrtc_sessions (snd (close_webrtc answer d sid c))) sid = None \<and>
    sc_requests (snd (close_webrtc answer d sid c)) = sc_requests c"
  using assms by (simp add: close_webrtc_def Let_def)

section \<open>The stream list\<close>

text \<open>
  What \<open>ensure_stream\<close> asks go2rtc: \<open>_stream_exists\<close> reads the stream list, and a stream is created from the
  RTSP source of its device. An answer that is missing or is not an object means that no stream exists.
\<close>

definition stream_exists :: "http_result \<Rightarrow> string \<Rightarrow> bool" where
  "stream_exists answer stream = (case json_body answer of Some (JObj streams) \<Rightarrow> stream \<in> fst ` set streams | _ \<Rightarrow> False)"

definition source_url :: "Go2RtcSettings \<Rightarrow> string \<Rightarrow> string" where
  "source_url s device_id = ''rtsp://'' @ gs_source_host s @ '':'' @ show_int (gs_source_port s) @ ''/device/'' @ device_id"

definition ensure_stream_answers :: "Go2RtcSettings \<Rightarrow> http_result \<Rightarrow> http_result \<Rightarrow> string \<Rightarrow> Go2RtcStreamClient \<Rightarrow> bool \<times> Go2RtcStreamClient" where
  "ensure_stream_answers s before after device_id c =
     ensure_stream (gs_enabled s) (stream_exists before (stream_name_for_device device_id)) (stream_exists after (stream_name_for_device device_id)) device_id c"

text \<open>The client reports success only for a stream that the last answer it read lists.\<close>

lemma ensured_stream_is_listed:
  assumes "fst (ensure_stream_answers s before after device_id c)"
  shows "stream_exists after (stream_name_for_device device_id) \<or>
    stream_exists before (stream_name_for_device device_id) \<and> stream_name_for_device device_id \<in> set (sc_ensured_streams c)"
  using assms by (auto simp: ensure_stream_answers_def ensure_stream_def Let_def split: if_splits)

text \<open>Two devices never share a stream or a source.\<close>

lemma streams_are_distinct:
  "stream_name_for_device d = stream_name_for_device e \<longleftrightarrow> d = e" "source_url s d = source_url s e \<longleftrightarrow> d = e"
  by (simp_all add: stream_name_for_device_def source_url_def)

end
