(* ===== verification/Dashboard.thy ===== *)
theory Dashboard
  imports Device_Manager Device_Control Log_Buffer Camera_Service "HOL-Library.Monad_Syntax"
begin

text \<open>
  \<^verbatim>\<open>web/context.py\<close>: the projections of the relay's state that the dashboard shows. The context refers to
  the components other parts of the relay own; the record holds the current state of each, and the
  telemetry of a device is the object its cloud session updates. Everything read in one request sees one
  state and one clock reading. The answers of the camera status provider are a function. A projection
  has no result when a stored text does not decode and the read raises.

  A response is a Python value: decoded JSON, a float, a list or a dictionary. \<open>sanitize_view\<close> is
  \<open>sanitize_value\<close> on such values.

  The lemmas show that no answer depends on a user name or password, that the header's counts add up, and
  that a device's page shows only the settings and plan fields of the allowlists. Facts of the host
  (\<open>system\<close>) are in \<open>Host_Facts\<close>.
\<close>

section \<open>Values of a response\<close>

datatype view = VJson json | VNum seconds | VList "view list" | VDict "(string \<times> view) list"

abbreviation "VNone \<equiv> VJson JNull"
abbreviation "VStr s \<equiv> VJson (JStr s)"
abbreviation "VBool b \<equiv> VJson (JBool b)"
abbreviation "VNat n \<equiv> VJson (JInt (int n))"

definition vopt :: "('a \<Rightarrow> view) \<Rightarrow> 'a option \<Rightarrow> view" where
  "vopt f x = (case x of None \<Rightarrow> VNone | Some y \<Rightarrow> f y)"

fun sanitize_view :: "view \<Rightarrow> view" where
  "sanitize_view (VJson v) = VJson (sanitize_value v)"
| "sanitize_view (VNum x) = VNum x"
| "sanitize_view (VList xs) = VList (map sanitize_view xs)"
| "sanitize_view (VDict kvs) =
     VDict (map (\<lambda>(k, v). (k, if is_sensitive_key k then VStr REDACTED_VALUE else sanitize_view v)) kvs)"

definition counters_view :: "(string, nat) dict \<Rightarrow> view" where
  "counters_view cs = VDict (map (\<lambda>(k, n). (k, VNat n)) cs)"

section \<open>Context\<close>

definition DAILY_SETTING_KEYS :: "string list" where
  "DAILY_SETTING_KEYS =
    [''afterManualFeedingTime'', ''automaticRecording'', ''beforeFeedingPlanTime'', ''cameraAgingType'', ''cameraEndTime'',
     ''cameraStartTime'', ''cameraSwitch'', ''enableVideoAfterManualFeeding'', ''enableVideoStartFeedingPlan'',
     ''feedingVideoSwitch'', ''filterLedSwitch'', ''lightAgingType'', ''lightSwitch'', ''lightingEndTime'',
     ''lightingStartTime'', ''motionDetectionAgingType'', ''motionDetectionEndTime'', ''motionDetectionRange'',
     ''motionDetectionSensitivity'', ''motionDetectionStartTime'', ''motionDetectionSwitch'', ''nightVision'', ''resolution'',
     ''soundAgingType'', ''soundDetectionAgingType'', ''soundDetectionEndTime'', ''soundDetectionSensitivity'',
     ''soundDetectionStartTime'', ''soundDetectionSwitch'', ''soundEndTime'', ''soundStartTime'', ''soundSwitch'',
     ''videoRecordAgingType'', ''videoRecordEndTime'', ''videoRecordMode'', ''videoRecordStartTime'', ''videoRecordSwitch'',
     ''videoWatermarkSwitch'', ''volume'']"

definition DAILY_SCHEDULE_PLAN_KEYS :: "string list" where
  "DAILY_SCHEDULE_PLAN_KEYS = [''planId'', ''executionTime'', ''grainNum'', ''enableAudio'', ''audioTimes'', ''repeatDay'', ''syncTime'']"

record DashboardContext =
  db_config :: RelayConfig
  db_registry :: DeviceRegistry
  db_queue :: MessageQueue
  db_shadow :: StateShadow
  db_telemetry :: RelayTelemetry
  db_logs :: RingBufferLogHandler
  db_devices :: DeviceManager
  db_presence :: DevicePresenceTracker
  db_control :: "DeviceControlController option"
  db_camera :: "string \<Rightarrow> string option \<Rightarrow> CameraStatus"
  db_camera_streams :: Go2RtcStreamClient

text \<open>What the control service reads of the other components.\<close>

definition control_env :: "seconds \<Rightarrow> DashboardContext \<Rightarrow> ControlEnv" where
  "control_env now x = \<lparr>env_product = (\<lambda>d. map_option dx_product_id (get_by_device_id d (db_devices x))),
     env_online = (\<lambda>d. is_online now d (db_presence x))\<rparr>"

section \<open>Telemetry\<close>

fun upstream_state_name :: "UpstreamState \<Rightarrow> string" where
  "upstream_state_name DISCONNECTED = ''DISCONNECTED''"
| "upstream_state_name TCP_CONNECTING = ''TCP_CONNECTING''"
| "upstream_state_name MQTT_CONNECTING = ''MQTT_CONNECTING''"
| "upstream_state_name UP_ONLINE = ''ONLINE''"
| "upstream_state_name SUSPENDED = ''SUSPENDED''"

definition empty_metrics :: "string \<Rightarrow> DeviceSnapshot" where
  "empty_metrics device_id =
     \<lparr>dsn_device_id = device_id, dsn_state = DISCONNECTED, dsn_last_connack = None, dsn_last_disconnect = None,
      dsn_current_online_duration = None, dsn_previous_session_duration = None, dsn_average_session_duration = None,
      dsn_minimum_session_duration = None, dsn_maximum_session_duration = None, dsn_counters = [], dsn_outage_started_at = None,
      dsn_outage_downtime = None, dsn_outage_attempts = 0, dsn_outage_failed_attempts = 0, dsn_outage_last_reason = None,
      dsn_availability_15m = None, dsn_availability_1h = None, dsn_availability_24h = None\<rparr>"

definition device_metrics :: "seconds \<Rightarrow> DashboardContext \<Rightarrow> string \<Rightarrow> DeviceSnapshot" where
  "device_metrics now x device_id =
     (case find (\<lambda>s. dsn_device_id s = device_id) (device_snapshots now (db_telemetry x)) of
       Some s \<Rightarrow> s
     | None \<Rightarrow> empty_metrics device_id)"

definition availability_view :: "DeviceSnapshot \<Rightarrow> view" where
  "availability_view s = VDict [(''15m'', vopt VNum (dsn_availability_15m s)), (''1h'', vopt VNum (dsn_availability_1h s)),
     (''24h'', vopt VNum (dsn_availability_24h s))]"

definition metrics_view :: "DeviceSnapshot \<Rightarrow> view" where
  "metrics_view s = VDict
     [(''device_id'', VStr (dsn_device_id s)),
      (''upstream'', VDict
        [(''state'', VStr (upstream_state_name (dsn_state s))),
         (''last_connack_0'', vopt VNum (dsn_last_connack s)),
         (''last_disconnect'', vopt VNum (dsn_last_disconnect s)),
         (''current_online_duration_seconds'', vopt VNum (dsn_current_online_duration s)),
         (''previous_session_duration_seconds'', vopt VNum (dsn_previous_session_duration s)),
         (''average_session_duration_seconds'', vopt VNum (dsn_average_session_duration s)),
         (''minimum_session_duration_seconds'', vopt VNum (dsn_minimum_session_duration s)),
         (''maximum_session_duration_seconds'', vopt VNum (dsn_maximum_session_duration s)),
         (''counters'', counters_view (dsn_counters s)),
         (''outage'', VDict
           [(''started_at'', vopt VNum (dsn_outage_started_at s)), (''downtime_seconds'', vopt VNum (dsn_outage_downtime s)),
            (''attempts'', VNat (dsn_outage_attempts s)), (''failed_attempts'', VNat (dsn_outage_failed_attempts s)),
            (''last_reason'', vopt VStr (dsn_outage_last_reason s))]),
         (''availability'', availability_view s)])]"

definition transition_view :: "UpstreamTransition \<Rightarrow> view" where
  "transition_view t = VDict
     [(''kind'', VStr (kind_value (ut_kind t))), (''device_id'', VStr (ut_device_id t)),
      (''state_before'', VStr (upstream_state_name (ut_state_before t))),
      (''state_after'', VStr (upstream_state_name (ut_state_after t))), (''attempt'', VNat (ut_attempt t)),
      (''reason'', vopt VStr (ut_reason t)), (''reason_code'', vopt VStr (ut_reason_code t)),
      (''disconnect_flags'', vopt VStr (ut_disconnect_flags t)),
      (''session_duration_seconds'', vopt VNum (ut_session_duration_seconds t)),
      (''downtime_seconds'', vopt VNum (ut_downtime_seconds t)), (''failed_attempts'', VNat (ut_failed_attempts t)),
      (''offline_summary_due'', VBool (ut_offline_summary_due t))]"

definition event_fields :: "RuntimeEvent \<Rightarrow> (string, view) dict" where
  "event_fields e =
     [(''timestamp'', VNum (re_timestamp e)), (''kind'', VStr (re_kind e)), (''message'', VStr (re_message e)),
      (''device_id'', vopt VStr (re_device_id e)),
      (''details'', case re_details e of TransitionDetails t \<Rightarrow> transition_view t | JsonDetails d \<Rightarrow> VJson (JObj d))]"

definition cloud_view :: "seconds \<Rightarrow> DashboardContext \<Rightarrow> view" where
  "cloud_view now x = sanitize_view (VDict
     [(''devices'', VList (map metrics_view (device_snapshots now (db_telemetry x)))),
      (''events'', VList (map (\<lambda>e. VDict (event_fields e)) (events 500 None (db_telemetry x))))])"

section \<open>Rows\<close>

record DeviceRow =
  dv_device_id :: string
  dv_product_id :: string
  dv_username :: string
  dv_status :: DeviceStatus
  dv_bridged :: bool
  dv_local_state :: LocalPresence
  dv_cloud_state :: UpstreamState
  dv_upstream_running :: bool
  dv_last_local_session_at :: "seconds option"
  dv_ip :: "string option"
  dv_reported :: json_dict
  dv_first_seen_at :: seconds
  dv_last_seen_at :: seconds
  dv_age_seconds :: seconds
  dv_ttl_remaining_seconds :: seconds
  dv_queue_pending :: nat
  dv_metrics :: DeviceSnapshot

definition device_row :: "seconds \<Rightarrow> DashboardContext \<Rightarrow> DeviceRegistryEntry \<Rightarrow> DeviceRow option" where
  "device_row now x entry =
     (let d = re_client_id entry;
          metrics = device_metrics now x d;
          presence = presence_record d (db_presence x)
      in do {
        reported \<leftarrow> get_reported (db_shadow x) d;
        Some \<lparr>dv_device_id = d, dv_product_id = re_product_id entry, dv_username = mask_username (re_username entry),
          dv_status = re_status entry, dv_bridged = bridged entry, dv_local_state = presence_state now d (db_presence x),
          dv_cloud_state = dsn_state metrics,
          dv_upstream_running = (case get_by_device_id d (db_devices x) of None \<Rightarrow> False | Some c \<Rightarrow> upstream_running c),
          dv_last_local_session_at = Option.bind presence pr_last_opened_at, dv_ip = Option.bind presence pr_peer_address,
          dv_reported = reported, dv_first_seen_at = re_first_seen_at entry, dv_last_seen_at = re_last_seen_at entry,
          dv_age_seconds = max 0 (now - re_last_seen_at entry),
          dv_ttl_remaining_seconds = max 0 (dr_retention_seconds (db_registry x) - (now - re_last_seen_at entry)),
          dv_queue_pending = Message_Queue.count (db_queue x) d LOCAL_TO_UPSTREAM + Message_Queue.count (db_queue x) d UPSTREAM_TO_LOCAL,
          dv_metrics = metrics\<rparr>
      })"

definition status_value :: "DeviceStatus \<Rightarrow> string" where
  "status_value s = (case s of KNOWN \<Rightarrow> ''KNOWN'' | CANDIDATE \<Rightarrow> ''CANDIDATE'' | DISABLED \<Rightarrow> ''DISABLED'')"

definition presence_value :: "LocalPresence \<Rightarrow> string" where
  "presence_value p = (case p of LocalPresence.ONLINE \<Rightarrow> ''LOCAL_ONLINE'' | OFFLINE \<Rightarrow> ''LOCAL_OFFLINE'')"

definition json_get :: "json_dict \<Rightarrow> string \<Rightarrow> view" where
  "json_get d key = VJson (case dict_get d key of None \<Rightarrow> JNull | Some v \<Rightarrow> v)"

definition row_view :: "DeviceRow \<Rightarrow> view" where
  "row_view r = VDict
     [(''device_id'', VStr (dv_device_id r)), (''client_id'', VStr (dv_device_id r)), (''product_id'', VStr (dv_product_id r)),
      (''username'', VStr (dv_username r)), (''status'', VStr (status_value (dv_status r))), (''bridged'', VBool (dv_bridged r)),
      (''local_state'', VStr (presence_value (dv_local_state r))), (''cloud_state'', VStr (upstream_state_name (dv_cloud_state r))),
      (''upstream_running'', VBool (dv_upstream_running r)), (''last_local_session_at'', vopt VNum (dv_last_local_session_at r)),
      (''ip'', vopt VStr (dv_ip r)), (''firmware'', json_get (dv_reported r) ''firmware''),
      (''hardware_version'', json_get (dv_reported r) ''hardware_version''), (''mac'', json_get (dv_reported r) ''mac''),
      (''rssi'', json_get (dv_reported r) ''rssi''), (''last_heartbeat_ts'', json_get (dv_reported r) ''last_heartbeat_ts''),
      (''first_seen_at'', VNum (dv_first_seen_at r)), (''last_seen_at'', VNum (dv_last_seen_at r)),
      (''age_seconds'', VNum (dv_age_seconds r)), (''ttl_remaining_seconds'', VNum (dv_ttl_remaining_seconds r)),
      (''queue_pending'', VNat (dv_queue_pending r)), (''availability'', availability_view (dv_metrics r))]"

text \<open>The rows of all known devices; the registry already keeps one entry per client id.\<close>

definition device_rows :: "seconds \<Rightarrow> DashboardContext \<Rightarrow> DeviceRow list option" where
  "device_rows now x = do {
     es \<leftarrow> entries now (db_registry x);
     rows \<leftarrow> those (map (device_row now x) es);
     Some (sort_key dv_device_id rows)
   }"

record Summary =
  su_known :: nat
  su_bridged :: nat
  su_awaiting_enrollment :: nat
  su_local_online :: nat
  su_cloud_online :: nat
  su_cloud_degraded :: nat
  su_cloud_suspended :: nat
  su_queue_pending :: nat
  su_auto_enroll :: bool

definition how_many :: "('a \<Rightarrow> bool) \<Rightarrow> 'a list \<Rightarrow> nat" where
  "how_many P xs = length (filter P xs)"

definition summarize :: "DeviceRow list \<Rightarrow> bool \<Rightarrow> Summary" where
  "summarize rows auto_enroll =
     (let bridged = filter dv_bridged rows;
          connected = filter (\<lambda>r. dv_local_state r = LocalPresence.ONLINE) bridged
      in \<lparr>su_known = length rows, su_bridged = length bridged, su_awaiting_enrollment = how_many (\<lambda>r. \<not> dv_bridged r) rows,
          su_local_online = how_many (\<lambda>r. dv_local_state r = LocalPresence.ONLINE) rows,
          su_cloud_online = how_many (\<lambda>r. dv_cloud_state r = UP_ONLINE) bridged,
          su_cloud_degraded = how_many (\<lambda>r. dv_cloud_state r \<noteq> UP_ONLINE) connected,
          su_cloud_suspended = how_many (\<lambda>r. dv_cloud_state r = SUSPENDED) bridged,
          su_queue_pending = sum_list (map dv_queue_pending rows), su_auto_enroll = auto_enroll\<rparr>)"

definition summary_view :: "Summary \<Rightarrow> view" where
  "summary_view s = VDict
     [(''known'', VNat (su_known s)), (''bridged'', VNat (su_bridged s)), (''awaiting_enrollment'', VNat (su_awaiting_enrollment s)),
      (''local_online'', VNat (su_local_online s)), (''cloud_online'', VNat (su_cloud_online s)),
      (''cloud_degraded'', VNat (su_cloud_degraded s)), (''cloud_suspended'', VNat (su_cloud_suspended s)),
      (''queue_pending'', VNat (su_queue_pending s)), (''auto_enroll'', VBool (su_auto_enroll s))]"

section \<open>Overview\<close>

definition queue_totals :: "DashboardContext \<Rightarrow> view" where
  "queue_totals x = (let depth = depth_by_device (db_queue x) in VDict
     [(''pending_total'', VNat (sum_list (map snd depth))), (''pending_by_device'', counters_view depth),
      (''unroutable'', VNat (unroutable_count (db_queue x)))])"

definition flags_view :: "ResponderFlags \<Rightarrow> view \<Rightarrow> view" where
  "flags_view f counters = VDict
     [(''enabled'', VBool (rf_enabled f)), (''ntp_enabled'', VBool (rf_ntp f)), (''config_enabled'', VBool (rf_config f)),
      (''feeding_plan_enabled'', VBool (rf_feeding_plan f)), (''always_answer_ntp_locally'', VBool (rf_always_answer_ntp_locally f)),
      (''device_timezone'', VStr (rf_device_timezone f)), (''counters'', counters)]"

definition configured_responder :: "DashboardContext \<Rightarrow> view" where
  "configured_responder x = flags_view (cf_local_responder (db_config x)) (VDict [])"

definition responder_counters_view :: "ResponderCounters \<Rightarrow> view" where
  "responder_counters_view c = VDict
     [(''local_responses'', VNat (rc_local_responses c)), (''cache_hits'', VNat (rc_cache_hits c)),
      (''cache_misses'', VNat (rc_cache_misses c)), (''unknown_requests'', VNat (rc_unknown_requests c)),
      (''suppressed_late_cloud_responses'', VNat (rc_suppressed_late_cloud_responses c))]"

text \<open>Every responder is built with the configured settings.\<close>

definition responder_view :: "DashboardContext \<Rightarrow> string \<Rightarrow> view" where
  "responder_view x device_id =
     (case Option.bind (get_by_device_id device_id (db_devices x)) dx_responder of
       Some r \<Rightarrow> flags_view (cf_local_responder (db_config x)) (responder_counters_view (lr_counters r))
     | None \<Rightarrow> configured_responder x)"

definition local_mqtt_view :: "DashboardContext \<Rightarrow> view" where
  "local_mqtt_view x = VDict [(''connected'', VBool (rt_local_connected (db_telemetry x)))]"

definition uptime :: "seconds \<Rightarrow> DashboardContext \<Rightarrow> view" where
  "uptime now x = VNum (now - rt_started_at (db_telemetry x))"

definition devices_view :: "seconds \<Rightarrow> DashboardContext \<Rightarrow> view option" where
  "devices_view now x = do {
     rows \<leftarrow> device_rows now x;
     Some (sanitize_view (VDict
       [(''devices'', VList (map row_view rows)), (''summary'', summary_view (summarize rows (cf_auto_enroll (db_config x)))),
        (''retention_seconds'', VNum (dr_retention_seconds (db_registry x)))]))
   }"

text \<open>The overview reads the summary of the sanitized device list.\<close>

definition status_view :: "seconds \<Rightarrow> DashboardContext \<Rightarrow> view option" where
  "status_view now x = do {
     rows \<leftarrow> device_rows now x;
     let enabled = rf_enabled (cf_local_responder (db_config x));
     Some (sanitize_view (VDict
       [(''relay'', VDict [(''status'', VStr ''running''), (''uptime_seconds'', uptime now x), (''local_responder_enabled'', VBool enabled),
          (''mode'', VStr (if enabled then ''LOCAL_FALLBACK'' else ''PURE_PIPE'')), (''auto_enroll'', VBool (cf_auto_enroll (db_config x)))]),
        (''local_mqtt'', local_mqtt_view x),
        (''devices'', sanitize_view (summary_view (summarize rows (cf_auto_enroll (db_config x))))),
        (''queues'', queue_totals x), (''local_responder'', configured_responder x)]))
   }"

section \<open>One device\<close>

definition camera_fields :: "CameraStatus \<Rightarrow> (string, view) dict" where
  "camera_fields s =
     [(''available'', VBool (st_available s)), (''configured'', VBool (st_configured s)), (''online'', VBool (st_online s)),
      (''stream'', VStr (st_stream s)), (''webrtc'', VBool (st_webrtc s)), (''go2rtc_reachable'', VBool (st_go2rtc_reachable s)),
      (''reason'', vopt VStr (st_reason s)), (''bridge_reachable'', VBool (st_bridge_reachable s)),
      (''bridge_registered'', VBool (st_bridge_registered s)), (''uid_learned'', VBool (st_uid_learned s)),
      (''player_available'', VBool (st_player_available s)), (''media_consumers'', VNat (st_media_consumers s))]"

definition find_entry :: "seconds \<Rightarrow> DashboardContext \<Rightarrow> string \<Rightarrow> DeviceRegistryEntry option option" where
  "find_entry now x device_id = do {
     es \<leftarrow> entries now (db_registry x);
     Some (find (\<lambda>e. re_client_id e = device_id) es)
   }"

definition camera_of :: "DashboardContext \<Rightarrow> string \<Rightarrow> string \<Rightarrow> (string, view) dict" where
  "camera_of x device_id product_id =
     dict_set ''uid_learned'' (VBool (get_camera_uid (db_shadow x) device_id \<noteq> None))
       (camera_fields (db_camera x device_id (Some product_id)))"

definition camera_view :: "seconds \<Rightarrow> DashboardContext \<Rightarrow> string \<Rightarrow> string option \<Rightarrow> view option" where
  "camera_view now x device_id product_id = (case product_id of
     Some p \<Rightarrow> Some (VDict (camera_of x device_id p))
   | None \<Rightarrow> do {
       entry \<leftarrow> find_entry now x device_id;
       Some (VDict (case entry of None \<Rightarrow> [] | Some e \<Rightarrow> camera_of x device_id (re_product_id e)))
     })"

definition message_view :: "SnapshotMessage \<Rightarrow> view" where
  "message_view m = VDict
     [(''id'', VNat (sm_id m)), (''topic'', VStr (sm_topic m)), (''cmd'', vopt VStr (sm_cmd m)), (''qos'', VJson (JInt (sm_qos m))),
      (''created_at'', VNum (sm_created_at m)), (''age_seconds'', VNum (sm_age_seconds m)), (''replay_policy'', VStr (sm_replay_policy m)),
      (''payload'', VJson (sm_payload m))]"

definition queue_view :: "QueueSnapshot \<Rightarrow> view" where
  "queue_view q = VDict
     [(''device_id'', VStr (qs_device_id q)), (''direction'', VStr (qs_direction q)), (''pending'', VNat (qs_pending q)),
      (''oldest_age_seconds'', vopt VNum (qs_oldest_age_seconds q)), (''newest_age_seconds'', vopt VNum (qs_newest_age_seconds q)),
      (''messages'', VList (map message_view (qs_messages q)))]"

definition queues_view :: "seconds \<Rightarrow> DashboardContext \<Rightarrow> string \<Rightarrow> int \<Rightarrow> view" where
  "queues_view now x device_id limit = sanitize_view (VDict
     [(''device_id'', VStr device_id),
      (''device_to_cloud'', queue_view (snapshot now (db_queue x) device_id LOCAL_TO_UPSTREAM limit)),
      (''cloud_to_device'', queue_view (snapshot now (db_queue x) device_id UPSTREAM_TO_LOCAL limit))])"

definition setting_view :: "string \<times> json \<times> seconds \<Rightarrow> view" where
  "setting_view e = (case e of (k, v, t) \<Rightarrow> VDict [(''key'', VStr k), (''value'', VJson v), (''updated_at'', VNum t)])"

definition plan_view :: "SchedulePlan \<Rightarrow> view" where
  "plan_view p = VDict [(''plan'', VJson (sp_plan p)), (''source'', VStr (sp_source p)), (''updated_at'', VNum (sp_updated_at p))]"

definition raw_view :: "RawPreview \<Rightarrow> view" where
  "raw_view p = VDict [(''topic'', VStr (rp_topic p)), (''cmd'', vopt VStr (rp_cmd p)), (''payload'', VJson (rp_payload p)),
     (''updated_at'', VNum (rp_updated_at p))]"

definition shadow_view :: "DashboardSnapshot \<Rightarrow> view" where
  "shadow_view s = VDict
     [(''device_id'', VStr (ds_device_id s)), (''reported'', VList (map setting_view (ds_reported s))),
      (''desired'', VList (map setting_view (ds_desired s))), (''local_confirmed'', VList (map setting_view (ds_local_confirmed s))),
      (''feeding_plans'', VDict
        [(''plans'', VJson (case ds_plans s of None \<Rightarrow> JList [] | Some p \<Rightarrow> fp_plans p)),
         (''source_msg_id'', vopt VStr (Option.bind (ds_plans s) fp_source_msg_id)),
         (''updated_at'', vopt VNum (map_option fp_updated_at (ds_plans s))), (''complete'', VBool (ds_plans s \<noteq> None))]),
      (''schedule_plans'', VList (map plan_view (ds_schedule_plans s))), (''raw_messages'', VList (map raw_view (ds_raw_messages s))),
      (''counts'', VDict
        [(''reported'', VNat (length (ds_reported s))), (''desired'', VNat (length (ds_desired s))),
         (''local_confirmed'', VNat (length (ds_local_confirmed s))), (''raw_messages'', VNat (ds_raw_count s)),
         (''feeding_plan_cached'', VBool (ds_plans s \<noteq> None))])]"

definition state_view :: "DashboardContext \<Rightarrow> string \<Rightarrow> int \<Rightarrow> view option" where
  "state_view x device_id raw_limit = map_option (\<lambda>s. sanitize_view (shadow_view s)) (dashboard_snapshot (db_shadow x) device_id raw_limit)"

text \<open>\<open>next(... if item["cmd"] == command, None)\<close> over the sanitized raw messages.\<close>

definition last_raw :: "string \<Rightarrow> DashboardSnapshot \<Rightarrow> view" where
  "last_raw command s =
     vopt (\<lambda>p. sanitize_view (raw_view p))
       (find (\<lambda>p. map_option (\<lambda>c. sanitize_text c []) (rp_cmd p) = Some command) (ds_raw_messages s))"

definition counter_of :: "DeviceSnapshot \<Rightarrow> string \<Rightarrow> nat" where
  "counter_of s name = (case dict_get (dsn_counters s) name of None \<Rightarrow> 0 | Some n \<Rightarrow> n)"

definition ntp_view :: "seconds \<Rightarrow> DashboardContext \<Rightarrow> string \<Rightarrow> view option" where
  "ntp_view now x device_id = do {
     s \<leftarrow> dashboard_snapshot (db_shadow x) device_id 100;
     let metrics = device_metrics now x device_id;
     Some (VDict
       [(''device_id'', VStr device_id), (''trigger'', VStr ''session_establishment''),
        (''requests_observed'', VNat (counter_of metrics ''ntp_requests'')),
        (''cloud_ntp_sync_responses'', VNat (counter_of metrics ''ntp_sync_from_cloud'')),
        (''local_ntp_responses'', VNat (counter_of metrics ''local_responses'')),
        (''local_fallback_enabled'', VBool (rf_ntp (cf_local_responder (db_config x)))),
        (''last_request'', last_raw cmd_NTP s), (''last_ntp_sync'', last_raw cmd_NTP_SYNC s)])
   }"

definition capability_view :: "CapabilityView \<Rightarrow> view" where
  "capability_view c = VDict
     [(''control'', VStr (cv_control c)), (''writable'', VBool (cc_writable (cv_capability c))),
      (''device_ack_confirmed'', VBool (cc_device_ack_confirmed (cv_capability c))),
      (''cloud_sync_confirmed'', VBool (cc_cloud_sync_confirmed (cv_capability c))), (''device_online'', VBool (cv_device_online c)),
      (''required_state_available'', VBool (cv_required_state_available c)), (''pending'', VBool (cv_pending c))]"

definition no_capability :: "string \<Rightarrow> bool \<Rightarrow> view" where
  "no_capability control cloud = capability_view
     \<lparr>cv_control = control, cv_capability = \<lparr>cc_writable = False, cc_device_ack_confirmed = True, cc_cloud_sync_confirmed = cloud\<rparr>,
      cv_device_online = False, cv_required_state_available = False, cv_pending = False\<rparr>"

definition to_option :: "'e + 'a \<Rightarrow> 'a option" where
  "to_option r = (case r of Inl _ \<Rightarrow> None | Inr v \<Rightarrow> Some v)"

definition controls_view :: "seconds \<Rightarrow> DashboardContext \<Rightarrow> string \<Rightarrow> view option" where
  "controls_view now x device_id = (case db_control x of
     None \<Rightarrow> Some (VDict [(''soundSwitch'', no_capability ''soundSwitch'' True),
       (''motionDetectionSwitch'', no_capability ''motionDetectionSwitch'' False), (''counters'', VDict [])])
   | Some c \<Rightarrow> do {
       caps \<leftarrow> those (map (\<lambda>name. map_option (\<lambda>v. (name, capability_view v))
         (to_option (capability (control_env now x) device_id name (c\<lparr>dc_shadow := db_shadow x\<rparr>)))) (map fst CONTROL_CAPABILITIES));
       Some (VDict (caps @ [(''counters'', counters_view (dc_counters c))]))
     })"

definition log_view :: "BufferedLogEntry \<Rightarrow> view" where
  "log_view e = VDict
     [(''sequence'', VNat (ble_sequence e)), (''timestamp'', VNum (ble_timestamp e)), (''level'', VStr (ble_level e)),
      (''component'', VStr (ble_component e)), (''message'', VStr (ble_message e)), (''device_id'', vopt VStr (ble_device_id e)),
      (''cmd'', vopt VStr (ble_cmd e))]"

definition device_detail :: "seconds \<Rightarrow> DashboardContext \<Rightarrow> string \<Rightarrow> int \<Rightarrow> view option option" where
  "device_detail now x device_id raw_limit = do {
     found \<leftarrow> find_entry now x device_id;
     case found of None \<Rightarrow> Some None | Some entry \<Rightarrow> do {
       row \<leftarrow> device_row now x entry;
       shown \<leftarrow> state_view x device_id raw_limit;
       ntp \<leftarrow> ntp_view now x device_id;
       controls \<leftarrow> controls_view now x device_id;
       Some (Some (sanitize_view (VDict
         [(''device'', row_view row),
          (''cloud'', VDict [(''metrics'', metrics_view (device_metrics now x device_id)),
             (''events'', VList (map (\<lambda>e. VDict (event_fields e)) (events 200 (Some device_id) (db_telemetry x))))]),
          (''queues'', queues_view now x device_id 100), (''state'', shown), (''ntp'', ntp),
          (''local_responder'', responder_view x device_id), (''controls'', controls),
          (''camera'', VDict (camera_of x device_id (re_product_id entry))),
          (''logs'', VList (map log_view (filter (\<lambda>e. ble_device_id e = Some device_id) (log_snapshot 100 (db_logs x)))))])))
     }
   }"

section \<open>Daily views\<close>

text \<open>A stored plan is an object; \<open>.get\<close> on anything else would raise.\<close>

definition plan_dict :: "SchedulePlan \<Rightarrow> json_dict option" where
  "plan_dict p = (case sp_plan p of JObj d \<Rightarrow> Some d | _ \<Rightarrow> None)"

definition daily_plan_ok :: "json_dict \<Rightarrow> bool" where
  "daily_plan_ok d \<longleftrightarrow> str_field d ''executionTime'' \<noteq> None \<and>
     (case dict_get d ''grainNum'' of Some (JInt _) \<Rightarrow> True | Some (JBool _) \<Rightarrow> True | _ \<Rightarrow> False) \<and>
     (case dict_get d ''repeatDay'' of None \<Rightarrow> True | Some (JList _) \<Rightarrow> True | _ \<Rightarrow> False)"

definition daily_plan_view :: "json_dict \<Rightarrow> view" where
  "daily_plan_view d = VDict [(''execution_time'', json_get d ''executionTime''), (''grain_num'', json_get d ''grainNum''),
     (''repeat_day'', VJson (case dict_get d ''repeatDay'' of None \<Rightarrow> JList [] | Some v \<Rightarrow> v))]"

definition daily_row :: "DashboardContext \<Rightarrow> DeviceRow \<Rightarrow> (string, view) dict option" where
  "daily_row x r = do {
     stored \<leftarrow> get_schedule_plans (db_shadow x) (dv_device_id r);
     plans \<leftarrow> those (map plan_dict stored);
     Some [(''device_id'', VStr (dv_device_id r)), (''product_id'', VStr (dv_product_id r)),
       (''local_state'', VStr (presence_value (dv_local_state r))), (''last_seen_at'', VNum (dv_last_seen_at r)),
       (''rssi'', json_get (dv_reported r) ''rssi''),
       (''schedule'', VList (map daily_plan_view (filter daily_plan_ok plans)))]
   }"

definition daily_camera :: "DashboardContext \<Rightarrow> string \<Rightarrow> string \<Rightarrow> view" where
  "daily_camera x device_id product_id =
     (let fs = camera_of x device_id product_id
      in VDict (map (\<lambda>k. (k, case dict_get fs k of None \<Rightarrow> VBool False | Some v \<Rightarrow> v))
        [''available'', ''online'', ''webrtc'', ''bridge_registered'', ''go2rtc_reachable'']))"

definition field_or_none :: "(string, view) dict \<Rightarrow> string \<Rightarrow> view" where
  "field_or_none fs key = (case dict_get fs key of None \<Rightarrow> VNone | Some v \<Rightarrow> v)"

definition daily_activity :: "DashboardContext \<Rightarrow> string \<Rightarrow> view" where
  "daily_activity x device_id = VList (map (\<lambda>e. VDict
     [(''timestamp'', field_or_none (event_fields e) ''timestamp''), (''cmd'', field_or_none (event_fields e) ''cmd'')])
     (events 30 (Some device_id) (db_telemetry x)))"

definition home_view :: "seconds \<Rightarrow> DashboardContext \<Rightarrow> view option" where
  "home_view now x = do {
     rows \<leftarrow> device_rows now x;
     daily \<leftarrow> those (map (\<lambda>r. map_option (\<lambda>fs. VDict (fs @ [(''camera'', daily_camera x (dv_device_id r) (dv_product_id r))])) (daily_row x r)) rows);
     Some (sanitize_view (VDict
       [(''status'', VDict
          [(''relay'', VDict [(''status'', VStr ''running''), (''uptime_seconds'', uptime now x)]), (''local_mqtt'', local_mqtt_view x),
           (''devices'', summary_view (summarize rows (cf_auto_enroll (db_config x))))]),
        (''devices'', VList daily)]))
   }"

definition daily_settings :: "json_dict \<Rightarrow> view" where
  "daily_settings d = VList (map (\<lambda>(k, v). VDict [(''key'', VStr k), (''value'', VJson v)])
     (filter (\<lambda>e. fst e \<in> set DAILY_SETTING_KEYS) d))"

definition daily_schedule_plan :: "SchedulePlan \<Rightarrow> json_dict \<Rightarrow> view" where
  "daily_schedule_plan p d = VDict
     [(''plan'', VJson (JObj (List.map_filter (\<lambda>k. map_option (Pair k) (dict_get d k)) DAILY_SCHEDULE_PLAN_KEYS))),
      (''source'', VStr (sp_source p)), (''updated_at'', VNum (sp_updated_at p))]"

definition daily_device_detail :: "seconds \<Rightarrow> DashboardContext \<Rightarrow> string \<Rightarrow> view option option" where
  "daily_device_detail now x device_id = do {
     found \<leftarrow> find_entry now x device_id;
     case found of None \<Rightarrow> Some None | Some entry \<Rightarrow> do {
       row \<leftarrow> device_row now x entry;
       fs \<leftarrow> daily_row x row;
       desired \<leftarrow> get_desired (db_shadow x) device_id;
       confirmed \<leftarrow> get_local_confirmed (db_shadow x) device_id;
       stored \<leftarrow> get_schedule_plans (db_shadow x) device_id;
       plans \<leftarrow> those (map plan_dict stored);
       controls \<leftarrow> controls_view now x device_id;
       Some (Some (sanitize_view (VDict
         [(''device'', VDict fs),
          (''state'', VDict [(''desired'', daily_settings desired), (''local_confirmed'', daily_settings confirmed),
             (''schedule_plans'', VList (map2 daily_schedule_plan stored plans))]),
          (''controls'', controls), (''camera'', daily_camera x device_id (re_product_id entry)),
          (''activity'', daily_activity x device_id)])))
     }
   }"

section \<open>No answer depends on credentials\<close>

definition erase_identity :: "DeviceIdentity \<Rightarrow> DeviceIdentity" where
  "erase_identity i = i\<lparr>di_username := [], di_password := []\<rparr>"

definition erase_registry :: "DeviceRegistry \<Rightarrow> DeviceRegistry" where
  "erase_registry r = r\<lparr>dr_rows := map (\<lambda>(c, row). (c, row\<lparr>rr_username := [], rr_password := []\<rparr>)) (dr_rows r)\<rparr>"

definition erase_devices :: "DeviceManager \<Rightarrow> DeviceManager" where
  "erase_devices m = m\<lparr>dm_contexts := map (\<lambda>(d, c). (d, c\<lparr>dx_identity := erase_identity (dx_identity c)\<rparr>)) (dm_contexts m)\<rparr>"

text \<open>The context without the user names and passwords of the registry, the sessions and the configuration.\<close>

definition erase_credentials :: "DashboardContext \<Rightarrow> DashboardContext" where
  "erase_credentials x = x\<lparr>db_registry := erase_registry (db_registry x), db_devices := erase_devices (db_devices x),
     db_config := (db_config x)\<lparr>cf_device_username := None, cf_device_password := None\<rparr>\<rparr>"

abbreviation erase_entry :: "DeviceRegistryEntry \<Rightarrow> DeviceRegistryEntry" where
  "erase_entry e \<equiv> e\<lparr>re_username := []\<rparr>"

abbreviation erase_row :: "DeviceRow \<Rightarrow> DeviceRow" where
  "erase_row r \<equiv> r\<lparr>dv_username := []\<rparr>"

lemma those_map_option: "those (map (\<lambda>x. map_option g (f x)) xs) = map_option (map g) (those (map f xs))"
  by (induction xs) (auto simp: option.map_comp o_def split: option.splits)

lemma sort_key_map_same: "(\<And>x. k (g x) = k' x) \<Longrightarrow> sort_key k (map g xs) = map g (sort_key k' xs)"
proof -
  assume k: "\<And>x. k (g x) = k' x"
  have "insort_key k (g x) (map g ys) = map g (insort_key k' x ys)" for x ys
    by (induction ys) (auto simp: k)
  then show ?thesis by (induction xs) simp_all
qed

lemma find_map_same: "(\<And>x. P (g x) = Q x) \<Longrightarrow> find P (map g xs) = map_option g (find Q xs)"
  by (induction xs) auto

lemma entries_erased: "entries now (erase_registry r) = map_option (map erase_entry) (entries now r)"
proof -
  let ?g = "\<lambda>(c, row :: registry_row). (c :: string, row\<lparr>rr_username := [], rr_password := []\<rparr>)"
  have e: "registry_entry (?g e) = map_option erase_entry (registry_entry e)" for e
    by (cases e) (auto simp: registry_entry_def split: option.splits)
  have f: "filter (\<lambda>e. cutoff now (erase_registry r) \<le> rr_last_seen_at (snd e)) (map ?g xs) =
      map ?g (filter (\<lambda>e. cutoff now r \<le> rr_last_seen_at (snd e)) xs)" for xs
    by (induction xs) (auto simp: cutoff_def erase_registry_def)
  have s: "sort_key (\<lambda>e. rr_first_seen_at (snd e)) (map ?g xs) = map ?g (sort_key (\<lambda>e. rr_first_seen_at (snd e)) xs)" for xs
    by (rule sort_key_map_same) auto
  have d: "dr_rows (erase_registry r) = map ?g (dr_rows r)" by (simp add: erase_registry_def)
  show ?thesis
    unfolding entries_def d f s by (simp add: o_def e those_map_option [symmetric])
qed

lemma get_by_device_id_erased: "get_by_device_id d (erase_devices m) =
    map_option (\<lambda>c. c\<lparr>dx_identity := erase_identity (dx_identity c)\<rparr>) (get_by_device_id d m)"
  by (simp add: get_by_device_id_def erase_devices_def map_of_map)

lemma erased_fields [simp]:
  "db_queue (erase_credentials x) = db_queue x" "db_shadow (erase_credentials x) = db_shadow x"
  "db_telemetry (erase_credentials x) = db_telemetry x" "db_logs (erase_credentials x) = db_logs x"
  "db_presence (erase_credentials x) = db_presence x" "db_control (erase_credentials x) = db_control x"
  "db_camera (erase_credentials x) = db_camera x" "cf_local_responder (db_config (erase_credentials x)) = cf_local_responder (db_config x)"
  "cf_auto_enroll (db_config (erase_credentials x)) = cf_auto_enroll (db_config x)"
  "dr_retention_seconds (db_registry (erase_credentials x)) = dr_retention_seconds (db_registry x)"
  by (simp_all add: erase_credentials_def erase_registry_def)

lemma entries_erase_credentials [simp]:
  "entries now (db_registry (erase_credentials x)) = map_option (map erase_entry) (entries now (db_registry x))"
  by (simp add: erase_credentials_def entries_erased)

lemma get_context_erase_credentials [simp]: "get_by_device_id d (db_devices (erase_credentials x)) =
    map_option (\<lambda>c. c\<lparr>dx_identity := erase_identity (dx_identity c)\<rparr>) (get_by_device_id d (db_devices x))"
  by (simp add: erase_credentials_def get_by_device_id_erased)

lemma control_env_erased [simp]: "control_env now (erase_credentials x) = control_env now x"
proof -
  have "map_option dx_product_id (map_option (\<lambda>c. c\<lparr>dx_identity := erase_identity (dx_identity c)\<rparr>) c) = map_option dx_product_id c"
    for c :: "DeviceContext option"
    by (cases c) (simp_all add: dx_product_id_def erase_identity_def)
  then show ?thesis by (simp add: control_env_def del: option.map_comp)
qed

lemma device_metrics_erased [simp]: "device_metrics now (erase_credentials x) = device_metrics now x"
  by (rule ext) (simp add: device_metrics_def)

lemma device_row_erased [simp]:
  "device_row now (erase_credentials x) (erase_entry e) = map_option erase_row (device_row now x e)"
  by (auto simp: device_row_def Let_def mask_username_def bridged_def upstream_running_def split: Option.bind_splits option.splits)

lemma device_rows_erased [simp]: "device_rows now (erase_credentials x) = map_option (map erase_row) (device_rows now x)"
proof -
  have s: "sort_key dv_device_id (map erase_row rows) = map erase_row (sort_key dv_device_id rows)" for rows
    by (rule sort_key_map_same) simp
  show ?thesis
    by (auto simp: device_rows_def o_def s those_map_option split: Option.bind_splits)
qed

lemma summarize_erased [simp]: "summarize (map erase_row rows) b = summarize rows b"
  by (simp add: summarize_def Let_def how_many_def filter_map o_def)

lemma sanitize_row_erased [simp]: "sanitize_view (row_view (erase_row r)) = sanitize_view (row_view r)"
proof -
  have "is_sensitive_key ''username''" by code_simp
  then show ?thesis by (simp add: row_view_def)
qed

lemma find_entry_erased [simp]:
  "find_entry now (erase_credentials x) d = map_option (map_option erase_entry) (find_entry now x d)"
proof -
  have "find (\<lambda>e. re_client_id e = d) (map erase_entry es) = map_option erase_entry (find (\<lambda>e. re_client_id e = d) es)" for es
    by (rule find_map_same) simp
  then show ?thesis by (auto simp: find_entry_def split: Option.bind_splits)
qed

lemma device_views_erased [simp]:
  "camera_of (erase_credentials x) d p = camera_of x d p"
  "queues_view now (erase_credentials x) d n = queues_view now x d n"
  "state_view (erase_credentials x) d n = state_view x d n"
  "ntp_view now (erase_credentials x) d = ntp_view now x d"
  "controls_view now (erase_credentials x) d = controls_view now x d"
  "daily_row (erase_credentials x) (erase_row r) = daily_row x r"
  "daily_camera (erase_credentials x) d p = daily_camera x d p"
  "daily_activity (erase_credentials x) d = daily_activity x d"
  by (simp_all add: camera_of_def queues_view_def state_view_def ntp_view_def controls_view_def daily_row_def daily_camera_def
      daily_activity_def split: option.split)

lemma responder_view_erased [simp]: "responder_view (erase_credentials x) d = responder_view x d"
  by (cases "get_by_device_id d (db_devices x)") (simp_all add: responder_view_def configured_responder_def split: option.split)

lemma device_detail_erased: "device_detail now (erase_credentials x) d n = device_detail now x d n"
proof (cases "find_entry now x d")
  case (Some found)
  then show ?thesis
    by (cases found) (auto simp: device_detail_def sanitize_row_erased [simplified sanitize_view.simps] split: Option.bind_splits)
qed (simp add: device_detail_def)

lemma daily_device_detail_erased: "daily_device_detail now (erase_credentials x) d = daily_device_detail now x d"
proof (cases "find_entry now x d")
  case (Some found)
  then show ?thesis
    by (cases found) (auto simp: daily_device_detail_def split: Option.bind_splits)
qed (simp add: daily_device_detail_def)

lemma overview_erased:
  "devices_view now (erase_credentials x) = devices_view now x"
  "status_view now (erase_credentials x) = status_view now x"
  "home_view now (erase_credentials x) = home_view now x"
  "cloud_view now (erase_credentials x) = cloud_view now x"
  by (auto simp: devices_view_def status_view_def home_view_def cloud_view_def uptime_def local_mqtt_view_def queue_totals_def
      configured_responder_def o_def split: Option.bind_splits)

text \<open>
  C24: No answer of the dashboard depends on a user name or a password: two states of the relay that differ
  only in the credentials of the registry, of the cloud sessions and of the configuration give the same
  overview, device list, home screen, timeline and device pages, even in the masked form a row carries.
\<close>

theorem dashboard_independent_of_credentials:
  assumes "erase_credentials x = erase_credentials y"
  shows "devices_view now x = devices_view now y \<and> status_view now x = status_view now y \<and> home_view now x = home_view now y \<and>
    cloud_view now x = cloud_view now y \<and> device_detail now x d n = device_detail now y d n \<and>
    daily_device_detail now x d = daily_device_detail now y d"
  using assms overview_erased [of now x] overview_erased [of now y] device_detail_erased [of now x d n] device_detail_erased [of now y d n]
    daily_device_detail_erased [of now x d] daily_device_detail_erased [of now y d]
  by simp

text \<open>One enrolled feeder, never seen since, with the default configuration.\<close>

definition demo_dashboard :: "string \<Rightarrow> DashboardContext" where
  "demo_dashboard password =
     \<lparr>db_config = projr (from_env []),
      db_registry = \<lparr>dr_rows = [(''AF03'', \<lparr>rr_username = ''user'', rr_password = password, rr_product_id = Some ''PLAF203'',
          rr_status = Some KNOWN, rr_enabled = Some True, rr_first_seen_at = 0, rr_last_seen_at = 0\<rparr>)],
        dr_state = [], dr_retention_seconds = DEFAULT_RETENTION_SECONDS, dr_auto_enroll = True\<rparr>,
      db_queue = open_queue None 1 10, db_shadow = open_shadow, db_telemetry = init_relay_telemetry 0, db_logs = init_handler 100,
      db_devices = init_manager demo_stores \<lparr>ls_enabled = False, ls_ntp = False, ls_config = False, ls_feeding_plan = False,
        ls_always_answer_ntp_locally = False, ls_clock_drift_tolerance_seconds = 0\<rparr> 60 False,
      db_presence = init_tracker LOCAL_PRESENCE_GRACE_SECONDS, db_control = None, db_camera = (\<lambda>d p. no_camera (stream_name_for_device d) ''go2rtc_disabled''),
      db_camera_streams = init_stream_client\<rparr>"

theorem dashboard_independent_of_credentials_witness:
  "device_detail 1 (demo_dashboard ''one'') ''AF03'' 10 = device_detail 1 (demo_dashboard ''two'') ''AF03'' 10 \<and>
   demo_dashboard ''one'' \<noteq> demo_dashboard ''two''"
proof -
  have "erase_credentials (demo_dashboard ''one'') = erase_credentials (demo_dashboard ''two'')"
    by (simp add: erase_credentials_def erase_registry_def demo_dashboard_def)
  moreover have "db_registry (demo_dashboard ''one'') \<noteq> db_registry (demo_dashboard ''two'')"
    by (simp add: demo_dashboard_def)
  ultimately show ?thesis using dashboard_independent_of_credentials [of "demo_dashboard ''one''" "demo_dashboard ''two''" 1 "''AF03''" 10] by auto
qed

section \<open>A device's page shows that device\<close>

definition only_shadow :: "string \<Rightarrow> StateShadow \<Rightarrow> StateShadow" where
  "only_shadow d s = s\<lparr>sh_reported := filter (\<lambda>e. fst (fst e) = d) (sh_reported s), sh_desired := filter (\<lambda>e. fst (fst e) = d) (sh_desired s),
     sh_local_confirmed := filter (\<lambda>e. fst (fst e) = d) (sh_local_confirmed s), sh_feeding_plans := filter (\<lambda>e. fst e = d) (sh_feeding_plans s),
     sh_schedule_plans := filter (\<lambda>e. fst (fst e) = d) (sh_schedule_plans s), sh_raw_messages := filter (\<lambda>e. fst (fst e) = d) (sh_raw_messages s),
     sh_camera_uids := filter (\<lambda>e. fst e = d) (sh_camera_uids s)\<rparr>"

definition only_telemetry :: "string \<Rightarrow> RelayTelemetry \<Rightarrow> RelayTelemetry" where
  "only_telemetry d t = t\<lparr>rt_events := filter (\<lambda>e. re_device_id e = Some d) (rt_events t),
     rt_devices := filter (\<lambda>e. dt_device_id (snd e) = d) (rt_devices t)\<rparr>"

text \<open>The relay as it would be if no other device had ever existed; log lines and control counters are kept.\<close>

definition only_device :: "string \<Rightarrow> DashboardContext \<Rightarrow> DashboardContext" where
  "only_device d x = x\<lparr>db_registry := (db_registry x)\<lparr>dr_rows := filter (\<lambda>e. fst e = d) (dr_rows (db_registry x))\<rparr>,
     db_queue := (db_queue x)\<lparr>mq_rows := filter (\<lambda>r. row_device_id r = Some d) (mq_rows (db_queue x))\<rparr>,
     db_shadow := only_shadow d (db_shadow x), db_telemetry := only_telemetry d (db_telemetry x),
     db_devices := (db_devices x)\<lparr>dm_contexts := filter (\<lambda>e. fst e = d) (dm_contexts (db_devices x))\<rparr>,
     db_presence := (db_presence x)\<lparr>dpt_records := filter (\<lambda>e. fst e = d) (dpt_records (db_presence x))\<rparr>\<rparr>"

lemma dict_get_only [simp]: "dict_get (filter (\<lambda>e. fst e = d) xs) d = dict_get xs d"
  by (induction xs) auto

lemma filter_twice [simp]: "filter P (filter P xs) = filter P xs"
  by simp

lemma find_filter: "find P xs = (case filter P xs of [] \<Rightarrow> None | y # _ \<Rightarrow> Some y)"
  by (induction xs) auto

lemma only_shadow_reads [simp]:
  "get_reported (only_shadow d s) d = get_reported s d" "get_desired (only_shadow d s) d = get_desired s d"
  "get_local_confirmed (only_shadow d s) d = get_local_confirmed s d" "get_schedule_plans (only_shadow d s) d = get_schedule_plans s d"
  "get_camera_uid (only_shadow d s) d = get_camera_uid s d" "get_feeding_plans (only_shadow d s) d = get_feeding_plans s d"
  by (simp_all add: only_shadow_def get_reported_def get_desired_def get_local_confirmed_def get_schedule_plans_def read_kv_def
      get_camera_uid_def get_feeding_plans_def)

lemma dashboard_snapshot_only [simp]: "dashboard_snapshot (only_shadow d s) d n = dashboard_snapshot s d n"
proof -
  have "timed_rows (sh_reported (only_shadow d s)) d = timed_rows (sh_reported s) d"
    "timed_rows (sh_desired (only_shadow d s)) d = timed_rows (sh_desired s) d"
    "timed_rows (sh_local_confirmed (only_shadow d s)) d = timed_rows (sh_local_confirmed s) d"
    "filter (\<lambda>e. fst (fst e) = d) (sh_raw_messages (only_shadow d s)) = filter (\<lambda>e. fst (fst e) = d) (sh_raw_messages s)"
    by (simp_all add: only_shadow_def timed_rows_def)
  then show ?thesis by (simp add: dashboard_snapshot_def)
qed

lemma those_map_filter:
  assumes "those (map f xs) = Some ys" "\<And>x y. f x = Some y \<Longrightarrow> Q y = P x"
  shows "those (map f (filter P xs)) = Some (filter Q ys)"
  using assms(1) by (induction xs arbitrary: ys) (auto simp: assms(2) split: option.splits)

lemma find_entry_only:
  assumes "entries now (db_registry x) \<noteq> None"
  shows "find_entry now (only_device d x) d = find_entry now x d"
proof -
  let ?r = "db_registry x" and ?r' = "db_registry (only_device d x)"
  obtain es where es: "entries now ?r = Some es" using assms by auto
  have c: "cutoff now ?r' = cutoff now ?r" by (simp add: cutoff_def only_device_def)
  have "sort_key (\<lambda>e. rr_first_seen_at (snd e)) (filter (\<lambda>e. cutoff now ?r' \<le> rr_last_seen_at (snd e)) (dr_rows ?r')) =
      filter (\<lambda>e. fst e = d) (sort_key (\<lambda>e. rr_first_seen_at (snd e)) (filter (\<lambda>e. cutoff now ?r \<le> rr_last_seen_at (snd e)) (dr_rows ?r)))"
    unfolding c by (simp add: only_device_def filter_sort conj_commute)
  moreover have "(re_client_id y = d) = (fst e = d)" if "registry_entry e = Some y" for e y
    using that by (auto simp: registry_entry_def split: option.splits prod.splits)
  ultimately have "entries now ?r' = Some (filter (\<lambda>e. re_client_id e = d) es)"
    using those_map_filter [OF es [unfolded entries_def], of "\<lambda>e. re_client_id e = d" "\<lambda>e. fst e = d"] by (simp add: entries_def)
  then show ?thesis
    by (simp add: find_entry_def es find_filter [of _ es] find_filter [of _ "filter _ es"])
qed

lemma device_metrics_only [simp]: "device_metrics now (only_device d x) d = device_metrics now x d"
proof -
  let ?P = "\<lambda>t. dt_device_id t = d"
  have m: "find (\<lambda>s. dsn_device_id s = d) (map (device_snapshot now) ts) = map_option (device_snapshot now) (find ?P ts)" for ts
    by (rule find_map_same) (simp add: device_snapshot_def Let_def)
  have "filter ?P (sort_key dt_device_id (map snd (rt_devices (db_telemetry (only_device d x))))) =
      filter ?P (sort_key dt_device_id (map snd (rt_devices (db_telemetry x))))"
    by (simp add: filter_sort only_device_def only_telemetry_def filter_map o_def)
  then show ?thesis
    unfolding device_metrics_def device_snapshots_def m find_filter [of ?P] by simp
qed

lemma only_device_simps [simp]:
  "db_config (only_device d x) = db_config x" "db_shadow (only_device d x) = only_shadow d (db_shadow x)"
  "db_logs (only_device d x) = db_logs x" "db_control (only_device d x) = db_control x" "db_camera (only_device d x) = db_camera x"
  "get_by_device_id d (db_devices (only_device d x)) = get_by_device_id d (db_devices x)"
  "presence_record d (db_presence (only_device d x)) = presence_record d (db_presence x)"
  "presence_state now d (db_presence (only_device d x)) = presence_state now d (db_presence x)"
  "dr_retention_seconds (db_registry (only_device d x)) = dr_retention_seconds (db_registry x)"
  "select_rows (db_queue (only_device d x)) d dir = select_rows (db_queue x) d dir"
  "events n (Some d) (db_telemetry (only_device d x)) = events n (Some d) (db_telemetry x)"
  by (simp_all add: only_device_def get_by_device_id_def presence_record_def presence_state_def select_rows_def events_def
      only_telemetry_def conj_ac cong: conj_cong split: option.split)

lemma device_row_only: "re_client_id e = d \<Longrightarrow> device_row now (only_device d x) e = device_row now x e"
  by (simp add: device_row_def Let_def Message_Queue.count_def)

lemma control_env_only:
  "env_product (control_env now (only_device d x)) d = env_product (control_env now x) d"
  "env_online (control_env now (only_device d x)) d = env_online (control_env now x) d"
  by (simp_all add: control_env_def is_online_def)

lemma controls_only [simp]: "controls_view now (only_device d x) d = controls_view now x d"
proof -
  have "capability (control_env now (only_device d x)) d name (c\<lparr>dc_shadow := only_shadow d s\<rparr>) =
      capability (control_env now x) d name (c\<lparr>dc_shadow := s\<rparr>)" for name c s
    by (simp add: capability_def effective_settings_def control_env_only split: option.split)
  then show ?thesis by (simp add: controls_view_def split: option.split)
qed

lemma device_views_only [simp]:
  "camera_of (only_device d x) d p = camera_of x d p"
  "queues_view now (only_device d x) d n = queues_view now x d n"
  "state_view (only_device d x) d n = state_view x d n"
  "ntp_view now (only_device d x) d = ntp_view now x d"
  "responder_view (only_device d x) d = responder_view x d"
  "daily_camera (only_device d x) d p = daily_camera x d p"
  "daily_activity (only_device d x) d = daily_activity x d"
  by (simp_all add: camera_of_def queues_view_def snapshot_def state_view_def ntp_view_def responder_view_def configured_responder_def
      daily_camera_def daily_activity_def split: option.split)

lemma daily_row_only [simp]: "dv_device_id r = d \<Longrightarrow> daily_row (only_device d x) r = daily_row x r"
  by (simp add: daily_row_def)

lemma find_entry_id: "find_entry now x d = Some (Some e) \<Longrightarrow> re_client_id e = d"
  by (auto simp: find_entry_def find_Some_iff split: Option.bind_splits)

lemma device_row_id: "device_row now x e = Some r \<Longrightarrow> dv_device_id r = re_client_id e"
  by (auto simp: device_row_def Let_def split: Option.bind_splits)

text \<open>
  A device's full page and its daily page are functions of that device's own data: with every row of
  other devices removed from the registry, the queue, the state shadow, the telemetry, the sessions and the
  presence tracker, they stay the same.
\<close>

theorem device_pages_are_isolated:
  assumes "entries now (db_registry x) \<noteq> None"
  shows "device_detail now (only_device d x) d n = device_detail now x d n \<and>
    daily_device_detail now (only_device d x) d = daily_device_detail now x d"
proof (cases "find_entry now x d")
  case (Some found)
  show ?thesis
  proof (cases found)
    case (Some e)
    with \<open>find_entry now x d = Some found\<close> have e: "re_client_id e = d" by (simp add: find_entry_id)
    with \<open>find_entry now x d = Some found\<close> Some show ?thesis
      by (auto simp: device_detail_def daily_device_detail_def find_entry_only [OF assms] device_row_only simp del: sanitize_view.simps
          intro!: Option.bind_cong [OF refl] dest: device_row_id)
  qed (use \<open>find_entry now x d = Some found\<close> in \<open>simp add: device_detail_def daily_device_detail_def find_entry_only [OF assms]\<close>)
qed (simp add: device_detail_def daily_device_detail_def find_entry_only [OF assms])

theorem device_pages_are_isolated_witness:
  "entries 1 (db_registry (demo_dashboard ''p'')) \<noteq> None \<and>
   device_detail 1 (only_device ''AF03'' (demo_dashboard ''p'')) ''AF03'' 10 = device_detail 1 (demo_dashboard ''p'') ''AF03'' 10"
proof -
  have "entries 1 (db_registry (demo_dashboard ''p'')) \<noteq> None"
    by (simp add: demo_dashboard_def entries_def registry_entry_def cutoff_def DEFAULT_RETENTION_SECONDS_def)
  then show ?thesis using device_pages_are_isolated [of 1 "demo_dashboard ''p''" "''AF03''" 10] by simp
qed

section \<open>Counts and allowlists\<close>

lemma how_many_split: "how_many P xs + how_many (\<lambda>x. \<not> P x) xs = length xs"
  unfolding how_many_def by (rule sum_length_filter_compl)

text \<open>
  The header's counts add up: every known device is bridged or awaits enrollment, a bridged device is
  counted at most once as online or suspended, and only devices that are here can be degraded.
\<close>

lemma summary_adds_up:
  fixes rows :: "DeviceRow list" and auto :: bool
  defines "s \<equiv> summarize rows auto"
  shows "su_known s = su_bridged s + su_awaiting_enrollment s" "su_cloud_online s + su_cloud_suspended s \<le> su_bridged s"
    "su_cloud_degraded s \<le> su_local_online s"
    "su_cloud_degraded s = 0 \<longleftrightarrow>
      (\<forall>r\<in>set rows. dv_bridged r \<and> dv_local_state r = LocalPresence.ONLINE \<longrightarrow> dv_cloud_state r = UP_ONLINE)"
proof -
  show "su_known s = su_bridged s + su_awaiting_enrollment s"
    using how_many_split [of dv_bridged rows] by (simp add: s_def summarize_def Let_def how_many_def)
  show "su_cloud_online s + su_cloud_suspended s \<le> su_bridged s"
    unfolding s_def summarize_def Let_def how_many_def by (induction rows) auto
  show "su_cloud_degraded s \<le> su_local_online s"
    unfolding s_def summarize_def Let_def how_many_def by (induction rows) auto
  show "su_cloud_degraded s = 0 \<longleftrightarrow>
      (\<forall>r\<in>set rows. dv_bridged r \<and> dv_local_state r = LocalPresence.ONLINE \<longrightarrow> dv_cloud_state r = UP_ONLINE)"
    by (auto simp: s_def summarize_def Let_def how_many_def filter_empty_conv)
qed

text \<open>The device list redacts the user name altogether: the masked form a row carries is never shown.\<close>

lemma masked_username_never_shown:
  "\<exists>kvs. sanitize_view (row_view r) = VDict kvs \<and> (\<exists>v. (''username'', v) \<in> set kvs) \<and>
    (\<forall>v. (''username'', v) \<in> set kvs \<longrightarrow> v = VStr REDACTED_VALUE)"
proof -
  have s: "is_sensitive_key ''username''" by code_simp
  obtain kvs where k: "row_view r = VDict kvs" "(''username'', VStr (dv_username r)) \<in> set kvs"
    by (simp add: row_view_def)
  from k(2) have "(''username'', VStr REDACTED_VALUE) \<in> (\<lambda>(k, v). (k, if is_sensitive_key k then VStr REDACTED_VALUE else sanitize_view v)) ` set kvs"
    by (rule rev_image_eqI) (simp add: s)
  then show ?thesis
    by (intro exI [of _ "map (\<lambda>(k, v). (k, if is_sensitive_key k then VStr REDACTED_VALUE else sanitize_view v)) kvs"])
      (auto simp: k(1) s)
qed

text \<open>The activity list of the daily page never names a command: events have no such field.\<close>

lemma activity_never_names_command:
  "\<exists>ts. daily_activity x d = VList (map (\<lambda>t. VDict [(''timestamp'', VNum t), (''cmd'', VNone)]) ts)"
  by (rule exI [of _ "map re_timestamp (events 30 (Some d) (db_telemetry x))"])
    (simp add: daily_activity_def field_or_none_def event_fields_def)

end
