(* ===== verification/Web_Api.thy ===== *)
theory Web_Api
  imports Dashboard
begin

text \<open>
  \<^verbatim>\<open>web/app.py\<close>: the HTTP interface. A route is a function from the request to a response and the
  context after it. An exception the handler does not catch is \<open>ServerError\<close>, the status 500 of the
  framework.

  The request models are data: the declared fields with their types. Checking a body against them is the
  work of pydantic, a library, and an argument of the routes: \<open>validate m body\<close> is the dump of the validated
  model without absent fields, or nothing when the body is refused. What the routes rely on is the
  hypothesis \<open>validates_declared\<close>: the dump names declared fields in their order, with values of the
  declared types, and all fields of a model without defaults. The validators written in the classes are
  modelled here. Digits of a time are ASCII.

  The lemmas show that a request for a device that is not in the registry changes nothing, that no error
  response leaves a recorded setting or schedule behind, that every schedule the route accepts passes the
  control service's own validation, that on each of the eight settings routes the requested values reach
  the feeder with the declared types, that no feeding command leaves the portion bounds, and that the log stream sends every line once, in order.
\<close>

declare sanitize_view.simps [simp del]

section \<open>Patterns\<close>

definition MAX_PAGE_SIZE :: int where "MAX_PAGE_SIZE = 500"
definition MAX_CAMERA_WEBRTC_OFFER_BYTES :: nat where "MAX_CAMERA_WEBRTC_OFFER_BYTES = 256000"

definition is_alnum :: "char \<Rightarrow> bool" where
  "is_alnum c \<longleftrightarrow> is_digit c \<or> CHR ''A'' \<le> c \<and> c \<le> CHR ''Z'' \<or> CHR ''a'' \<le> c \<and> c \<le> CHR ''z''"

definition is_device_id :: "string \<Rightarrow> bool" where
  "is_device_id s \<longleftrightarrow> (case s of [] \<Rightarrow> False
     | c # cs \<Rightarrow> is_alnum c \<and> length cs \<le> 127 \<and> list_all (\<lambda>x. is_alnum x \<or> x \<in> {CHR ''.'', CHR ''_'', CHR ''-''}) cs)"

definition is_webrtc_session_id :: "string \<Rightarrow> bool" where
  "is_webrtc_session_id s \<longleftrightarrow> length s = 32 \<and> list_all (\<lambda>c. is_digit c \<or> CHR ''a'' \<le> c \<and> c \<le> CHR ''f'') s"

definition is_hhmm :: "string \<Rightarrow> bool" where
  "is_hhmm s \<longleftrightarrow> (case s of
     [a, b, c, d, e] \<Rightarrow>
       (a \<in> {CHR ''0'', CHR ''1''} \<and> is_digit b \<or> a = CHR ''2'' \<and> CHR ''0'' \<le> b \<and> b \<le> CHR ''3'') \<and>
       c = CHR '':'' \<and> CHR ''0'' \<le> d \<and> d \<le> CHR ''5'' \<and> is_digit e
   | _ \<Rightarrow> False)"

section \<open>Request models\<close>

datatype field_type = BoolField | StrField | IntRange int int | IntLiteral "int list" | StrLiteral "string list" | IntList

definition admits :: "field_type \<Rightarrow> json \<Rightarrow> bool" where
  "admits t v = (case (t, v) of
     (BoolField, JBool _) \<Rightarrow> True
   | (StrField, JStr _) \<Rightarrow> True
   | (IntRange lo hi, JInt i) \<Rightarrow> lo \<le> i \<and> i \<le> hi
   | (IntLiteral is, JInt i) \<Rightarrow> i \<in> set is
   | (StrLiteral ss, JStr s) \<Rightarrow> s \<in> set ss
   | (IntList, JList xs) \<Rightarrow> list_all (\<lambda>x. case x of JInt _ \<Rightarrow> True | _ \<Rightarrow> False) xs
   | _ \<Rightarrow> False)"

record request_model =
  rm_fields :: "(string, field_type) dict"
  rm_required :: bool

definition SENSITIVITY :: field_type where "SENSITIVITY = StrLiteral [''LOW'', ''MEDIUM'', ''HIGH'']"
definition AGING_TYPE :: field_type where "AGING_TYPE = IntLiteral [1, 2]"

definition MotionRequest :: request_model where
  "MotionRequest = \<lparr>rm_fields =
     [(''enabled'', BoolField), (''motionDetectionSwitch'', BoolField), (''motionDetectionAgingType'', AGING_TYPE),
      (''motionDetectionStartTime'', StrField), (''motionDetectionEndTime'', StrField), (''motionDetectionSensitivity'', SENSITIVITY),
      (''motionDetectionRange'', StrLiteral [''SMALL'', ''MEDIUM'', ''LARGE''])], rm_required = False\<rparr>"

definition SoundDetectionRequest :: request_model where
  "SoundDetectionRequest = \<lparr>rm_fields =
     [(''soundDetectionSwitch'', BoolField), (''soundDetectionAgingType'', AGING_TYPE), (''soundDetectionStartTime'', StrField),
      (''soundDetectionEndTime'', StrField), (''soundDetectionSensitivity'', SENSITIVITY)], rm_required = False\<rparr>"

definition SoundRequest :: request_model where
  "SoundRequest = \<lparr>rm_fields =
     [(''enabled'', BoolField), (''soundSwitch'', BoolField), (''soundAgingType'', AGING_TYPE), (''soundStartTime'', StrField),
      (''soundEndTime'', StrField), (''volume'', IntRange 0 100)], rm_required = False\<rparr>"

definition LightRequest :: request_model where
  "LightRequest = \<lparr>rm_fields =
     [(''lightSwitch'', BoolField), (''lightAgingType'', AGING_TYPE), (''lightingStartTime'', StrField),
      (''lightingEndTime'', StrField), (''filterLedSwitch'', BoolField)], rm_required = False\<rparr>"

definition CameraRequest :: request_model where
  "CameraRequest = \<lparr>rm_fields =
     [(''cameraSwitch'', BoolField), (''cameraAgingType'', AGING_TYPE), (''cameraStartTime'', StrField), (''cameraEndTime'', StrField),
      (''resolution'', StrLiteral [''P720'', ''P1080'']), (''nightVision'', StrLiteral [''AUTOMATIC'', ''OPEN'', ''CLOSE''])],
     rm_required = False\<rparr>"

definition VideoRequest :: request_model where
  "VideoRequest = \<lparr>rm_fields =
     [(''videoRecordSwitch'', BoolField), (''videoRecordMode'', StrLiteral [''CONTINUOUS'', ''MOTION_DETECTION'']),
      (''videoRecordAgingType'', AGING_TYPE), (''videoRecordStartTime'', StrField), (''videoRecordEndTime'', StrField),
      (''videoWatermarkSwitch'', BoolField)], rm_required = False\<rparr>"

definition FeedingVideoRequest :: request_model where
  "FeedingVideoRequest = \<lparr>rm_fields =
     [(''feedingVideoSwitch'', BoolField), (''enableVideoStartFeedingPlan'', BoolField), (''beforeFeedingPlanTime'', IntRange 1 5),
      (''automaticRecording'', IntRange 1 5), (''enableVideoAfterManualFeeding'', BoolField), (''afterManualFeedingTime'', IntRange 1 5)],
     rm_required = False\<rparr>"

definition BowlRequest :: request_model where
  "BowlRequest = \<lparr>rm_fields = [(''bowlMode'', StrLiteral [''SINGLE_BOWL'', ''DOUBLE_BOWL''])], rm_required = True\<rparr>"

definition DispenseRequest :: request_model where
  "DispenseRequest = \<lparr>rm_fields = [(''grainNum'', IntRange 1 48)], rm_required = True\<rparr>"

definition SCHEDULE_FIELDS :: "(string, field_type) dict" where
  "SCHEDULE_FIELDS = [(''executionTime'', StrField), (''grainNum'', IntRange 1 48), (''enableAudio'', BoolField),
     (''audioTimes'', IntRange 1 5), (''repeatDay'', IntList)]"

definition ScheduleCreateRequest :: request_model where
  "ScheduleCreateRequest = \<lparr>rm_fields = SCHEDULE_FIELDS, rm_required = True\<rparr>"

definition ScheduleUpdateRequest :: request_model where
  "ScheduleUpdateRequest = \<lparr>rm_fields = SCHEDULE_FIELDS, rm_required = False\<rparr>"

text \<open>The validators of the classes, on the dumped values.\<close>

definition require_update :: "json_dict \<Rightarrow> bool" where
  "require_update vals \<longleftrightarrow> vals \<noteq> []"

definition validate_time :: "json_dict \<Rightarrow> bool" where
  "validate_time vals \<longleftrightarrow> (case str_field vals ''executionTime'' of None \<Rightarrow> True | Some t \<Rightarrow> is_hhmm t)"

definition validate_days :: "json_dict \<Rightarrow> bool" where
  "validate_days vals \<longleftrightarrow> (case dict_get vals ''repeatDay'' of
     Some (JList days) \<Rightarrow> list_all (\<lambda>x. case x of JInt i \<Rightarrow> 0 \<le> i \<and> i < 8 | _ \<Rightarrow> True) days
   | _ \<Rightarrow> True)"

type_synonym validator = "request_model \<Rightarrow> json \<Rightarrow> json_dict option"

definition validates_declared :: "validator \<Rightarrow> bool" where
  "validates_declared validate \<longleftrightarrow> (\<forall>m body vals. dict_wf (rm_fields m) \<longrightarrow> validate m body = Some vals \<longrightarrow>
     subseq (map fst vals) (map fst (rm_fields m)) \<and>
     (\<forall>k v. (k, v) \<in> set vals \<longrightarrow> (\<exists>t. dict_get (rm_fields m) k = Some t \<and> admits t v)) \<and>
     (rm_required m \<longrightarrow> map fst vals = map fst (rm_fields m)))"

definition request_values :: "validator \<Rightarrow> request_model \<Rightarrow> (json_dict \<Rightarrow> bool) \<Rightarrow> json \<Rightarrow> json_dict option" where
  "request_values validate m own body = (case validate m body of
     None \<Rightarrow> None
   | Some vals \<Rightarrow> if own vals then Some vals else None)"

section \<open>Responses\<close>

datatype http_detail = Detail string | AckRejected string "json option"

datatype 'a http = Http nat 'a | HTTPException nat http_detail | ServerError

definition RequestValidationError :: "'a http" where
  "RequestValidationError = HTTPException 422 (Detail ''request body'')"

definition http_status :: "'a http \<Rightarrow> nat" where
  "http_status r = (case r of Http s _ \<Rightarrow> s | HTTPException s _ \<Rightarrow> s | ServerError \<Rightarrow> 500)"

definition run_control :: "control_error + ControlResponse \<Rightarrow> ControlResponse http" where
  "run_control r = (case r of
     Inr response \<Rightarrow> Http 200 response
   | Inl e \<Rightarrow> (case e of
       ControlOfflineError \<Rightarrow> HTTPException 409 (Detail ''Device is offline'')
     | ControlStateUnavailableError reason \<Rightarrow> HTTPException 409 (Detail reason)
     | ControlBusyError d \<Rightarrow> HTTPException 409 (Detail (''A control request is already pending for device '' @ d))
     | ControlPublishError \<Rightarrow> HTTPException 503 (Detail ''Local MQTT publication failed'')
     | ControlAckTimeoutError \<Rightarrow> HTTPException 504 (Detail ''Device acknowledgement timeout'')
     | ControlAckRejectedError name code \<Rightarrow> HTTPException 502 (AckRejected name code)
     | UncaughtError _ \<Rightarrow> ServerError))"

section \<open>Control routes\<close>

text \<open>Whether a device is known: its page could be built, could not be built for lack of an entry, or raised.\<close>

definition known_device :: "seconds \<Rightarrow> DashboardContext \<Rightarrow> string \<Rightarrow> bool option" where
  "known_device now x device_id =
     (if \<not> is_device_id device_id then Some False else map_option (\<lambda>page. page \<noteq> None) (device_detail now x device_id 1))"

definition on_control :: "(DeviceControlController \<Rightarrow> (control_error + ControlResponse) \<times> DeviceControlController)
    \<Rightarrow> DeviceControlController \<Rightarrow> DashboardContext \<Rightarrow> ControlResponse http \<times> DashboardContext" where
  "on_control action c x = (case action (c\<lparr>dc_shadow := db_shadow x\<rparr>) of
     (r, c') \<Rightarrow> (run_control r, x\<lparr>db_control := Some c', db_shadow := dc_shadow c'\<rparr>))"

definition with_known_control :: "string \<Rightarrow> seconds \<Rightarrow> string
    \<Rightarrow> (DeviceControlController \<Rightarrow> (control_error + ControlResponse) \<times> DeviceControlController)
    \<Rightarrow> DashboardContext \<Rightarrow> ControlResponse http \<times> DashboardContext" where
  "with_known_control missing now device_id action x = (case known_device now x device_id of
     None \<Rightarrow> (ServerError, x)
   | Some False \<Rightarrow> (HTTPException 404 (Detail ''Unknown device''), x)
   | Some True \<Rightarrow> (case db_control x of
       None \<Rightarrow> (HTTPException 409 (Detail missing), x)
     | Some c \<Rightarrow> on_control action c x))"

definition known_control :: "seconds \<Rightarrow> string \<Rightarrow> (DeviceControlController \<Rightarrow> (control_error + ControlResponse) \<times> DeviceControlController)
    \<Rightarrow> DashboardContext \<Rightarrow> ControlResponse http \<times> DashboardContext" where
  "known_control = with_known_control ''Local control is unavailable''"

definition set_group_endpoint :: "ControlCall \<Rightarrow> string \<Rightarrow> string \<Rightarrow> json_dict \<Rightarrow> DashboardContext
    \<Rightarrow> ControlResponse http \<times> DashboardContext" where
  "set_group_endpoint call device_id grp vals x =
     (if vals = [] then (HTTPException 422 (Detail ''At least one control field is required''), x)
      else known_control (call_time call) device_id (set_group (control_env (call_time call) x) call device_id grp vals False) x)"

text \<open>The body \<open>enabled\<close> of the two original switch routes: alone it is the minimal switch, else a field of the group.\<close>

definition switch_action :: "ControlEnv \<Rightarrow> ControlCall \<Rightarrow> string \<Rightarrow> string \<Rightarrow> string
    \<Rightarrow> (bool \<Rightarrow> DeviceControlController \<Rightarrow> (control_error + ControlResponse) \<times> DeviceControlController)
    \<Rightarrow> json_dict \<Rightarrow> DeviceControlController \<Rightarrow> (control_error + ControlResponse) \<times> DeviceControlController" where
  "switch_action env call device_id grp switch_field switch vals =
     (let enabled = (case dict_get vals ''enabled'' of Some (JBool b) \<Rightarrow> Some b | _ \<Rightarrow> None);
          rest = dict_pop ''enabled'' vals
      in case enabled of
        None \<Rightarrow> set_group env call device_id grp rest False
      | Some b \<Rightarrow> if rest = [] then switch b else set_group env call device_id grp (dict_set switch_field (JBool b) rest) False)"

definition set_device_sound :: "ControlCall \<Rightarrow> string \<Rightarrow> json_dict \<Rightarrow> DashboardContext \<Rightarrow> ControlResponse http \<times> DashboardContext" where
  "set_device_sound call device_id vals x =
     (let env = control_env (call_time call) x
      in with_known_control ''Sound control is unavailable'' (call_time call) device_id
        (switch_action env call device_id ''sound'' ''soundSwitch'' (set_sound_switch env call device_id) vals) x)"

definition set_device_motion_detection :: "ControlCall \<Rightarrow> string \<Rightarrow> json_dict \<Rightarrow> DashboardContext \<Rightarrow> ControlResponse http \<times> DashboardContext" where
  "set_device_motion_detection call device_id vals x =
     (let env = control_env (call_time call) x
      in with_known_control ''Motion detection control is unavailable'' (call_time call) device_id
        (switch_action env call device_id ''motion'' ''motionDetectionSwitch'' (set_motion_detection_switch env call device_id) vals) x)"

definition dispense_endpoint :: "ControlCall \<Rightarrow> string \<Rightarrow> json_dict \<Rightarrow> DashboardContext \<Rightarrow> ControlResponse http \<times> DashboardContext" where
  "dispense_endpoint call device_id vals x = (case dict_get vals ''grainNum'' of
     Some (JInt n) \<Rightarrow> known_control (call_time call) device_id (dispense (control_env (call_time call) x) call device_id n) x
   | _ \<Rightarrow> (ServerError, x))"

definition create_schedule_endpoint :: "ControlCall \<Rightarrow> string \<Rightarrow> json_dict \<Rightarrow> DashboardContext \<Rightarrow> ControlResponse http \<times> DashboardContext" where
  "create_schedule_endpoint call device_id vals x =
     known_control (call_time call) device_id (create_schedule (control_env (call_time call) x) call device_id vals) x"

definition update_schedule_endpoint :: "ControlCall \<Rightarrow> string \<Rightarrow> int \<Rightarrow> json_dict \<Rightarrow> DashboardContext \<Rightarrow> ControlResponse http \<times> DashboardContext" where
  "update_schedule_endpoint call device_id i vals x =
     (if vals = [] then (HTTPException 422 (Detail ''At least one schedule field is required''), x)
      else known_control (call_time call) device_id (update_schedule (control_env (call_time call) x) call device_id i vals) x)"

definition delete_schedule_endpoint :: "ControlCall \<Rightarrow> string \<Rightarrow> int \<Rightarrow> DashboardContext \<Rightarrow> ControlResponse http \<times> DashboardContext" where
  "delete_schedule_endpoint call device_id i x =
     known_control (call_time call) device_id (delete_schedule (control_env (call_time call) x) call device_id i) x"

datatype control_request =
    SetSound json | SetMotion json | SetSoundDetection json | SetLight json | SetCamera json | SetVideo json
  | SetFeedingVideo json | SetBowl json | Dispense json | CreateSchedule json | UpdateSchedule int json | DeleteSchedule int

text \<open>The framework checks the body before it calls the handler.\<close>

definition with_body :: "json_dict option \<Rightarrow> (json_dict \<Rightarrow> DashboardContext \<Rightarrow> 'a http \<times> DashboardContext)
    \<Rightarrow> DashboardContext \<Rightarrow> 'a http \<times> DashboardContext" where
  "with_body vals handler x = (case vals of None \<Rightarrow> (RequestValidationError, x) | Some v \<Rightarrow> handler v x)"

definition group_route :: "validator \<Rightarrow> ControlCall \<Rightarrow> string \<Rightarrow> string \<Rightarrow> request_model \<Rightarrow> json \<Rightarrow> DashboardContext
    \<Rightarrow> ControlResponse http \<times> DashboardContext" where
  "group_route validate call device_id grp m body =
     with_body (request_values validate m (\<lambda>_. True) body) (set_group_endpoint call device_id grp)"

definition schedule_valid :: "json_dict \<Rightarrow> bool" where
  "schedule_valid vals \<longleftrightarrow> validate_time vals \<and> validate_days vals"

fun handle :: "validator \<Rightarrow> ControlCall \<Rightarrow> string \<Rightarrow> control_request \<Rightarrow> DashboardContext
    \<Rightarrow> ControlResponse http \<times> DashboardContext" where
  "handle validate call d (SetSound body) = with_body (request_values validate SoundRequest (\<lambda>_. True) body) (set_device_sound call d)"
| "handle validate call d (SetMotion body) = with_body (request_values validate MotionRequest require_update body) (set_device_motion_detection call d)"
| "handle validate call d (SetSoundDetection body) = group_route validate call d ''sound_detection'' SoundDetectionRequest body"
| "handle validate call d (SetLight body) = group_route validate call d ''light'' LightRequest body"
| "handle validate call d (SetCamera body) = group_route validate call d ''camera'' CameraRequest body"
| "handle validate call d (SetVideo body) = group_route validate call d ''video'' VideoRequest body"
| "handle validate call d (SetFeedingVideo body) = group_route validate call d ''feeding_video'' FeedingVideoRequest body"
| "handle validate call d (SetBowl body) = group_route validate call d ''bowl'' BowlRequest body"
| "handle validate call d (Dispense body) = with_body (request_values validate DispenseRequest (\<lambda>_. True) body) (dispense_endpoint call d)"
| "handle validate call d (CreateSchedule body) =
     with_body (request_values validate ScheduleCreateRequest schedule_valid body) (create_schedule_endpoint call d)"
| "handle validate call d (UpdateSchedule i body) =
     with_body (request_values validate ScheduleUpdateRequest schedule_valid body) (update_schedule_endpoint call d i)"
| "handle validate call d (DeleteSchedule i) = delete_schedule_endpoint call d i"

section \<open>Camera routes\<close>

definition streams_enabled :: "DashboardContext \<Rightarrow> bool" where
  "streams_enabled x = gs_enabled (cf_go2rtc (db_config x))"

definition on_streams :: "(Go2RtcStreamClient \<Rightarrow> bool \<times> Go2RtcStreamClient) \<Rightarrow> DashboardContext \<Rightarrow> bool \<times> DashboardContext" where
  "on_streams f x = (case f (db_camera_streams x) of (ok, s) \<Rightarrow> (ok, x\<lparr>db_camera_streams := s\<rparr>))"

definition no_content :: "string \<Rightarrow> nat \<Rightarrow> bool \<times> DashboardContext \<Rightarrow> unit http \<times> DashboardContext" where
  "no_content detail status r = (case r of (ok, x) \<Rightarrow> (if ok then Http 204 () else HTTPException status (Detail detail), x))"

text \<open>\<open>tick\<close> is the monotonic clock of the viewers; \<open>before\<close> and \<open>after\<close> say whether go2rtc lists the stream.\<close>

definition activate_camera_viewer :: "seconds \<Rightarrow> seconds \<Rightarrow> bool \<Rightarrow> bool \<Rightarrow> string \<Rightarrow> string \<Rightarrow> DashboardContext \<Rightarrow> unit http \<times> DashboardContext" where
  "activate_camera_viewer now tick before after device_id viewer_id x = (case known_device now x device_id of
     None \<Rightarrow> (ServerError, x)
   | Some known \<Rightarrow>
       if \<not> known \<or> \<not> is_webrtc_session_id viewer_id then (HTTPException 404 (Detail ''Unknown camera viewer''), x)
       else no_content ''Camera stream is unavailable'' 503
         (on_streams (activate_viewer (streams_enabled x) before after tick device_id viewer_id) x))"

definition viewer_route :: "seconds \<Rightarrow> string \<Rightarrow> (Go2RtcStreamClient \<Rightarrow> bool \<times> Go2RtcStreamClient) \<Rightarrow> DashboardContext \<Rightarrow> unit http \<times> DashboardContext" where
  "viewer_route now device_id action x = (case known_device now x device_id of
     None \<Rightarrow> (ServerError, x)
   | Some known \<Rightarrow>
       if \<not> known then (HTTPException 404 (Detail ''Unknown camera viewer''), x)
       else no_content ''Unknown camera viewer'' 404 (on_streams action x))"

definition heartbeat_camera_viewer :: "seconds \<Rightarrow> seconds \<Rightarrow> string \<Rightarrow> string \<Rightarrow> DashboardContext \<Rightarrow> unit http \<times> DashboardContext" where
  "heartbeat_camera_viewer now tick device_id viewer_id = viewer_route now device_id (heartbeat_viewer tick device_id viewer_id)"

definition deactivate_camera_viewer :: "seconds \<Rightarrow> string \<Rightarrow> string \<Rightarrow> DashboardContext \<Rightarrow> unit http \<times> DashboardContext" where
  "deactivate_camera_viewer now device_id viewer_id = viewer_route now device_id (deactivate_viewer device_id viewer_id)"

definition close_camera_webrtc :: "seconds \<Rightarrow> http_result \<Rightarrow> string \<Rightarrow> string \<Rightarrow> DashboardContext \<Rightarrow> unit http \<times> DashboardContext" where
  "close_camera_webrtc now answer device_id session_id x = (case known_device now x device_id of
     None \<Rightarrow> (ServerError, x)
   | Some known \<Rightarrow>
       if \<not> known then (HTTPException 404 (Detail ''Unknown device''), x)
       else if \<not> is_webrtc_session_id session_id then (HTTPException 404 (Detail ''Unknown camera session''), x)
       else no_content ''Unknown camera session'' 404 (on_streams (close_webrtc answer device_id session_id) x))"

text \<open>
  One exchange: \<open>whep\<close> is the answer of go2rtc and its location header, if the request succeeded;
  \<open>base_url\<close> and \<open>session_id\<close> are the client's URL of go2rtc and a fresh identifier.
\<close>

definition exchange_webrtc :: "bool \<Rightarrow> bool \<Rightarrow> bool \<Rightarrow> seconds \<Rightarrow> (bytes \<times> string option) option \<Rightarrow> string \<Rightarrow> string \<Rightarrow> string \<Rightarrow> string
    \<Rightarrow> Go2RtcStreamClient \<Rightarrow> (bytes \<times> string) option \<times> Go2RtcStreamClient" where
  "exchange_webrtc enabled before after tick whep base_url session_id device_id viewer_id s =
     (case exchange_begin enabled before after tick device_id viewer_id s of
       (False, s1) \<Rightarrow> (None, s1)
     | (True, s1) \<Rightarrow> (case whep of
         None \<Rightarrow> (None, s1)
       | Some (answer, location) \<Rightarrow> (Some (answer, session_id), remember_webrtc_session base_url session_id device_id location s1)))"

definition camera_webrtc :: "seconds \<Rightarrow> seconds \<Rightarrow> bool \<Rightarrow> bool \<Rightarrow> (bytes \<times> string option) option \<Rightarrow> string \<Rightarrow> string \<Rightarrow> string \<Rightarrow> string
    \<Rightarrow> bytes \<Rightarrow> string \<Rightarrow> DashboardContext \<Rightarrow> (bytes \<times> string) http \<times> DashboardContext" where
  "camera_webrtc now tick before after whep base_url session_id device_id content_type offer viewer_id x =
     (case known_device now x device_id of
       None \<Rightarrow> (ServerError, x)
     | Some known \<Rightarrow>
         if \<not> known then (HTTPException 404 (Detail ''Unknown device''), x)
         else if lower (takeWhile (\<lambda>c. c \<noteq> CHR '';'') content_type) \<noteq> ''application/sdp'' then
           (HTTPException 415 (Detail ''WebRTC offer must use application/sdp''), x)
         else if offer = [] \<or> length offer > MAX_CAMERA_WEBRTC_OFFER_BYTES then (HTTPException 400 (Detail ''Invalid WebRTC offer''), x)
         else if \<not> is_webrtc_session_id viewer_id then (HTTPException 409 (Detail ''Camera viewer is unavailable''), x)
         else (case exchange_webrtc (streams_enabled x) before after tick whep base_url session_id device_id viewer_id (db_camera_streams x) of
           (None, s) \<Rightarrow> (HTTPException 503 (Detail ''Camera stream is unavailable''), x\<lparr>db_camera_streams := s\<rparr>)
         | (Some r, s) \<Rightarrow> (Http 201 r, x\<lparr>db_camera_streams := s\<rparr>)))"

section \<open>Read-only routes\<close>

definition is_page_limit :: "int \<Rightarrow> bool" where
  "is_page_limit limit \<longleftrightarrow> 1 \<le> limit \<and> limit \<le> MAX_PAGE_SIZE"

definition page_or_404 :: "view option option \<Rightarrow> view http" where
  "page_or_404 page = (case page of
     None \<Rightarrow> ServerError
   | Some None \<Rightarrow> HTTPException 404 (Detail ''Unknown device'')
   | Some (Some v) \<Rightarrow> Http 200 v)"

definition device_detail_route :: "seconds \<Rightarrow> DashboardContext \<Rightarrow> string \<Rightarrow> int \<Rightarrow> view http" where
  "device_detail_route now x device_id raw_limit =
     (if \<not> is_page_limit raw_limit then RequestValidationError else page_or_404 (device_detail now x device_id raw_limit))"

definition daily_device_detail_route :: "seconds \<Rightarrow> DashboardContext \<Rightarrow> string \<Rightarrow> view http" where
  "daily_device_detail_route now x device_id =
     (if \<not> is_device_id device_id then HTTPException 404 (Detail ''Unknown device'') else page_or_404 (daily_device_detail now x device_id))"

definition camera_route :: "seconds \<Rightarrow> DashboardContext \<Rightarrow> string \<Rightarrow> view http" where
  "camera_route now x device_id = (case known_device now x device_id of
     None \<Rightarrow> ServerError
   | Some known \<Rightarrow>
       if \<not> known then HTTPException 404 (Detail ''Unknown device'')
       else (case camera_view now x device_id None of None \<Rightarrow> ServerError | Some v \<Rightarrow> Http 200 v))"

definition queues_route :: "seconds \<Rightarrow> DashboardContext \<Rightarrow> string \<Rightarrow> int \<Rightarrow> view http" where
  "queues_route now x device_id limit =
     (if \<not> is_page_limit limit then RequestValidationError else Http 200 (queues_view now x device_id limit))"

definition state_route :: "DashboardContext \<Rightarrow> string \<Rightarrow> int \<Rightarrow> view http" where
  "state_route x device_id raw_limit =
     (if \<not> is_page_limit raw_limit then RequestValidationError
      else (case state_view x device_id raw_limit of None \<Rightarrow> ServerError | Some v \<Rightarrow> Http 200 v))"

definition logs_route :: "DashboardContext \<Rightarrow> int \<Rightarrow> view http" where
  "logs_route x limit =
     (if \<not> is_page_limit limit then RequestValidationError
      else Http 200 (VDict [(''entries'', VList (map log_view (log_snapshot limit (db_logs x))))]))"

text \<open>\<open>a[k]\<close> on a response value; a missing key raises.\<close>

definition vget :: "string \<Rightarrow> view \<Rightarrow> view option" where
  "vget k v = (case v of VDict kvs \<Rightarrow> dict_get kvs k | _ \<Rightarrow> None)"

definition health_payload :: "view \<Rightarrow> view option" where
  "health_payload status = do {
     summary \<leftarrow> vget ''devices'' status;
     broker \<leftarrow> vget ''local_mqtt'' status;
     connected \<leftarrow> vget ''connected'' broker;
     known \<leftarrow> vget ''known'' summary;
     present \<leftarrow> vget ''local_online'' summary;
     cloud \<leftarrow> vget ''cloud_online'' summary;
     Some (VDict [(''healthy'', VBool True), (''relay'', VBool True), (''local_mqtt'', connected), (''devices_known'', known),
       (''devices_local_online'', present), (''upstream_petlibro_online'', cloud)])
   }"

definition healthz :: "seconds \<Rightarrow> DashboardContext \<Rightarrow> view http" where
  "healthz now x = (case Option.bind (status_view now x) health_payload of None \<Rightarrow> ServerError | Some v \<Rightarrow> Http 200 v)"

section \<open>The log stream\<close>

datatype sse = Keepalive | LogEvent nat view

text \<open>One turn of the generator's loop, on the buffer as the wait leaves it.\<close>

definition stream_round :: "nat \<Rightarrow> RingBufferLogHandler \<Rightarrow> sse list \<times> nat" where
  "stream_round sequence h = (case entries_after sequence h of
     [] \<Rightarrow> ([Keepalive], sequence)
   | es \<Rightarrow> (map (\<lambda>e. LogEvent (ble_sequence e) (log_view e)) es, ble_sequence (last es)))"

fun stream_logs :: "nat \<Rightarrow> RingBufferLogHandler list \<Rightarrow> sse list" where
  "stream_logs sequence [] = []"
| "stream_logs sequence (h # hs) = (case stream_round sequence h of (out, next) \<Rightarrow> out @ stream_logs next hs)"

section \<open>Every control route\<close>

definition published :: "DashboardContext \<Rightarrow> (string \<times> string \<times> bytes) list" where
  "published x = (case db_control x of None \<Rightarrow> [] | Some c \<Rightarrow> dc_published c)"

definition is_known :: "seconds \<Rightarrow> DashboardContext \<Rightarrow> string \<Rightarrow> bool" where
  "is_known now x d \<longleftrightarrow> is_device_id d \<and> (\<exists>e. find_entry now x d = Some (Some e))"

lemma device_detail_None_iff: "device_detail now x d n = Some None \<longleftrightarrow> find_entry now x d = Some None"
  by (auto simp: device_detail_def split: Option.bind_splits option.splits)

lemma device_detail_Some: "device_detail now x d n = Some (Some v) \<Longrightarrow> \<exists>e. find_entry now x d = Some (Some e)"
  by (auto simp: device_detail_def split: Option.bind_splits option.splits)

lemma known_device_True: "known_device now x d = Some True \<Longrightarrow> is_known now x d"
  by (auto simp: known_device_def is_known_def split: if_splits dest: device_detail_Some)

lemma known_device_False: "\<not> is_device_id d \<or> find_entry now x d = Some None \<Longrightarrow> known_device now x d = Some False"
  by (auto simp: known_device_def device_detail_None_iff [of now x d 1, THEN iffD2])

lemma run_control_status: "http_status (run_control r) = 200 \<longleftrightarrow> \<not> isl r"
  by (cases r) (auto simp: run_control_def http_status_def split: control_error.split)

text \<open>What a route promises: an error response leaves the recorded state alone, and at most one message is published, to a known device, and it feeds no number of portions out of bounds.\<close>

definition route_ok :: "seconds \<Rightarrow> string \<Rightarrow> DashboardContext \<Rightarrow> ControlResponse http \<times> DashboardContext \<Rightarrow> bool" where
  "route_ok now d x r \<longleftrightarrow> (http_status (fst r) \<noteq> 200 \<longrightarrow> db_shadow (snd r) = db_shadow x) \<and>
     (\<exists>sent. published (snd r) = published x @ sent \<and> length sent \<le> 1 \<and> (\<forall>m\<in>set sent. fst m = d \<and> is_known now x d \<and>
        (\<exists>body. snd (snd m) = json_dumps_compact (JObj body) \<and> feeds_in_bounds body)))"

lemma route_unchanged [simp]: "route_ok now d x (r, x)"
  by (simp add: route_ok_def)

text \<open>A control operation behind a route, under the contract of the control service.\<close>

locale http_operation = feeder_operation device run
  for device :: string and run :: "DeviceControlController \<Rightarrow> (control_error + ControlResponse) \<times> DeviceControlController"
begin

lemma on_control_shadow:
  "http_status (fst (on_control run c x)) \<noteq> 200 \<Longrightarrow> db_shadow (snd (on_control run c x)) = db_shadow x"
  using failure_keeps_shadow [of "c\<lparr>dc_shadow := db_shadow x\<rparr>"]
  by (cases "run (c\<lparr>dc_shadow := db_shadow x\<rparr>)") (auto simp: on_control_def run_control_status)

lemma on_control_published:
  "\<exists>sent. published (snd (on_control run c x)) = dc_published c @ sent \<and> length sent \<le> 1 \<and>
    (\<forall>m\<in>set sent. fst m = device \<and> (\<exists>body. snd (snd m) = json_dumps_compact (JObj body) \<and> feeds_in_bounds body))"
  using publishes_once [of "c\<lparr>dc_shadow := db_shadow x\<rparr>"]
  by (cases "run (c\<lparr>dc_shadow := db_shadow x\<rparr>)") (auto simp: on_control_def published_def sends_to_def)

lemma guarded: "route_ok now device x (with_known_control missing now device run x)"
proof (cases "known_device now x device = Some True \<and> db_control x \<noteq> None")
  case True
  then obtain c where c: "db_control x = Some c" by auto
  with True have e: "with_known_control missing now device run x = on_control run c x" and k: "is_known now x device"
    by (simp_all add: with_known_control_def known_device_True)
  have "published x = dc_published c" by (simp add: published_def c)
  with on_control_published [of c x] on_control_shadow [of c x] k show ?thesis unfolding e route_ok_def by auto
next
  case False
  then have "snd (with_known_control missing now device run x) = x"
    by (auto simp: with_known_control_def split: option.split bool.split)
  then show ?thesis by (simp add: route_ok_def)
qed

end

lemma set_sound_switch_cases:
  "(\<exists>e. set_sound_switch env call d b c = (Inl e, c)) \<or>
   (\<exists>updates. isl (fst (set_sound_switch env call d b c)) = isl (fst (set_group env call d ''sound'' updates True c)) \<and>
      snd (set_sound_switch env call d b c) = snd (set_group env call d ''sound'' updates True c))"
proof -
  have "isl (fst r') = isl (fst r) \<and> snd r' = snd r"
    if "r' = (case r of (Inl e, c1) \<Rightarrow> (Inl e, c1) | (Inr x, c1) \<Rightarrow> (Inr (f x), c1))"
    for r r' :: "(control_error + ControlResponse) \<times> DeviceControlController" and f
    using that by (auto split: prod.splits sum.splits)
  then show ?thesis
    unfolding set_sound_switch_def by (auto split: sum.split option.split)
qed

lemma set_sound_switch_contract:
  "isl (fst (set_sound_switch env call d b c)) \<Longrightarrow> dc_shadow (snd (set_sound_switch env call d b c)) = dc_shadow c"
  "sends_to d (Suc 0) c (snd (set_sound_switch env call d b c))"
  using set_sound_switch_cases [of env call d b c] set_group_contract [where env = env and call = call and d = d and c = c]
  by (auto simp: sends_to_same)

lemma set_motion_switch_contract:
  "isl (fst (set_motion_detection_switch env call d b c)) \<Longrightarrow> dc_shadow (snd (set_motion_detection_switch env call d b c)) = dc_shadow c"
  "sends_to d (Suc 0) c (snd (set_motion_detection_switch env call d b c))"
  using set_group_contract [where env = env and call = call and d = d and g = "''motion''" and minimal = True and c = c and
      updates = "[(''motionDetectionSwitch'', JBool b)]"]
  by (auto simp: set_motion_detection_switch_def split: sum.splits prod.splits)

lemma switch_action_contract:
  assumes "\<And>b. isl (fst (switch b c)) \<Longrightarrow> dc_shadow (snd (switch b c)) = dc_shadow c"
    and "\<And>b. sends_to d (Suc 0) c (snd (switch b c))"
  shows "isl (fst (switch_action env call d g f switch vals c)) \<Longrightarrow> dc_shadow (snd (switch_action env call d g f switch vals c)) = dc_shadow c"
    and "sends_to d (Suc 0) c (snd (switch_action env call d g f switch vals c))"
  using assms set_group_contract [where env = env and call = call and d = d and c = c]
  by (auto simp: switch_action_def Let_def split: option.splits if_splits)

interpretation http_group: http_operation d "set_group env call d g updates minimal" for env call d g updates minimal
  by (rule http_operation.intro) (rule group_control.feeder_operation_axioms)

interpretation http_dispense: http_operation d "dispense env call d n" for env call d n
  by (rule http_operation.intro) (rule feed_control.feeder_operation_axioms)

interpretation http_create: http_operation d "create_schedule env call d requested" for env call d requested
  by (rule http_operation.intro) (rule create_control.feeder_operation_axioms)

interpretation http_update: http_operation d "update_schedule env call d i requested" for env call d i requested
  by (rule http_operation.intro) (rule update_control.feeder_operation_axioms)

interpretation http_delete: http_operation d "delete_schedule env call d i" for env call d i
  by (rule http_operation.intro) (rule delete_control.feeder_operation_axioms)

interpretation http_sound: http_operation d "switch_action env call d g f (set_sound_switch env call d) vals" for env call d g f vals
  by unfold_locales
    (auto intro: switch_action_contract(2) set_sound_switch_contract(2) elim!: switch_action_contract(1) [rotated 2] dest: set_sound_switch_contract(1))

interpretation http_motion: http_operation d "switch_action env call d g f (set_motion_detection_switch env call d) vals" for env call d g f vals
  by unfold_locales
    (auto intro: switch_action_contract(2) set_motion_switch_contract(2) elim!: switch_action_contract(1) [rotated 2] dest: set_motion_switch_contract(1))

lemmas guarded_routes = http_group.guarded http_dispense.guarded http_create.guarded http_update.guarded http_delete.guarded
  http_sound.guarded http_motion.guarded

lemma with_body_ok: "(\<And>vals. route_ok now d x (handler vals x)) \<Longrightarrow> route_ok now d x (with_body b handler x)"
  by (simp add: with_body_def split: option.split)

lemma endpoints_ok:
  "route_ok (call_time call) d x (set_device_sound call d vals x)" "route_ok (call_time call) d x (set_device_motion_detection call d vals x)"
  "route_ok (call_time call) d x (set_group_endpoint call d g vals x)" "route_ok (call_time call) d x (dispense_endpoint call d vals x)"
  "route_ok (call_time call) d x (create_schedule_endpoint call d vals x)" "route_ok (call_time call) d x (update_schedule_endpoint call d i vals x)"
  "route_ok (call_time call) d x (delete_schedule_endpoint call d i x)"
  by (simp_all add: set_device_sound_def set_device_motion_detection_def set_group_endpoint_def dispense_endpoint_def Let_def
      create_schedule_endpoint_def update_schedule_endpoint_def delete_schedule_endpoint_def known_control_def guarded_routes
      split: option.split json.split)

lemma handle_ok: "route_ok (call_time call) d x (handle validate call d r x)"
  by (cases r) (simp_all add: group_route_def with_body_ok endpoints_ok)

text \<open>
  C14: Whatever the body of a control request, at most one message is published, and only to the device of
  the request, whose id is well-formed and registered. A response other than 200 leaves the recorded
  settings and schedules of every device as they were.
\<close>

theorem control_requests_are_contained:
  "(http_status (fst (handle validate call d r x)) \<noteq> 200 \<longrightarrow> db_shadow (snd (handle validate call d r x)) = db_shadow x) \<and>
   (\<exists>sent. published (snd (handle validate call d r x)) = published x @ sent \<and> length sent \<le> 1 \<and>
      (\<forall>m\<in>set sent. fst m = d \<and> is_device_id d \<and> (\<exists>e. find_entry (call_time call) x d = Some (Some e))))"
  using handle_ok [of call d x validate r] unfolding route_ok_def is_known_def by blast

text \<open>A validator that checks the declared types itself; absent optional fields may also be given as null.\<close>

definition strict_validate :: validator where
  "strict_validate m body = (case body of
     JObj kvs \<Rightarrow>
       if dict_wf kvs \<and> list_all (\<lambda>(k, v). case dict_get (rm_fields m) k of None \<Rightarrow> False
            | Some t \<Rightarrow> admits t v \<or> (\<not> rm_required m \<and> v = JNull)) kvs \<and>
          (rm_required m \<longrightarrow> list_all (\<lambda>k. dict_get kvs k \<noteq> None) (map fst (rm_fields m)))
       then Some (concat (map (\<lambda>(k, t). case dict_get kvs k of Some v \<Rightarrow> if admits t v then [(k, v)] else [] | None \<Rightarrow> []) (rm_fields m)))
       else None
   | _ \<Rightarrow> None)"

lemma subseq_declared:
  "subseq (map fst (concat (map (\<lambda>(k, t). case dict_get kvs k of Some v \<Rightarrow> if admits t v then [(k, v)] else [] | None \<Rightarrow> []) fs))) (map fst fs)"
  by (induction fs) (auto split: option.split)

definition all_models :: "request_model list" where
  "all_models = [MotionRequest, SoundDetectionRequest, SoundRequest, LightRequest, CameraRequest, VideoRequest, FeedingVideoRequest,
     BowlRequest, DispenseRequest, ScheduleCreateRequest, ScheduleUpdateRequest]"

theorem control_requests_are_contained_witness:
  "http_status (fst (handle strict_validate (example_call '''') ''AF03'' (Dispense (JObj [(''grainNum'', JInt 49)])) (demo_dashboard ''p''))) = 422 \<and>
   db_shadow (snd (handle strict_validate (example_call '''') ''AF03'' (Dispense (JObj [(''grainNum'', JInt 49)])) (demo_dashboard ''p''))) = open_shadow"
proof -
  have v: "strict_validate DispenseRequest (JObj [(''grainNum'', JInt 49)]) = None" by code_simp
  let ?r = "handle strict_validate (example_call '''') ''AF03'' (Dispense (JObj [(''grainNum'', JInt 49)])) (demo_dashboard ''p'')"
  have s: "http_status (fst ?r) = 422" by (simp add: v request_values_def with_body_def RequestValidationError_def http_status_def)
  with control_requests_are_contained [of strict_validate "example_call ''''" "''AF03''" "Dispense (JObj [(''grainNum'', JInt 49)])" "demo_dashboard ''p''"]
  show ?thesis by (simp add: demo_dashboard_def)
qed

lemma models_wf: "list_all (\<lambda>m. dict_wf (rm_fields m)) all_models"
  by code_simp

lemma model_wf [intro]: "m \<in> set all_models \<Longrightarrow> dict_wf (rm_fields m)"
  using models_wf by (simp add: list_all_iff)

lemma strict_validate_declared: "validates_declared strict_validate"
proof -
  have "subseq (map fst vals) (map fst (rm_fields m)) \<and>
      (\<forall>k v. (k, v) \<in> set vals \<longrightarrow> (\<exists>t. dict_get (rm_fields m) k = Some t \<and> admits t v)) \<and>
      (rm_required m \<longrightarrow> map fst vals = map fst (rm_fields m))"
    if wf: "dict_wf (rm_fields m)" and r: "strict_validate m body = Some vals" for m body vals
  proof -
    from r obtain kvs where kvs: "dict_wf kvs" "list_all (\<lambda>(k, v). case dict_get (rm_fields m) k of None \<Rightarrow> False
          | Some t \<Rightarrow> admits t v \<or> (\<not> rm_required m \<and> v = JNull)) kvs"
        "rm_required m \<longrightarrow> list_all (\<lambda>k. dict_get kvs k \<noteq> None) (map fst (rm_fields m))"
      and vals: "vals = concat (map (\<lambda>(k, t). case dict_get kvs k of Some v \<Rightarrow> if admits t v then [(k, v)] else [] | None \<Rightarrow> []) (rm_fields m))"
      by (auto simp: strict_validate_def split: json.splits if_splits)
    have typed: "dict_get (rm_fields m) k = Some t \<and> admits t v" if "(k, v) \<in> set vals" "(k, t) \<in> set (rm_fields m)" for k v t
      using that by (auto simp: vals dict_wf_mem [OF wf] split: option.splits if_splits)
    have one: "concat (map (\<lambda>(k, t). case dict_get kvs k of Some v \<Rightarrow> if admits t v then [(k, v)] else [] | None \<Rightarrow> []) fs) =
        map (\<lambda>(k, t). (k, the (dict_get kvs k))) fs"
      if req: "rm_required m" and fs: "set fs \<subseteq> set (rm_fields m)" for fs
      using fs
    proof (induction fs)
      case (Cons f fs)
      obtain k t where f: "f = (k, t)" by (cases f)
      with Cons.prems have "(k, t) \<in> set (rm_fields m)" by simp
      from dict_wf_mem [OF wf, THEN iffD1, OF this] imageI [OF this, of fst]
      have kt: "dict_get (rm_fields m) k = Some t" "k \<in> fst ` set (rm_fields m)" by simp_all
      with kvs(3) req obtain v where v: "dict_get kvs k = Some v" by (auto simp: list_all_iff)
      with kvs(2) kt(1) req have "admits t v" using map_of_SomeD [OF v] by (fastforce simp: list_all_iff)
      with Cons v f show ?case by simp
    qed simp
    have "\<exists>t. dict_get (rm_fields m) k = Some t \<and> admits t v" if "(k, v) \<in> set vals" for k v
    proof -
      from that obtain t where "(k, t) \<in> set (rm_fields m)" by (auto simp: vals split: option.splits if_splits)
      with typed [OF that] show ?thesis by blast
    qed
    moreover have "map fst vals = map fst (rm_fields m)" if "rm_required m"
      unfolding vals one [OF that order_refl] by (simp add: case_prod_beta o_def)
    ultimately show ?thesis using subseq_declared [of kvs "rm_fields m"] by (simp add: vals)
  qed
  then show ?thesis unfolding validates_declared_def by blast
qed

section \<open>Schedules that the route accepts\<close>

lemma char_between: "c \<le> d \<longleftrightarrow> (of_char c :: nat) \<le> of_char d"
  by (simp add: less_eq_char_def)

lemma hhmm_parses: "is_hhmm s \<Longrightarrow> \<exists>hm. parse_time s = Inr hm"
proof -
  assume "is_hhmm s"
  then obtain a b d e where s: "s = [a, b, CHR '':'', d, e]"
    and h: "a \<in> {CHR ''0'', CHR ''1''} \<and> is_digit b \<or> a = CHR ''2'' \<and> CHR ''0'' \<le> b \<and> b \<le> CHR ''3''"
    and m: "CHR ''0'' \<le> d" "d \<le> CHR ''5''" "is_digit e"
    by (auto simp: is_hhmm_def split: list.splits)
  have dig: "is_digit a" "is_digit b" "is_digit d" "is_digit e" using h m by (auto simp: is_digit_def char_between)
  have colon: "x \<noteq> CHR '':''" if "is_digit x" for x using that by (auto simp: is_digit_def)
  have "read_nat [a, b] < 24" "read_nat [d, e] < 60"
    using h m by (auto simp: read_nat_def digit_val_def is_digit_def char_between)
  with dig colon show ?thesis by (simp add: s parse_time_def two_digits_def)
qed

lemma declared_values:
  assumes "validates_declared validate" "m \<in> set all_models" "request_values validate m own body = Some vals"
  shows "own vals" "subseq (map fst vals) (map fst (rm_fields m))" "rm_required m \<Longrightarrow> map fst vals = map fst (rm_fields m)"
    "(k, v) \<in> set vals \<Longrightarrow> \<exists>t. dict_get (rm_fields m) k = Some t \<and> admits t v"
  using assms model_wf [OF assms(2)] unfolding validates_declared_def request_values_def
  by (auto split: option.splits if_splits)

lemma admits_cases:
  "admits StrField v \<Longrightarrow> \<exists>s. v = JStr s" "admits BoolField v \<Longrightarrow> \<exists>b. v = JBool b"
  "admits (IntRange lo hi) v \<Longrightarrow> \<exists>i. v = JInt i \<and> lo \<le> i \<and> i \<le> hi"
  "admits IntList v \<Longrightarrow> \<exists>ds. v = JList (map JInt ds)"
proof -
  show "admits IntList v \<Longrightarrow> \<exists>ds. v = JList (map JInt ds)"
  proof (cases v)
    case (JList xs)
    assume "admits IntList v"
    with JList have "list_all (\<lambda>x. case x of JInt _ \<Rightarrow> True | _ \<Rightarrow> False) xs" by (simp add: admits_def)
    then have "xs = map JInt (map (\<lambda>x. case x of JInt i \<Rightarrow> i | _ \<Rightarrow> 0) xs)"
      by (induction xs) (auto split: json.splits)
    with JList show ?thesis by blast
  qed (simp_all add: admits_def)
qed (auto simp: admits_def split: json.splits)

lemma create_values:
  assumes v: "validates_declared validate" and r: "request_values validate ScheduleCreateRequest schedule_valid body = Some vals"
  obtains t g b a days where "vals = [(''executionTime'', JStr t), (''grainNum'', JInt g), (''enableAudio'', JBool b), (''audioTimes'', JInt a),
      (''repeatDay'', JList (map JInt days))]" "is_hhmm t" "1 \<le> g" "g \<le> 48" "1 \<le> a" "a \<le> 5" "\<forall>d\<in>set days. 0 \<le> d \<and> d \<le> 7"
proof -
  have m: "ScheduleCreateRequest \<in> set all_models" by (simp add: all_models_def)
  note dv = declared_values [OF v m r]
  have "map fst vals = map fst SCHEDULE_FIELDS" using dv(3) by (simp add: ScheduleCreateRequest_def)
  then obtain v1 v2 v3 v4 v5 where vals: "vals = [(''executionTime'', v1), (''grainNum'', v2), (''enableAudio'', v3), (''audioTimes'', v4), (''repeatDay'', v5)]"
    by (auto simp: SCHEDULE_FIELDS_def map_eq_Cons_conv)
  have "admits StrField v1" "admits (IntRange 1 48) v2" "admits BoolField v3" "admits (IntRange 1 5) v4" "admits IntList v5"
    using dv(4) [of "''executionTime''" v1] dv(4) [of "''grainNum''" v2] dv(4) [of "''enableAudio''" v3] dv(4) [of "''audioTimes''" v4]
      dv(4) [of "''repeatDay''" v5] by (simp_all add: vals ScheduleCreateRequest_def SCHEDULE_FIELDS_def)
  from admits_cases(1) [OF this(1)] admits_cases(3) [OF this(2)] admits_cases(2) [OF this(3)] admits_cases(3) [OF this(4)] admits_cases(4) [OF this(5)]
  obtain t g b a days where vs: "v1 = JStr t" "v2 = JInt g" "v3 = JBool b" "v4 = JInt a" "v5 = JList (map JInt days)"
      "1 \<le> g" "g \<le> 48" "1 \<le> a" "a \<le> 5" by auto
  moreover have "is_hhmm t" "\<forall>d\<in>set days. 0 \<le> d \<and> d \<le> 7"
    using dv(1) by (auto simp: vals vs schedule_valid_def validate_time_def validate_days_def str_field_def list_all_iff)
  ultimately show thesis using that vals by blast
qed

text \<open>
  C27: Every schedule the route accepts passes the validation of the control service, whatever id and
  synchronisation time it is given: the two validations agree on accepted bodies, and the stored plan has
  the requested time, portions and sound, and the requested days sorted, without repetition and without 0.
\<close>

theorem accepted_schedule_passes_control_validation:
  assumes "validates_declared validate" "request_values validate ScheduleCreateRequest schedule_valid body = Some vals"
  shows "\<exists>plan days. validate_plan (dict_set ''syncTime'' (JInt sync) (dict_set ''planId'' (JInt i) vals)) = Inr plan \<and>
    (\<forall>k \<in> {''executionTime'', ''grainNum'', ''enableAudio'', ''audioTimes''}. dict_get plan k = dict_get vals k) \<and>
    dict_get vals ''repeatDay'' = Some (JList (map JInt days)) \<and>
    dict_get plan ''repeatDay'' = Some (JList (map JInt (sorted_list_of_set (set days - {0}))))"
proof -
  from create_values [OF assms] obtain t g b a days where vals: "vals = [(''executionTime'', JStr t), (''grainNum'', JInt g),
      (''enableAudio'', JBool b), (''audioTimes'', JInt a), (''repeatDay'', JList (map JInt days))]"
    and t: "is_hhmm t" and r: "1 \<le> g" "g \<le> 48" "1 \<le> a" "a \<le> 5" "\<forall>d\<in>set days. 0 \<le> d \<and> d \<le> 7" .
  from hhmm_parses [OF t] obtain hm where p: "parse_time t = Inr hm" ..
  have days: "valid_days (Some (JList (map JInt days))) = Some days"
    using r(5) by (auto simp: valid_days_def is_int_in_def list_all_iff o_def)
  have s: "sort (remdups (filter (\<lambda>d. d \<noteq> 0) days)) = sorted_list_of_set (set days - {0})"
    by (simp add: sorted_list_of_set_sort_remdups [symmetric] set_diff_eq Collect_conj_eq [symmetric])
  show ?thesis
    by (rule exI [of _ "dict_set ''repeatDay'' (JList (map JInt (sort (remdups (filter (\<lambda>d. d \<noteq> 0) days)))))
          (dict_set ''syncTime'' (JInt sync) (dict_set ''planId'' (JInt i) vals))"], rule exI [of _ days])
      (use r p days in \<open>simp add: vals validate_plan_def plan_id_def str_field_def is_int_in_def MIN_GRAIN_NUM_def MAX_GRAIN_NUM_def
        MIN_AUDIO_TIMES_def MAX_AUDIO_TIMES_def s\<close>)
qed

definition demo_schedule_body :: json where
  "demo_schedule_body = JObj [(''repeatDay'', JList [JInt 5, JInt 0, JInt 1]), (''executionTime'', JStr ''07:30''), (''grainNum'', JInt 2),
     (''enableAudio'', JBool True), (''audioTimes'', JInt 1)]"

theorem accepted_schedule_passes_control_validation_witness:
  "\<exists>vals plan. request_values strict_validate ScheduleCreateRequest schedule_valid demo_schedule_body = Some vals \<and>
    validate_plan (dict_set ''syncTime'' (JInt 0) (dict_set ''planId'' (JInt (- 1)) vals)) = Inr plan \<and>
    dict_get plan ''executionTime'' = dict_get vals ''executionTime''"
proof -
  have "request_values strict_validate ScheduleCreateRequest schedule_valid demo_schedule_body \<noteq> None" by code_simp
  then obtain vals where v: "request_values strict_validate ScheduleCreateRequest schedule_valid demo_schedule_body = Some vals" by blast
  with accepted_schedule_passes_control_validation [OF strict_validate_declared v, of 0 "- 1"] show ?thesis by auto
qed

section \<open>Requests for unknown devices\<close>

lemma with_known_control_unknown:
  "\<not> is_device_id d \<or> find_entry now x d = Some None \<Longrightarrow>
    with_known_control missing now d action x = (HTTPException 404 (Detail ''Unknown device''), x)"
  by (simp add: with_known_control_def known_device_False)

lemma dispense_values:
  assumes "validates_declared validate" "request_values validate DispenseRequest own body = Some vals"
  obtains n where "vals = [(''grainNum'', JInt n)]" "1 \<le> n" "n \<le> 48"
proof -
  have m: "DispenseRequest \<in> set all_models" by (simp add: all_models_def)
  note dv = declared_values [OF assms(1) m assms(2)]
  have "map fst vals = [''grainNum'']" using dv(3) by (simp add: DispenseRequest_def)
  then obtain v where v: "vals = [(''grainNum'', v)]" by (auto simp: map_eq_Cons_conv)
  with dv(4) [of "''grainNum''" v] have "admits (IntRange 1 48) v" by (simp add: DispenseRequest_def)
  from admits_cases(3) [OF this] v that show thesis by blast
qed

text \<open>
  C21: A control request for a malformed device id, or for a device the registry does not list, is answered
  with 404, or with 422 when its body is refused first, and changes nothing.
\<close>

theorem unknown_devices_are_refused:
  assumes "validates_declared validate" "\<not> is_device_id d \<or> find_entry (call_time call) x d = Some None"
  shows "snd (handle validate call d r x) = x \<and> http_status (fst (handle validate call d r x)) \<in> {404, 422}"
proof -
  note unknown = with_known_control_unknown [OF assms(2)]
  have disp: "dispense_endpoint call d vals x = (HTTPException 404 (Detail ''Unknown device''), x)"
    if "request_values validate DispenseRequest (\<lambda>_. True) body = Some vals" for body vals
  proof -
    from dispense_values [OF assms(1) that] obtain n where "vals = [(''grainNum'', JInt n)]" by metis
    then show ?thesis by (simp add: dispense_endpoint_def known_control_def unknown)
  qed
  show ?thesis
    by (cases r) (auto simp: group_route_def with_body_def RequestValidationError_def http_status_def set_device_sound_def Let_def
        set_device_motion_detection_def set_group_endpoint_def create_schedule_endpoint_def update_schedule_endpoint_def
        delete_schedule_endpoint_def known_control_def unknown disp split: option.split)
qed

theorem unknown_devices_are_refused_witness:
  "snd (handle strict_validate (example_call '''') ''../AF03'' (DeleteSchedule 1) (demo_dashboard ''p'')) = demo_dashboard ''p''"
proof -
  have "\<not> is_device_id ''../AF03''" by code_simp
  with unknown_devices_are_refused [OF strict_validate_declared, of "''../AF03''" "example_call ''''" "demo_dashboard ''p''" "DeleteSchedule 1"]
  show ?thesis by blast
qed

section \<open>The log stream\<close>

fun event_ids :: "sse list \<Rightarrow> nat list" where
  "event_ids [] = []"
| "event_ids (Keepalive # es) = event_ids es"
| "event_ids (LogEvent i _ # es) = i # event_ids es"

lemma event_ids_append [simp]: "event_ids (xs @ ys) = event_ids xs @ event_ids ys"
  by (induction xs rule: event_ids.induct) auto

lemma event_ids_entries [simp]: "event_ids (map (\<lambda>e. LogEvent (ble_sequence e) (log_view e)) es) = map ble_sequence es"
  by (induction es) auto

text \<open>A reader that wakes after \<open>k\<close> lines in all, for each \<open>k\<close> of the list, never more than the capacity behind.\<close>

fun keeps_up :: "nat \<Rightarrow> nat \<Rightarrow> nat \<Rightarrow> nat list \<Rightarrow> bool" where
  "keeps_up n lines seen [] \<longleftrightarrow> True"
| "keeps_up n lines seen (k # ks) \<longleftrightarrow> seen \<le> k \<and> k \<le> lines \<and> k - seen \<le> n \<and> keeps_up n lines k ks"

lemma stream_round_logged:
  assumes "seen \<le> k" "k \<le> length rs" "k - seen \<le> n"
  shows "event_ids (fst (stream_round seen (logged n (take k rs)))) = [Suc seen..<Suc k]"
    "snd (stream_round seen (logged n (take k rs))) = k"
proof -
  have ids: "map ble_sequence (entries_after seen (logged n (take k rs))) = [Suc seen..<Suc k]"
    using reader_misses_nothing [of seen "take k rs" n] assms by simp
  show "event_ids (fst (stream_round seen (logged n (take k rs)))) = [Suc seen..<Suc k]"
  proof (cases "entries_after seen (logged n (take k rs))")
    case Nil
    then show ?thesis using ids by (simp add: stream_round_def)
  next
    case (Cons e es)
    then show ?thesis using ids unfolding stream_round_def by (simp del: list.map add: list.map [symmetric])
  qed
  show "snd (stream_round seen (logged n (take k rs))) = k"
  proof (cases "entries_after seen (logged n (take k rs)) = []")
    case True
    then have "[Suc seen..<Suc k] = []" using ids by (metis list.map_disc_iff)
    with True assms(1) show ?thesis by (auto simp: stream_round_def split: if_splits)
  next
    case False
    then have "ble_sequence (last (entries_after seen (logged n (take k rs)))) = last [Suc seen..<Suc k]"
      using ids by (metis last_map)
    moreover have "[Suc seen..<Suc k] \<noteq> []" using False ids by (metis list.map_disc_iff)
    ultimately have "ble_sequence (last (entries_after seen (logged n (take k rs)))) = k" by (auto split: if_splits)
    with False show ?thesis by (auto simp: stream_round_def split: list.split)
  qed
qed

text \<open>
  C37: The log stream sends every line exactly once and in order, as long as the client never falls more
  than the buffer's capacity behind: the event ids are consecutive from the position the client asked for.
\<close>

theorem log_stream_is_gapless:
  assumes "keeps_up n (length rs) seen ks"
  shows "event_ids (stream_logs seen (map (\<lambda>k. logged n (take k rs)) ks)) = [Suc seen..<Suc (last (seen # ks))]"
  using assms
proof (induction ks arbitrary: seen)
  case (Cons k ks)
  then have k: "seen \<le> k" "k \<le> length rs" "k - seen \<le> n" and IH: "event_ids (stream_logs k (map (\<lambda>k. logged n (take k rs)) ks)) =
      [Suc k..<Suc (last (k # ks))]" by simp_all
  have "keeps_up n (length rs) k ks" using Cons.prems by simp
  then have "k \<le> last (k # ks)"
  proof (induction ks arbitrary: k)
    case (Cons a ks)
    then have "k \<le> a" "a \<le> last (a # ks)" by simp_all
    then show ?case by simp
  qed simp
  then have "[Suc seen..<Suc (last (k # ks))] = [Suc seen..<Suc k] @ [Suc k..<Suc (last (k # ks))]"
    using k(1) upt_add_eq_append [of "Suc seen" "Suc k" "last (k # ks) - k"] by simp
  with IH stream_round_logged [OF k] show ?case by (simp add: case_prod_beta del: upt_Suc)
qed simp

theorem log_stream_is_gapless_witness:
  "\<exists>rs. event_ids (stream_logs 1 (map (\<lambda>k. logged 2 (take k rs)) [1, 3, 3, 4])) = [2, 3, 4]"
proof -
  let ?rs = "replicate 4 \<lparr>lrec_created = 0, lrec_level = ''INFO'', lrec_name = None, lrec_rendered = ''x'', lrec_device_id = None, lrec_cmd = None\<rparr>"
  have "keeps_up 2 (length ?rs) 1 [1, 3, 3, 4]" by simp
  from log_stream_is_gapless [OF this] show ?thesis by (intro exI [of _ ?rs]) (simp add: upt_rec)
qed

section \<open>Health\<close>

lemma sanitize_summary [simp]: "sanitize_view (summary_view s) = summary_view s"
proof -
  have "list_all (\<lambda>k. \<not> is_sensitive_key k) [''known'', ''bridged'', ''awaiting_enrollment'', ''local_online'', ''cloud_online'',
      ''cloud_degraded'', ''cloud_suspended'', ''queue_pending'', ''auto_enroll'']" by code_simp
  then show ?thesis by (simp add: summary_view_def sanitize_view.simps)
qed

text \<open>
  The health route answers 200 and healthy whenever the device list can be read, whatever the state of the
  cloud; its counts are those of the header.
\<close>

lemma healthz_ignores_cloud:
  assumes "device_rows now x = Some rows"
  defines "s \<equiv> summarize rows (cf_auto_enroll (db_config x))"
  shows "healthz now x = Http 200 (VDict [(''healthy'', VBool True), (''relay'', VBool True),
    (''local_mqtt'', VBool (rt_local_connected (db_telemetry x))), (''devices_known'', VNat (su_known s)),
    (''devices_local_online'', VNat (su_local_online s)), (''upstream_petlibro_online'', VNat (su_cloud_online s))])"
proof -
  have k: "list_all (\<lambda>k. \<not> is_sensitive_key k) [''relay'', ''local_mqtt'', ''devices'', ''queues'', ''local_responder'', ''connected'']" by code_simp
  then have m: "sanitize_view (local_mqtt_view x) = local_mqtt_view x" by (simp add: local_mqtt_view_def sanitize_view.simps)
  obtain relay queues responder where "status_view now x = Some (VDict [(''relay'', relay), (''local_mqtt'', local_mqtt_view x),
      (''devices'', summary_view s), (''queues'', queues), (''local_responder'', responder)])"
    using k by (simp add: status_view_def assms sanitize_view.simps(4) m Let_def)
  then show ?thesis
    by (simp add: healthz_def health_payload_def vget_def local_mqtt_view_def summary_view_def)
qed

section \<open>Requested settings reach the feeder\<close>

lemma read_kv_wf: "dict_wf t \<Longrightarrow> read_kv t d = Some m \<Longrightarrow> dict_wf m"
proof -
  assume wf: "dict_wf t" and r: "read_kv t d = Some m"
  let ?rows = "filter (\<lambda>e. fst (fst e) = d) t"
  from those_map_Some [OF r [unfolded read_kv_def]] have m: "m = map (the \<circ> decode_row) ?rows" "\<forall>e\<in>set ?rows. decode_row e \<noteq> None" by auto
  have "map fst m = map (snd \<circ> fst) ?rows"
    unfolding m(1) using m(2) by (fastforce simp: decode_row_def split: prod.splits)
  moreover have "distinct (map fst ?rows)" using wf by (simp add: dict_wf_def distinct_map_filter)
  then have "distinct (map (snd \<circ> fst) ?rows)"
    by (auto simp: distinct_map inj_on_def prod_eq_iff)
  ultimately show "dict_wf m" by (simp add: dict_wf_def)
qed

lemma effective_settings_wf: "shadow_wf s \<Longrightarrow> effective_settings s d = Inr m \<Longrightarrow> dict_wf m"
  by (auto simp: effective_settings_def shadow_wf_def get_desired_def split: option.splits intro: dict_wf_merge read_kv_wf)

text \<open>Fields the control service computes from others.\<close>

definition derived_fields :: "string list" where
  "derived_fields = map snd TIME_PAIRS @ map (\<lambda>(s, e, t). t) DURATIONS"

lemma populate_times_get:
  "populate_times off ps vals = Inr vals' \<Longrightarrow> dict_wf vals \<Longrightarrow>
    dict_wf vals' \<and> (k \<notin> snd ` set ps \<longrightarrow> dict_get vals' k = dict_get vals k)"
  by (induction off ps vals rule: populate_times.induct) (auto simp: bind_res_Inr split: option.splits)

lemma populate_durations_get:
  "populate_durations ps vals = Inr vals' \<Longrightarrow> dict_wf vals \<Longrightarrow>
    dict_wf vals' \<and> (k \<notin> (\<lambda>(s, e, t). t) ` set ps \<longrightarrow> dict_get vals' k = dict_get vals k)"
proof (induction ps arbitrary: vals)
  case (Cons p ps)
  obtain s e t where p: "p = (s, e, t)" by (cases p)
  from Cons.prems(1) p obtain vals1 where v1: "populate_durations ps vals1 = Inr vals'" "vals1 = vals \<or> (\<exists>v. vals1 = dict_set t v vals)"
    by (auto simp: bind_res_Inr split: option.splits)
  then have "dict_wf vals1" "k \<noteq> t \<longrightarrow> dict_get vals1 k = dict_get vals k" using Cons.prems(2) by auto
  with Cons.IH [OF v1(1)] show ?case by (auto simp: p)
qed simp

lemma group_values_get:
  assumes wf: "shadow_wf s" "dict_wf updates" and r: "group_values call s d g updates minimal = Inr vals"
  shows "dict_wf vals" "dict_get updates k = Some v \<Longrightarrow> k \<notin> set derived_fields \<Longrightarrow> dict_get vals k = Some v"
proof -
  from r obtain allowed base v1 where
    base: "(if minimal then Inr updates else bind_res (effective_settings s d) (\<lambda>s. Inr (filter (\<lambda>kv. fst kv \<in> set allowed) s))) = Inr base"
    and v1: "populate_times (call_wall_offset call) TIME_PAIRS (dict_merge base updates) = Inr v1" "populate_durations DURATIONS v1 = Inr vals"
    by (auto simp: group_values_def bind_res_Inr populate_time_fields_def populate_duration_fields_def split: if_splits option.splits)
  have "dict_wf base" using base wf by (auto simp: bind_res_Inr split: if_splits dest: effective_settings_wf)
  then have m: "dict_wf (dict_merge base updates)" by simp
  note t = populate_times_get [OF v1(1) m, of k] and u = populate_durations_get [OF v1(2), of k]
  show "dict_wf vals" using t u by simp
  assume k: "dict_get updates k = Some v" "k \<notin> set derived_fields"
  then have "dict_get v1 k = dict_get (dict_merge base updates) k" "dict_get vals k = dict_get v1 k"
    using t u by (auto simp: derived_fields_def)
  with k(1) show "dict_get vals k = Some v" by (simp add: dict_get_merge [OF wf(2)])
qed

text \<open>
  The settings routes: the model of the body, its own validator, the body, and the feeder's field that
  \<open>enabled\<close> stands for, on the two routes that have it.
\<close>

fun setting_request :: "control_request \<Rightarrow> (request_model \<times> (json_dict \<Rightarrow> bool) \<times> json \<times> string) option" where
  "setting_request (SetSound body) = Some (SoundRequest, \<lambda>_. True, body, ''soundSwitch'')"
| "setting_request (SetMotion body) = Some (MotionRequest, require_update, body, ''motionDetectionSwitch'')"
| "setting_request (SetSoundDetection body) = Some (SoundDetectionRequest, \<lambda>_. True, body, '''')"
| "setting_request (SetLight body) = Some (LightRequest, \<lambda>_. True, body, '''')"
| "setting_request (SetCamera body) = Some (CameraRequest, \<lambda>_. True, body, '''')"
| "setting_request (SetVideo body) = Some (VideoRequest, \<lambda>_. True, body, '''')"
| "setting_request (SetFeedingVideo body) = Some (FeedingVideoRequest, \<lambda>_. True, body, '''')"
| "setting_request (SetBowl body) = Some (BowlRequest, \<lambda>_. True, body, '''')"
| "setting_request _ = None"

definition SETTING_MODELS :: "request_model list" where
  "SETTING_MODELS = [MotionRequest, SoundDetectionRequest, SoundRequest, LightRequest, CameraRequest, VideoRequest, FeedingVideoRequest, BowlRequest]"

lemma setting_models_plain: "list_all (\<lambda>m. list_all (\<lambda>k. k \<notin> set derived_fields \<and> k \<noteq> ''msgId'') (map fst (rm_fields m))) SETTING_MODELS"
  by code_simp

lemma setting_models: "setting_request r = Some (m, own, body, f) \<Longrightarrow> m \<in> set SETTING_MODELS" "m \<in> set SETTING_MODELS \<Longrightarrow> m \<in> set all_models"
  by (cases r; auto simp: SETTING_MODELS_def) (auto simp: SETTING_MODELS_def all_models_def)

lemma enabled_is_bool: "m \<in> set SETTING_MODELS \<Longrightarrow> dict_get (rm_fields m) ''enabled'' \<in> {None, Some BoolField}"
proof -
  have "list_all (\<lambda>m. dict_get (rm_fields m) ''enabled'' \<in> {None, Some BoolField}) SETTING_MODELS" by code_simp
  then show "m \<in> set SETTING_MODELS \<Longrightarrow> dict_get (rm_fields m) ''enabled'' \<in> {None, Some BoolField}" by (simp add: list_all_iff)
qed

text \<open>A command carries the requested values, and \<open>enabled\<close> under the feeder's own name for it.\<close>

definition carries :: "string \<Rightarrow> json_dict \<Rightarrow> json_dict \<Rightarrow> bool" where
  "carries f vals command \<longleftrightarrow>
     (\<forall>k v. dict_get vals k = Some v \<longrightarrow> k = ''enabled'' \<or> (k = f \<and> dict_get vals ''enabled'' \<noteq> None) \<or> dict_get command k = Some v) \<and>
     (\<forall>v. dict_get vals ''enabled'' = Some v \<longrightarrow> dict_get command f = Some v)"

definition sends_one :: "string \<Rightarrow> json_dict \<Rightarrow> DeviceControlController \<Rightarrow> DeviceControlController \<Rightarrow> bool" where
  "sends_one d command c c' \<longleftrightarrow> dc_published c' = dc_published c @ [(d, SUPPORTED_PRODUCT_ID, json_dumps_compact (JObj command))]"

lemma set_group_sends:
  assumes wf: "shadow_wf (dc_shadow c)" "dict_wf updates" and ok: "\<not> isl (fst (set_group env call d g updates minimal c))"
  obtains command where "sends_one d command c (snd (set_group env call d g updates minimal c))"
    "\<And>k v. dict_get updates k = Some v \<Longrightarrow> k \<notin> set derived_fields \<Longrightarrow> k \<noteq> ''msgId'' \<Longrightarrow> dict_get command k = Some v"
proof (cases rule: set_group_cases [where call = call and c = c and d = d and g = g and updates = updates
      and minimal = minimal and env = env])
  case (1 e)
  with ok show ?thesis by simp
next
  case (2 vals payload)
  let ?command = "dict_set ''msgId'' (JStr (call_msg_id call)) payload"
  have "accepts env d c" "call_publish_ok call" using ok submit_result unfolding "2"(3) by simp_all
  then have "sends_one d ?command c (snd (set_group env call d g updates minimal c))"
    by (simp add: sends_one_def "2"(3) submit_published_exact control_message_def handed_over_def call_publish_ok_def)
  moreover have "dict_get ?command k = Some v" if "dict_get updates k = Some v" "k \<notin> set derived_fields" "k \<noteq> ''msgId''" for k v
    using group_values_get [OF wf "2"(1)] that by (simp add: "2"(2) dict_get_merge)
  ultimately show ?thesis using that by blast
qed

lemma switch_fields_plain: "f \<in> {''soundSwitch'', ''motionDetectionSwitch''} \<Longrightarrow> f \<notin> set derived_fields \<and> f \<noteq> ''msgId'' \<and> f \<noteq> ''enabled''"
proof -
  have "list_all (\<lambda>f. f \<notin> set derived_fields \<and> f \<noteq> ''msgId'' \<and> f \<noteq> ''enabled'') [''soundSwitch'', ''motionDetectionSwitch'']" by code_simp
  then show "f \<in> {''soundSwitch'', ''motionDetectionSwitch''} \<Longrightarrow> f \<notin> set derived_fields \<and> f \<noteq> ''msgId'' \<and> f \<noteq> ''enabled''" by auto
qed

text \<open>The two minimal switches publish the switch with the requested value.\<close>

lemma minimal_switch_sends:
  assumes wf: "shadow_wf (dc_shadow c)"
  shows "\<not> isl (fst (set_sound_switch env call d b c)) \<Longrightarrow>
      \<exists>command. sends_one d command c (snd (set_sound_switch env call d b c)) \<and> dict_get command ''soundSwitch'' = Some (JBool b)"
    "\<not> isl (fst (set_motion_detection_switch env call d b c)) \<Longrightarrow>
      \<exists>command. sends_one d command c (snd (set_motion_detection_switch env call d b c)) \<and> dict_get command ''motionDetectionSwitch'' = Some (JBool b)"
proof -
  have mapped: "isl (fst r') = isl (fst r) \<and> snd r' = snd r"
    if "r' = (case r of (Inl e, c1) \<Rightarrow> (Inl e, c1) | (Inr x, c1) \<Rightarrow> (Inr (f x), c1))"
    for r r' :: "(control_error + ControlResponse) \<times> DeviceControlController" and f
    using that by (auto split: prod.splits sum.splits)
  have sends: "\<exists>command. sends_one d command c (snd (set_group env call d g updates True c)) \<and> dict_get command f = Some (JBool b)"
    if "\<not> isl (fst (set_group env call d g updates True c))" "dict_wf updates" "dict_get updates f = Some (JBool b)"
      "f \<in> {''soundSwitch'', ''motionDetectionSwitch''}" for g updates f
    using set_group_sends [OF wf that(2,1)] switch_fields_plain [OF that(4)] that(3) by metis
  show "\<exists>command. sends_one d command c (snd (set_sound_switch env call d b c)) \<and> dict_get command ''soundSwitch'' = Some (JBool b)"
    if ok: "\<not> isl (fst (set_sound_switch env call d b c))"
  proof -
    from ok obtain aging where "isl (fst (set_sound_switch env call d b c)) = isl (fst (set_group env call d ''sound''
          [(''soundSwitch'', JBool b), (''soundAgingType'', aging)] True c)) \<and>
        snd (set_sound_switch env call d b c) = snd (set_group env call d ''sound'' [(''soundSwitch'', JBool b), (''soundAgingType'', aging)] True c)"
      using mapped unfolding set_sound_switch_def by (auto split: sum.splits option.splits if_splits)
    with ok sends [of "''sound''" "[(''soundSwitch'', JBool b), (''soundAgingType'', aging)]" "''soundSwitch''"] show ?thesis
      by (simp add: dict_wf_def)
  qed
  show "\<exists>command. sends_one d command c (snd (set_motion_detection_switch env call d b c)) \<and> dict_get command ''motionDetectionSwitch'' = Some (JBool b)"
    if ok: "\<not> isl (fst (set_motion_detection_switch env call d b c))"
    using ok sends [of "''motion''" "[(''motionDetectionSwitch'', JBool b)]" "''motionDetectionSwitch''"]
      mapped [OF set_motion_detection_switch_def [of env call d b c]] by (simp add: dict_wf_def)
qed

lemma switch_action_sends:
  assumes wf: "shadow_wf (dc_shadow c)" "dict_wf vals" and plain: "\<And>k v. dict_get vals k = Some v \<Longrightarrow> k \<notin> set derived_fields \<and> k \<noteq> ''msgId''"
    and bool: "\<And>v. dict_get vals ''enabled'' = Some v \<Longrightarrow> \<exists>b. v = JBool b" and f: "f \<in> {''soundSwitch'', ''motionDetectionSwitch''}"
    and switch: "\<And>b. \<not> isl (fst (switch b c)) \<Longrightarrow> \<exists>command. sends_one d command c (snd (switch b c)) \<and> dict_get command f = Some (JBool b)"
    and ok: "\<not> isl (fst (switch_action env call d g f switch vals c))"
  shows "\<exists>command. sends_one d command c (snd (switch_action env call d g f switch vals c)) \<and> carries f vals command"
proof (cases "dict_get vals ''enabled''")
  case None
  then have e: "switch_action env call d g f switch vals c = set_group env call d g (dict_pop ''enabled'' vals) False c"
    by (simp add: switch_action_def)
  obtain command where "sends_one d command c (snd (set_group env call d g (dict_pop ''enabled'' vals) False c))"
    "\<And>k v. dict_get (dict_pop ''enabled'' vals) k = Some v \<Longrightarrow> k \<notin> set derived_fields \<Longrightarrow> k \<noteq> ''msgId'' \<Longrightarrow> dict_get command k = Some v"
    using set_group_sends [OF wf(1) _ ok [unfolded e]] wf(2) by auto
  moreover from this(2) plain have "dict_get command k = Some v" if "dict_get vals k = Some v" "k \<noteq> ''enabled''" for k v
    using that plain [OF that(1)] by simp
  ultimately show ?thesis using None unfolding e carries_def by (intro exI [of _ command]) auto
next
  case (Some v)
  then obtain b where b: "dict_get vals ''enabled'' = Some (JBool b)" using bool by blast
  show ?thesis
  proof (cases "dict_pop ''enabled'' vals = []")
    case True
    then have only: "dict_get vals k = None" if "k \<noteq> ''enabled''" for k using that dict_get_pop [of "''enabled''" vals k] by simp
    have "switch_action env call d g f switch vals c = switch b c" using True b by (simp add: switch_action_def)
    with switch [of b] ok b only show ?thesis by (auto simp: carries_def)
  next
    case False
    let ?updates = "dict_set f (JBool b) (dict_pop ''enabled'' vals)"
    have e: "switch_action env call d g f switch vals c = set_group env call d g ?updates False c" using False b by (simp add: switch_action_def)
    obtain command where "sends_one d command c (snd (set_group env call d g ?updates False c))"
      "\<And>k v. dict_get ?updates k = Some v \<Longrightarrow> k \<notin> set derived_fields \<Longrightarrow> k \<noteq> ''msgId'' \<Longrightarrow> dict_get command k = Some v"
      using set_group_sends [OF wf(1) _ ok [unfolded e]] wf(2) by auto
    moreover from this(2) have "dict_get command k = Some v" if "dict_get vals k = Some v" "k \<noteq> ''enabled''" "k \<noteq> f" for k v
      using that plain [OF that(1)] by simp
    moreover from calculation(2) [of f] switch_fields_plain [OF f] have "dict_get command f = Some (JBool b)" by simp
    ultimately show ?thesis using b unfolding e carries_def by (intro exI [of _ command]) auto
  qed
qed

text \<open>A control route answers with 200 only when its operation succeeded.\<close>

lemma with_known_control_200:
  assumes "http_status (fst (with_known_control missing now d act x)) = 200"
  obtains c where "db_control x = Some c" "with_known_control missing now d act x = on_control act c x" "\<not> isl (fst (act (c\<lparr>dc_shadow := db_shadow x\<rparr>)))"
  using assms
  by (auto simp: with_known_control_def on_control_def run_control_status http_status_def [of ServerError]
      http_status_def [of "HTTPException _ _"] split: option.splits bool.splits prod.splits)

lemma with_known_control_sends:
  assumes "http_status (fst (with_known_control missing now d act x)) = 200"
    and "\<And>c. dc_shadow c = db_shadow x \<Longrightarrow> \<not> isl (fst (act c)) \<Longrightarrow> \<exists>command. sends_one d command c (snd (act c)) \<and> carries f vals command"
  shows "\<exists>command. published (snd (with_known_control missing now d act x)) = published x @ [(d, SUPPORTED_PRODUCT_ID, json_dumps_compact (JObj command))] \<and>
    carries f vals command"
proof -
  obtain c where c: "db_control x = Some c" "with_known_control missing now d act x = on_control act c x" "\<not> isl (fst (act (c\<lparr>dc_shadow := db_shadow x\<rparr>)))"
    by (rule with_known_control_200 [OF assms(1)])
  from assms(2) [OF _ c(3)] obtain command where "sends_one d command (c\<lparr>dc_shadow := db_shadow x\<rparr>) (snd (act (c\<lparr>dc_shadow := db_shadow x\<rparr>)))"
    "carries f vals command" by auto
  then show ?thesis by (intro exI [of _ command]) (simp add: c(1,2) on_control_def published_def case_prod_beta sends_one_def)
qed

lemma with_body_200: "http_status (fst (with_body b handler x)) = 200 \<Longrightarrow> \<exists>vals. b = Some vals"
  by (cases b) (simp_all add: with_body_def RequestValidationError_def http_status_def)

lemma group_endpoint_sends:
  assumes wf: "shadow_wf (db_shadow x)" "dict_wf vals" and plain: "\<And>k v. dict_get vals k = Some v \<Longrightarrow> k \<notin> set derived_fields \<and> k \<noteq> ''msgId''"
    and "dict_get vals ''enabled'' = None" and ok: "http_status (fst (set_group_endpoint call d g vals x)) = 200"
  shows "\<exists>command. published (snd (set_group_endpoint call d g vals x)) = published x @ [(d, SUPPORTED_PRODUCT_ID, json_dumps_compact (JObj command))] \<and>
    carries '''' vals command"
proof -
  let ?act = "set_group (control_env (call_time call) x) call d g vals False"
  have e: "set_group_endpoint call d g vals x = with_known_control ''Local control is unavailable'' (call_time call) d ?act x"
    using ok by (auto simp: set_group_endpoint_def known_control_def http_status_def split: if_splits)
  show ?thesis unfolding e
  proof (rule with_known_control_sends)
    show "http_status (fst (with_known_control ''Local control is unavailable'' (call_time call) d ?act x)) = 200" using ok e by simp
    fix c assume c: "dc_shadow c = db_shadow x" "\<not> isl (fst (?act c))"
    from set_group_sends [OF _ wf(2) c(2)] wf(1) c(1) obtain command where "sends_one d command c (snd (?act c))"
      "\<And>k v. dict_get vals k = Some v \<Longrightarrow> k \<notin> set derived_fields \<Longrightarrow> k \<noteq> ''msgId'' \<Longrightarrow> dict_get command k = Some v" by auto
    with plain assms(4) show "\<exists>command. sends_one d command c (snd (?act c)) \<and> carries '''' vals command" unfolding carries_def by auto
  qed
qed

lemma switch_endpoint_sends:
  assumes "shadow_wf (db_shadow x)" "dict_wf vals" "\<And>k v. dict_get vals k = Some v \<Longrightarrow> k \<notin> set derived_fields \<and> k \<noteq> ''msgId''"
    "\<And>v. dict_get vals ''enabled'' = Some v \<Longrightarrow> \<exists>b. v = JBool b"
  shows "http_status (fst (set_device_sound call d vals x)) = 200 \<Longrightarrow>
      \<exists>command. published (snd (set_device_sound call d vals x)) = published x @ [(d, SUPPORTED_PRODUCT_ID, json_dumps_compact (JObj command))] \<and>
        carries ''soundSwitch'' vals command"
    "http_status (fst (set_device_motion_detection call d vals x)) = 200 \<Longrightarrow>
      \<exists>command. published (snd (set_device_motion_detection call d vals x)) = published x @ [(d, SUPPORTED_PRODUCT_ID, json_dumps_compact (JObj command))] \<and>
        carries ''motionDetectionSwitch'' vals command"
  unfolding set_device_sound_def set_device_motion_detection_def Let_def
  by (erule with_known_control_sends, rule switch_action_sends; use assms minimal_switch_sends in simp)+

text \<open>
  C17: A settings request of any of the eight settings routes answered with 200 was published to its device
  as one command that carries every requested field with the requested value, and every requested value
  has its declared type. On the sound and motion routes \<open>enabled\<close> is carried as the feeder's switch, and
  wins over a value given for that switch itself.
\<close>

theorem requested_settings_reach_feeder:
  assumes "validates_declared validate" "setting_request r = Some (m, own, body, switch)" "shadow_wf (db_shadow x)"
    "http_status (fst (handle validate call d r x)) = 200"
  shows "\<exists>vals command. request_values validate m own body = Some vals \<and>
    published (snd (handle validate call d r x)) = published x @ [(d, SUPPORTED_PRODUCT_ID, json_dumps_compact (JObj command))] \<and>
    (\<forall>k v. dict_get vals k = Some v \<longrightarrow> (\<exists>t. dict_get (rm_fields m) k = Some t \<and> admits t v) \<and>
      (k = ''enabled'' \<or> (k = switch \<and> dict_get vals ''enabled'' \<noteq> None) \<or> dict_get command k = Some v)) \<and>
    (\<forall>v. dict_get vals ''enabled'' = Some v \<longrightarrow> dict_get command switch = Some v)"
proof -
  have m: "m \<in> set SETTING_MODELS" "m \<in> set all_models" using setting_models assms(2) by blast+
  have "\<exists>vals. request_values validate m own body = Some vals"
    using assms(2,4) by (cases r) (auto simp: group_route_def dest: with_body_200)
  then obtain vals where vals: "request_values validate m own body = Some vals" by blast
  note dv = declared_values [OF assms(1) m(2) vals]
  have typed: "\<exists>t. dict_get (rm_fields m) k = Some t \<and> admits t v" if "dict_get vals k = Some v" for k v
    by (rule dv(4) [OF map_of_SomeD [OF that]])
  have wf: "dict_wf vals"
    using dv(2) model_wf [OF m(2)] by (auto simp: dict_wf_def in_set_subseqs [symmetric] intro: subseqs_distinctD simp del: in_set_subseqs)
  have plain: "k \<notin> set derived_fields \<and> k \<noteq> ''msgId''" if "dict_get vals k = Some v" for k v
    using typed [OF that] setting_models_plain m(1) by (force simp: list_all_iff dest: map_of_SomeD)
  have bool: "\<exists>b. v = JBool b" if "dict_get vals ''enabled'' = Some v" for v
    using typed [OF that] enabled_is_bool [OF m(1)] admits_cases(2) by auto
  have none: "dict_get vals ''enabled'' = None" if "dict_get (rm_fields m) ''enabled'' = None"
    using typed [of "''enabled''"] that by (cases "dict_get vals ''enabled''") auto
  have "\<exists>command. published (snd (handle validate call d r x)) = published x @ [(d, SUPPORTED_PRODUCT_ID, json_dumps_compact (JObj command))] \<and>
      carries switch vals command"
  proof (cases r)
    case (SetSound b)
    with assms(2,4) vals show ?thesis using switch_endpoint_sends(1) [OF assms(3) wf plain bool, where call = call and d = d] by (auto simp: with_body_def)
  next
    case (SetMotion b)
    with assms(2,4) vals show ?thesis using switch_endpoint_sends(2) [OF assms(3) wf plain bool, where call = call and d = d] by (auto simp: with_body_def)
  qed (use assms(2,4) vals none group_endpoint_sends [OF assms(3) wf plain, where call = call and d = d] in
    \<open>auto simp: group_route_def with_body_def SoundDetectionRequest_def LightRequest_def CameraRequest_def VideoRequest_def
      FeedingVideoRequest_def BowlRequest_def\<close>)
  with vals typed show ?thesis unfolding carries_def by blast
qed

text \<open>A bridged feeder that is present and acknowledges, with an empty shadow.\<close>

definition demo_api :: DashboardContext where
  "demo_api = (demo_dashboard ''p'')\<lparr>
     db_registry := \<lparr>dr_rows = [(''A'', \<lparr>rr_username = ''u'', rr_password = ''p'', rr_product_id = Some ''PLAF203'', rr_status = Some KNOWN,
         rr_enabled = Some True, rr_first_seen_at = 0, rr_last_seen_at = 0\<rparr>)],
       dr_state = [], dr_retention_seconds = DEFAULT_RETENTION_SECONDS, dr_auto_enroll = True\<rparr>,
     db_control := Some (init_controller open_shadow),
     db_devices := (db_devices (demo_dashboard ''p''))\<lparr>dm_contexts := [(''A'', demo_context)]\<rparr>,
     db_presence := session_opened 0 ''A'' None (init_tracker LOCAL_PRESENCE_GRACE_SECONDS)\<rparr>"

lemma open_shadow_reads [simp]:
  "get_reported open_shadow d = Some []" "dashboard_snapshot open_shadow d n \<noteq> None" "effective_settings open_shadow d = Inr []"
  by (simp_all add: open_shadow_def get_reported_def read_kv_def dashboard_snapshot_def timed_rows_def get_feeding_plans_def get_schedule_plans_def
      effective_settings_def get_desired_def get_local_confirmed_def Let_def)

lemma controls_view_defined: "db_shadow x = open_shadow \<Longrightarrow> controls_view now x d \<noteq> None"
proof -
  assume s: "db_shadow x = open_shadow"
  have "those (map (\<lambda>name. map_option (\<lambda>v. (name, capability_view v)) (to_option (capability (control_env now x) d name (c\<lparr>dc_shadow := open_shadow\<rparr>))))
      (map fst CONTROL_CAPABILITIES)) \<noteq> None" for c
    by (simp add: capability_def CONTROL_CAPABILITIES_def Let_def to_option_def)
  then show ?thesis by (cases "db_control x") (auto simp: controls_view_def s bind_eq_Some_conv)
qed

lemma known_with_open_shadow:
  assumes "db_shadow x = open_shadow" "is_device_id d" "find_entry now x d = Some (Some e)"
  shows "known_device now x d = Some True"
proof -
  obtain snap snap' controls where "dashboard_snapshot open_shadow d 1 = Some snap" "dashboard_snapshot open_shadow d 100 = Some snap'"
      "controls_view now x d = Some controls" using controls_view_defined [OF assms(1)] open_shadow_reads(2) by blast
  then show ?thesis
    by (auto simp: known_device_def assms device_detail_def device_row_def state_view_def ntp_view_def Let_def)
qed

lemma demo_api_simps [simp]:
  "db_shadow demo_api = open_shadow" "published demo_api = []" "db_control demo_api = Some (init_controller open_shadow)"
  "control_env 5 demo_api = example_env" "find_entry 5 demo_api ''A'' \<noteq> Some None" "find_entry 5 demo_api ''A'' \<noteq> None"
proof -
  show "control_env 5 demo_api = example_env"
    by (auto simp: control_env_def example_env_def demo_api_def get_by_device_id_def demo_context_def init_context_def dx_product_id_def
        is_online_def presence_state_def session_opened_def init_tracker_def Let_def fun_eq_iff)
qed (simp_all add: demo_api_def demo_dashboard_def published_def init_controller_def find_entry_def entries_def registry_entry_def cutoff_def
    DEFAULT_RETENTION_SECONDS_def)

lemma demo_known: "known_device 5 demo_api ''A'' = Some True"
proof -
  obtain e where "find_entry 5 demo_api ''A'' = Some (Some e)" using demo_api_simps(5,6) by (cases "find_entry 5 demo_api ''A''") auto
  moreover have "is_device_id ''A''" by code_simp
  ultimately show ?thesis by (intro known_with_open_shadow) simp_all
qed

lemma demo_call [simp]: "call_time (example_call cmd) = 5" "call_publish_ok (example_call cmd)" "call_msg_id (example_call cmd) = ''m''"
  by (simp_all add: example_call_def call_publish_ok_def)

lemma demo_accepts: "accepts example_env ''A'' ((init_controller open_shadow)\<lparr>dc_shadow := open_shadow\<rparr>)"
  by (simp add: accepts_def example_env_def init_controller_def SUPPORTED_PRODUCT_ID_def)

theorem requested_settings_reach_feeder_witness:
  "\<exists>command. published (snd (handle strict_validate (example_call cmd_ATTR_SET_SERVICE) ''A'' (SetMotion (JObj [(''enabled'', JBool True)])) demo_api)) =
      [(''A'', SUPPORTED_PRODUCT_ID, json_dumps_compact (JObj command))] \<and>
    dict_get command ''motionDetectionSwitch'' = Some (JBool True)"
proof -
  let ?call = "example_call cmd_ATTR_SET_SERVICE" and ?body = "JObj [(''enabled'', JBool True)]"
  have vals: "request_values strict_validate MotionRequest require_update ?body = Some [(''enabled'', JBool True)]" by code_simp
  let ?c = "(init_controller open_shadow)\<lparr>dc_shadow := open_shadow\<rparr>"
  have "group_values ?call open_shadow ''A'' ''motion'' [(''motionDetectionSwitch'', JBool True)] True = Inr [(''motionDetectionSwitch'', JBool True)]"
    by (simp add: group_values_def GROUP_FIELDS_def populate_time_fields_def TIME_PAIRS_def populate_duration_fields_def DURATIONS_def str_field_def)
  moreover have "is_ascii cmd_ATTR_SET_SERVICE" by code_simp
  ultimately have "\<not> isl (fst (set_group example_env ?call ''A'' ''motion'' [(''motionDetectionSwitch'', JBool True)] True ?c))"
    by (simp add: set_group_def submit_result example_ack demo_accepts)
  then have "\<not> isl (fst (set_motion_detection_switch example_env ?call ''A'' True ?c))"
    by (auto simp: set_motion_detection_switch_def split: prod.splits sum.splits)
  then have "http_status (fst (handle strict_validate ?call ''A'' (SetMotion ?body) demo_api)) = 200"
    by (simp add: with_body_def vals set_device_motion_detection_def with_known_control_def demo_known switch_action_def on_control_def
        run_control_status case_prod_beta)
  from requested_settings_reach_feeder [OF strict_validate_declared _ _ this] show ?thesis
    by (auto simp: vals shadow_wf_open(1))
qed

section \<open>Portions\<close>

text \<open>
  C16: Whatever is requested of any control route, and whatever the framework lets through, a message
  published by it that is a feeding command asks for an integer number of portions between 1 and 48.
\<close>

theorem manual_feeds_in_bounds:
  "\<exists>sent. published (snd (handle validate call d r x)) = published x @ sent \<and>
    (\<forall>m\<in>set sent. \<exists>body. snd (snd m) = json_dumps_compact (JObj body) \<and>
      (dict_get body ''cmd'' = Some (JStr ''MANUAL_FEEDING_SERVICE'') \<longrightarrow>
        (\<exists>n. dict_get body ''grainNum'' = Some (JInt n) \<and> 1 \<le> n \<and> n \<le> 48)))"
  using handle_ok [of call d x validate r] unfolding route_ok_def feeds_in_bounds_def by blast

theorem manual_feeds_in_bounds_witness:
  "\<exists>sent. published (snd (handle strict_validate (example_call '''') ''A'' (Dispense (JObj [(''grainNum'', JInt 3)])) demo_api)) = sent \<and> length sent = 1 \<and>
    (\<forall>m\<in>set sent. \<exists>body. snd (snd m) = json_dumps_compact (JObj body) \<and>
      (dict_get body ''cmd'' = Some (JStr ''MANUAL_FEEDING_SERVICE'') \<longrightarrow>
        (\<exists>n. dict_get body ''grainNum'' = Some (JInt n) \<and> 1 \<le> n \<and> n \<le> 48)))"
proof -
  let ?r = "handle strict_validate (example_call '''') ''A'' (Dispense (JObj [(''grainNum'', JInt 3)])) demo_api"
  have "request_values strict_validate DispenseRequest (\<lambda>_. True) (JObj [(''grainNum'', JInt 3)]) = Some [(''grainNum'', JInt 3)]" by code_simp
  then have "length (published (snd ?r)) = 1"
    by (simp add: with_body_def dispense_endpoint_def known_control_def with_known_control_def demo_known on_control_def dispense_def
        MIN_GRAIN_NUM_def MAX_GRAIN_NUM_def case_prod_beta published_def submit_published_exact demo_accepts handed_over_def)
      (simp add: init_controller_def example_call_def)
  with manual_feeds_in_bounds [of strict_validate "example_call ''''" "''A''" "Dispense (JObj [(''grainNum'', JInt 3)])" demo_api]
  show ?thesis by auto
qed

end
