(* ===== verification/Schedule_Resync.thy ===== *)
theory Schedule_Resync
  imports Device_Control Device_Presence
begin

text \<open>
  \<^verbatim>\<open>schedule_resync.py\<close>: one delayed restoration of the stored schedule per local connection of a feeder.
  A timer is its identity and the device and generation it was started for; \<open>Timer.cancel\<close> removes it
  from the timers that can still fire, but a timer that is already running its callback cannot be
  cancelled, so firing is allowed for every timer ever started. The callback is split at its lock:
  \<open>resync_check\<close> decides, and the controller call follows.

  The lemmas show that the timers started for a device are the generations reported for it without
  immediate repetitions, that a newly reported generation has a running timer, and that the schedule is
  only sent while that generation is the current one and its session is open. The reports come from the
  supervisor and from the threads of the proxy, which read the generation and report it without a common
  lock; when they overtake each other a generation is restored twice.
\<close>

definition SCHEDULE_RESYNC_DEBOUNCE_SECONDS :: seconds where [relay_defs]: "SCHEDULE_RESYNC_DEBOUNCE_SECONDS = 3 / 2"

record resync_timer =
  rt_id :: nat
  rt_device :: string
  rt_generation :: nat

record ScheduleResyncCoordinator =
  rs_generations :: "(string, nat) dict"
  rs_timers :: "(string, resync_timer) dict"
  rs_started :: "resync_timer list"
  rs_cancelled :: "resync_timer list"

definition init_coordinator :: ScheduleResyncCoordinator where
  "init_coordinator = \<lparr>rs_generations = [], rs_timers = [], rs_started = [], rs_cancelled = []\<rparr>"

definition device_online :: "string \<Rightarrow> nat \<Rightarrow> ScheduleResyncCoordinator \<Rightarrow> ScheduleResyncCoordinator" where
  "device_online device_id generation c =
     (if dict_get (rs_generations c) device_id = Some generation then c
      else
        let previous = dict_get (rs_timers c) device_id;
            cancelled = (case previous of None \<Rightarrow> rs_cancelled c | Some t \<Rightarrow> rs_cancelled c @ [t]);
            timer = \<lparr>rt_id = length (rs_started c), rt_device = device_id, rt_generation = generation\<rparr>
        in c\<lparr>rs_generations := dict_set device_id generation (rs_generations c),
             rs_timers := dict_set device_id timer (dict_pop device_id (rs_timers c)),
             rs_started := rs_started c @ [timer], rs_cancelled := cancelled\<rparr>)"

definition stop_coordinator :: "ScheduleResyncCoordinator \<Rightarrow> ScheduleResyncCoordinator" where
  "stop_coordinator c = c\<lparr>rs_cancelled := rs_cancelled c @ map snd (rs_timers c), rs_timers := []\<rparr>"

text \<open>The callback up to the controller call: whether the schedule is to be sent.\<close>

definition resync_check :: "DevicePresenceTracker \<Rightarrow> string \<Rightarrow> nat \<Rightarrow> ScheduleResyncCoordinator \<Rightarrow> bool \<times> ScheduleResyncCoordinator" where
  "resync_check presence device_id generation c =
     (if dict_get (rs_generations c) device_id \<noteq> Some generation then (False, c)
      else
        ((case presence_record device_id presence of
            None \<Rightarrow> False
          | Some rec \<Rightarrow> pr_connected rec \<and> pr_connection_generation rec = generation),
         c\<lparr>rs_timers := dict_pop device_id (rs_timers c)\<rparr>))"

datatype resync_outcome = ResyncSkipped | ResyncSent "ScheduleResyncResult option" | ResyncTimeout | ResyncFailed control_error | ResyncRaised

definition resync_if_still_current :: "ControlEnv \<Rightarrow> ControlCall \<Rightarrow> DevicePresenceTracker \<Rightarrow> string \<Rightarrow> nat
    \<Rightarrow> ScheduleResyncCoordinator \<times> DeviceControlController \<Rightarrow> resync_outcome \<times> ScheduleResyncCoordinator \<times> DeviceControlController" where
  "resync_if_still_current env call presence device_id generation cc = (case cc of (c, ctl) \<Rightarrow>
     (let (go, c1) = resync_check presence device_id generation c
      in if \<not> go then (ResyncSkipped, c1, ctl)
         else (case resync_persisted_schedules env call device_id ctl of (res, ctl1) \<Rightarrow>
           ((case res of
               Inr r \<Rightarrow> ResyncSent r
             | Inl ControlAckTimeoutError \<Rightarrow> ResyncTimeout
             | Inl (UncaughtError _) \<Rightarrow> ResyncRaised
             | Inl e \<Rightarrow> ResyncFailed e), c1, ctl1))))"

section \<open>One timer per connection\<close>

datatype resync_op = Online string nat | Fire DevicePresenceTracker string nat | Stop

fun resync_step :: "resync_op \<Rightarrow> ScheduleResyncCoordinator \<Rightarrow> ScheduleResyncCoordinator" where
  "resync_step (Online d g) c = device_online d g c"
| "resync_step (Fire presence d g) c = snd (resync_check presence d g c)"
| "resync_step Stop c = stop_coordinator c"

text \<open>The generations reported for a device, in the order in which the reports took the lock.\<close>

definition generations_of :: "string \<Rightarrow> resync_op list \<Rightarrow> nat list" where
  "generations_of d ops = List.map_filter (\<lambda>x. case x of Online d' g \<Rightarrow> if d' = d then Some g else None | _ \<Rightarrow> None) ops"

definition timers_of :: "string \<Rightarrow> ScheduleResyncCoordinator \<Rightarrow> nat list" where
  "timers_of d c = map rt_generation (filter (\<lambda>t. rt_device t = d) (rs_started c))"

lemma generations_snoc [simp]:
  "generations_of d [] = []"
  "generations_of d (ops @ [Online d' g]) = (if d' = d then generations_of d ops @ [g] else generations_of d ops)"
  "generations_of d (ops @ [Fire p d' g]) = generations_of d ops" "generations_of d (ops @ [Stop]) = generations_of d ops"
  by (simp_all add: generations_of_def map_filter_def)

lemma check_keep [simp]:
  "rs_started (snd (resync_check p d g c)) = rs_started c" "rs_generations (snd (resync_check p d g c)) = rs_generations c"
  by (simp_all add: resync_check_def)

lemma timers_step:
  "timers_of d (device_online d' g c) =
     (if d' = d \<and> dict_get (rs_generations c) d \<noteq> Some g then timers_of d c @ [g] else timers_of d c)"
  by (auto simp: device_online_def timers_of_def Let_def)

text \<open>The timers started for a device are the distinct generations announced for it, in order.\<close>

lemma resync_run:
  "timers_of d (fold resync_step ops init_coordinator) = remdups_adj (generations_of d ops) \<and>
   dict_get (rs_generations (fold resync_step ops init_coordinator)) d =
     (if generations_of d ops = [] then None else Some (last (generations_of d ops)))"
proof (induction ops rule: rev_induct)
  case Nil
  then show ?case by (simp add: timers_of_def init_coordinator_def)
next
  case (snoc x ops)
  show ?case
  proof (cases x)
    case (Online d' g)
    show ?thesis
    proof (cases "d' = d")
      case True
      have "remdups_adj (generations_of d ops @ [g]) =
          (if generations_of d ops \<noteq> [] \<and> last (generations_of d ops) = g then remdups_adj (generations_of d ops)
           else remdups_adj (generations_of d ops) @ [g])"
        by (cases "generations_of d ops" rule: rev_cases) (auto simp: remdups_adj_append_two)
      with True Online snoc.IH show ?thesis by (auto simp: timers_step) (auto simp: device_online_def Let_def)
    next
      case False
      with Online snoc.IH show ?thesis by (auto simp: timers_step) (auto simp: device_online_def Let_def)
    qed
  next
    case (Fire p d' g)
    with snoc.IH show ?thesis by (simp add: timers_of_def)
  next
    case Stop
    with snoc.IH show ?thesis by (simp add: timers_of_def stop_coordinator_def)
  qed
qed

lemma distinct_remdups_adj_sorted: "sorted xs \<Longrightarrow> distinct (remdups_adj xs)"
  by (induction xs rule: remdups_adj.induct) auto

text \<open>The schedule is sent only for the current generation of a device whose session is open.\<close>

lemma resync_published:
  assumes "\<not> accepts env d c"
  shows "dc_published (snd (resync_persisted_schedules env call d c)) = dc_published c"
proof (cases "persisted_schedule_plans (dc_shadow c) d")
  case (Inr plans)
  obtain res c1 where r: "submit env call d cmd_FEEDING_PLAN_SERVICE ''schedule:resync'' [(''plans'', JList (map JObj plans))]
      (schedule_payload call plans) c = (res, c1)" by (rule prod.exhaust)
  have "dc_published c1 = dc_published c"
    using submit_published_exact [where env = env and call = call and d = d and c = c and cmd = cmd_FEEDING_PLAN_SERVICE
        and cn = "''schedule:resync''" and vals = "[(''plans'', JList (map JObj plans))]" and payload = "schedule_payload call plans"]
      r assms by simp
  with Inr r show ?thesis by (cases res) (simp_all add: resync_persisted_schedules_def)
qed (simp add: resync_persisted_schedules_def)

lemma resync_sends_only_current:
  assumes "resync_if_still_current env call presence d g (c, ctl) = (out, c', ctl')" "dc_published ctl' \<noteq> dc_published ctl"
  shows "dict_get (rs_generations c) d = Some g \<and>
    (\<exists>rec. presence_record d presence = Some rec \<and> pr_connected rec \<and> pr_connection_generation rec = g) \<and> env_online env d"
proof -
  have go: "fst (resync_check presence d g c)" using assms by (auto simp: resync_if_still_current_def case_prod_beta Let_def split: if_splits)
  then have "ctl' = snd (resync_persisted_schedules env call d ctl)"
    using assms(1) by (auto simp: resync_if_still_current_def case_prod_beta Let_def)
  with assms(2) resync_published have "accepts env d ctl" by metis
  with go show ?thesis by (auto simp: resync_check_def accepts_def split: if_splits option.splits)
qed

section \<open>The running timer\<close>

text \<open>The table holds, for its devices, timers that were started and not cancelled; identities are never reused.\<close>

definition coordinator_inv :: "ScheduleResyncCoordinator \<Rightarrow> bool" where
  "coordinator_inv c \<longleftrightarrow>
     (\<forall>d t. dict_get (rs_timers c) d = Some t \<longrightarrow> rt_device t = d \<and> t \<in> set (rs_started c) \<and> t \<notin> set (rs_cancelled c)) \<and>
     (\<forall>t\<in>set (rs_started c) \<union> set (rs_cancelled c). rt_id t < length (rs_started c))"

definition resync_pending :: "string \<Rightarrow> nat \<Rightarrow> ScheduleResyncCoordinator \<Rightarrow> bool" where
  "resync_pending d g c \<longleftrightarrow> dict_get (rs_generations c) d = Some g \<and>
     (\<exists>t. dict_get (rs_timers c) d = Some t \<and> t \<in> set (rs_started c) \<and> t \<notin> set (rs_cancelled c) \<and> rt_device t = d \<and> rt_generation t = g)"

lemma coordinator_inv_init: "coordinator_inv init_coordinator"
  by (simp add: coordinator_inv_def init_coordinator_def)

lemma device_online_upd:
  "dict_get (rs_generations (device_online d g c)) e = (if e = d then Some g else dict_get (rs_generations c) e)"
  by (auto simp: device_online_def Let_def)

lemma device_online_new:
  assumes "dict_get (rs_generations c) d \<noteq> Some g"
  shows "dict_get (rs_timers (device_online d g c)) e =
      (if e = d then Some \<lparr>rt_id = length (rs_started c), rt_device = d, rt_generation = g\<rparr> else dict_get (rs_timers c) e)"
    "rs_started (device_online d g c) = rs_started c @ [\<lparr>rt_id = length (rs_started c), rt_device = d, rt_generation = g\<rparr>]"
    "set (rs_cancelled (device_online d g c)) = set (rs_cancelled c) \<union> set_option (dict_get (rs_timers c) d)"
  using assms by (auto simp: device_online_def Let_def split: option.split)

lemma coordinator_invD:
  assumes "coordinator_inv c"
  shows "dict_get (rs_timers c) d = Some t \<Longrightarrow> rt_device t = d" "dict_get (rs_timers c) d = Some t \<Longrightarrow> t \<in> set (rs_started c)"
    "dict_get (rs_timers c) d = Some t \<Longrightarrow> t \<notin> set (rs_cancelled c)"
    "t \<in> set (rs_started c) \<Longrightarrow> rt_id t < length (rs_started c)" "t \<in> set (rs_cancelled c) \<Longrightarrow> rt_id t < length (rs_started c)"
  using assms by (simp_all add: coordinator_inv_def)

lemma coordinator_inv_online:
  assumes "coordinator_inv c"
  shows "coordinator_inv (device_online d g c)"
proof (cases "dict_get (rs_generations c) d = Some g")
  case True
  with assms show ?thesis by (simp add: device_online_def)
next
  case False
  let ?new = "\<lparr>rt_id = length (rs_started c), rt_device = d, rt_generation = g\<rparr>" and ?c = "device_online d g c"
  note inv = coordinator_invD [OF assms] and upd = device_online_new [OF False]
  have fresh: "t \<noteq> ?new" if "t \<in> set (rs_started c) \<or> t \<in> set (rs_cancelled c)" for t using that inv(4,5) by fastforce
  have ids: "rt_id t < length (rs_started c)" if "t \<in> set (rs_cancelled ?c)" for t using that inv(2,4,5) by (auto simp: upd)
  have "rt_device t = e \<and> t \<in> set (rs_started ?c) \<and> t \<notin> set (rs_cancelled ?c)" if t: "dict_get (rs_timers ?c) e = Some t" for e t
  proof (cases "e = d")
    case True
    with t have "t = ?new" by (simp add: upd(1))
    with True ids [of ?new] show ?thesis by (auto simp: upd(2))
  next
    case other: False
    with t have e: "dict_get (rs_timers c) e = Some t" by (simp add: upd)
    from inv(1) [OF e] inv(1) [of d t] other have "t \<notin> set_option (dict_get (rs_timers c) d)" by auto
    with e inv(1-3) show ?thesis by (auto simp: upd)
  qed
  moreover have "rt_id t < length (rs_started ?c)" if "t \<in> set (rs_started ?c) \<union> set (rs_cancelled ?c)" for t
    using that ids inv(4) by (auto simp: upd(2) less_Suc_eq)
  ultimately show ?thesis unfolding coordinator_inv_def by blast
qed

lemma coordinator_inv_check: "coordinator_inv c \<Longrightarrow> coordinator_inv (snd (resync_check presence d g c))"
  by (simp add: coordinator_inv_def resync_check_def)

text \<open>Reporting a new generation starts its timer, and later reports of it or of other devices leave that timer alone.\<close>

lemma device_online_starts:
  assumes "coordinator_inv c" "dict_get (rs_generations c) d \<noteq> Some g"
  shows "resync_pending d g (device_online d g c)"
proof -
  have t: "dict_get (rs_timers (device_online d g c)) d = Some \<lparr>rt_id = length (rs_started c), rt_device = d, rt_generation = g\<rparr>"
    by (simp add: device_online_new [OF assms(2)])
  from coordinator_invD(1-3) [OF coordinator_inv_online [OF assms(1)] t] t show ?thesis
    by (simp add: resync_pending_def device_online_upd)
qed

lemma pending_online:
  assumes "coordinator_inv c" "resync_pending d g c" "e = d \<longrightarrow> h = g"
  shows "resync_pending d g (device_online e h c)"
proof (cases "e = d")
  case True
  with assms(2,3) show ?thesis by (simp add: device_online_def resync_pending_def)
next
  case False
  then have "dict_get (rs_timers (device_online e h c)) d = dict_get (rs_timers c) d" by (simp add: device_online_def Let_def)
  moreover obtain t where t: "dict_get (rs_timers c) d = Some t" "rt_generation t = g" using assms(2) by (auto simp: resync_pending_def)
  ultimately have "dict_get (rs_timers (device_online e h c)) d = Some t" by simp
  from coordinator_invD(1-3) [OF coordinator_inv_online [OF assms(1)] this] this t(2) False assms(2) show ?thesis
    by (simp add: resync_pending_def device_online_upd)
qed

lemma online_calls_pending:
  assumes "coordinator_inv c" "\<forall>g'. (d, g') \<in> set calls \<longrightarrow> g' = g"
    "((d, g) \<in> set calls \<and> dict_get (rs_generations c) d \<noteq> Some g) \<or> resync_pending d g c"
  shows "resync_pending d g (fold (\<lambda>(d, g). device_online d g) calls c)"
  using assms
proof (induction calls arbitrary: c)
  case (Cons x calls)
  obtain e h where x: "x = (e, h)" by (cases x)
  have inv: "coordinator_inv (device_online e h c)" by (rule coordinator_inv_online [OF Cons.prems(1)])
  have "((d, g) \<in> set calls \<and> dict_get (rs_generations (device_online e h c)) d \<noteq> Some g) \<or> resync_pending d g (device_online e h c)"
  proof (cases "resync_pending d g c")
    case True
    then show ?thesis using pending_online [OF Cons.prems(1) True, of e h] Cons.prems(2) x by auto
  next
    case False
    then have new: "dict_get (rs_generations c) d \<noteq> Some g" using Cons.prems(3) by blast
    show ?thesis
    proof (cases "e = d")
      case True
      with Cons.prems(2) x have "h = g" by simp
      with True device_online_starts [OF Cons.prems(1) new] show ?thesis by simp
    next
      case other: False
      with False new Cons.prems(3) x show ?thesis by (simp add: device_online_upd)
    qed
  qed
  from Cons.IH [OF inv _ this] Cons.prems(2) x show ?case by simp
qed simp

lemma coordinator_inv_calls: "coordinator_inv c \<Longrightarrow> coordinator_inv (fold (\<lambda>(d, g). device_online d g) calls c)"
  by (induction calls arbitrary: c) (auto simp: coordinator_inv_online)

section \<open>Properties\<close>

text \<open>
  C34: Whatever is reported, fired and stopped, the timers started for a feeder are exactly the connection
  generations reported for it with immediate repetitions removed, so repeated reconciliations of one
  connection start one delayed restoration. If the generations are moreover reported in increasing order
  - no report of an older connection overtakes that of a newer one - then each reported generation starts
  exactly one restoration.
\<close>

theorem one_resync_per_connection:
  "timers_of d (fold resync_step ops init_coordinator) = remdups_adj (generations_of d ops) \<and>
   (sorted (generations_of d ops) \<longrightarrow>
     distinct (timers_of d (fold resync_step ops init_coordinator)) \<and>
     set (timers_of d (fold resync_step ops init_coordinator)) = set (generations_of d ops))"
  using resync_run [of d ops] by (simp add: distinct_remdups_adj_sorted)

theorem one_resync_per_connection_witness:
  "timers_of ''A'' (fold resync_step [Online ''A'' 1, Online ''B'' 1, Online ''A'' 1, Online ''A'' 2] init_coordinator) = [1, 2] \<and>
   distinct (timers_of ''A'' (fold resync_step [Online ''A'' 1, Online ''B'' 1, Online ''A'' 1, Online ''A'' 2] init_coordinator))"
proof
  show "timers_of ''A'' (fold resync_step [Online ''A'' 1, Online ''B'' 1, Online ''A'' 1, Online ''A'' 2] init_coordinator) = [1, 2]"
    by (simp add: device_online_def init_coordinator_def timers_of_def Let_def)
  have "sorted (generations_of ''A'' [Online ''A'' 1, Online ''B'' 1, Online ''A'' 1, Online ''A'' 2])"
    by (simp add: generations_of_def map_filter_def)
  with one_resync_per_connection [of "''A''" "[Online ''A'' 1, Online ''B'' 1, Online ''A'' 1, Online ''A'' 2]"]
  show "distinct (timers_of ''A'' (fold resync_step [Online ''A'' 1, Online ''B'' 1, Online ''A'' 1, Online ''A'' 2] init_coordinator))" by blast
qed

text \<open>
  The supervisor reads generation 1, the feeder reconnects and its proxy thread reports generation 2, and
  only then the supervisor reports 1: that cancels the timer of generation 2, and the next pass starts a
  second one.
\<close>

lemma overtaken_report_resyncs_twice:
  "timers_of ''A'' (fold resync_step [Online ''A'' 1, Online ''A'' 2, Online ''A'' 1, Online ''A'' 2] init_coordinator) = [1, 2, 1, 2]"
  by (simp add: device_online_def init_coordinator_def timers_of_def Let_def)

end
