(* ===== verification/Relay_Main.thy ===== *)
theory Relay_Main
  imports Mqtt_Bridge Schedule_Resync
begin

text \<open>
  \<^verbatim>\<open>__main__.py\<close>: the relay as a whole. The listener of the capture proxy (\<open>DeviceEnroller\<close>) marks a device
  present, bridges it if the registry allows and reconciles its cloud session; the manager's online
  callback is the schedule coordinator, told of every call the manager made. A run is a sequence of
  what can happen to the process: feeders connect, leave and publish, the cloud answers, the local broker
  comes and goes, resync timers fire, and the supervisor ticks. A connection is the proxy's recording of
  the identity followed by its listener call.

  The lemmas compose the components: a feeder nobody enrolled never gets a cloud session and nothing it
  sends is ever queued, and an enrolled one is bridged, connected to the cloud and scheduled for the
  restoration of its plans, with a running timer, by its own connection.
\<close>

section \<open>State\<close>

record Relay =
  rl_registry :: DeviceRegistry
  rl_presence :: DevicePresenceTracker
  rl_bridge :: MqttBridge
  rl_bridge_set :: bool
  rl_resync :: ScheduleResyncCoordinator

definition rl_manager :: "Relay \<Rightarrow> DeviceManager" where
  "rl_manager rl = br_manager (rl_bridge rl)"

text \<open>A manager operation, with the online calls it makes delivered to the coordinator.\<close>

definition with_manager :: "(DeviceManager \<Rightarrow> DeviceManager) \<Rightarrow> Relay \<Rightarrow> Relay" where
  "with_manager f rl =
     (let m = rl_manager rl; m1 = f m
      in rl\<lparr>rl_bridge := (rl_bridge rl)\<lparr>br_manager := m1\<rparr>,
            rl_resync := fold (\<lambda>(d, g). device_online d g) (drop (length (dm_online_calls m)) (dm_online_calls m1)) (rl_resync rl)\<rparr>)"

section \<open>The session listener\<close>

definition is_bridgeable :: "seconds \<Rightarrow> string \<Rightarrow> DeviceRegistry \<Rightarrow> bool" where
  "is_bridgeable now client_id registry \<longleftrightarrow> list_ex (\<lambda>i. di_client_id i = client_id) (get_bridgeable now registry)"

definition device_session_opened :: "seconds \<Rightarrow> DeviceIdentity \<Rightarrow> string \<Rightarrow> Relay \<Rightarrow> Relay" where
  "device_session_opened now identity peer_address rl =
     (let d = di_client_id identity;
          rl1 = rl\<lparr>rl_presence := session_opened now d (Some peer_address) (rl_presence rl)\<rparr>;
          rl2 = with_manager (record_camera_peer_address now d (Some peer_address)) rl1
      in if \<not> is_bridgeable now d (rl_registry rl2) then rl2
         else
           let rl3 = with_manager (\<lambda>m. sync_upstream_sessions now (rl_presence rl2) (ensure_device now (rl_presence rl2) identity m)) rl2
           in if rl_bridge_set rl3 then rl3\<lparr>rl_bridge := forget_unknown_device d (rl_bridge rl3)\<rparr> else rl3)"

definition device_session_closed :: "seconds \<Rightarrow> string \<Rightarrow> Relay \<Rightarrow> Relay" where
  "device_session_closed now client_id rl = rl\<lparr>rl_presence := session_closed now client_id (rl_presence rl)\<rparr>"

definition seed_manual_identity :: "seconds \<Rightarrow> (string \<times> string \<times> string) option \<Rightarrow> DeviceRegistry \<Rightarrow> DeviceRegistry" where
  "seed_manual_identity now manual registry = (case manual of
     None \<Rightarrow> registry
   | Some (client_id, username, password) \<Rightarrow>
       snd (record_identity now \<lparr>di_client_id = client_id, di_username = username, di_password = password, di_product_id = PRODUCT_ID\<rparr> registry))"

text \<open>What \<open>main\<close> builds before anything connects, and the start of the devices with the bridge attached.\<close>

definition build_relay :: "seconds \<Rightarrow> DeviceRegistry \<Rightarrow> (string \<times> string \<times> string) option \<Rightarrow> string list \<Rightarrow> DeviceManager \<Rightarrow> Relay" where
  "build_relay now registry manual kept manager =
     \<lparr>rl_registry = seed_manual_identity now manual (snd (purge_expired now registry)),
      rl_presence = init_tracker LOCAL_PRESENCE_GRACE_SECONDS,
      rl_bridge = set_sound_switch_controller (init_controller (sx_shadow (dm_stores manager)))
        (init_bridge kept (set_device_online_callback manager)),
      rl_bridge_set = False, rl_resync = init_coordinator\<rparr>"

definition start_relay :: "seconds \<Rightarrow> bool \<Rightarrow> Relay \<Rightarrow> Relay" where
  "start_relay now broker_reachable rl =
     (let rl1 = rl\<lparr>rl_bridge := prime_local_subscription broker_reachable (rl_bridge rl), rl_bridge_set := True\<rparr>
      in with_manager (start_manager now (rl_presence rl1) (rl_registry rl1)) rl1)"

section \<open>Runs\<close>

datatype cloud_event = CloudMessage bool nat string bytes int | CloudConnack nat "string option" "(bool \<times> int option) list"
  | CloudSuback nat int | CloudLost nat string string | CloudUnreachable nat

fun cloud_step :: "seconds \<Rightarrow> cloud_event \<Rightarrow> DeviceContext \<times> SharedStores \<Rightarrow> DeviceContext \<times> SharedStores" where
  "cloud_step now (CloudMessage cache_ok k topic payload qos) xs = snd (on_upstream_message now cache_ok k topic payload qos xs)"
| "cloud_step now (CloudConnack k failure results) xs = on_upstream_connect now k failure results xs"
| "cloud_step now (CloudSuback k mid) xs = on_upstream_subscribe k mid xs"
| "cloud_step now (CloudLost k reason flags) xs = on_upstream_disconnect now k reason flags xs"
| "cloud_step now (CloudUnreachable k) xs = on_upstream_connect_fail now k xs"

datatype relay_op =
    FeederConnects DeviceIdentity string
  | FeederLeaves string
  | FeederPublishes bool string zone string bytes int
  | CloudEvent string cloud_event
  | BrokerUp | BrokerDown | SupervisorTick | Start bool
  | TimerFires ControlEnv ControlCall string nat

text \<open>
  A message carries whether the write of the state cache succeeds. An exception in the handler of a cloud
  message leaves the changes made before it; one in the handler of a feeder's message ends the run.
\<close>

fun relay_step :: "seconds \<times> relay_op \<Rightarrow> Relay \<Rightarrow> Relay option" where
  "relay_step (now, FeederConnects identity peer) rl =
     Some (device_session_opened now identity peer (rl\<lparr>rl_registry := snd (record_identity now identity (rl_registry rl))\<rparr>))"
| "relay_step (now, FeederLeaves d) rl = Some (device_session_closed now d rl)"
| "relay_step (now, FeederPublishes cache_ok i zone topic payload qos) rl =
     map_option (\<lambda>b. rl\<lparr>rl_bridge := b\<rparr>) (on_local_message now cache_ok i zone (rl_presence rl) topic payload qos (rl_bridge rl))"
| "relay_step (now, CloudEvent d e) rl =
     Some (case get_by_device_id d (rl_manager rl) of
       None \<Rightarrow> rl
     | Some x \<Rightarrow> with_manager (\<lambda>m. put_context d (cloud_step now e (x, dm_stores m)) m) rl)"
| "relay_step (now, BrokerUp) rl = Some (rl\<lparr>rl_bridge := on_local_connect now (rl_bridge rl)\<rparr>)"
| "relay_step (now, BrokerDown) rl = Some (rl\<lparr>rl_bridge := on_local_disconnect now (rl_bridge rl)\<rparr>)"
| "relay_step (now, SupervisorTick) rl = Some (with_manager (sync_upstream_sessions now (rl_presence rl)) rl)"
| "relay_step (now, Start reachable) rl = Some (start_relay now reachable rl)"
| "relay_step (now, TimerFires env call d g) rl =
     Some (case br_controller (rl_bridge rl) of
       None \<Rightarrow> rl
     | Some ctl \<Rightarrow> (case resync_if_still_current env call (rl_presence rl) d g (rl_resync rl, ctl) of (_, c, ctl1) \<Rightarrow>
         rl\<lparr>rl_resync := c, rl_bridge := (rl_bridge rl)\<lparr>br_controller := Some ctl1\<rparr>\<rparr>))"

fun relay_run :: "(seconds \<times> relay_op) list \<Rightarrow> Relay \<Rightarrow> Relay option" where
  "relay_run [] rl = Some rl"
| "relay_run (x # xs) rl = Option.bind (relay_step x rl) (relay_run xs)"

section \<open>Devices nobody enrolled\<close>

text \<open>The device has no context, and its queues are what they were.\<close>

definition apart :: "string \<Rightarrow> MessageQueue \<Rightarrow> DeviceManager \<Rightarrow> bool" where
  "apart d q0 m \<longleftrightarrow> manager_inv m \<and> dict_get (dm_contexts m) d = None \<and> queue_inv (sx_queue (dm_stores m)) \<and>
     (\<forall>dir. select_rows (sx_queue (dm_stores m)) d dir = select_rows q0 d dir)"

lemma lifecycle_queue [simp]:
  "sx_queue (snd (snd (start_upstream now xs))) = sx_queue (snd xs)"
  "sx_queue (snd (snd (stop_upstream now reason xs))) = sx_queue (snd xs)"
  by (simp_all add: start_upstream_def stop_upstream_def Device_Context.emit_def case_prod_beta Let_def)

lemma sync_queue [simp]: "sx_queue (dm_stores (sync_upstream_sessions now presence m)) = sx_queue (dm_stores m)"
proof -
  have "sx_queue (dm_stores (sync_device now presence d m)) = sx_queue (dm_stores m)" for d m
    by (simp add: sync_device_def put_context_def Let_def split: option.split)
  then have "sx_queue (dm_stores (fold (sync_device now presence) ds m)) = sx_queue (dm_stores m)" for ds m
    by (induction ds arbitrary: m) simp_all
  then show ?thesis by (simp add: sync_upstream_sessions_def)
qed

lemma ensure_queue [simp]: "sx_queue (dm_stores (ensure_device now presence i m)) = sx_queue (dm_stores m)"
  by (simp add: ensure_device_def put_context_def Device_Context.emit_def case_prod_beta Let_def split: option.split)

lemma camera_keep [simp]:
  "dm_contexts (record_camera_peer_address now d peer m) = dm_contexts m"
  "sx_queue (dm_stores (record_camera_peer_address now d peer m)) = sx_queue (dm_stores m)"
  "dm_contexts (register_camera_uid now presence d uid m) = dm_contexts m"
  "sx_queue (dm_stores (register_camera_uid now presence d uid m)) = sx_queue (dm_stores m)"
  by (simp_all add: record_camera_peer_address_def register_camera_uid_def register_camera_def set_shadow_def Let_def split: option.split)

lemma apart_cong: "apart d q0 m \<Longrightarrow> dm_contexts m' = dm_contexts m \<Longrightarrow> sx_queue (dm_stores m') = sx_queue (dm_stores m) \<Longrightarrow> apart d q0 m'"
  by (simp add: apart_def manager_inv_def)

lemma apart_sync: "apart d q0 m \<Longrightarrow> apart d q0 (sync_upstream_sessions now presence m)"
proof -
  assume m: "apart d q0 m"
  have "manager_inv (sync_upstream_sessions now presence m)"
    using m manager_inv_sync [of m now presence "device_ids m"] by (simp add: apart_def sync_upstream_sessions_def)
  moreover have "dict_get (dm_contexts (sync_upstream_sessions now presence m)) d = None"
    using m fold_sync [where m = m and d = d and now = now and presence = presence and ds = "device_ids m"]
    by (simp add: apart_def sync_upstream_sessions_def)
  ultimately show ?thesis using m by (simp add: apart_def)
qed

lemma apart_ensure: "apart d q0 m \<Longrightarrow> di_client_id i \<noteq> d \<Longrightarrow> apart d q0 (ensure_device now presence i m)"
  by (simp add: apart_def manager_inv_ensure ensure_device_contexts(2))

lemma apart_ensure_all: "apart d q0 m \<Longrightarrow> d \<notin> di_client_id ` set is \<Longrightarrow> apart d q0 (fold (ensure_device now presence) is m)"
  by (induction "is" arbitrary: m) (auto simp: apart_ensure)

lemma apart_put:
  assumes "apart d q0 m" "dict_get (dm_contexts m) e = Some x" "dx_identity x1 = dx_identity x" "queue_inv (sx_queue s1)"
    "\<And>dir. select_rows (sx_queue s1) d dir = select_rows (sx_queue (dm_stores m)) d dir"
  shows "apart d q0 (put_context e (x1, s1) m)"
proof -
  have "e \<noteq> d" "dx_device_id x1 = e" using assms(1-3) by (auto simp: apart_def manager_inv_def dx_device_id_def)
  then show ?thesis using assms by (auto simp: apart_def manager_inv_def put_context_def)
qed

lemma queue_for_inv [simp]:
  "queue_inv q \<Longrightarrow> queue_inv (queue_for_cloud now x topic payload qos q)"
  "queue_inv q \<Longrightarrow> queue_inv (queue_for_device now x topic payload qos q)"
  by (simp_all add: queue_for_cloud_def queue_for_device_def Let_def queue_inv_enqueue)

lemma enqueue_identity [simp]: "dx_identity (fst (enqueue_message now dir topic payload qos c2d xs)) = dx_identity (fst xs)"
  by (simp add: enqueue_message_def case_prod_beta Let_def)

lemma cloud_message_effect:
  "dx_identity (fst (snd (on_upstream_message now ok k topic payload qos (x, s)))) = dx_identity x"
  "sx_queue (snd (snd (on_upstream_message now ok k topic payload qos (x, s)))) \<in> {sx_queue s, queue_for_device now x topic payload qos (sx_queue s)}"
proof -
  show "dx_identity (fst (snd (on_upstream_message now ok k topic payload qos (x, s)))) = dx_identity x"
    by (simp add: on_upstream_message_def note_message_def with_responder_def Let_def case_prod_beta split: option.split)
  have c: "queue_for_device now (observe_ntp payload ''cloud'' x) = queue_for_device now x"
    "queue_for_device now ((observe_ntp payload ''cloud'' x)\<lparr>dx_responder := r\<rparr>) = queue_for_device now x" for r
    by (rule queue_for_cong(2); simp)+
  show "sx_queue (snd (snd (on_upstream_message now ok k topic payload qos (x, s)))) \<in> {sx_queue s, queue_for_device now x topic payload qos (sx_queue s)}"
    by (auto simp: on_upstream_message_def note_message_def with_responder_def Let_def case_prod_beta enqueue_message_queue c split: option.split)
qed

lemma cloud_step_effect:
  "dx_identity (fst (cloud_step now e (x, s))) = dx_identity x"
  "\<exists>topic payload qos. sx_queue (snd (cloud_step now e (x, s))) \<in> {sx_queue s, queue_for_device now x topic payload qos (sx_queue s)}"
proof -
  show "dx_identity (fst (cloud_step now e (x, s))) = dx_identity x"
    by (cases e) (simp_all add: cloud_message_effect on_upstream_connect_def on_upstream_subscribe_def on_upstream_disconnect_def
        on_upstream_connect_fail_def case_prod_beta Let_def split: option.split)
  show "\<exists>topic payload qos. sx_queue (snd (cloud_step now e (x, s))) \<in> {sx_queue s, queue_for_device now x topic payload qos (sx_queue s)}"
  proof (cases e)
    case (CloudMessage ok k topic payload qos)
    then show ?thesis using cloud_message_effect(2) [of now ok k topic payload qos x s]
      by (intro exI [of _ topic] exI [of _ payload] exI [of _ qos]) simp
  qed (simp_all add: on_upstream_connect_def on_upstream_subscribe_def on_upstream_disconnect_def
        on_upstream_connect_fail_def case_prod_beta Let_def split: option.split)
qed

lemma apart_message:
  assumes "apart d q0 (br_manager b)" "on_local_message now ok i zone presence topic payload qos b = Some b'"
  shows "apart d q0 (br_manager b')"
  using assms(2)
proof (cases rule: on_local_message_cases)
  case ignored
  with assms(1) show ?thesis by simp
next
  case (routed e x a x' s' b1)
  let ?m = "br_manager b"
  have ed: "dx_device_id x = e" "e \<noteq> d" and q: "queue_inv (sx_queue (dm_stores ?m))"
    using assms(1) routed(1) by (auto simp: apart_def manager_inv_def)
  have "apart d q0 (put_context e (x', s') ?m)"
  proof (rule apart_put [OF assms(1) routed(1) handle_local_identity [OF routed(4)]])
    show "queue_inv (sx_queue s')" using handle_local_queue [OF routed(4)] q by auto
    show "select_rows (sx_queue s') d dir = select_rows (sx_queue (dm_stores ?m)) d dir" for dir
      using handle_local_queue [OF routed(4)] queue_for_other(1) [OF q, of d dir x] ed by auto
  qed
  moreover have "apart d q0 (fold (\<lambda>(d, uid). register_camera_uid now presence d uid) us m)" if "apart d q0 m" for us m
    using that
  proof (induction us arbitrary: m)
    case (Cons u us)
    have "apart d q0 (register_camera_uid now presence (fst u) (snd u) m)" by (rule apart_cong [OF Cons.prems]) simp_all
    from Cons.IH [OF this] show ?case by (simp add: case_prod_beta)
  qed simp
  ultimately have "apart d q0 (fold (\<lambda>(d, uid). register_camera_uid now presence d uid) (new_uids x x') (put_context e (x', s') ?m))"
    by blast
  then show ?thesis
    using routed(2,4,5) ed by (auto simp: route_to_context_def Let_def local_publish_def split: option.splits)
qed

definition unbridged :: "string \<Rightarrow> MessageQueue \<Rightarrow> Relay \<Rightarrow> bool" where
  "unbridged d q0 rl \<longleftrightarrow> apart d q0 (rl_manager rl) \<and> registry_inv (rl_registry rl) \<and> \<not> dr_auto_enroll (rl_registry rl) \<and>
     \<not> enrolled (rl_registry rl) d"

lemma with_manager_simps [simp]:
  "rl_manager (with_manager f rl) = f (rl_manager rl)" "rl_registry (with_manager f rl) = rl_registry rl"
  "rl_presence (with_manager f rl) = rl_presence rl" "rl_bridge_set (with_manager f rl) = rl_bridge_set rl"
  by (simp_all add: with_manager_def rl_manager_def Let_def)

lemma not_enrolled_not_bridgeable:
  assumes "registry_inv r" "\<not> enrolled r d"
  shows "d \<notin> di_client_id ` set (get_bridgeable now r)" "\<not> is_bridgeable now d r"
proof -
  show b: "d \<notin> di_client_id ` set (get_bridgeable now r)"
    using assms bridgeable_enrolled by blast
  then show "\<not> is_bridgeable now d r" by (force simp: is_bridgeable_def list_ex_iff)
qed

lemma unbridged_opened:
  assumes "unbridged d q0 rl"
  shows "unbridged d q0 (device_session_opened now i peer rl)"
proof -
  have camera: "apart d q0 (record_camera_peer_address now c (Some peer) (rl_manager rl))" for c
    using assms by (auto simp: unbridged_def intro: apart_cong)
  show ?thesis
  proof (cases "is_bridgeable now (di_client_id i) (rl_registry rl)")
    case False
    then have "device_session_opened now i peer rl =
        with_manager (record_camera_peer_address now (di_client_id i) (Some peer)) (rl\<lparr>rl_presence := session_opened now (di_client_id i) (Some peer) (rl_presence rl)\<rparr>)"
      by (simp add: device_session_opened_def Let_def)
    then have "rl_manager (device_session_opened now i peer rl) = record_camera_peer_address now (di_client_id i) (Some peer) (rl_manager rl)"
      "rl_registry (device_session_opened now i peer rl) = rl_registry rl"
      by (simp_all add: rl_manager_def with_manager_def Let_def)
    with assms camera show ?thesis by (simp add: unbridged_def)
  next
    case True
    with assms not_enrolled_not_bridgeable(2) [of "rl_registry rl" d now] have "di_client_id i \<noteq> d" by (auto simp: unbridged_def)
    with camera have "apart d q0 (rl_manager (device_session_opened now i peer rl))"
      using True by (auto simp: device_session_opened_def Let_def rl_manager_def forget_unknown_device_def with_manager_def
          intro!: apart_sync apart_ensure)
    with assms show ?thesis by (simp add: unbridged_def device_session_opened_def Let_def)
  qed
qed

lemma bridge_manager_keep [simp]:
  "dm_contexts (br_manager (on_local_connect now b)) = dm_contexts (br_manager b)"
  "sx_queue (dm_stores (br_manager (on_local_connect now b))) = sx_queue (dm_stores (br_manager b))"
  "dm_contexts (br_manager (on_local_disconnect now b)) = dm_contexts (br_manager b)"
  "sx_queue (dm_stores (br_manager (on_local_disconnect now b))) = sx_queue (dm_stores (br_manager b))"
  "br_manager (prime_local_subscription reachable b) = br_manager b"
  by (simp_all add: on_local_connect_def on_local_disconnect_def with_manager_telemetry_def subscribe_def prime_local_subscription_def)

lemma unbridged_step:
  assumes "unbridged d q0 rl" "relay_step x rl = Some rl'"
  shows "unbridged d q0 rl'"
proof -
  obtain now op where x: "x = (now, op)" by (cases x)
  have m: "apart d q0 (rl_manager rl)" and r: "registry_inv (rl_registry rl)" "\<not> dr_auto_enroll (rl_registry rl)" "\<not> enrolled (rl_registry rl) d"
    using assms(1) by (auto simp: unbridged_def)
  show ?thesis
  proof (cases op)
    case (FeederConnects i peer)
    have "unbridged d q0 (rl\<lparr>rl_registry := snd (record_identity now i (rl_registry rl))\<rparr>)"
      using m r registry_inv_record [OF r(1)] enrolled_record [OF r(2)] by (auto simp: unbridged_def rl_manager_def)
    with assms(2) x FeederConnects show ?thesis by (auto intro: unbridged_opened)
  next
    case (FeederLeaves c)
    with assms x show ?thesis by (auto simp: unbridged_def device_session_closed_def rl_manager_def)
  next
    case (FeederPublishes ok i zone topic payload qos)
    with assms x m r show ?thesis by (auto simp: unbridged_def rl_manager_def dest: apart_message)
  next
    case (CloudEvent e ev)
    show ?thesis
    proof (cases "get_by_device_id e (rl_manager rl)")
      case None
      with assms x CloudEvent show ?thesis by simp
    next
      case (Some y)
      let ?s = "dm_stores (rl_manager rl)"
      have y: "dict_get (dm_contexts (rl_manager rl)) e = Some y" using Some by (simp add: get_by_device_id_def)
      then have ed: "dx_device_id y = e" "e \<noteq> d" and q: "queue_inv (sx_queue ?s)" using m by (auto simp: apart_def manager_inv_def)
      obtain topic payload qos where "sx_queue (snd (cloud_step now ev (y, ?s))) \<in> {sx_queue ?s, queue_for_device now y topic payload qos (sx_queue ?s)}"
        using cloud_step_effect(2) by blast
      then have "queue_inv (sx_queue (snd (cloud_step now ev (y, ?s))))"
        "\<And>dir. select_rows (sx_queue (snd (cloud_step now ev (y, ?s)))) d dir = select_rows (sx_queue ?s) d dir"
        using q ed queue_for_other(2) [OF q, of d _ y] by auto
      then have "apart d q0 (put_context e (cloud_step now ev (y, ?s)) (rl_manager rl))"
        using apart_put [OF m y cloud_step_effect(1), of "snd (cloud_step now ev (y, ?s))" now ev ?s] by simp
      with assms x CloudEvent Some r show ?thesis by (auto simp: unbridged_def)
    qed
  next
    case BrokerUp
    with assms x m r show ?thesis by (auto simp: unbridged_def rl_manager_def intro: apart_cong)
  next
    case BrokerDown
    with assms x m r show ?thesis by (auto simp: unbridged_def rl_manager_def intro: apart_cong)
  next
    case SupervisorTick
    with assms x m r show ?thesis by (auto simp: unbridged_def apart_sync)
  next
    case (Start reachable)
    have "apart d q0 ((rl_manager rl)\<lparr>dm_started := True\<rparr>)" by (rule apart_cong [OF m]) simp_all
    then have "apart d q0 (start_manager now p (rl_registry rl) (rl_manager rl))" for p
      unfolding start_manager_def using not_enrolled_not_bridgeable(1) [OF r(1,3)] by (intro apart_sync apart_ensure_all)
    with assms x Start r show ?thesis by (auto simp: unbridged_def start_relay_def Let_def) (simp add: rl_manager_def)
  next
    case (TimerFires env call e g)
    with assms x m r show ?thesis by (auto simp: unbridged_def rl_manager_def case_prod_beta split: option.splits)
  qed
qed

lemma unbridged_run: "unbridged d q0 rl \<Longrightarrow> relay_run xs rl = Some rl' \<Longrightarrow> unbridged d q0 rl'"
  by (induction xs arbitrary: rl) (auto simp: bind_eq_Some_conv dest: unbridged_step)

text \<open>
  C9: With auto-enrollment off, whatever happens to the relay - any feeders connecting, publishing and
  leaving, cloud events, restarts of the local broker - a feeder that was not enrolled at the start never
  gets a context or a cloud session, is never a target of delivery towards the cloud, and no message is
  ever queued for it in either direction.
\<close>

theorem unapproved_feeder_never_bridged:
  assumes "registry_inv registry" "\<not> dr_auto_enroll registry" "\<not> enrolled registry d" "queue_inv (sx_queue stores)"
    "relay_run ops (build_relay t registry None kept (init_manager stores settings ttl registrar)) = Some rl"
  shows "get_by_device_id d (rl_manager rl) = None \<and>
    (\<forall>target\<in>set (upstream_targets is_up (rl_bridge rl)). pt_device_id target \<noteq> d) \<and>
    (\<forall>dir. select_rows (sx_queue (dm_stores (rl_manager rl))) d dir = select_rows (sx_queue stores) d dir)"
proof -
  let ?rl = "build_relay t registry None kept (init_manager stores settings ttl registrar)"
  have "manager_inv (rl_manager ?rl)" "dm_contexts (rl_manager ?rl) = []" "dm_stores (rl_manager ?rl) = stores"
    by (simp_all add: rl_manager_def build_relay_def set_sound_switch_controller_def init_bridge_def
        set_device_online_callback_def init_manager_def manager_inv_def)
  with assms(4) have "apart d (sx_queue stores) (rl_manager ?rl)" by (simp add: apart_def)
  moreover have "registry_inv (rl_registry ?rl)" "\<not> dr_auto_enroll (rl_registry ?rl)" "\<not> enrolled (rl_registry ?rl) d"
    using assms(1-3) registry_inv_purge [OF assms(1)] enrolled_purge [of registry t d]
    by (auto simp: build_relay_def seed_manual_identity_def registry_inv_def)
  ultimately have u: "unbridged d (sx_queue stores) rl" using unbridged_run [OF _ assms(5)] by (simp add: unbridged_def)
  then have m: "manager_inv (rl_manager rl)" "dict_get (dm_contexts (rl_manager rl)) d = None" by (auto simp: unbridged_def apart_def)
  have "dx_device_id x \<noteq> d" if "x \<in> set (list_devices (rl_manager rl))" for x
  proof -
    from that obtain e where "(e, x) \<in> set (dm_contexts (rl_manager rl))" by (auto simp: list_devices_def)
    then have "dict_get (dm_contexts (rl_manager rl)) e = Some x" using m(1) by (simp add: manager_inv_def dict_wf_mem)
    with m show ?thesis by (auto simp: manager_inv_def)
  qed
  then have "\<forall>target\<in>set (upstream_targets is_up (rl_bridge rl)). pt_device_id target \<noteq> d"
    by (auto simp: upstream_targets_def map_filter_def rl_manager_def) blast
  with u show ?thesis by (simp add: unbridged_def apart_def get_by_device_id_def)
qed

theorem unapproved_feeder_never_bridged_witness:
  "\<exists>rl. relay_run [(1, Start True), (2, FeederConnects demo_identity ''10.0.0.9''), (3, SupervisorTick)]
      (build_relay 0 (open_registry None 100 False) None [] (init_manager demo_stores all_on 60 False)) = Some rl \<and>
    get_by_device_id ''AF03'' (rl_manager rl) = None"
proof -
  let ?r = "open_registry None 100 False"
  obtain rl where rl: "relay_run [(1, Start True), (2, FeederConnects demo_identity ''10.0.0.9''), (3, SupervisorTick)]
      (build_relay 0 ?r None [] (init_manager demo_stores all_on 60 False)) = Some rl" by simp
  have "registry_inv ?r" by (rule registry_inv_fresh)
  moreover have "\<not> dr_auto_enroll ?r" "\<not> enrolled ?r ''AF03''" by (simp_all add: enrolled_def)
  moreover have "queue_inv (sx_queue demo_stores)" by (simp add: demo_stores_def fresh_queue)
  ultimately show ?thesis using unapproved_feeder_never_bridged [OF _ _ _ _ rl] rl by blast
qed

section \<open>Devices that are enrolled\<close>

lemma relay_upd:
  "rl_manager (rl\<lparr>rl_presence := p\<rparr>) = rl_manager rl" "rl_manager (rl\<lparr>rl_registry := r\<rparr>) = rl_manager rl"
  "rl_manager (rl\<lparr>rl_bridge := forget_unknown_device d (rl_bridge rl)\<rparr>) = rl_manager rl"
  by (simp_all add: rl_manager_def forget_unknown_device_def)

lemma with_manager_resync:
  "rl_resync (with_manager f rl) = fold (\<lambda>(d, g). device_online d g)
     (drop (length (dm_online_calls (rl_manager rl))) (dm_online_calls (f (rl_manager rl)))) (rl_resync rl)"
  by (simp add: with_manager_def Let_def)

lemma recorded_is_bridgeable:
  assumes "registry_inv r" "0 \<le> of_int \<lfloor>now\<rfloor> - now + dr_retention_seconds r"
    "(status_of r (di_client_id i) = None \<and> dr_auto_enroll r) \<or> enrolled r (di_client_id i)"
  shows "is_bridgeable now (di_client_id i) (snd (record_identity now i r))"
proof -
  let ?r = "snd (record_identity now i r)"
  have none: "dict_get (dr_rows r) (di_client_id i) = None" if "status_of r (di_client_id i) = None"
    using that assms(1) by (force simp: status_of_def registry_inv_def split: option.splits)
  have "\<exists>row. dict_get (dr_rows ?r) (di_client_id i) = Some row \<and> bridgeable_row now ?r row"
    using assms(2,3) none by (auto simp: record_rows enrolled_def bridgeable_row_def cutoff_def algebra_simps)
  moreover have "dict_wf (dr_rows ?r)" using registry_inv_record [OF assms(1)] by (simp add: registry_inv_def)
  ultimately have "di_client_id i \<in> di_client_id ` set (get_bridgeable now ?r)" using bridgeable_ids by blast
  then show ?thesis by (auto simp: is_bridgeable_def list_ex_iff)
qed

lemma opened_record:
  "\<exists>rec. presence_record d (session_opened now d peer t) = Some rec \<and> pr_connected rec \<and>
     pr_connection_generation rec = (case presence_record d t of None \<Rightarrow> 0 | Some e \<Rightarrow> pr_connection_generation e) + 1"
  "is_online now d (session_opened now d peer t)"
  by (simp_all add: session_opened_def presence_record_def is_online_def presence_state_def Let_def)

text \<open>A reconciliation announces a connected device under its current generation, and under no other.\<close>

lemma sync_calls:
  assumes "presence_record d presence = Some rec" "pr_connected rec" "is_online now d presence" "dm_has_callback m"
    "dict_get (dm_contexts m) d \<noteq> None" "d \<in> set ds"
  shows "\<exists>calls. dm_online_calls (fold (sync_device now presence) ds m) = dm_online_calls m @ calls \<and>
    (d, pr_connection_generation rec) \<in> set calls \<and> (\<forall>g. (d, g) \<in> set calls \<longrightarrow> g = pr_connection_generation rec)"
proof -
  have step: "\<exists>calls. dm_online_calls (sync_device now presence e m) = dm_online_calls m @ calls \<and>
      (\<forall>g. (d, g) \<in> set calls \<longrightarrow> g = pr_connection_generation rec) \<and>
      (e = d \<and> dm_has_callback m \<and> dict_get (dm_contexts m) d \<noteq> None \<longrightarrow> (d, pr_connection_generation rec) \<in> set calls) \<and>
      dm_has_callback (sync_device now presence e m) = dm_has_callback m" for e m
    using assms(1-3) by (auto simp: sync_device_def put_context_def Let_def split: option.splits)
  have ctx: "dict_get (dm_contexts (sync_device now presence e m)) d \<noteq> None \<longleftrightarrow> dict_get (dm_contexts m) d \<noteq> None" for e m
    by (auto simp: sync_device_contexts)
  have "\<exists>calls. dm_online_calls (fold (sync_device now presence) ds m) = dm_online_calls m @ calls \<and>
      (d \<in> set ds \<longrightarrow> (d, pr_connection_generation rec) \<in> set calls) \<and> (\<forall>g. (d, g) \<in> set calls \<longrightarrow> g = pr_connection_generation rec)"
    if "dm_has_callback m" "dict_get (dm_contexts m) d \<noteq> None" for ds m
    using that
  proof (induction ds arbitrary: m)
    case (Cons e ds)
    obtain c1 where c1: "dm_online_calls (sync_device now presence e m) = dm_online_calls m @ c1"
      "\<forall>g. (d, g) \<in> set c1 \<longrightarrow> g = pr_connection_generation rec" "e = d \<longrightarrow> (d, pr_connection_generation rec) \<in> set c1"
      "dm_has_callback (sync_device now presence e m)" using step [of e m] Cons.prems by auto
    from Cons.IH [OF c1(4)] ctx [of e m] Cons.prems(2) obtain c2 where
      "dm_online_calls (fold (sync_device now presence) ds (sync_device now presence e m)) = dm_online_calls (sync_device now presence e m) @ c2"
      "d \<in> set ds \<longrightarrow> (d, pr_connection_generation rec) \<in> set c2" "\<forall>g. (d, g) \<in> set c2 \<longrightarrow> g = pr_connection_generation rec" by blast
    with c1 show ?case by (intro exI [of _ "c1 @ c2"]) auto
  qed simp
  from this [OF assms(4,5), of ds] assms(6) show ?thesis by blast
qed

subsection \<open>What every run keeps\<close>

text \<open>
  Every generation the coordinator was told of is one the presence tracker has counted, so that the next
  connection of a device is new to it.
\<close>

definition announced_past :: "DevicePresenceTracker \<Rightarrow> ScheduleResyncCoordinator \<Rightarrow> bool" where
  "announced_past presence c \<longleftrightarrow> (\<forall>d g. dict_get (rs_generations c) d = Some g \<longrightarrow>
     (\<exists>rec. presence_record d presence = Some rec \<and> g \<le> pr_connection_generation rec))"

definition relay_inv :: "Relay \<Rightarrow> bool" where
  "relay_inv rl \<longleftrightarrow> registry_inv (rl_registry rl) \<and> manager_inv (rl_manager rl) \<and> dm_has_callback (rl_manager rl) \<and>
     coordinator_inv (rl_resync rl) \<and> announced_past (rl_presence rl) (rl_resync rl)"

text \<open>A manager operation of the relay: the calls it adds carry generations of the presence tracker.\<close>

definition manager_op :: "DevicePresenceTracker \<Rightarrow> DeviceManager \<Rightarrow> DeviceManager \<Rightarrow> bool" where
  "manager_op presence m m' \<longleftrightarrow> (manager_inv m \<longrightarrow> manager_inv m') \<and> dm_has_callback m' = dm_has_callback m \<and>
     (\<exists>calls. dm_online_calls m' = dm_online_calls m @ calls \<and>
       (\<forall>(d, g)\<in>set calls. \<exists>rec. presence_record d presence = Some rec \<and> g = pr_connection_generation rec))"

lemma manager_op_refl [simp]: "manager_op presence m m"
  by (simp add: manager_op_def)

lemma manager_op_trans: "manager_op presence m1 m2 \<Longrightarrow> manager_op presence m2 m3 \<Longrightarrow> manager_op presence m1 m3"
  by (auto simp: manager_op_def)

lemma manager_op_fold: "(\<And>x m. manager_op presence m (f x m)) \<Longrightarrow> manager_op presence m (fold f xs m)"
  by (induction xs arbitrary: m) (auto intro: manager_op_trans)

lemma manager_op_quiet:
  "(manager_inv m \<Longrightarrow> manager_inv m') \<Longrightarrow> dm_has_callback m' = dm_has_callback m \<Longrightarrow> dm_online_calls m' = dm_online_calls m \<Longrightarrow>
    manager_op presence m m'"
  by (simp add: manager_op_def)

lemma manager_op_sync_device: "manager_op presence m (sync_device now presence d m)"
proof -
  have "manager_inv m \<Longrightarrow> manager_inv (sync_device now presence d m)" using manager_inv_sync [of m now presence "[d]"] by simp
  then show ?thesis by (auto simp: manager_op_def sync_device_def put_context_def Let_def split: option.split)
qed

lemma manager_op_sync: "manager_op presence m (sync_upstream_sessions now presence m)"
  by (simp add: sync_upstream_sessions_def manager_op_fold manager_op_sync_device)

lemma manager_op_ensure: "manager_op presence m (ensure_device now presence i m)"
  by (rule manager_op_quiet [OF manager_inv_ensure])
    (auto simp: ensure_device_def put_context_def case_prod_beta Let_def split: option.split)

lemma manager_op_start: "manager_op presence m (start_manager now presence registry m)"
proof -
  have "manager_op presence m (m\<lparr>dm_started := True\<rparr>)" by (rule manager_op_quiet) (simp_all add: manager_inv_def)
  moreover have "manager_op presence (m\<lparr>dm_started := True\<rparr>) (fold (ensure_device now presence) (get_bridgeable now registry) (m\<lparr>dm_started := True\<rparr>))"
    by (rule manager_op_fold) (rule manager_op_ensure)
  ultimately show ?thesis unfolding start_manager_def by (intro manager_op_trans [OF _ manager_op_sync]) (rule manager_op_trans)
qed

lemma manager_op_camera:
  "manager_op presence m (record_camera_peer_address now d peer m)" "manager_op presence m (register_camera_uid now presence' d uid m)"
  by (rule manager_op_quiet;
      simp add: manager_inv_def record_camera_peer_address_def register_camera_uid_def register_camera_def set_shadow_def Let_def split: option.split)+

lemma manager_op_put:
  assumes "dict_get (dm_contexts m) e = Some x" "dx_identity (fst xs) = dx_identity x"
  shows "manager_op presence m (put_context e xs m)"
proof (rule manager_op_quiet)
  assume m: "manager_inv m"
  then have "dx_device_id (fst xs) = e" using assms by (auto simp: manager_inv_def dx_device_id_def)
  with m show "manager_inv (put_context e xs m)" by (auto simp: manager_inv_def put_context_def)
qed (simp_all add: put_context_def)

lemma manager_op_message:
  assumes "manager_inv (br_manager b)" "on_local_message now ok i zone presence topic payload qos b = Some b'"
  shows "manager_op p (br_manager b) (br_manager b')"
  using assms(2)
proof (cases rule: on_local_message_cases)
  case (routed e x a x' s' b1)
  have "dx_device_id x = e" using assms(1) routed(1) by (simp add: manager_inv_def)
  then have "br_manager b' = fold (\<lambda>(d, uid). register_camera_uid now presence d uid) (new_uids x x') (put_context e (x', s') (br_manager b))"
    using routed(2,4,5) by (auto simp: route_to_context_def Let_def local_publish_def split: option.splits)
  moreover have "manager_op p (br_manager b) (put_context e (x', s') (br_manager b))"
    by (rule manager_op_put [OF routed(1)]) (simp add: handle_local_identity [OF routed(4)])
  moreover have "manager_op p m (fold (\<lambda>(d, uid). register_camera_uid now presence d uid) us m)" for us m
    by (rule manager_op_fold) (simp add: case_prod_beta manager_op_camera)
  ultimately show ?thesis by (metis manager_op_trans)
qed simp

lemma announced_past_calls:
  assumes "announced_past presence c" "\<forall>(d, g)\<in>set calls. \<exists>rec. presence_record d presence = Some rec \<and> g = pr_connection_generation rec"
  shows "announced_past presence (fold (\<lambda>(d, g). device_online d g) calls c)"
  using assms
proof (induction calls arbitrary: c)
  case (Cons x calls)
  have "announced_past presence (device_online (fst x) (snd x) c)"
    using Cons.prems by (auto simp: announced_past_def device_online_upd)
  with Cons show ?case by (simp add: case_prod_beta)
qed simp

lemma relay_inv_manager: "relay_inv rl \<Longrightarrow> manager_op (rl_presence rl) (rl_manager rl) (f (rl_manager rl)) \<Longrightarrow> relay_inv (with_manager f rl)"
  by (auto simp: relay_inv_def manager_op_def with_manager_resync coordinator_inv_calls announced_past_calls)

lemma relay_inv_cong:
  assumes "relay_inv rl" "rl_registry rl' = rl_registry rl" "rl_resync rl' = rl_resync rl" "manager_op p (rl_manager rl) (rl_manager rl')"
    "\<forall>d rec. presence_record d (rl_presence rl) = Some rec \<longrightarrow>
      (\<exists>rec'. presence_record d (rl_presence rl') = Some rec' \<and> pr_connection_generation rec \<le> pr_connection_generation rec')"
  shows "relay_inv rl'"
proof -
  have "announced_past (rl_presence rl') (rl_resync rl')"
    using assms(1,3,5) by (force simp: relay_inv_def announced_past_def)
  with assms(1-4) show ?thesis by (auto simp: relay_inv_def manager_op_def)
qed

lemma relay_inv_opened:
  assumes "relay_inv rl"
  shows "relay_inv (device_session_opened now i peer rl)"
proof -
  let ?d = "di_client_id i"
  let ?rl1 = "rl\<lparr>rl_presence := session_opened now ?d (Some peer) (rl_presence rl)\<rparr>"
  have 1: "relay_inv ?rl1"
    by (rule relay_inv_cong [OF assms, where p = "rl_presence rl"])
      (auto simp: relay_upd session_opened_def presence_record_def Let_def)
  let ?rl2 = "with_manager (record_camera_peer_address now ?d (Some peer)) ?rl1"
  have 2: "relay_inv ?rl2" by (rule relay_inv_manager [OF 1]) (rule manager_op_camera)
  let ?rl3 = "with_manager (\<lambda>m. sync_upstream_sessions now (rl_presence ?rl2) (ensure_device now (rl_presence ?rl2) i m)) ?rl2"
  have 3: "relay_inv ?rl3"
    by (rule relay_inv_manager [OF 2]) (rule manager_op_trans [OF manager_op_ensure manager_op_sync])
  have "relay_inv (?rl3\<lparr>rl_bridge := forget_unknown_device ?d (rl_bridge ?rl3)\<rparr>)"
    by (rule relay_inv_cong [OF 3, where p = "rl_presence rl"]) (auto simp: relay_upd)
  with 2 3 show ?thesis by (simp add: device_session_opened_def Let_def)
qed

lemma relay_inv_step:
  assumes "relay_inv rl" "relay_step x rl = Some rl'"
  shows "relay_inv rl'"
proof -
  obtain now op where x: "x = (now, op)" by (cases x)
  have m: "manager_inv (rl_manager rl)" using assms(1) by (simp add: relay_inv_def)
  note keep = relay_inv_cong [OF assms(1), where p = "rl_presence rl"]
  show ?thesis
  proof (cases op)
    case (FeederConnects i peer)
    have "relay_inv (rl\<lparr>rl_registry := snd (record_identity now i (rl_registry rl))\<rparr>)"
      using assms(1) by (simp add: relay_inv_def relay_upd registry_inv_record)
    with assms(2) x FeederConnects show ?thesis by (auto intro: relay_inv_opened)
  next
    case (FeederLeaves d)
    with assms(2) x show ?thesis
      by (auto intro!: keep simp: device_session_closed_def session_closed_def presence_record_def relay_upd Let_def)
  next
    case (FeederPublishes ok i zone topic payload qos)
    with assms(2) x obtain b where b: "on_local_message now ok i zone (rl_presence rl) topic payload qos (rl_bridge rl) = Some b"
      "rl' = rl\<lparr>rl_bridge := b\<rparr>" by auto
    with manager_op_message [OF m [unfolded rl_manager_def] b(1), of "rl_presence rl"] show ?thesis
      by (intro keep) (simp_all add: rl_manager_def)
  next
    case (CloudEvent e ev)
    show ?thesis
    proof (cases "get_by_device_id e (rl_manager rl)")
      case (Some y)
      then have "manager_op (rl_presence rl) (rl_manager rl)
          (put_context e (cloud_step now ev (y, dm_stores (rl_manager rl))) (rl_manager rl))"
        by (intro manager_op_put) (auto simp: get_by_device_id_def cloud_step_effect(1))
      from relay_inv_manager [OF assms(1), where f = "\<lambda>m. put_context e (cloud_step now ev (y, dm_stores m)) m"] this
      show ?thesis using assms(2) x CloudEvent Some by simp
    qed (use assms x CloudEvent in simp)
  next
    case BrokerUp
    with assms(2) x show ?thesis by (auto intro!: keep manager_op_quiet
        simp: rl_manager_def manager_inv_def on_local_connect_def with_manager_telemetry_def subscribe_def)
  next
    case BrokerDown
    with assms(2) x show ?thesis by (auto intro!: keep manager_op_quiet
        simp: rl_manager_def manager_inv_def on_local_disconnect_def with_manager_telemetry_def)
  next
    case SupervisorTick
    with assms x show ?thesis by (auto intro: relay_inv_manager manager_op_sync)
  next
    case (Start reachable)
    have "relay_inv (rl\<lparr>rl_bridge := prime_local_subscription reachable (rl_bridge rl), rl_bridge_set := True\<rparr>)"
      by (rule keep) (auto simp: rl_manager_def)
    from relay_inv_manager [OF this, where f = "start_manager now (rl_presence rl) (rl_registry rl)"] manager_op_start assms(2) x Start show ?thesis by (auto simp: start_relay_def Let_def)
  next
    case (TimerFires env call d g)
    have c: "fst (snd (resync_if_still_current env call presence d g (c, ctl))) = snd (resync_check presence d g c)" for presence c ctl
      by (simp add: resync_if_still_current_def case_prod_beta Let_def)
    show ?thesis using assms x TimerFires
      by (auto simp: relay_inv_def rl_manager_def announced_past_def case_prod_beta c coordinator_inv_check split: option.splits)
  qed
qed

lemma relay_inv_run: "relay_inv rl \<Longrightarrow> relay_run xs rl = Some rl' \<Longrightarrow> relay_inv rl'"
  by (induction xs arbitrary: rl) (auto simp: bind_eq_Some_conv dest: relay_inv_step)

lemma relay_inv_built:
  assumes "registry_inv registry"
  shows "relay_inv (build_relay t registry manual kept (init_manager stores settings ttl registrar))"
proof -
  have "registry_inv (seed_manual_identity t manual (snd (purge_expired t registry)))"
    using registry_inv_purge [OF assms] by (auto simp: seed_manual_identity_def registry_inv_record split: option.split)
  then show ?thesis
    by (simp add: relay_inv_def build_relay_def rl_manager_def set_sound_switch_controller_def init_bridge_def
        set_device_online_callback_def init_manager_def manager_inv_def coordinator_inv_init announced_past_def)
      (simp add: init_coordinator_def)
qed

text \<open>
  C10: In every run of a relay that has been started, a feeder that connects and is enrolled, or is new while
  auto-enrollment is on, is bridged by that connection alone: afterwards it has a context with a running
  cloud session, it is no longer reported as unknown, and a timer for the restoration of its schedules is
  running for exactly this connection: it is the device's entry in the table of timers, it was started and
  not cancelled. The handling of a connection is one step of the run.
\<close>

theorem connecting_feeder_is_bridged:
  assumes "registry_inv registry"
    "relay_run ops (build_relay t registry manual kept (init_manager stores settings ttl registrar)) = Some rl"
    "0 \<le> of_int \<lfloor>now\<rfloor> - now + dr_retention_seconds (rl_registry rl)"
    "(status_of (rl_registry rl) (di_client_id i) = None \<and> dr_auto_enroll (rl_registry rl)) \<or> enrolled (rl_registry rl) (di_client_id i)"
    "dm_started (rl_manager rl)" "rl_bridge_set rl"
    "relay_step (now, FeederConnects i peer) rl = Some rl'"
  shows "\<exists>x rec. get_by_device_id (di_client_id i) (rl_manager rl') = Some x \<and> upstream_running x \<and>
    di_client_id i \<notin> set (br_unknown_devices_seen (rl_bridge rl')) \<and>
    presence_record (di_client_id i) (rl_presence rl') = Some rec \<and> pr_connected rec \<and>
    dict_get (rs_generations (rl_resync rl')) (di_client_id i) = Some (pr_connection_generation rec) \<and>
    (\<exists>timer. dict_get (rs_timers (rl_resync rl')) (di_client_id i) = Some timer \<and> timer \<in> set (rs_started (rl_resync rl')) \<and>
      timer \<notin> set (rs_cancelled (rl_resync rl')) \<and> rt_device timer = di_client_id i \<and> rt_generation timer = pr_connection_generation rec)"
proof -
  let ?d = "di_client_id i"
  let ?p = "session_opened now ?d (Some peer) (rl_presence rl)"
  let ?m1 = "record_camera_peer_address now ?d (Some peer) (rl_manager rl)"
  let ?m2 = "ensure_device now ?p i ?m1"
  let ?m3 = "sync_upstream_sessions now ?p ?m2"
  have inv: "relay_inv rl" by (rule relay_inv_run [OF relay_inv_built [OF assms(1)] assms(2)])
  have m1: "manager_inv ?m1" using inv by (simp add: relay_inv_def manager_inv_def)
  have keep1: "dm_started ?m1 = dm_started (rl_manager rl)" "dm_has_callback ?m1 = dm_has_callback (rl_manager rl)"
    "dm_online_calls ?m1 = dm_online_calls (rl_manager rl)"
    by (simp_all add: record_camera_peer_address_def register_camera_def set_shadow_def split: option.split)
  have keep2: "dm_has_callback ?m2 = dm_has_callback ?m1" "dm_online_calls ?m2 = dm_online_calls ?m1"
    by (simp_all add: ensure_device_def put_context_def case_prod_beta Let_def split: option.split)
  obtain x where x: "dict_get (dm_contexts ?m2) ?d = Some x" using ensure_device_contexts(1) [of now ?p i ?m1] by blast
  have m2: "manager_inv ?m2" "dm_started ?m2" using m1 assms(5) by (simp_all add: manager_inv_ensure ensure_device_contexts(4) keep1)
  obtain x' where x': "dict_get (dm_contexts ?m3) ?d = Some x'" "upstream_running x'"
    using sync_aligns [OF m2 x, of now ?p] opened_record(2) by blast
  obtain rec where rec: "presence_record ?d ?p = Some rec" "pr_connected rec"
    "pr_connection_generation rec = (case presence_record ?d (rl_presence rl) of None \<Rightarrow> 0 | Some e \<Rightarrow> pr_connection_generation e) + 1"
    using opened_record(1) [of ?d now "Some peer" "rl_presence rl"] by blast
  have "?d \<in> set (device_ids ?m2)" using device_ids_set [OF m2(1)] map_of_SomeD [OF x] by force
  moreover have "dm_has_callback ?m2" "dict_get (dm_contexts ?m2) ?d \<noteq> None" using x keep1 keep2 inv by (simp_all add: relay_inv_def)
  ultimately obtain calls where calls: "dm_online_calls (fold (sync_device now ?p) (device_ids ?m2) ?m2) = dm_online_calls ?m2 @ calls"
    "(?d, pr_connection_generation rec) \<in> set calls" "\<forall>g. (?d, g) \<in> set calls \<longrightarrow> g = pr_connection_generation rec"
    using sync_calls [OF rec(1,2) opened_record(2)] by meson
  have m3: "dm_online_calls ?m3 = dm_online_calls ?m1 @ calls"
    using calls(1) keep2 m2(2) by (simp add: sync_upstream_sessions_def)
  have b: "is_bridgeable now ?d (snd (record_identity now i (rl_registry rl)))" using inv by (intro recorded_is_bridgeable assms(3,4)) (simp add: relay_inv_def)
  have "rl_manager rl' = ?m3" "rl_presence rl' = ?p" "?d \<notin> set (br_unknown_devices_seen (rl_bridge rl'))"
    "rl_resync rl' = fold (\<lambda>(d, g). device_online d g) calls (rl_resync rl)"
  proof -
    have rl': "rl' = device_session_opened now i peer (rl\<lparr>rl_registry := snd (record_identity now i (rl_registry rl))\<rparr>)" using assms(7) by simp
    show "rl_manager rl' = ?m3" "rl_presence rl' = ?p" "?d \<notin> set (br_unknown_devices_seen (rl_bridge rl'))"
      unfolding rl' by (simp_all add: device_session_opened_def b assms(6) relay_upd Let_def) (simp add: forget_unknown_device_def)
    show "rl_resync rl' = fold (\<lambda>(d, g). device_online d g) calls (rl_resync rl)"
      unfolding rl' by (simp add: device_session_opened_def b assms(6) relay_upd Let_def) (simp add: with_manager_resync relay_upd m3 keep1(3))
  qed
  moreover have "resync_pending ?d (pr_connection_generation rec) (fold (\<lambda>(d, g). device_online d g) calls (rl_resync rl))"
  proof (rule online_calls_pending [OF _ calls(3)])
    have "dict_get (rs_generations (rl_resync rl)) ?d \<noteq> Some (pr_connection_generation rec)"
      using inv rec(3) by (force simp: relay_inv_def announced_past_def)
    with calls(2) show "((?d, pr_connection_generation rec) \<in> set calls \<and>
        dict_get (rs_generations (rl_resync rl)) ?d \<noteq> Some (pr_connection_generation rec)) \<or>
        resync_pending ?d (pr_connection_generation rec) (rl_resync rl)" by blast
  qed (use inv in \<open>simp add: relay_inv_def\<close>)
  ultimately show ?thesis using x' rec by (simp add: get_by_device_id_def resync_pending_def)
qed

theorem connecting_feeder_is_bridged_witness:
  "\<exists>rl x timer. relay_run [(1, Start True), (2, FeederConnects demo_identity ''10.0.0.9'')]
      (build_relay 0 (open_registry None 100 True) None [] (init_manager demo_stores all_on 60 False)) = Some rl \<and>
    get_by_device_id ''AF03'' (rl_manager rl) = Some x \<and> upstream_running x \<and>
    dict_get (rs_timers (rl_resync rl)) ''AF03'' = Some timer"
proof -
  let ?r = "open_registry None 100 True" and ?m = "init_manager demo_stores all_on 60 False"
  let ?rl = "start_relay 1 True (build_relay 0 ?r None [] ?m)"
  have run: "relay_run [(1, Start True)] (build_relay 0 ?r None [] ?m) = Some ?rl" by simp
  have reg: "rl_registry ?rl = ?r"
    by (simp add: start_relay_def build_relay_def seed_manual_identity_def purge_expired_def Let_def with_manager_def)
  have "dm_started (start_manager now p r m)" for now p r m
  proof -
    have "dm_started (fold (ensure_device now p) is m') = dm_started m'" for "is" m'
      by (induction "is" arbitrary: m') (simp_all add: ensure_device_contexts(4))
    then show ?thesis by (simp add: start_manager_def sync_started)
  qed
  then have "dm_started (rl_manager ?rl)" "rl_bridge_set ?rl" by (simp_all add: start_relay_def Let_def)
  moreover have "status_of (rl_registry ?rl) (di_client_id demo_identity) = None \<and> dr_auto_enroll (rl_registry ?rl)"
    "0 \<le> of_int \<lfloor>2 :: rat\<rfloor> - 2 + dr_retention_seconds (rl_registry ?rl)" unfolding reg by (simp_all add: status_of_def)
  ultimately obtain rl' x timer where rl': "relay_step (2, FeederConnects demo_identity ''10.0.0.9'') ?rl = Some rl'"
      "get_by_device_id (di_client_id demo_identity) (rl_manager rl') = Some x" "upstream_running x"
      "dict_get (rs_timers (rl_resync rl')) (di_client_id demo_identity) = Some timer"
    using connecting_feeder_is_bridged [OF registry_inv_fresh run, of 2 demo_identity "''10.0.0.9''"] by (metis relay_step.simps(1))
  have "relay_run [(1, Start True), (2, FeederConnects demo_identity ''10.0.0.9'')] (build_relay 0 ?r None [] ?m) = Some rl'"
    using rl'(1) by simp
  with rl' show ?thesis by (auto simp: demo_identity_def)
qed

end
