(* ===== verification/Relay_Lifecycle.thy ===== *)
theory Relay_Lifecycle
  imports Relay_Main Relay_Config Camera_Service
begin

text \<open>
  The life of the relay process: \<open>main\<close> of \<^verbatim>\<open>__main__.py\<close> with the \<open>start\<close>, \<open>stop\<close> and \<open>close\<close> methods it
  calls (\<^verbatim>\<open>credential_capture_proxy.py\<close>, \<^verbatim>\<open>mqtt_bridge.py\<close>, \<^verbatim>\<open>delivery_pump.py\<close>, \<^verbatim>\<open>device_manager.py\<close>,
  \<^verbatim>\<open>schedule_resync.py\<close>, \<^verbatim>\<open>camera.py\<close>, \<^verbatim>\<open>web/server.py\<close>) and the loops of their threads.

  The state holds the threads with their stop events, and the open resources. An operation ends, raises or
  blocks for ever; a sequence of operations ends with the first that does not end, and \<open>finally\<close> runs on
  every outcome but blocking. A thread ends only when its own loop returns on reading its stop event: a
  \<open>join\<close> of a thread whose loop does not return leaves it alive after the time-out, or blocks if there is none.
  A round of a loop ends. A \<open>relay_world\<close> says what happens besides: the listening port is taken, the devices
  cannot be started, a thread does not end before the time-out of its \<open>join\<close>, a handler of a feeder
  connection or a callback of a resync timer is still running, and one of the threads that report devices
  online does so after the coordinator was stopped. Waiting for the stop event ends by a signal.

  The lemmas show that a relay that started shuts down, that no database is closed under a thread that uses
  it provided that no connection handler and no timer callback is left, which nothing waits for, and
  describe two failed starts after which the process does not end.
\<close>

section \<open>The loops of the threads\<close>

text \<open>
  A loop takes its rounds and says whether it has returned; a loop that has used up its rounds is still
  running. \<open>_accept_loop\<close>: each round has the state of the stop event at its check, the outcome of \<open>accept\<close>,
  and the state of the stop event when \<open>accept\<close> failed. The result is the connections that get a handler.
\<close>

datatype 'c accept_outcome = Accepted 'c | TimedOut | AcceptFailed

fun accept_loop :: "(bool \<times> 'c accept_outcome \<times> bool) list \<Rightarrow> bool \<times> 'c list" where
  "accept_loop [] = (False, [])"
| "accept_loop ((stopped, outcome, stopped_then) # rounds) =
     (if stopped then (True, [])
      else (case outcome of
        Accepted c \<Rightarrow> map_prod id (\<lambda>cs. c # cs) (accept_loop rounds)
      | TimedOut \<Rightarrow> accept_loop rounds
      | AcceptFailed \<Rightarrow> if stopped_then then (True, []) else accept_loop rounds))"

text \<open>\<open>_supervise\<close>: a round is the result of waiting for the stop event, the time and the presence.\<close>

fun supervise :: "(bool \<times> seconds \<times> DevicePresenceTracker) list \<Rightarrow> DeviceManager \<Rightarrow> bool \<times> DeviceManager" where
  "supervise [] m = (False, m)"
| "supervise ((stopped, now, presence) # rounds) m = (if stopped then (True, m) else supervise rounds (sync_upstream_sessions now presence m))"

text \<open>\<open>_run\<close> of the camera reconciler: the stop event, and the answers and mappings of the round.\<close>

fun reconciler_run :: "(bool \<times> bool \<times> (string, string option) dict option \<times> camera_mapping list) list \<Rightarrow>
    CameraBridgeReconciler \<Rightarrow> bool \<times> CameraBridgeReconciler" where
  "reconciler_run [] k = (False, k)"
| "reconciler_run ((stopped, healthy, answer, persisted) # rounds) k =
     (if stopped then (True, k) else reconciler_run rounds (reconcile_once healthy answer persisted k))"

text \<open>\<open>_run\<close> of the registrar: the queue is empty for the time of the poll, or a mapping is sent and answered.\<close>

datatype registrar_round = QueueEmpty | Sent bool

fun registrar_run :: "(bool \<times> registrar_round) list \<Rightarrow> CameraBridgeRegistrar \<Rightarrow> bool \<times> CameraBridgeRegistrar" where
  "registrar_run [] g = (False, g)"
| "registrar_run ((stopped, r) # rounds) g =
     (if stopped then (True, g)
      else (case r of
        QueueEmpty \<Rightarrow> registrar_run rounds g
      | Sent accepted \<Rightarrow> registrar_run rounds (registrar_answer accepted (registrar_take g))))"

text \<open>The condition of \<open>_run\<close> of the pump, whose passes are those of \<open>Delivery_Pump\<close>.\<close>

fun pump_loop :: "bool list \<Rightarrow> bool" where
  "pump_loop [] = False"
| "pump_loop (stopped # rounds) = (if stopped then True else pump_loop rounds)"

text \<open>Neither time-outs nor errors end the accept loop: until the stop event every connection is handled, in order.\<close>

lemma accept_loop_handles_all:
  assumes "list_all (\<lambda>(stopped, outcome, stopped_then). \<not> stopped \<and> \<not> stopped_then) rounds"
  shows "accept_loop (rounds @ (True, x) # rest) = (True, concat (map (\<lambda>(_, outcome, _). case outcome of Accepted c \<Rightarrow> [c] | _ \<Rightarrow> []) rounds))"
  using assms by (induction rounds; cases x) (auto split: accept_outcome.splits)

text \<open>After \<open>stop\<close>, the manager has no session, and no later round of the supervisor opens one.\<close>

lemma supervise_after_stop: "snd (supervise rounds (stop_manager now m)) = stop_manager now m"
  by (induction rounds "stop_manager now m" rule: supervise.induct) (simp_all add: sync_upstream_sessions_def stop_manager_def)

text \<open>A loop returns at the first round that finds its stop event set, and never before.\<close>

lemma loops_return_iff_stopped:
  "fst (accept_loop (map (\<lambda>(s, outcome). (s, outcome, s)) calls)) \<longleftrightarrow> True \<in> fst ` set calls"
  "fst (supervise syncs m) \<longleftrightarrow> True \<in> fst ` set syncs" "fst (reconciler_run ks k) \<longleftrightarrow> True \<in> fst ` set ks"
  "fst (registrar_run gs g) \<longleftrightarrow> True \<in> fst ` set gs" "pump_loop ps \<longleftrightarrow> True \<in> set ps"
proof -
  show "fst (accept_loop (map (\<lambda>(s, outcome). (s, outcome, s)) calls)) \<longleftrightarrow> True \<in> fst ` set calls"
    by (induction calls) (auto split: accept_outcome.splits if_splits)
  show "fst (supervise syncs m) \<longleftrightarrow> True \<in> fst ` set syncs" by (induction syncs m rule: supervise.induct) auto
  show "fst (reconciler_run ks k) \<longleftrightarrow> True \<in> fst ` set ks" by (induction ks k rule: reconciler_run.induct) auto
  show "fst (registrar_run gs g) \<longleftrightarrow> True \<in> fst ` set gs"
    by (induction gs g rule: registrar_run.induct) (auto split: registrar_round.split)
  show "pump_loop ps \<longleftrightarrow> True \<in> set ps" by (induction ps) auto
qed

section \<open>Threads and resources\<close>

datatype thread = Unstarted | Alive | Finished

datatype lifecycle_error = ThreadError string | PortInUse | StartFailed string | InvalidConfig string | ExitStatus int

datatype outcome = Done | Raises lifecycle_error | Blocks

text \<open>A thread with its stop event.\<close>

record worker =
  wk_thread :: thread
  wk_stop :: bool

definition new_worker :: worker where "new_worker = \<lparr>wk_thread = Unstarted, wk_stop = False\<rparr>"

definition start_worker :: "worker \<Rightarrow> outcome \<times> worker" where
  "start_worker k = (case wk_thread k of
     Unstarted \<Rightarrow> (Done, k\<lparr>wk_thread := Alive\<rparr>)
   | _ \<Rightarrow> (Raises (ThreadError ''threads can only be started once''), k))"

definition set_stop :: "worker \<Rightarrow> worker" where
  "set_stop k = k\<lparr>wk_stop := True\<rparr>"

text \<open>\<open>returns\<close> is the thread's loop: whether it returns when its next round finds the stop event in the given state.\<close>

definition join_worker :: "(bool \<Rightarrow> bool) \<Rightarrow> bool \<Rightarrow> worker \<Rightarrow> outcome \<times> worker" where
  "join_worker returns in_time k = (case wk_thread k of
     Unstarted \<Rightarrow> (Raises (ThreadError ''cannot join thread before it is started''), k)
   | Alive \<Rightarrow> (Done, if returns (wk_stop k) \<and> in_time then k\<lparr>wk_thread := Finished\<rparr> else k)
   | Finished \<Rightarrow> (Done, k))"

definition join_forever :: "(bool \<Rightarrow> bool) \<Rightarrow> worker \<Rightarrow> outcome \<times> worker" where
  "join_forever returns k = (case wk_thread k of
     Unstarted \<Rightarrow> (Raises (ThreadError ''cannot join thread before it is started''), k)
   | Alive \<Rightarrow> if returns (wk_stop k) then (Done, k\<lparr>wk_thread := Finished\<rparr>) else (Blocks, k)
   | Finished \<Rightarrow> (Done, k))"

definition accept_returns :: "bool \<Rightarrow> bool" where
  "accept_returns stopped = fst (accept_loop [(stopped, TimedOut :: unit accept_outcome, stopped)])"

definition pump_returns :: "bool \<Rightarrow> bool" where
  "pump_returns stopped = pump_loop [stopped]"

definition supervisor_returns :: "bool \<Rightarrow> bool" where
  "supervisor_returns stopped = fst (supervise [(stopped, 0, init_tracker 0)] (init_manager demo_stores all_on 0 False))"

definition reconciler_returns :: "bool \<Rightarrow> bool" where
  "reconciler_returns stopped = fst (reconciler_run [(stopped, False, None, [])] \<lparr>rk_registrar = init_registrar True, rk_available = None\<rparr>)"

definition registrar_returns :: "bool \<Rightarrow> bool" where
  "registrar_returns stopped = fst (registrar_run [(stopped, QueueEmpty)] (init_registrar True))"

text \<open>
  \<open>pc_handler\<close>: a handler of a feeder connection runs, \<open>pc_timers\<close>: a resync timer waits, \<open>pc_callback\<close>: the
  callback of one runs.
\<close>

record Process =
  pc_registrar :: "worker option"
  pc_reconciler :: "worker option"
  pc_dashboard :: "worker option"
  pc_accept :: worker
  pc_listening :: bool
  pc_handler :: bool
  pc_pump_up :: worker
  pc_pump_down :: worker
  pc_client_loop :: bool
  pc_supervisor :: worker
  pc_sessions :: bool
  pc_timers :: bool
  pc_callback :: bool
  pc_queue_open :: bool
  pc_registry_open :: bool
  pc_shadow_open :: bool

record relay_world =
  rw_port_free :: bool
  rw_devices_fail :: "string option"
  rw_accept_joins :: bool
  rw_pump_up_joins :: bool
  rw_pump_down_joins :: bool
  rw_supervisor_joins :: bool
  rw_dashboard_joins :: bool
  rw_handler_runs :: bool
  rw_callback_runs :: bool
  rw_late_report :: bool

type_synonym operation = "Process \<Rightarrow> outcome \<times> Process"

fun run_all :: "operation list \<Rightarrow> operation" where
  "run_all [] p = (Done, p)"
| "run_all (f # fs) p = (case f p of (Done, p1) \<Rightarrow> run_all fs p1 | (r, p1) \<Rightarrow> (r, p1))"

definition try_finally :: "operation \<Rightarrow> operation \<Rightarrow> operation" where
  "try_finally body final p = (case body p of
     (Blocks, p1) \<Rightarrow> (Blocks, p1)
   | (r, p1) \<Rightarrow> (case final p1 of (Done, p2) \<Rightarrow> (r, p2) | (r', p2) \<Rightarrow> (r', p2)))"

definition on_worker :: "outcome \<times> worker \<Rightarrow> (worker \<Rightarrow> Process) \<Rightarrow> outcome \<times> Process" where
  "on_worker r put = (case r of (o1, k) \<Rightarrow> (o1, put k))"

section \<open>Starting and stopping the parts\<close>

definition dashboard_start :: "bool \<Rightarrow> operation" where
  "dashboard_start web_enabled p =
     (if web_enabled then on_worker (start_worker new_worker) (\<lambda>k. p\<lparr>pc_dashboard := Some k\<rparr>) else (Done, p))"

text \<open>The server's own loop ends after \<open>should_exit\<close>, in time or not.\<close>

definition dashboard_stop :: "relay_world \<Rightarrow> operation" where
  "dashboard_stop w p = (case pc_dashboard p of
     None \<Rightarrow> (Done, p)
   | Some k \<Rightarrow> on_worker (join_worker (\<lambda>should_exit. should_exit) (rw_dashboard_joins w) (set_stop k)) (\<lambda>k. p\<lparr>pc_dashboard := Some k\<rparr>))"

text \<open>As soon as the proxy listens, connections may come, and each gets a handler thread that is never joined.\<close>

definition proxy_start :: "relay_world \<Rightarrow> operation" where
  "proxy_start w p =
    (if \<not> rw_port_free w then (Raises PortInUse, p)
     else on_worker (start_worker (pc_accept p)) (\<lambda>k. p\<lparr>pc_accept := k, pc_listening := True, pc_handler := rw_handler_runs w\<rparr>))"

definition proxy_stop :: "relay_world \<Rightarrow> operation" where
  "proxy_stop w p =
    on_worker (join_worker accept_returns (rw_accept_joins w) (set_stop (pc_accept p))) (\<lambda>k. p\<lparr>pc_accept := k, pc_listening := False\<rparr>)"

definition pump_up_start :: operation where
  "pump_up_start p = on_worker (start_worker (pc_pump_up p)) (\<lambda>k. p\<lparr>pc_pump_up := k\<rparr>)"

definition pump_down_start :: operation where
  "pump_down_start p = on_worker (start_worker (pc_pump_down p)) (\<lambda>k. p\<lparr>pc_pump_down := k\<rparr>)"

definition pump_up_stop :: "relay_world \<Rightarrow> operation" where
  "pump_up_stop w p = on_worker (join_worker pump_returns (rw_pump_up_joins w) (set_stop (pc_pump_up p))) (\<lambda>k. p\<lparr>pc_pump_up := k\<rparr>)"

definition pump_down_stop :: "relay_world \<Rightarrow> operation" where
  "pump_down_stop w p = on_worker (join_worker pump_returns (rw_pump_down_joins w) (set_stop (pc_pump_down p))) (\<lambda>k. p\<lparr>pc_pump_down := k\<rparr>)"

definition client_loop :: "bool \<Rightarrow> operation" where
  "client_loop running p = (Done, p\<lparr>pc_client_loop := running\<rparr>)"

definition bridge_run_forever :: operation where
  "bridge_run_forever = run_all [client_loop True, pump_up_start, pump_down_start]"

definition bridge_stop :: "relay_world \<Rightarrow> operation" where
  "bridge_stop w = run_all [pump_up_stop w, pump_down_stop w, client_loop False]"

text \<open>Waiting timers are cancelled; a callback that runs goes on, and nothing keeps a later report from starting a new timer.\<close>

definition resync_stop :: "relay_world \<Rightarrow> operation" where
  "resync_stop w p = (Done, p\<lparr>pc_timers := False, pc_callback := (pc_timers p \<and> rw_callback_runs w)\<rparr>)"

text \<open>Sessions and timers may exist as soon as the devices start, also when the start fails half-way.\<close>

definition devices_start :: "relay_world \<Rightarrow> operation" where
  "devices_start w p =
    (let p1 = p\<lparr>pc_sessions := True, pc_timers := True\<rparr> in
     case rw_devices_fail w of
       Some e \<Rightarrow> (Raises (StartFailed e), p1)
     | None \<Rightarrow> on_worker (start_worker (pc_supervisor p1)) (\<lambda>k. p1\<lparr>pc_supervisor := k\<rparr>))"

text \<open>
  Until the supervisor is joined, it or a handler may report a device online, which starts a timer. A handler,
  or a supervisor that did not end in time, that has passed the check of \<open>_started\<close> may still start a session.
\<close>

definition devices_stop :: "relay_world \<Rightarrow> operation" where
  "devices_stop w p =
    (let k = set_stop (pc_supervisor p);
         k1 = (if wk_thread k = Alive then snd (join_worker supervisor_returns (rw_supervisor_joins w) k) else k);
         reporting = rw_late_report w \<and> (wk_thread k = Alive \<or> pc_handler p);
         reopening = rw_late_report w \<and> (wk_thread k1 = Alive \<or> pc_handler p)
     in (Done, p\<lparr>pc_supervisor := k1, pc_sessions := reopening, pc_timers := (pc_timers p \<or> reporting)\<rparr>))"

text \<open>The two camera threads are joined without a time-out.\<close>

definition reconciler_start :: "bool \<Rightarrow> operation" where
  "reconciler_start enabled p =
     (if \<not> enabled \<or> pc_reconciler p \<noteq> None then (Done, p)
      else on_worker (start_worker new_worker) (\<lambda>k. p\<lparr>pc_reconciler := Some k\<rparr>))"

definition reconciler_close :: operation where
  "reconciler_close p = (case pc_reconciler p of
     None \<Rightarrow> (Done, p)
   | Some k \<Rightarrow> on_worker (join_forever reconciler_returns (set_stop k)) (\<lambda>k. p\<lparr>pc_reconciler := Some k\<rparr>))"

definition registrar_stop :: operation where
  "registrar_stop p = (case pc_registrar p of
     None \<Rightarrow> (Done, p)
   | Some k \<Rightarrow> on_worker (join_forever registrar_returns (set_stop k)) (\<lambda>k. p\<lparr>pc_registrar := Some k\<rparr>))"

definition queue_close :: operation where "queue_close p = (Done, p\<lparr>pc_queue_open := False\<rparr>)"
definition registry_close :: operation where "registry_close p = (Done, p\<lparr>pc_registry_open := False\<rparr>)"
definition shadow_close :: operation where "shadow_close p = (Done, p\<lparr>pc_shadow_open := False\<rparr>)"

section \<open>The main function\<close>

text \<open>The databases are open and the registrar's thread runs as soon as the objects exist.\<close>

definition build_process :: "RelayConfig \<Rightarrow> Process" where
  "build_process c =
    \<lparr>pc_registrar = (if cs_enabled (cf_camera_bridge c) then Some (snd (start_worker new_worker)) else None), pc_reconciler = None,
     pc_dashboard = None, pc_accept = new_worker, pc_listening = False, pc_handler = False, pc_pump_up = new_worker,
     pc_pump_down = new_worker, pc_client_loop = False, pc_supervisor = new_worker, pc_sessions = False, pc_timers = False,
     pc_callback = False, pc_queue_open = True, pc_registry_open = True, pc_shadow_open = True\<rparr>"

definition teardown :: "relay_world \<Rightarrow> operation list" where
  "teardown w = [proxy_stop w, bridge_stop w, resync_stop w, devices_stop w, dashboard_stop w, queue_close, registry_close,
     reconciler_close, registrar_stop, shadow_close]"

text \<open>\<open>prime_local_subscription\<close> uses a client of its own and handles its failure, so it changes nothing here.\<close>

definition run_process :: "RelayConfig \<Rightarrow> relay_world \<Rightarrow> operation" where
  "run_process c w = run_all [dashboard_start (cf_web_enabled c), proxy_start w,
     try_finally (run_all [reconciler_start (cs_enabled (cf_camera_bridge c)), devices_start w, bridge_run_forever]) (run_all (teardown w))]"

definition relay_main :: "environ \<Rightarrow> relay_world \<Rightarrow> outcome \<times> Process option" where
  "relay_main env w = (case from_env env of
     Inl (ConfigError e) \<Rightarrow> (Raises (InvalidConfig e), None)
   | Inr c \<Rightarrow>
       (case validate_startup_configuration c of
         Inl _ \<Rightarrow> (Raises (ExitStatus 1), None)
       | Inr _ \<Rightarrow> map_prod id Some (run_process c w (build_process c))))"

text \<open>The interpreter ends when no thread is left that is not a daemon: the two camera threads.\<close>

definition runs :: "worker option \<Rightarrow> bool" where
  "runs k \<longleftrightarrow> (case k of None \<Rightarrow> False | Some x \<Rightarrow> wk_thread x = Alive)"

definition process_ends :: "Process \<Rightarrow> bool" where
  "process_ends p \<longleftrightarrow> \<not> runs (pc_registrar p) \<and> \<not> runs (pc_reconciler p)"

section \<open>Shutdown\<close>

lemma loops_return [simp]:
  "accept_returns s = s" "pump_returns s = s" "supervisor_returns s = s" "reconciler_returns s = s" "registrar_returns s = s"
  using loops_return_iff_stopped(1) [of "[(s, TimedOut :: unit accept_outcome)]"]
  by (simp_all add: accept_returns_def pump_returns_def supervisor_returns_def reconciler_returns_def registrar_returns_def
      loops_return_iff_stopped)

lemmas lifecycle_defs = try_finally_def on_worker_def new_worker_def start_worker_def set_stop_def join_worker_def join_forever_def
  dashboard_start_def dashboard_stop_def proxy_start_def proxy_stop_def pump_up_start_def pump_down_start_def pump_up_stop_def
  pump_down_stop_def client_loop_def bridge_run_forever_def bridge_stop_def resync_stop_def devices_start_def devices_stop_def
  reconciler_start_def reconciler_close_def registrar_stop_def queue_close_def registry_close_def shadow_close_def build_process_def
  teardown_def run_process_def runs_def Let_def

definition joins_in_time :: "relay_world \<Rightarrow> bool" where
  "joins_in_time w \<longleftrightarrow> rw_accept_joins w \<and> rw_pump_up_joins w \<and> rw_pump_down_joins w \<and> rw_supervisor_joins w \<and> rw_dashboard_joins w"

text \<open>
  No socket is open and no database; the process ends. Unless a device is reported online during the
  shutdown, there is no cloud session and no waiting timer, and no thread runs but those whose \<open>join\<close> ran
  out of time, connection handlers and timer callbacks.
\<close>

definition shut_down :: "relay_world \<Rightarrow> Process \<Rightarrow> bool" where
  "shut_down w p \<longleftrightarrow> process_ends p \<and> \<not> pc_listening p \<and> \<not> pc_client_loop p \<and>
     \<not> pc_queue_open p \<and> \<not> pc_registry_open p \<and> \<not> pc_shadow_open p \<and>
     (\<not> rw_late_report w \<longrightarrow> \<not> pc_sessions p \<and> \<not> pc_timers p) \<and>
     (joins_in_time w \<longrightarrow> Alive \<notin> wk_thread ` {pc_accept p, pc_pump_up p, pc_pump_down p, pc_supervisor p} \<and> \<not> runs (pc_dashboard p))"

lemma run_process_shuts_down:
  assumes "rw_port_free w" "rw_devices_fail w = None"
  shows "\<exists>p. run_process c w (build_process c) = (Done, p) \<and> shut_down w p"
  using assms by (cases "cf_web_enabled c"; cases "cs_enabled (cf_camera_bridge c)")
    (simp_all add: lifecycle_defs shut_down_def joins_in_time_def process_ends_def)

text \<open>
  C31: A relay with an accepted configuration whose listening port is free and whose devices start ends on a
  stop signal: its shutdown neither raises nor blocks, the two camera threads that would keep the process
  alive have ended because their loops read the stop events that were set, and the listening socket, the
  local client and the databases are closed. Without a device reported online meanwhile no cloud session
  and no timer is left. This holds whatever threads exceed the time-out of their join, and whatever
  connection handlers or timer callbacks still run.
\<close>

theorem relay_shuts_down:
  assumes "from_env env = Inr c" "validate_startup_configuration c = Inr ()" "rw_port_free w" "rw_devices_fail w = None"
  shows "\<exists>p. relay_main env w = (Done, Some p) \<and> shut_down w p"
  using run_process_shuts_down [OF assms(3,4), of c] assms(1,2) by (auto simp: relay_main_def)

section \<open>Order of the shutdown\<close>

text \<open>The states a sequence of operations goes through.\<close>

fun states :: "operation list \<Rightarrow> Process \<Rightarrow> Process list" where
  "states [] p = [p]"
| "states (f # fs) p = p # (case f p of (Done, p1) \<Rightarrow> states fs p1 | (_, p1) \<Rightarrow> [p1])"

text \<open>
  No database is closed while a thread runs that reads or writes it: connection handlers use the registry
  and the shadow, callbacks of timers the shadow.
\<close>

definition stores_safe :: "Process \<Rightarrow> bool" where
  "stores_safe p \<longleftrightarrow>
     (\<not> pc_queue_open p \<longrightarrow> Alive \<notin> wk_thread ` {pc_pump_up p, pc_pump_down p} \<and> \<not> pc_client_loop p \<and> \<not> pc_sessions p \<and> \<not> runs (pc_dashboard p)) \<and>
     (\<not> pc_registry_open p \<longrightarrow> Alive \<notin> wk_thread ` {pc_accept p, pc_supervisor p} \<and> \<not> pc_handler p \<and> \<not> runs (pc_dashboard p)) \<and>
     (\<not> pc_shadow_open p \<longrightarrow> Alive \<notin> wk_thread ` {pc_pump_up p, pc_pump_down p, pc_supervisor p} \<and> \<not> pc_client_loop p \<and> \<not> pc_sessions p \<and>
        \<not> pc_timers p \<and> \<not> pc_callback p \<and> \<not> pc_handler p \<and> \<not> runs (pc_dashboard p) \<and> \<not> runs (pc_reconciler p) \<and> \<not> runs (pc_registrar p))"

definition startup :: "RelayConfig \<Rightarrow> relay_world \<Rightarrow> operation list" where
  "startup c w = [dashboard_start (cf_web_enabled c), proxy_start w, reconciler_start (cs_enabled (cf_camera_bridge c)), devices_start w, bridge_run_forever]"

text \<open>No connection handler and no timer callback runs during the shutdown, and no device is reported online.\<close>

definition no_stragglers :: "relay_world \<Rightarrow> bool" where
  "no_stragglers w \<longleftrightarrow> \<not> rw_handler_runs w \<and> \<not> rw_callback_runs w \<and> \<not> rw_late_report w"

text \<open>
  C32: When no join runs out of time and, during the shutdown, no handler of a feeder connection and no
  callback of a resync timer runs and the supervisor reports no device online, the shutdown never closes a
  database while a thread that uses it is alive: not in any state between two of its operations, also after
  a start that failed half-way.
\<close>

theorem stores_outlive_their_users:
  assumes "joins_in_time w" "no_stragglers w"
  shows "list_all stores_safe (states (teardown w) (snd (run_all (startup c w) (build_process c))))"
  using assms by (cases "cf_web_enabled c"; cases "cs_enabled (cf_camera_bridge c)"; cases "rw_port_free w"; cases "rw_devices_fail w")
    (simp_all add: lifecycle_defs startup_def stores_safe_def joins_in_time_def no_stragglers_def)

text \<open>
  The condition is needed: a handler of an open connection still runs when the registry and the shadow are
  closed, and so does a callback, or a timer that the supervisor started after the coordinator was stopped,
  when the shadow is closed.
\<close>

theorem stragglers_outlive_stores:
  assumes "rw_port_free w" "rw_devices_fail w = None" "\<not> no_stragglers w"
  shows "\<not> stores_safe (snd (run_process c w (build_process c)))"
  using assms by (cases "cf_web_enabled c"; cases "cs_enabled (cf_camera_bridge c)")
    (auto simp: lifecycle_defs stores_safe_def no_stragglers_def)

section \<open>Failed starts\<close>

text \<open>
  When the listening port is taken, \<open>main\<close> raises before its \<open>try\<close>. With the camera bridge enabled the
  registrar's thread runs already, is not a daemon and is never told to stop: the process does not end.
\<close>

theorem port_in_use_hangs:
  assumes "\<not> rw_port_free w" "cs_enabled (cf_camera_bridge c)"
  shows "fst (run_process c w (build_process c)) = Raises PortInUse \<and> \<not> process_ends (snd (run_process c w (build_process c)))"
  using assms by (simp add: lifecycle_defs process_ends_def)

text \<open>
  When the devices cannot be started, the pumps have no running thread and joining them raises: the rest of
  the shutdown is skipped, and the first exception is lost from the result.
\<close>

theorem failed_device_start_skips_teardown:
  assumes "rw_port_free w" "rw_devices_fail w = Some e"
  shows "\<exists>p. run_process c w (build_process c) = (Raises (ThreadError ''cannot join thread before it is started''), p) \<and>
    pc_sessions p \<and> pc_timers p \<and> pc_queue_open p \<and> pc_registry_open p \<and> pc_shadow_open p \<and> (cs_enabled (cf_camera_bridge c) \<longrightarrow> \<not> process_ends p)"
  using assms by (cases "cf_web_enabled c"; cases "cs_enabled (cf_camera_bridge c)") (simp_all add: lifecycle_defs process_ends_def)

definition quiet_world :: relay_world where
  "quiet_world = \<lparr>rw_port_free = True, rw_devices_fail = None, rw_accept_joins = True, rw_pump_up_joins = True, rw_pump_down_joins = True,
     rw_supervisor_joins = True, rw_dashboard_joins = True, rw_handler_runs = False, rw_callback_runs = False, rw_late_report = False\<rparr>"

theorem relay_shuts_down_witness: "\<exists>p. relay_main [] quiet_world = (Done, Some p) \<and> shut_down quiet_world p"
proof -
  obtain c where "from_env [] = Inr c" "validate_startup_configuration c = Inr ()" using defaults_accepted unfolding reads_iff by blast
  then show ?thesis using relay_shuts_down [of "[]" c quiet_world] by (simp add: quiet_world_def)
qed

theorem stores_outlive_their_users_witness:
  "\<exists>c. from_env [] = Inr c \<and> joins_in_time quiet_world \<and>
    list_all stores_safe (states (teardown quiet_world) (snd (run_all (startup c quiet_world) (build_process c))))"
proof -
  obtain c where "from_env [] = Inr c" using defaults_accepted unfolding reads_iff by blast
  moreover have "joins_in_time quiet_world" "no_stragglers quiet_world" by (simp_all add: joins_in_time_def no_stragglers_def quiet_world_def)
  ultimately show ?thesis using stores_outlive_their_users by blast
qed

end
