(* ===== verification/State_Cache.thy ===== *)
theory State_Cache
  imports Device_Context
begin

text \<open>
  \<^verbatim>\<open>state_cache.py\<close>: the last payload of every topic, kept in memory and in a file. The file is its decoded
  content: absent, not readable or not JSON, bytes that are not UTF-8, or the entries that \<open>json.dump\<close> wrote,
  which \<open>json.load\<close> reads back. Only the first two give an empty cache; \<open>UnicodeDecodeError\<close> is not caught. A
  write goes to a temporary file that replaces the old one, so a failure at any moment leaves the old
  content in place. The lemmas show that a restart finds exactly the entries of the last successful
  write, and that a message whose entry cannot be written is lost: the exception leaves the handler of
  \<^verbatim>\<open>device_context.py\<close> before the message is queued.
\<close>

type_synonym cache_entries = "(string, json \<times> seconds) dict"

datatype cache_file = Missing | Unreadable | NotUtf8 | Written cache_entries

record StateCache =
  ca_file :: cache_file
  ca_entries :: cache_entries

datatype cache_error = OSError | UnicodeDecodeError

definition load_cache :: "cache_file \<Rightarrow> cache_error + cache_entries" where
  "load_cache f = (case f of Missing \<Rightarrow> Inr [] | Unreadable \<Rightarrow> Inr [] | NotUtf8 \<Rightarrow> Inl UnicodeDecodeError | Written es \<Rightarrow> Inr es)"

definition open_cache :: "cache_file \<Rightarrow> cache_error + StateCache" where
  "open_cache f = bind_res (load_cache f) (\<lambda>es. Inr \<lparr>ca_file = f, ca_entries = es\<rparr>)"

text \<open>\<open>ok\<close> says whether the temporary file was written and moved.\<close>

definition flush_locked :: "bool \<Rightarrow> StateCache \<Rightarrow> (cache_error + unit) \<times> StateCache" where
  "flush_locked ok c = (if ok then (Inr (), c\<lparr>ca_file := Written (ca_entries c)\<rparr>) else (Inl OSError, c))"

definition cache_put :: "seconds \<Rightarrow> bool \<Rightarrow> string \<Rightarrow> bytes \<Rightarrow> StateCache \<Rightarrow> (cache_error + unit) \<times> StateCache" where
  "cache_put now ok topic payload c = flush_locked ok (c\<lparr>ca_entries := cache_update now topic payload (ca_entries c)\<rparr>)"

definition cache_snapshot :: "StateCache \<Rightarrow> cache_entries" where
  "cache_snapshot c = ca_entries c"

text \<open>A run: messages with the moment, the outcome of the write, the topic and the payload.\<close>

type_synonym cache_write = "seconds \<times> bool \<times> string \<times> bytes"

definition cache_run :: "cache_write list \<Rightarrow> StateCache \<Rightarrow> StateCache" where
  "cache_run ws c = fold (\<lambda>(now, ok, topic, payload) c. snd (cache_put now ok topic payload c)) ws c"

lemma cache_run_snoc [simp]: "cache_run (ws @ [(now, ok, topic, payload)]) c = snd (cache_put now ok topic payload (cache_run ws c))"
  by (simp add: cache_run_def)

text \<open>The last payload of a topic in a list of messages.\<close>

fun last_payload :: "cache_write list \<Rightarrow> string \<Rightarrow> (json \<times> seconds) option" where
  "last_payload [] topic = None"
| "last_payload ((now, ok, t, payload) # ws) topic =
     (case last_payload ws topic of Some x \<Rightarrow> Some x | None \<Rightarrow> if t = topic then Some (decode_payload payload, now) else None)"

lemma last_payload_snoc [simp]:
  "last_payload (ws @ [(now, ok, t, payload)]) topic = (if t = topic then Some (decode_payload payload, now) else last_payload ws topic)"
  by (induction ws topic rule: last_payload.induct) auto

lemma cache_run_entries:
  "dict_get (ca_entries (cache_run ws c)) topic =
    (case last_payload ws topic of Some x \<Rightarrow> Some x | None \<Rightarrow> dict_get (ca_entries c) topic)"
proof (induction ws rule: rev_induct)
  case Nil
  then show ?case by (simp add: cache_run_def)
next
  case (snoc w ws)
  obtain now ok t payload where w: "w = (now, ok, t, payload)" by (cases w)
  from snoc show ?case
    by (auto simp: w cache_put_def flush_locked_def cache_update_def split: option.splits)
qed

text \<open>The messages up to and including the last one that was written.\<close>

definition durable :: "cache_write list \<Rightarrow> cache_write list" where
  "durable ws = rev (dropWhile (\<lambda>(now, ok, topic, payload). \<not> ok) (rev ws))"

lemma durable_snoc [simp]: "durable (ws @ [(now, ok, topic, payload)]) = (if ok then ws @ [(now, ok, topic, payload)] else durable ws)"
  by (simp add: durable_def)

lemma cache_run_file:
  assumes "load_cache (ca_file c) = Inr (ca_entries c)"
  shows "load_cache (ca_file (cache_run ws c)) = Inr (ca_entries (cache_run (durable ws) c))"
proof (induction ws rule: rev_induct)
  case Nil
  with assms show ?case by (simp add: cache_run_def durable_def)
next
  case (snoc w ws)
  obtain now ok t payload where w: "w = (now, ok, t, payload)" by (cases w)
  from snoc show ?case
    by (cases ok) (simp_all add: w cache_put_def flush_locked_def load_cache_def)
qed

text \<open>
  C38: Whatever writes succeed or fail after the cache was opened, it can be opened again after a restart of
  the relay, which finds for every topic the last payload among the messages up to the last successful
  write, and what the earlier file held for the topics without one.
\<close>

theorem cache_survives_restart:
  assumes "open_cache f = Inr c"
  shows "\<exists>c'. open_cache (ca_file (cache_run ws c)) = Inr c' \<and> dict_get (cache_snapshot c') topic =
    (case last_payload (durable ws) topic of Some x \<Rightarrow> Some x | None \<Rightarrow> dict_get (cache_snapshot c) topic)"
proof -
  have "load_cache (ca_file c) = Inr (ca_entries c)" using assms by (auto simp: open_cache_def bind_res_Inr)
  from cache_run_file [OF this, of ws] show ?thesis
    unfolding cache_snapshot_def by (simp add: open_cache_def cache_run_entries)
qed

theorem cache_survives_restart_witness:
  "\<exists>c'. open_cache (ca_file (cache_run [(1, True, ''t'', ''1''), (2, False, ''t'', ''2''), (3, False, ''u'', ''3'')]
      \<lparr>ca_file = Written [(''u'', JInt 0, 0)], ca_entries = [(''u'', JInt 0, 0)]\<rparr>)) = Inr c' \<and>
    dict_get (cache_snapshot c') ''t'' = Some (decode_payload ''1'', 1)"
proof -
  let ?f = "Written [(''u'', JInt 0, 0)]" and ?ws = "[(1, True, ''t'', ''1''), (2, False, ''t'', ''2''), (3, False, ''u'', ''3'')] :: cache_write list"
  have "open_cache ?f = Inr \<lparr>ca_file = ?f, ca_entries = [(''u'', JInt 0, 0)]\<rparr>" by (simp add: open_cache_def load_cache_def)
  from cache_survives_restart [OF this, of ?ws "''t''"] show ?thesis by (simp add: durable_def)
qed

text \<open>A file that is not UTF-8 is not an empty cache: opening it raises.\<close>

lemma invalid_utf8_is_not_recovered: "open_cache NotUtf8 = Inl UnicodeDecodeError"
  by (simp add: open_cache_def load_cache_def)

lemma failed_flush_raises:
  "fst (cache_put now False topic payload c) = Inl OSError"
  "ca_file (snd (cache_put now False topic payload c)) = ca_file c"
  "dict_get (ca_entries (snd (cache_put now False topic payload c))) topic = Some (decode_payload payload, now)"
  by (simp_all add: cache_put_def flush_locked_def cache_update_def)

section \<open>A message and its cache entry\<close>

text \<open>
  A message of a feeder is cached before anything else is done with it. When the write fails, the exception
  leaves the handler: the result is the exception with the state it leaves behind. Otherwise the message
  takes the route of \<open>Device_Context\<close>.
\<close>

definition handle_local_on_disk :: "bool \<Rightarrow> cache_file \<Rightarrow> seconds \<Rightarrow> string \<Rightarrow> zone \<Rightarrow> string \<Rightarrow> bytes \<Rightarrow> int \<Rightarrow> DeviceContext \<times> SharedStores \<Rightarrow>
    ((cache_error \<times> DeviceContext \<times> SharedStores) + (ResponderAction option \<times> DeviceContext \<times> SharedStores) option) \<times> cache_file" where
  "handle_local_on_disk ok f now fresh_id zone topic payload qos xs =
    (case cache_put now ok topic payload \<lparr>ca_file = f, ca_entries = sx_cache (snd xs)\<rparr> of
       (Inl e, c) \<Rightarrow> (Inl (e, fst xs, (snd xs)\<lparr>sx_cache := ca_entries c\<rparr>), ca_file c)
     | (Inr _, c) \<Rightarrow> (Inr (handle_local_message now True fresh_id zone topic payload qos xs), ca_file c))"

text \<open>A message whose cache entry cannot be written is neither queued nor answered, although it is cached in memory.\<close>

theorem failed_cache_write_loses_message:
  "\<exists>s. fst (handle_local_on_disk False f now fresh_id zone topic payload qos (x, s0)) = Inl (OSError, x, s) \<and>
    sx_queue s = sx_queue s0 \<and> dict_get (sx_cache s) topic = Some (decode_payload payload, now)"
  using failed_flush_raises [of now topic payload "\<lparr>ca_file = f, ca_entries = sx_cache s0\<rparr>"]
  by (auto simp: handle_local_on_disk_def split: prod.split)

text \<open>When the write succeeds, the message takes its usual route and the file holds the cache with the new entry.\<close>

lemma successful_write_keeps_file_current:
  assumes "handle_local_on_disk True f now fresh_id zone topic payload qos xs = (Inr (Some (action, x', s')), f')"
  shows "handle_local_message now True fresh_id zone topic payload qos xs = Some (action, x', s')" "load_cache f' = Inr (cache_update now topic payload (sx_cache (snd xs)))"
  using assms by (auto simp: handle_local_on_disk_def cache_put_def flush_locked_def load_cache_def)

end
