(* ===== verification/Mosquitto_Config.thy ===== *)
theory Mosquitto_Config
  imports Relay_Config
begin

text \<open>
  \<^verbatim>\<open>mosquitto_config.py\<close>: the configuration file of the local broker, rendered from environment variables.
  The template is the file \<^verbatim>\<open>templates/mosquitto.conf.template\<close>; \<open>substitute\<close> is \<open>string.Template.substitute\<close>
  with its three kinds of placeholder. The lemmas show that rendering the shipped template never fails
  and leaves no placeholder, for any values of the settings.
\<close>

definition DEFAULT_OUTPUT_PATH :: string where "DEFAULT_OUTPUT_PATH = ''/mosquitto-config/mosquitto.conf''"

record MosquittoConfig =
  mc_listener_port :: int
  mc_allow_anonymous :: string
  mc_persistent_client_expiration :: string
  mc_queue_qos0_messages :: string
  mc_max_queued_messages :: int
  mc_output_path :: string

definition mosquitto_from_env :: "environ \<Rightarrow> config_error + MosquittoConfig" where
  "mosquitto_from_env env =
     bind_res (env_int env ''MOSQUITTO_LISTENER_PORT'' 1883) (\<lambda>port.
     bind_res (env_int env ''MOSQUITTO_MAX_QUEUED_MESSAGES'' 1000) (\<lambda>queued.
     Inr \<lparr>mc_listener_port = port, mc_allow_anonymous = env_str env ''MOSQUITTO_ALLOW_ANONYMOUS'' ''true'',
       mc_persistent_client_expiration = env_str env ''MOSQUITTO_PERSISTENT_CLIENT_EXPIRATION'' ''7d'',
       mc_queue_qos0_messages = env_str env ''MOSQUITTO_QUEUE_QOS0_MESSAGES'' ''true'', mc_max_queued_messages = queued,
       mc_output_path = env_str env ''MOSQUITTO_CONFIG_OUTPUT_PATH'' DEFAULT_OUTPUT_PATH\<rparr>))"

section \<open>Templates\<close>

datatype template_error = KeyError string | InvalidPlaceholder

definition is_id_start :: "char \<Rightarrow> bool" where
  "is_id_start c \<longleftrightarrow> (let n = (of_char c :: nat) in n = 95 \<or> 65 \<le> n \<and> n \<le> 90 \<or> 97 \<le> n \<and> n \<le> 122)"

definition is_id_char :: "char \<Rightarrow> bool" where
  "is_id_char c \<longleftrightarrow> is_id_start c \<or> is_digit c"

text \<open>A placeholder after the dollar sign: its replacement and the rest of the text.\<close>

definition placeholder :: "(string, string) dict \<Rightarrow> string \<Rightarrow> template_error + string \<times> string" where
  "placeholder m s = (case s of
     [] \<Rightarrow> Inl InvalidPlaceholder
   | c # cs \<Rightarrow>
       if c = CHR ''$'' then Inr (''$'', cs)
       else
         let braced = (c = CHR ''{'');
             body = (if braced then cs else s);
             name = takeWhile is_id_char body;
             after = dropWhile is_id_char body
         in if name = [] \<or> \<not> is_id_start (hd name) \<or> (braced \<and> \<not> prefix ''}'' after) then Inl InvalidPlaceholder
            else (case dict_get m name of
              None \<Rightarrow> Inl (KeyError name)
            | Some v \<Rightarrow> Inr (v, if braced then tl after else after)))"

lemma placeholder_shorter: "placeholder m s = Inr (v, rest) \<Longrightarrow> length rest \<le> length s"
proof -
  assume p: "placeholder m s = Inr (v, rest)"
  have d: "length (dropWhile is_id_char xs) \<le> length xs" for xs by (rule length_dropWhile_le)
  have t: "length (tl (dropWhile is_id_char xs)) \<le> Suc (length xs)" for xs
    using d [of xs] by simp
  obtain c cs where s: "s = c # cs" using p by (cases s) (simp_all add: placeholder_def)
  show ?thesis
  proof (cases "c = CHR ''$''")
    case True
    then show ?thesis using p by (simp add: s placeholder_def)
  next
    case False
    define braced body where "braced \<longleftrightarrow> c = CHR ''{''" and "body = (if braced then cs else s)"
    have "rest = (if braced then tl (dropWhile is_id_char body) else dropWhile is_id_char body)"
      using p False unfolding placeholder_def s list.case braced_def [symmetric] body_def [unfolded s, symmetric] Let_def
      by (auto simp del: dropWhile.simps split: if_split_asm option.splits)
    then show ?thesis using t [of cs] d [of s] by (auto simp: body_def s simp del: dropWhile.simps)
  qed
qed

function substitute :: "(string, string) dict \<Rightarrow> string \<Rightarrow> template_error + string" where
  "substitute m [] = Inr []"
| "substitute m (c # cs) =
     (if c \<noteq> CHR ''$'' then map_sum id (Cons c) (substitute m cs)
      else (case placeholder m cs of
        Inl e \<Rightarrow> Inl e
      | Inr (v, rest) \<Rightarrow> map_sum id (append v) (substitute m rest)))"
  by pat_completeness auto
termination
  by (relation "measure (\<lambda>(m, s). length s)") (auto dest: placeholder_shorter simp: less_Suc_eq_le)

definition settings_of :: "MosquittoConfig \<Rightarrow> (string, string) dict" where
  "settings_of c =
    [(''MOSQUITTO_LISTENER_PORT'', show_int (mc_listener_port c)), (''MOSQUITTO_ALLOW_ANONYMOUS'', mc_allow_anonymous c),
     (''MOSQUITTO_PERSISTENT_CLIENT_EXPIRATION'', mc_persistent_client_expiration c),
     (''MOSQUITTO_QUEUE_QOS0_MESSAGES'', mc_queue_qos0_messages c), (''MOSQUITTO_MAX_QUEUED_MESSAGES'', show_int (mc_max_queued_messages c))]"

definition render :: "string \<Rightarrow> MosquittoConfig \<Rightarrow> template_error + string" where
  "render template_text c = substitute (settings_of c) template_text"

text \<open>
  Writing: \<open>dir_ok\<close> says whether the directory of the file can be made, \<open>ok\<close> whether the file takes
  the text. \<open>DirFailed\<close> and \<open>WriteFailed\<close> are the two places where an \<open>OSError\<close> leaves the function.
\<close>

datatype write_outcome = WroteFile string string | DirFailed | RenderFailed template_error | WriteFailed

definition write_config :: "bool \<Rightarrow> bool \<Rightarrow> string \<Rightarrow> MosquittoConfig \<Rightarrow> write_outcome" where
  "write_config dir_ok ok template_text c =
    (if \<not> dir_ok then DirFailed
     else (case render template_text c of
       Inl e \<Rightarrow> RenderFailed e
     | Inr s \<Rightarrow> if ok then WroteFile (mc_output_path c) s else WriteFailed))"

definition mosquitto_main :: "bool \<Rightarrow> bool \<Rightarrow> string \<Rightarrow> environ \<Rightarrow> config_error + write_outcome" where
  "mosquitto_main dir_ok ok template_text env = bind_res (mosquitto_from_env env) (\<lambda>c. Inr (write_config dir_ok ok template_text c))"

section \<open>The shipped template\<close>

definition TEMPLATE_LINES :: "string list" where
  \<open>TEMPLATE_LINES =
    [''# Rendered by `petlibro_relay.mosquitto_config` (run once as the'',
     ''# "mosquitto-config" service) from the environment variables of that'',
     ''# container, then written to a volume the stock, unmodified mosquitto'',
     ''# image mounts read-only. Every tunable value below comes from the'',
     ''# environment - nothing is hardcoded in an image.'',
     ''#'',
     ''# Local broker the PLAF203 feeder connects to once DNS for mqtt.us.petlibro.com'',
     ''# is redirected to this host. No TLS/auth to mirror what the real device speaks'',
     ''# (plain MQTT 3.1 on 1883, no TLS) - this broker is only reachable on the LAN.'',
     ''listener ${MOSQUITTO_LISTENER_PORT} 0.0.0.0'',
     ''allow_anonymous ${MOSQUITTO_ALLOW_ANONYMOUS}'',
     [],
     ''persistence true'',
     ''persistence_location /mosquitto/data/'',
     ''persistent_client_expiration ${MOSQUITTO_PERSISTENT_CLIENT_EXPIRATION}'',
     [],
     ''# The feeder connects with clean_session=false and QoS 0; without this,'',
     ''# mosquitto drops QoS 0 messages for a temporarily offline client instead of'',
     ''# holding them for its persistent session.'',
     ''queue_qos0_messages ${MOSQUITTO_QUEUE_QOS0_MESSAGES}'',
     ''max_queued_messages ${MOSQUITTO_MAX_QUEUED_MESSAGES}'',
     [],
     ''log_dest stdout'',
     ''log_type error'',
     ''log_type warning'',
     ''log_type notice'',
     []]\<close>

definition newline :: string where "newline = [CHR 0x0A]"

definition TEMPLATE :: string where "TEMPLATE = join newline TEMPLATE_LINES"

section \<open>Rendering\<close>

lemma substitute_plain: "CHR ''$'' \<notin> set xs \<Longrightarrow> substitute m (xs @ ys) = map_sum id (append xs) (substitute m ys)"
proof (induction xs)
  case Nil
  then show ?case by (cases "substitute m ys") simp_all
next
  case (Cons x xs)
  then show ?case by (cases "substitute m ys") auto
qed

text \<open>A text of literal pieces and placeholders in braces.\<close>

datatype piece = Lit string | Var string

fun piece_text :: "piece \<Rightarrow> string" where
  "piece_text (Lit s) = s"
| "piece_text (Var name) = ''${'' @ name @ ''}''"

fun piece_ok :: "(string, string) dict \<Rightarrow> piece \<Rightarrow> bool" where
  "piece_ok m (Lit s) \<longleftrightarrow> CHR ''$'' \<notin> set s"
| "piece_ok m (Var name) \<longleftrightarrow> name \<noteq> [] \<and> is_id_start (hd name) \<and> list_all is_id_char name \<and> dict_get m name \<noteq> None"

fun piece_value :: "(string, string) dict \<Rightarrow> piece \<Rightarrow> string" where
  "piece_value m (Lit s) = s"
| "piece_value m (Var name) = the (dict_get m name)"

lemma brace_no_id: "\<not> is_id_char CHR ''}''" "CHR ''{'' \<noteq> CHR ''$''"
  by code_simp+

lemma placeholder_braced:
  assumes "piece_ok m (Var name)"
  shows "placeholder m (CHR ''{'' # name @ CHR ''}'' # ys) = Inr (the (dict_get m name), ys)"
proof -
  from assms have n: "name \<noteq> []" "is_id_start (hd name)" "\<forall>c\<in>set name. is_id_char c" "dict_get m name \<noteq> None"
    by (simp_all add: list_all_iff)
  then have "takeWhile is_id_char (name @ CHR ''}'' # ys) = name" "dropWhile is_id_char (name @ CHR ''}'' # ys) = CHR ''}'' # ys"
    using brace_no_id by (simp_all add: takeWhile_append2 dropWhile_append2)
  with n show ?thesis by (auto simp: placeholder_def Let_def)
qed

lemma substitute_pieces:
  "list_all (piece_ok m) ps \<Longrightarrow> substitute m (concat (map piece_text ps)) = Inr (concat (map (piece_value m) ps))"
proof (induction ps)
  case (Cons p ps)
  then show ?case
  proof (cases p)
    case (Lit s)
    with Cons show ?thesis by (simp add: substitute_plain)
  next
    case (Var name)
    with Cons have ok: "piece_ok m (Var name)" by simp
    have "substitute m (piece_text p @ concat (map piece_text ps)) =
        map_sum id (append (the (dict_get m name))) (substitute m (concat (map piece_text ps)))"
      using placeholder_braced [OF ok] by (simp add: Var)
    with Cons show ?thesis by (simp add: Var)
  qed
qed simp

definition TEMPLATE_PIECES :: "piece list" where
  "TEMPLATE_PIECES =
    [Lit (join newline (take 9 TEMPLATE_LINES) @ newline @ ''listener ''), Var ''MOSQUITTO_LISTENER_PORT'',
     Lit ('' 0.0.0.0'' @ newline @ ''allow_anonymous ''), Var ''MOSQUITTO_ALLOW_ANONYMOUS'',
     Lit (newline @ join newline (take 3 (drop 11 TEMPLATE_LINES)) @ newline @ ''persistent_client_expiration ''),
     Var ''MOSQUITTO_PERSISTENT_CLIENT_EXPIRATION'',
     Lit (newline @ join newline (take 4 (drop 15 TEMPLATE_LINES)) @ newline @ ''queue_qos0_messages ''), Var ''MOSQUITTO_QUEUE_QOS0_MESSAGES'',
     Lit (newline @ ''max_queued_messages ''), Var ''MOSQUITTO_MAX_QUEUED_MESSAGES'', Lit (newline @ join newline (drop 21 TEMPLATE_LINES))]"

lemma template_pieces: "TEMPLATE = concat (map piece_text TEMPLATE_PIECES)"
  by (simp add: TEMPLATE_def TEMPLATE_PIECES_def TEMPLATE_LINES_def)

lemma literals_checked:
  "list_all (\<lambda>p. case p of Lit s \<Rightarrow> list_all (\<lambda>c. c \<noteq> CHR ''$'') s | Var _ \<Rightarrow> True) TEMPLATE_PIECES"
  by code_simp

lemma literals_plain: "Lit s \<in> set TEMPLATE_PIECES \<Longrightarrow> CHR ''$'' \<notin> set s"
  using literals_checked by (force simp: list_all_iff)

lemma settings_are_names: "list_all (\<lambda>(name, v). name \<noteq> [] \<and> is_id_start (hd name) \<and> list_all is_id_char name) (settings_of c)"
proof -
  have "list_all (\<lambda>name. name \<noteq> [] \<and> is_id_start (hd name) \<and> list_all is_id_char name)
      [''MOSQUITTO_LISTENER_PORT'', ''MOSQUITTO_ALLOW_ANONYMOUS'', ''MOSQUITTO_PERSISTENT_CLIENT_EXPIRATION'',
       ''MOSQUITTO_QUEUE_QOS0_MESSAGES'', ''MOSQUITTO_MAX_QUEUED_MESSAGES'']"
    by (simp add: is_id_char_def is_id_start_def is_digit_def)
  then show ?thesis unfolding settings_of_def list.pred_inject case_prod_conv by simp
qed

lemma settings_lookup:
  "dict_get (settings_of c) ''MOSQUITTO_LISTENER_PORT'' = Some (show_int (mc_listener_port c))"
  "dict_get (settings_of c) ''MOSQUITTO_ALLOW_ANONYMOUS'' = Some (mc_allow_anonymous c)"
  "dict_get (settings_of c) ''MOSQUITTO_PERSISTENT_CLIENT_EXPIRATION'' = Some (mc_persistent_client_expiration c)"
  "dict_get (settings_of c) ''MOSQUITTO_QUEUE_QOS0_MESSAGES'' = Some (mc_queue_qos0_messages c)"
  "dict_get (settings_of c) ''MOSQUITTO_MAX_QUEUED_MESSAGES'' = Some (show_int (mc_max_queued_messages c))"
  by (simp_all add: settings_of_def)

lemma variables_known: "Var name \<in> set TEMPLATE_PIECES \<Longrightarrow> piece_ok (settings_of c) (Var name)"
proof -
  assume "Var name \<in> set TEMPLATE_PIECES"
  then have "name \<in> {''MOSQUITTO_LISTENER_PORT'', ''MOSQUITTO_ALLOW_ANONYMOUS'', ''MOSQUITTO_PERSISTENT_CLIENT_EXPIRATION'',
      ''MOSQUITTO_QUEUE_QOS0_MESSAGES'', ''MOSQUITTO_MAX_QUEUED_MESSAGES''}"
    unfolding TEMPLATE_PIECES_def list.set insert_iff piece.inject piece.distinct by simp
  then obtain v where v: "dict_get (settings_of c) name = Some v" using settings_lookup [of c] by blast
  with settings_are_names [of c] map_of_SomeD [OF v] show ?thesis by (auto simp: list_all_iff)
qed

text \<open>
  Rendering the shipped template succeeds for every configuration, and the file is the template with
  each of the five placeholders replaced by its setting, and nothing else changed.
\<close>

theorem template_renders:
  "render TEMPLATE c = Inr (
     join newline (take 9 TEMPLATE_LINES) @ newline @ ''listener '' @ show_int (mc_listener_port c) @ '' 0.0.0.0'' @ newline @
     ''allow_anonymous '' @ mc_allow_anonymous c @ newline @ join newline (take 3 (drop 11 TEMPLATE_LINES)) @ newline @
     ''persistent_client_expiration '' @ mc_persistent_client_expiration c @ newline @
     join newline (take 4 (drop 15 TEMPLATE_LINES)) @ newline @ ''queue_qos0_messages '' @ mc_queue_qos0_messages c @ newline @
     ''max_queued_messages '' @ show_int (mc_max_queued_messages c) @ newline @ join newline (drop 21 TEMPLATE_LINES))"
proof -
  have "list_all (piece_ok (settings_of c)) TEMPLATE_PIECES"
    unfolding list_all_iff
  proof
    fix p
    assume p: "p \<in> set TEMPLATE_PIECES"
    show "piece_ok (settings_of c) p"
    proof (cases p)
      case (Lit s)
      with p literals_plain show ?thesis by simp
    next
      case (Var name)
      with p variables_known show ?thesis by blast
    qed
  qed
  from substitute_pieces [OF this] show ?thesis
    unfolding render_def template_pieces by (simp add: TEMPLATE_PIECES_def settings_lookup)
qed

end
