(* ===== verification/Motion_Probe.thy ===== *)
theory Motion_Probe
  imports Relay_Config Sanitizer Local_Responder
begin

text \<open>
  \<^verbatim>\<open>tools/motion_detection_probe.py\<close>: a command line experiment that flips one setting of one feeder,
  watches the local messages for a while and puts the original value back.

  The callbacks of the MQTT client are operations on the state of the probe. A run reads from a
  \<open>probe_world\<close> what happens around it: the callbacks that run before each wait ends, the fate of each of
  the two publications, the clock that the observation loops read, and an interrupt from the keyboard
  during a wait or a sleep. An exception is a value, \<open>finally\<close> a function applied to every outcome of the
  body, and a loop that never ends is \<^const>\<open>None\<close>. The options are those that \<open>argparse\<close> found on the
  command line.

  The lemmas show what is published, that the original value is restored after every confirmed test, and
  that every run ends; three more describe cases in which a run ends without the restoration it promises.
\<close>

definition TARGET_DEVICE_ID :: string where "TARGET_DEVICE_ID = ''AF03040302A2B5B2CD60''"
definition TARGET_PRODUCT_ID :: string where "TARGET_PRODUCT_ID = ''PLAF203''"
definition POLL_INTERVAL_SECONDS :: rat where "POLL_INTERVAL_SECONDS = 1 / 4"
definition MIN_OBSERVE_SECONDS :: int where "MIN_OBSERVE_SECONDS = 15"
definition MAX_TEST_OBSERVE_SECONDS :: int where "MAX_TEST_OBSERVE_SECONDS = 300"
definition MAX_RESTORE_OBSERVE_SECONDS :: int where "MAX_RESTORE_OBSERVE_SECONDS = 120"
definition CLIENT_ID_PREFIX :: string where "CLIENT_ID_PREFIX = ''motion-probe-''"
definition MQTT_31_CLIENT_ID_LIMIT :: nat where "MQTT_31_CLIENT_ID_LIMIT = 23"

section \<open>State\<close>

record Observation =
  ob_timestamp :: seconds
  ob_source :: string
  ob_topic :: string
  ob_payload :: json

record ProbeReport =
  rp_status :: string
  rp_device_id :: string
  rp_original_value :: bool
  rp_test_value :: bool
  rp_test_msg_id :: "string option"
  rp_restore_msg_id :: "string option"
  rp_observations :: "Observation list"

text \<open>
  Beside the attributes of the class: the topics asked for, the messages the client took for sending, the
  reports, the number of times an observation loop read the clock, and whether the client was stopped.
\<close>

record MotionDetectionProbe =
  pb_client_id :: string
  pb_original_value :: bool
  pb_test_value :: bool
  pb_test_observe_seconds :: int
  pb_restore_observe_seconds :: int
  pb_connected :: bool
  pb_subscribed :: bool
  pb_pending_subscriptions :: "int list"
  pb_observations :: "Observation list"
  pb_test_msg_id :: "string option"
  pb_restore_msg_id :: "string option"
  pb_connection_error :: "string option"
  pb_requested :: "string list"
  pb_sent :: "(string \<times> bytes) list"
  pb_reports :: "ProbeReport list"
  pb_polls :: nat
  pb_stopped :: bool

definition build_client :: "string \<Rightarrow> string" where
  "build_client hex = CLIENT_ID_PREFIX @ take (MQTT_31_CLIENT_ID_LIMIT - length CLIENT_ID_PREFIX) hex"

definition new_probe :: "string \<Rightarrow> bool \<Rightarrow> int \<Rightarrow> int \<Rightarrow> MotionDetectionProbe" where
  "new_probe hex original test_seconds restore_seconds =
    \<lparr>pb_client_id = build_client hex, pb_original_value = original, pb_test_value = (\<not> original),
     pb_test_observe_seconds = test_seconds, pb_restore_observe_seconds = restore_seconds,
     pb_connected = False, pb_subscribed = False, pb_pending_subscriptions = [], pb_observations = [],
     pb_test_msg_id = None, pb_restore_msg_id = None, pb_connection_error = None, pb_requested = [],
     pb_sent = [], pb_reports = [], pb_polls = 0, pb_stopped = False\<rparr>"

section \<open>Callbacks\<close>

record probe_code =
  rc_failure :: bool
  rc_text :: string

text \<open>\<open>OnConnect\<close> carries the answer of the client to each \<open>subscribe\<close> call: a result and a message id.\<close>

datatype probe_callback =
    OnConnect probe_code "string \<Rightarrow> int \<times> int option"
  | OnSubscribe int "probe_code list"
  | OnMessage seconds string bytes
  | OnDisconnect probe_code

definition MQTT_ERR_SUCCESS :: int where "MQTT_ERR_SUCCESS = 0"

definition probe_topics :: "string list" where
  "probe_topics = [sub_topic TARGET_DEVICE_ID ''service'' TARGET_PRODUCT_ID,
     topic_prefix TARGET_DEVICE_ID TARGET_PRODUCT_ID @ ''/device/service/post'']"

fun subscribe_topics :: "(string \<Rightarrow> int \<times> int option) \<Rightarrow> string list \<Rightarrow> MotionDetectionProbe \<Rightarrow> MotionDetectionProbe" where
  "subscribe_topics answer [] p = p\<lparr>pb_connected := True\<rparr>"
| "subscribe_topics answer (topic # topics) p =
     (let p1 = p\<lparr>pb_requested := pb_requested p @ [topic]\<rparr> in
      case answer topic of (result, mid) \<Rightarrow>
        if result \<noteq> MQTT_ERR_SUCCESS \<or> mid = None
        then p1\<lparr>pb_connection_error := Some (''subscribe rejected for '' @ topic @ '': rc='' @ show_int result), pb_connected := True\<rparr>
        else subscribe_topics answer topics (p1\<lparr>pb_pending_subscriptions := List.insert (the mid) (pb_pending_subscriptions p1)\<rparr>))"

definition on_connect :: "probe_code \<Rightarrow> (string \<Rightarrow> int \<times> int option) \<Rightarrow> MotionDetectionProbe \<Rightarrow> MotionDetectionProbe" where
  "on_connect reason answer p =
    (if rc_failure reason then p\<lparr>pb_connection_error := Some (rc_text reason), pb_connected := True\<rparr>
     else subscribe_topics answer probe_topics p)"

definition on_subscribe :: "int \<Rightarrow> probe_code list \<Rightarrow> MotionDetectionProbe \<Rightarrow> MotionDetectionProbe" where
  "on_subscribe mid reasons p =
    (if list_ex rc_failure reasons
     then p\<lparr>pb_connection_error := Some (''subscription refused: ['' @ join '', '' (map rc_text reasons) @ '']''), pb_subscribed := True\<rparr>
     else
       let p1 = p\<lparr>pb_pending_subscriptions := remove1 mid (pb_pending_subscriptions p)\<rparr>
       in if pb_pending_subscriptions p1 = [] then p1\<lparr>pb_subscribed := True\<rparr> else p1)"

definition on_message :: "seconds \<Rightarrow> string \<Rightarrow> bytes \<Rightarrow> MotionDetectionProbe \<Rightarrow> MotionDetectionProbe" where
  "on_message now topic payload p = (case json_loads payload of
     Some (JObj body) \<Rightarrow>
       let source = (if suffix ''/post'' topic then ''device_post'' else ''local_sub'')
       in p\<lparr>pb_observations := pb_observations p @
              [\<lparr>ob_timestamp = now, ob_source = source, ob_topic = topic, ob_payload = sanitize_value (JObj body)\<rparr>]\<rparr>
   | _ \<Rightarrow> p)"

fun probe_step :: "probe_callback \<Rightarrow> MotionDetectionProbe \<Rightarrow> MotionDetectionProbe" where
  "probe_step (OnConnect reason answer) p = on_connect reason answer p"
| "probe_step (OnSubscribe mid reasons) p = on_subscribe mid reasons p"
| "probe_step (OnMessage now topic payload) p = on_message now topic payload p"
| "probe_step (OnDisconnect reason) p = p"

definition callbacks :: "probe_callback list \<Rightarrow> MotionDetectionProbe \<Rightarrow> MotionDetectionProbe" where
  "callbacks cs p = fold probe_step cs p"

section \<open>Publishing and observing\<close>

datatype probe_exn = RuntimeError string | ValueError string | OSError | KeyboardInterrupt | SystemExit int

text \<open>
  The fate of a publication: \<open>publish\<close> raises, it returns an error code, the wait for the confirmation
  raises, the confirmation does not come in time, or it comes.
\<close>

datatype probe_publish = PublishRaises probe_exn | Rejected int | WaitRaises probe_exn | Unconfirmed | Confirmed

fun handed_over :: "probe_publish \<Rightarrow> bool" where
  "handed_over (PublishRaises e) = False"
| "handed_over (Rejected rc) = False"
| "handed_over (WaitRaises e) = True"
| "handed_over Unconfirmed = True"
| "handed_over Confirmed = True"

record attempt =
  at_msg_id :: string
  at_now :: seconds
  at_callbacks :: "probe_callback list"
  at_outcome :: probe_publish
  at_clock :: "nat \<Rightarrow> seconds"
  at_interrupt :: "nat option"

definition build_motion_payload :: "bool \<Rightarrow> string \<Rightarrow> int \<Rightarrow> json" where
  "build_motion_payload v message_id ts =
    JObj [(''cmd'', JStr cmd_ATTR_SET_SERVICE), (''ts'', JInt ts), (''msgId'', JStr message_id), (''motionDetectionSwitch'', JBool v)]"

definition motion_message :: "bool \<Rightarrow> attempt \<Rightarrow> string \<times> bytes" where
  "motion_message v a = (sub_topic TARGET_DEVICE_ID ''service'' TARGET_PRODUCT_ID,
     json_dumps_compact (build_motion_payload v (at_msg_id a) (as_ms (at_now a))))"

definition publish_setting :: "attempt \<Rightarrow> bool \<Rightarrow> string \<Rightarrow> MotionDetectionProbe \<Rightarrow> (probe_exn + string) \<times> MotionDetectionProbe" where
  "publish_setting a v phase p =
    (if phase \<notin> {''test'', ''restore''} then (Inl (ValueError (''Unexpected probe phase: '' @ phase)), p)
     else
       let p1 = (if handed_over (at_outcome a) then p\<lparr>pb_sent := pb_sent p @ [motion_message v a]\<rparr> else p)
       in case at_outcome a of
         PublishRaises e \<Rightarrow> (Inl e, p1)
       | Rejected rc \<Rightarrow> (Inl (RuntimeError (''local publish rejected: rc='' @ show_int rc)), p1)
       | WaitRaises e \<Rightarrow> (Inl e, p1)
       | Unconfirmed \<Rightarrow> (Inl (RuntimeError ''local publish was not confirmed''), p1)
       | Confirmed \<Rightarrow> (Inr (at_msg_id a), p1))"

text \<open>
  The clock is read once for the deadline, as reading 0, and once before every sleep; an interrupt ends a
  sleep. The number is that of all readings made.
\<close>

partial_function (option) observe_loop :: "attempt \<Rightarrow> seconds \<Rightarrow> nat \<Rightarrow> (nat \<times> (probe_exn + unit)) option" where
  "observe_loop a deadline k =
    (if at_clock a k < deadline then
       (if at_interrupt a = Some k then Some (k, Inl KeyboardInterrupt) else observe_loop a deadline (Suc k))
     else Some (k, Inr ()))"

definition observe_for :: "attempt \<Rightarrow> int \<Rightarrow> (nat \<times> (probe_exn + unit)) option" where
  "observe_for a duration = map_option (\<lambda>(k, r). (Suc k, r)) (observe_loop a (at_clock a 0 + of_int duration) 1)"

definition report :: "string \<Rightarrow> MotionDetectionProbe \<Rightarrow> MotionDetectionProbe" where
  "report status p = p\<lparr>pb_reports := pb_reports p @
     [\<lparr>rp_status = status, rp_device_id = TARGET_DEVICE_ID, rp_original_value = pb_original_value p, rp_test_value = pb_test_value p,
       rp_test_msg_id = pb_test_msg_id p, rp_restore_msg_id = pb_restore_msg_id p, rp_observations = pb_observations p\<rparr>]\<rparr>"

section \<open>A run\<close>

record probe_world =
  w_before_connected :: "probe_callback list"
  w_connect_interrupted :: bool
  w_before_check :: "probe_callback list"
  w_before_subscribed :: "probe_callback list"
  w_subscribe_interrupted :: bool
  w_test :: attempt
  w_restore :: attempt

definition add_polls :: "nat \<Rightarrow> MotionDetectionProbe \<Rightarrow> MotionDetectionProbe" where
  "add_polls k p = p\<lparr>pb_polls := pb_polls p + k\<rparr>"

text \<open>The body of \<open>try\<close>: whether the test counts as published, the returned status or the exception, and the state.\<close>

definition run_body :: "probe_world \<Rightarrow> MotionDetectionProbe \<Rightarrow> (bool \<times> (probe_exn + int) \<times> MotionDetectionProbe) option" where
  "run_body w p =
    (let p1 = callbacks (w_before_connected w) p in
     if w_connect_interrupted w then Some (False, Inl KeyboardInterrupt, p1)
     else if \<not> pb_connected p1 then Some (False, Inr 2, p1)
     else let p2 = callbacks (w_before_check w) p1 in
     if pb_connection_error p2 \<noteq> None then Some (False, Inr 2, p2)
     else let p3 = callbacks (w_before_subscribed w) p2 in
     if w_subscribe_interrupted w then Some (False, Inl KeyboardInterrupt, p3)
     else if \<not> pb_subscribed p3 then Some (False, Inr 2, p3)
     else case publish_setting (w_test w) (pb_test_value p3) ''test'' (callbacks (at_callbacks (w_test w)) p3) of
       (Inl e, p4) \<Rightarrow> Some (False, Inl e, p4)
     | (Inr message_id, p4) \<Rightarrow>
         map_option (\<lambda>(k, r). (True, map_sum id (\<lambda>_. 0) r, add_polls k (p4\<lparr>pb_test_msg_id := Some message_id\<rparr>)))
           (observe_for (w_test w) (pb_test_observe_seconds p4)))"

definition caught :: "probe_exn \<Rightarrow> bool" where
  "caught e \<longleftrightarrow> (case e of OSError \<Rightarrow> True | RuntimeError _ \<Rightarrow> True | ValueError _ \<Rightarrow> True | _ \<Rightarrow> False)"

definition stop_client :: "MotionDetectionProbe \<Rightarrow> MotionDetectionProbe" where
  "stop_client p = p\<lparr>pb_stopped := True\<rparr>"

definition restore_failed :: "probe_exn \<Rightarrow> MotionDetectionProbe \<Rightarrow> probe_exn option \<times> MotionDetectionProbe" where
  "restore_failed e p = (if caught e then (None, stop_client (report ''restore_failed'' p)) else (Some e, p))"

definition restore_observed :: "nat \<times> (probe_exn + unit) \<Rightarrow> MotionDetectionProbe \<Rightarrow> probe_exn option \<times> MotionDetectionProbe" where
  "restore_observed kr p = (let p1 = add_polls (fst kr) p in
     case snd kr of Inl e \<Rightarrow> restore_failed e p1 | Inr _ \<Rightarrow> (None, stop_client (report ''restored'' p1)))"

text \<open>The body of \<open>finally\<close>: an exception that leaves it, and the state.\<close>

definition run_finally :: "probe_world \<Rightarrow> bool \<Rightarrow> MotionDetectionProbe \<Rightarrow> (probe_exn option \<times> MotionDetectionProbe) option" where
  "run_finally w published_test p =
    (if \<not> published_test then Some (None, stop_client (report ''aborted_before_write'' p))
     else case publish_setting (w_restore w) (pb_original_value p) ''restore'' (callbacks (at_callbacks (w_restore w)) p) of
       (Inl e, p1) \<Rightarrow> Some (restore_failed e p1)
     | (Inr message_id, p1) \<Rightarrow>
         map_option (\<lambda>kr. restore_observed kr (p1\<lparr>pb_restore_msg_id := Some message_id\<rparr>))
           (observe_for (w_restore w) (pb_restore_observe_seconds p1)))"

definition probe_run :: "probe_world \<Rightarrow> MotionDetectionProbe \<Rightarrow> ((probe_exn + int) \<times> MotionDetectionProbe) option" where
  "probe_run w p = Option.bind (run_body w p) (\<lambda>(published_test, result, p1).
     map_option (\<lambda>(exn, p2). (case exn of Some e \<Rightarrow> Inl e | None \<Rightarrow> result, p2)) (run_finally w published_test p1))"

section \<open>The command line\<close>

definition parse_bool :: "string \<Rightarrow> bool option" where
  "parse_bool v = (let normalized = lower (strip v) in
     if normalized = ''true'' then Some True else if normalized = ''false'' then Some False else None)"

definition positive_observation_seconds :: "string \<Rightarrow> int \<Rightarrow> int option" where
  "positive_observation_seconds v maximum = (case python_int v of
     None \<Rightarrow> None
   | Some seconds \<Rightarrow> if MIN_OBSERVE_SECONDS \<le> seconds \<and> seconds \<le> maximum then Some seconds else None)"

record probe_options =
  po_device_id :: "string option"
  po_original_value :: "string option"
  po_test_observe_seconds :: "string option"
  po_restore_observe_seconds :: "string option"

text \<open>\<^const>\<open>None\<close> is the error exit of \<open>argparse\<close>.\<close>

definition parse_args :: "probe_options \<Rightarrow> (string \<times> bool \<times> int \<times> int) option" where
  "parse_args opts =
    Option.bind (po_device_id opts) (\<lambda>device_id.
    Option.bind (Option.bind (po_original_value opts) parse_bool) (\<lambda>original.
    Option.bind (case po_test_observe_seconds opts of None \<Rightarrow> Some 120 | Some v \<Rightarrow> positive_observation_seconds v MAX_TEST_OBSERVE_SECONDS) (\<lambda>test_seconds.
    Option.bind (case po_restore_observe_seconds opts of None \<Rightarrow> Some 45 | Some v \<Rightarrow> positive_observation_seconds v MAX_RESTORE_OBSERVE_SECONDS) (\<lambda>restore_seconds.
    Some (device_id, original, test_seconds, restore_seconds)))))"

text \<open>The result of \<open>main\<close> and what it published; \<open>hex\<close> is the random part of the client id.\<close>

definition probe_main :: "probe_world \<Rightarrow> string \<Rightarrow> probe_options \<Rightarrow> ((probe_exn + int) \<times> MotionDetectionProbe option) option" where
  "probe_main w hex opts = (case parse_args opts of
     None \<Rightarrow> Some (Inl (SystemExit 2), None)
   | Some (device_id, original, test_seconds, restore_seconds) \<Rightarrow>
       if device_id \<noteq> TARGET_DEVICE_ID then Some (Inr 2, None)
       else map_option (map_prod id Some) (probe_run w (new_probe hex original test_seconds restore_seconds)))"

section \<open>What the callbacks leave alone\<close>

text \<open>The part of the state that no callback touches.\<close>

definition settled :: "MotionDetectionProbe \<Rightarrow> bool \<times> bool \<times> int \<times> int \<times> (string \<times> bytes) list \<times> ProbeReport list \<times> nat" where
  "settled p = (pb_original_value p, pb_test_value p, pb_test_observe_seconds p, pb_restore_observe_seconds p,
     pb_sent p, pb_reports p, pb_polls p)"

lemma settled_subscribe_topics: "settled (subscribe_topics answer topics p) = settled p"
  by (induction answer topics p rule: subscribe_topics.induct) (simp_all add: settled_def Let_def split: prod.split)

lemma settled_probe_step: "settled (probe_step c p) = settled p"
proof (cases c)
  case (OnConnect reason answer)
  then show ?thesis by (simp add: on_connect_def settled_subscribe_topics) (simp add: settled_def)
next
  case (OnSubscribe mid reasons)
  then show ?thesis by (simp add: on_subscribe_def settled_def Let_def)
next
  case (OnMessage now topic payload)
  then show ?thesis by (simp add: on_message_def settled_def Let_def split: option.split json.split)
qed simp

lemma settled_callbacks: "settled (callbacks cs p) = settled p"
  unfolding callbacks_def by (induction cs arbitrary: p) (simp_all add: settled_probe_step)

lemma callbacks_frame [simp]:
  "pb_original_value (callbacks cs p) = pb_original_value p"
  "pb_test_value (callbacks cs p) = pb_test_value p"
  "pb_test_observe_seconds (callbacks cs p) = pb_test_observe_seconds p"
  "pb_restore_observe_seconds (callbacks cs p) = pb_restore_observe_seconds p"
  "pb_sent (callbacks cs p) = pb_sent p"
  "pb_reports (callbacks cs p) = pb_reports p"
  "pb_polls (callbacks cs p) = pb_polls p"
  using settled_callbacks [of cs p] by (simp_all add: settled_def)

text \<open>Every observation is redacted.\<close>

definition observations_redacted :: "Observation list \<Rightarrow> bool" where
  "observations_redacted obs \<longleftrightarrow> list_all (\<lambda>ob. redacted is_sensitive_key (ob_payload ob)) obs"

lemma subscribe_topics_observations [simp]: "pb_observations (subscribe_topics answer topics p) = pb_observations p"
  by (induction answer topics p rule: subscribe_topics.induct) (simp_all add: Let_def split: prod.split)

lemma callbacks_redacted:
  "observations_redacted (pb_observations p) \<Longrightarrow> observations_redacted (pb_observations (callbacks cs p))"
  unfolding callbacks_def
proof (induction cs arbitrary: p)
  case (Cons c cs)
  have "observations_redacted (pb_observations (probe_step c p))"
    using Cons.prems sanitized_values_redacted(1)
    by (cases c) (auto simp: on_connect_def on_subscribe_def on_message_def observations_redacted_def Let_def
      simp del: sanitize_value.simps split: option.splits json.splits)
  with Cons.IH show ?case by simp
qed simp

section \<open>What is published\<close>

definition sent_by :: "attempt \<Rightarrow> bool \<Rightarrow> MotionDetectionProbe \<Rightarrow> MotionDetectionProbe" where
  "sent_by a v p = p\<lparr>pb_sent := pb_sent p @ (if handed_over (at_outcome a) then [motion_message v a] else [])\<rparr>"

definition publish_result :: "attempt \<Rightarrow> probe_exn + string" where
  "publish_result a = (case at_outcome a of
     PublishRaises e \<Rightarrow> Inl e
   | Rejected rc \<Rightarrow> Inl (RuntimeError (''local publish rejected: rc='' @ show_int rc))
   | WaitRaises e \<Rightarrow> Inl e
   | Unconfirmed \<Rightarrow> Inl (RuntimeError ''local publish was not confirmed'')
   | Confirmed \<Rightarrow> Inr (at_msg_id a))"

lemma publish_setting_eq [simp]:
  "publish_setting a v ''test'' p = (publish_result a, sent_by a v p)"
  "publish_setting a v ''restore'' p = (publish_result a, sent_by a v p)"
  by (cases "at_outcome a"; simp add: publish_setting_def publish_result_def sent_by_def)+

lemma publish_result_Inr: "publish_result a = Inr m \<longleftrightarrow> at_outcome a = Confirmed \<and> m = at_msg_id a"
  by (auto simp: publish_result_def split: probe_publish.splits)

lemma publish_result_Inl: "publish_result a = Inl e \<Longrightarrow> at_outcome a \<noteq> Confirmed"
  by (auto simp: publish_result_def)

text \<open>The messages of a body: none, or the test; the test counts as published exactly when it was confirmed.\<close>

definition test_message :: "probe_world \<Rightarrow> MotionDetectionProbe \<Rightarrow> string \<times> bytes" where
  "test_message w p = motion_message (pb_test_value p) (w_test w)"

definition restore_message :: "probe_world \<Rightarrow> MotionDetectionProbe \<Rightarrow> string \<times> bytes" where
  "restore_message w p = motion_message (pb_original_value p) (w_restore w)"

lemma run_body_outcome:
  assumes "run_body w p = Some (pub, r, p1)"
  shows "pb_original_value p1 = pb_original_value p" "pb_test_value p1 = pb_test_value p" "pb_reports p1 = pb_reports p"
    and "pb_restore_observe_seconds p1 = pb_restore_observe_seconds p"
    and "if pub then at_outcome (w_test w) = Confirmed \<and> pb_sent p1 = pb_sent p @ [test_message w p]
      else pb_sent p1 = pb_sent p \<or> at_outcome (w_test w) \<noteq> Confirmed \<and> pb_sent p1 = pb_sent p @ [test_message w p]"
  using assms
  by (auto simp: run_body_def Let_def add_polls_def sent_by_def test_message_def publish_result_Inr dest: publish_result_Inl split: if_splits sum.splits)

lemma restore_failed_frame:
  "restore_failed e p = (x, p1) \<Longrightarrow> pb_original_value p1 = pb_original_value p \<and> pb_test_value p1 = pb_test_value p \<and>
    pb_sent p1 = pb_sent p \<and> pb_polls p1 = pb_polls p"
  by (auto simp: restore_failed_def stop_client_def report_def split: if_splits)

lemma restore_observed_frame:
  "restore_observed kr p = (x, p1) \<Longrightarrow> pb_original_value p1 = pb_original_value p \<and> pb_test_value p1 = pb_test_value p \<and>
    pb_sent p1 = pb_sent p \<and> pb_polls p1 = pb_polls p + fst kr"
  by (auto simp: restore_observed_def Let_def add_polls_def stop_client_def report_def dest!: restore_failed_frame split: sum.splits)

lemma run_finally_outcome:
  assumes "run_finally w pub p = Some (e, p1)"
  shows "pb_original_value p1 = pb_original_value p" "pb_test_value p1 = pb_test_value p"
    and "pb_sent p1 = pb_sent p @ (if pub \<and> handed_over (at_outcome (w_restore w)) then [restore_message w p] else [])"
  using assms
  by (auto simp: run_finally_def Let_def add_polls_def stop_client_def report_def sent_by_def restore_message_def publish_result_Inr
    dest!: restore_failed_frame restore_observed_frame split: if_split_asm sum.split_asm)

lemma probe_run_cases:
  assumes "probe_run w p = Some (res, p2)"
  obtains pub r p1 e where "run_body w p = Some (pub, r, p1)" "run_finally w pub p1 = Some (e, p2)"
    "res = (case e of Some x \<Rightarrow> Inl x | None \<Rightarrow> r)"
  using assms by (auto simp: probe_run_def Option.bind_eq_Some_conv)

lemma probe_run_sent:
  assumes run: "probe_run w p = Some (res, p2)" and fresh: "pb_sent p = []"
  shows "pb_original_value p2 = pb_original_value p"
    and "pb_sent p2 \<noteq> [] \<Longrightarrow> pb_sent p2 = test_message w p #
      (if at_outcome (w_test w) = Confirmed \<and> handed_over (at_outcome (w_restore w)) then [restore_message w p] else [])"
proof -
  from run obtain pub r p1 e where body: "run_body w p = Some (pub, r, p1)" and fin: "run_finally w pub p1 = Some (e, p2)"
    by (rule probe_run_cases)
  note b = run_body_outcome [OF body] and f = run_finally_outcome [OF fin]
  show "pb_original_value p2 = pb_original_value p" using b(1) f(1) by simp
  have "restore_message w p1 = restore_message w p" using b(1) by (simp add: restore_message_def)
  then show "pb_sent p2 \<noteq> [] \<Longrightarrow> pb_sent p2 = test_message w p #
      (if at_outcome (w_test w) = Confirmed \<and> handed_over (at_outcome (w_restore w)) then [restore_message w p] else [])"
    using b(5) f(3) fresh by (auto split: if_splits)
qed

lemma probe_main_runs:
  assumes "probe_main w hex opts = Some (res, Some p2)"
  obtains v ts rs where "po_device_id opts = Some TARGET_DEVICE_ID" "parse_args opts = Some (TARGET_DEVICE_ID, v, ts, rs)"
    "Option.bind (po_original_value opts) parse_bool = Some v" "probe_run w (new_probe hex v ts rs) = Some (res, p2)"
proof -
  from assms obtain d v ts rs where a: "parse_args opts = Some (d, v, ts, rs)" and d: "d = TARGET_DEVICE_ID"
    and r: "probe_run w (new_probe hex v ts rs) = Some (res, p2)"
    by (auto simp: probe_main_def split: option.splits if_splits)
  from a d have "po_device_id opts = Some TARGET_DEVICE_ID" "Option.bind (po_original_value opts) parse_bool = Some v"
    by (auto simp: parse_args_def Option.bind_eq_Some_conv)
  with a d r show thesis using that by blast
qed

text \<open>
  C29: Whatever the broker, the feeder and the keyboard do, a run of the tool that published anything was
  asked for the one approved feeder, published first the opposite of the given original value, and, when
  that publication was confirmed, published the original value next unless the client refused the message;
  it published nothing else. An interrupt during the observation changes none of this.
\<close>

theorem probe_restores_confirmed_test:
  assumes "probe_main w hex opts = Some (res, Some p)" "pb_sent p \<noteq> []"
  shows "po_device_id opts = Some TARGET_DEVICE_ID \<and>
    Option.bind (po_original_value opts) parse_bool = Some (pb_original_value p) \<and>
    pb_sent p = motion_message (\<not> pb_original_value p) (w_test w) #
      (if at_outcome (w_test w) = Confirmed \<and> handed_over (at_outcome (w_restore w))
       then [motion_message (pb_original_value p) (w_restore w)] else [])"
proof -
  from assms(1) obtain v ts rs where m: "po_device_id opts = Some TARGET_DEVICE_ID"
    "Option.bind (po_original_value opts) parse_bool = Some v" and run: "probe_run w (new_probe hex v ts rs) = Some (res, p)"
    by (rule probe_main_runs)
  note s = probe_run_sent [OF run]
  have "pb_original_value p = v" using s(1) by (simp add: new_probe_def)
  then show ?thesis using m s(2) assms(2) by (simp add: new_probe_def test_message_def restore_message_def)
qed

section \<open>Every run ends\<close>

text \<open>\<open>time.sleep\<close> sleeps at least as long as asked; an interrupt that raises is the exception.\<close>

definition sleeps_in_full :: "attempt \<Rightarrow> bool" where
  "sleeps_in_full a \<longleftrightarrow> (\<forall>k. at_clock a k \<le> at_clock a (Suc k)) \<and>
     (\<forall>k\<ge>1. at_clock a k + POLL_INTERVAL_SECONDS \<le> at_clock a (Suc k))"

lemma clock_advances: "sleeps_in_full a \<Longrightarrow> at_clock a 0 + of_nat k / 4 \<le> at_clock a (Suc k)"
proof (induction k)
  case 0
  then show ?case by (simp add: sleeps_in_full_def)
next
  case (Suc k)
  then have "at_clock a (Suc k) + 1 / 4 \<le> at_clock a (Suc (Suc k))"
    by (simp add: sleeps_in_full_def POLL_INTERVAL_SECONDS_def)
  with Suc show ?case by (simp add: add_divide_distrib)
qed

lemma observe_loop_ends:
  assumes a: "sleeps_in_full a"
  shows "k \<le> Suc (4 * d) \<Longrightarrow> \<exists>k' r. observe_loop a (at_clock a 0 + of_nat d) k = Some (k', r) \<and> k' \<le> Suc (4 * d)"
proof (induction "Suc (4 * d) - k" arbitrary: k)
  case 0
  then have "k = Suc (4 * d)" by simp
  then show ?case using clock_advances [OF a, of "4 * d"] by (subst observe_loop.simps) simp
next
  case (Suc n)
  then have "n = Suc (4 * d) - Suc k" "Suc k \<le> Suc (4 * d)" by simp_all
  with Suc.hyps(1) [of "Suc k"] Suc.prems show ?case by (subst observe_loop.simps) auto
qed

lemma observe_for_ends:
  assumes "sleeps_in_full a" "0 \<le> duration"
  obtains k r where "observe_for a duration = Some (k, r)" "k \<le> Suc (Suc (4 * nat duration))"
proof -
  have "(of_int duration :: rat) = of_nat (nat duration)" using assms(2) by simp
  then have "observe_for a duration = map_option (\<lambda>(k, r). (Suc k, r)) (observe_loop a (at_clock a 0 + of_nat (nat duration)) 1)"
    by (simp only: observe_for_def)
  moreover obtain k r where "observe_loop a (at_clock a 0 + of_nat (nat duration)) 1 = Some (k, r)" "k \<le> Suc (4 * nat duration)"
    using observe_loop_ends [OF assms(1), of 1 "nat duration"] by fastforce
  ultimately show thesis using that by simp
qed

lemma run_body_ends:
  assumes "sleeps_in_full (w_test w)" "0 \<le> pb_test_observe_seconds p"
  obtains pub r p1 where "run_body w p = Some (pub, r, p1)" "pb_polls p1 \<le> pb_polls p + Suc (Suc (4 * nat (pb_test_observe_seconds p)))"
    "pb_restore_observe_seconds p1 = pb_restore_observe_seconds p"
proof -
  obtain k r where obs: "observe_for (w_test w) (pb_test_observe_seconds p) = Some (k, r)" "k \<le> Suc (Suc (4 * nat (pb_test_observe_seconds p)))"
    using assms by (rule observe_for_ends)
  then have "\<exists>pub r p1. run_body w p = Some (pub, r, p1) \<and> pb_polls p1 \<le> pb_polls p + Suc (Suc (4 * nat (pb_test_observe_seconds p)))"
    by (cases "publish_result (w_test w)") (auto simp: run_body_def Let_def add_polls_def sent_by_def)
  then show thesis using that run_body_outcome(4) by blast
qed

lemma run_finally_ends:
  assumes "sleeps_in_full (w_restore w)" "0 \<le> pb_restore_observe_seconds p"
  obtains e p1 where "run_finally w pub p = Some (e, p1)" "pb_polls p1 \<le> pb_polls p + Suc (Suc (4 * nat (pb_restore_observe_seconds p)))"
proof -
  obtain k r where obs: "observe_for (w_restore w) (pb_restore_observe_seconds p) = Some (k, r)" "k \<le> Suc (Suc (4 * nat (pb_restore_observe_seconds p)))"
    using assms by (rule observe_for_ends)
  obtain x q where q: "restore_observed (k, r) ((sent_by (w_restore w) (pb_original_value p) (callbacks (at_callbacks (w_restore w)) p))
      \<lparr>pb_restore_msg_id := Some (at_msg_id (w_restore w))\<rparr>) = (x, q)" by fastforce
  obtain x' q' where q': "restore_failed (projl (publish_result (w_restore w)))
      (sent_by (w_restore w) (pb_original_value p) (callbacks (at_callbacks (w_restore w)) p)) = (x', q')" by fastforce
  show thesis
  proof (cases "publish_result (w_restore w)")
    case (Inl e)
    with q' restore_failed_frame [OF q'] that show ?thesis
      by (cases pub) (auto simp: run_finally_def sent_by_def stop_client_def report_def)
  next
    case (Inr m)
    then have "m = at_msg_id (w_restore w)" by (simp add: publish_result_Inr)
    with Inr q obs restore_observed_frame [OF q] that show ?thesis
      by (cases pub) (auto simp: run_finally_def sent_by_def stop_client_def report_def)
  qed
qed

lemma parse_args_bounds:
  assumes "parse_args opts = Some (d, v, ts, rs)"
  shows "15 \<le> ts" "ts \<le> 300" "15 \<le> rs" "rs \<le> 120"
  using assms
  by (auto simp: parse_args_def Option.bind_eq_Some_conv positive_observation_seconds_def MIN_OBSERVE_SECONDS_def
    MAX_TEST_OBSERVE_SECONDS_def MAX_RESTORE_OBSERVE_SECONDS_def split: option.splits if_splits)

text \<open>
  C39: When a sleep lasts at least as long as asked, every run of the tool ends, for any command line and
  any behaviour of broker and feeder, after at most 1684 readings of the monotonic clock, those for the two deadlines included.
\<close>

theorem probe_run_ends:
  assumes "sleeps_in_full (w_test w)" "sleeps_in_full (w_restore w)"
  shows "\<exists>res mp. probe_main w hex opts = Some (res, mp) \<and> (case mp of None \<Rightarrow> True | Some p \<Rightarrow> pb_polls p \<le> 1684)"
proof (cases "parse_args opts")
  case (Some x)
  then obtain d v ts rs where o: "parse_args opts = Some (d, v, ts, rs)" by (cases x) auto
  note bounds = parse_args_bounds [OF o]
  let ?p = "new_probe hex v ts rs"
  obtain pub r p1 where body: "run_body w ?p = Some (pub, r, p1)" "pb_polls p1 \<le> pb_polls ?p + Suc (Suc (4 * nat (pb_test_observe_seconds ?p)))"
    "pb_restore_observe_seconds p1 = pb_restore_observe_seconds ?p"
    using assms(1) bounds by (elim run_body_ends [of w ?p]) (simp_all add: new_probe_def)
  obtain e p2 where fin: "run_finally w pub p1 = Some (e, p2)" "pb_polls p2 \<le> pb_polls p1 + Suc (Suc (4 * nat (pb_restore_observe_seconds p1)))"
    using assms(2) body(3) bounds by (elim run_finally_ends [of w p1 pub]) (simp_all add: new_probe_def)
  have "pb_polls p2 \<le> 1684" using body(2,3) fin(2) bounds by (simp add: new_probe_def)
  with body(1) fin(1) show ?thesis by (auto simp: probe_main_def o probe_run_def)
qed (simp add: probe_main_def)

section \<open>Runs that do not restore\<close>

text \<open>The run comes to the publication of the test.\<close>

definition before_publication :: "probe_world \<Rightarrow> MotionDetectionProbe \<Rightarrow> MotionDetectionProbe" where
  "before_publication w p = callbacks (w_before_subscribed w) (callbacks (w_before_check w) (callbacks (w_before_connected w) p))"

definition reaches_publication :: "probe_world \<Rightarrow> MotionDetectionProbe \<Rightarrow> bool" where
  "reaches_publication w p \<longleftrightarrow> \<not> w_connect_interrupted w \<and> pb_connected (callbacks (w_before_connected w) p) \<and>
     pb_connection_error (callbacks (w_before_check w) (callbacks (w_before_connected w) p)) = None \<and>
     \<not> w_subscribe_interrupted w \<and> pb_subscribed (before_publication w p)"

lemma run_body_publishes:
  assumes "reaches_publication w p"
  shows "run_body w p = (let p4 = sent_by (w_test w) (pb_test_value p) (callbacks (at_callbacks (w_test w)) (before_publication w p)) in
    case publish_result (w_test w) of
      Inl e \<Rightarrow> Some (False, Inl e, p4)
    | Inr m \<Rightarrow> map_option (\<lambda>(k, r). (True, map_sum id (\<lambda>_. 0) r, add_polls k (p4\<lparr>pb_test_msg_id := Some m\<rparr>)))
        (observe_for (w_test w) (pb_test_observe_seconds p)))"
  using assms
  by (cases "publish_result (w_test w)") (simp_all add: run_body_def reaches_publication_def before_publication_def Let_def sent_by_def)

text \<open>
  A test that the client took but did not confirm in time may still reach the feeder. The run ends with
  an exception, restores nothing and reports that nothing was written.
\<close>

theorem unconfirmed_test_is_not_restored:
  assumes "reaches_publication w p" "at_outcome (w_test w) = Unconfirmed" "pb_sent p = []" "pb_reports p = []"
  shows "\<exists>p'. probe_run w p = Some (Inl (RuntimeError ''local publish was not confirmed''), p') \<and>
    pb_sent p' = [test_message w p] \<and> map rp_status (pb_reports p') = [''aborted_before_write'']"
  using assms
  by (simp add: probe_run_def run_body_publishes publish_result_def run_finally_def stop_client_def report_def sent_by_def
    before_publication_def test_message_def Let_def)

text \<open>When the restoration is refused, the run still ends with the status of a success.\<close>

theorem refused_restoration_exits_zero:
  assumes "reaches_publication w p" "at_outcome (w_test w) = Confirmed" "at_outcome (w_restore w) = Rejected rc"
    "observe_for (w_test w) (pb_test_observe_seconds p) = Some (k, Inr ())" "pb_sent p = []" "pb_reports p = []"
  shows "\<exists>p'. probe_run w p = Some (Inr 0, p') \<and> pb_sent p' = [test_message w p] \<and> map rp_status (pb_reports p') = [''restore_failed'']"
  using assms
  by (simp add: probe_run_def run_body_publishes publish_result_def run_finally_def restore_failed_def caught_def stop_client_def
    report_def sent_by_def add_polls_def before_publication_def test_message_def Let_def)

text \<open>A broker that accepts the connection and answers the second subscription with the given code.\<close>

definition ok_code :: probe_code where "ok_code = \<lparr>rc_failure = False, rc_text = ''Success''\<rparr>"
definition bad_code :: probe_code where "bad_code = \<lparr>rc_failure = True, rc_text = ''Not authorized''\<rparr>"

definition sample_attempt :: "string \<Rightarrow> attempt" where
  "sample_attempt m = \<lparr>at_msg_id = m, at_now = 1000, at_callbacks = [], at_outcome = Confirmed, at_clock = (\<lambda>k. 100 * of_nat k), at_interrupt = None\<rparr>"

definition sample_world :: "probe_code \<Rightarrow> probe_world" where
  "sample_world answer =
    \<lparr>w_before_connected = [OnConnect ok_code (\<lambda>topic. (0, Some (if is_post topic then 2 else 1)))], w_connect_interrupted = False,
     w_before_check = [], w_before_subscribed = [OnSubscribe 1 [ok_code], OnSubscribe 2 [answer]],
     w_subscribe_interrupted = False, w_test = sample_attempt ''aa'', w_restore = sample_attempt ''bb''\<rparr>"

text \<open>A refused subscription wakes the run up, which then publishes although the error has been recorded.\<close>

lemma sample_reaches:
  "reaches_publication (sample_world ok_code) (new_probe ''00'' True 15 45)"
  "reaches_publication (sample_world bad_code) (new_probe ''00'' True 15 45)"
  "pb_connection_error (before_publication (sample_world bad_code) (new_probe ''00'' True 15 45)) = Some ''subscription refused: [Not authorized]''"
  by code_simp+

lemma sample_observation: "d \<le> 100 \<Longrightarrow> observe_for (sample_attempt m) d = Some (2, Inr ())"
  unfolding observe_for_def by (subst observe_loop.simps) (simp add: sample_attempt_def)

lemma sample_attempt_fields [simp]:
  "at_outcome (sample_attempt m) = Confirmed" "at_callbacks (sample_attempt m) = []"
  "w_test (sample_world c) = sample_attempt ''aa''" "w_restore (sample_world c) = sample_attempt ''bb''"
  by (simp_all add: sample_attempt_def sample_world_def)

abbreviation sample_probe :: MotionDetectionProbe where "sample_probe \<equiv> new_probe ''00'' True 15 45"

lemma sample_run:
  assumes "reaches_publication (sample_world c) sample_probe"
  obtains p where "probe_run (sample_world c) sample_probe = Some (Inr 0, p)"
    "pb_sent p = [motion_message False (sample_attempt ''aa''), motion_message True (sample_attempt ''bb'')]"
  using assms
  by (simp add: probe_run_def run_body_publishes publish_result_def run_finally_def restore_observed_def sample_observation
    stop_client_def report_def sent_by_def add_polls_def before_publication_def new_probe_def callbacks_def [of "[]"])

theorem refused_subscription_still_publishes:
  "pb_connection_error (before_publication (sample_world bad_code) sample_probe) \<noteq> None \<and>
    (\<exists>p. probe_run (sample_world bad_code) sample_probe = Some (Inr 0, p) \<and> pb_sent p \<noteq> [])"
  using sample_reaches(2,3) by (auto elim: sample_run)

definition sample_options :: probe_options where
  "sample_options = \<lparr>po_device_id = Some TARGET_DEVICE_ID, po_original_value = Some '' True'', po_test_observe_seconds = Some ''15'',
     po_restore_observe_seconds = None\<rparr>"

lemma sample_main:
  obtains p where "probe_main (sample_world ok_code) ''00'' sample_options = Some (Inr 0, Some p)" "pb_sent p \<noteq> []"
proof -
  have a: "parse_args sample_options = Some (TARGET_DEVICE_ID, True, 15, 45)" by code_simp
  obtain p where "probe_run (sample_world ok_code) sample_probe = Some (Inr 0, p)" "pb_sent p \<noteq> []"
    using sample_run [OF sample_reaches(1)] by (metis list.distinct(1))
  with a show thesis using that by (simp add: probe_main_def)
qed

theorem probe_restores_confirmed_test_witness:
  "\<exists>p. probe_main (sample_world ok_code) ''00'' sample_options = Some (Inr 0, Some p) \<and> pb_sent p \<noteq> [] \<and>
    pb_sent p = motion_message (\<not> pb_original_value p) (sample_attempt ''aa'') # [motion_message (pb_original_value p) (sample_attempt ''bb'')]"
proof -
  obtain p where p: "probe_main (sample_world ok_code) ''00'' sample_options = Some (Inr 0, Some p)" "pb_sent p \<noteq> []"
    by (rule sample_main)
  from probe_restores_confirmed_test [OF p] show ?thesis using p by simp
qed

theorem probe_run_ends_witness:
  "sleeps_in_full (sample_attempt ''aa'') \<and> sleeps_in_full (sample_attempt ''bb'') \<and>
    (\<exists>res mp. probe_main (sample_world bad_code) ''00'' sample_options = Some (res, mp) \<and> (case mp of None \<Rightarrow> True | Some p \<Rightarrow> pb_polls p \<le> 1684))"
proof -
  have s: "sleeps_in_full (sample_attempt m)" for m
    by (simp add: sleeps_in_full_def sample_attempt_def POLL_INTERVAL_SECONDS_def algebra_simps)
  then show ?thesis using probe_run_ends [of "sample_world bad_code" "''00''" sample_options] by simp
qed

section \<open>Reports\<close>

definition reports_redacted :: "MotionDetectionProbe \<Rightarrow> bool" where
  "reports_redacted p \<longleftrightarrow> observations_redacted (pb_observations p) \<and> list_all (\<lambda>r. observations_redacted (rp_observations r)) (pb_reports p)"

lemma reports_redacted_step [simp]:
  "reports_redacted p \<Longrightarrow> reports_redacted (callbacks cs p)"
  "reports_redacted (sent_by a v p) = reports_redacted p"
  "reports_redacted (add_polls k p) = reports_redacted p"
  "reports_redacted (stop_client p) = reports_redacted p"
  "reports_redacted (p\<lparr>pb_test_msg_id := m\<rparr>) = reports_redacted p"
  "reports_redacted (p\<lparr>pb_restore_msg_id := m\<rparr>) = reports_redacted p"
  "reports_redacted p \<Longrightarrow> reports_redacted (report status p)"
  by (simp_all add: reports_redacted_def callbacks_redacted sent_by_def add_polls_def stop_client_def report_def)

lemma restore_observed_redacted:
  "reports_redacted p \<Longrightarrow> restore_observed kr p = (e, p1) \<Longrightarrow> reports_redacted p1"
  "reports_redacted p \<Longrightarrow> restore_failed x p = (e, p1) \<Longrightarrow> reports_redacted p1"
  by (auto simp: restore_observed_def restore_failed_def Let_def split: sum.splits if_splits)

text \<open>No report of a run shows a value under a sensitive key, whatever messages were observed.\<close>

lemma run_reports_redacted:
  assumes "probe_run w (new_probe hex v ts rs) = Some (res, p2)"
  shows "reports_redacted p2"
proof -
  have "reports_redacted (new_probe hex v ts rs)" by (simp add: reports_redacted_def observations_redacted_def new_probe_def)
  moreover obtain pub r p1 e where body: "run_body w (new_probe hex v ts rs) = Some (pub, r, p1)" and fin: "run_finally w pub p1 = Some (e, p2)"
    using assms by (rule probe_run_cases)
  ultimately have "reports_redacted p1"
    by (auto simp: run_body_def Let_def split: if_splits sum.splits)
  with fin show ?thesis
    by (auto simp: run_finally_def split: if_splits sum.splits dest: restore_observed_redacted [rotated])
qed

end
