(* ===== verification/Pump_Liveness.thy ===== *)
theory Pump_Liveness
  imports Delivery_Pump
begin

text \<open>
  Progress of the delivery pump (\<^verbatim>\<open>delivery_pump.py\<close>). The environment is reliable when time goes on
  without bound, publishes are confirmed, nobody asks the thread to stop and nothing new is queued: the
  situation of a relay whose cloud session is up again. Other devices may connect and disconnect as they
  like.

  A pass either removes a row or is stalled. A stalled pass leaves the deadlines of a ready device alone,
  so they are passed at some point and the next pass removes a row; as there are finitely many rows the
  backlog of the device is drained. The order of service is only as fair as the rotation: a run at the end
  of the theory serves one of two ready devices until it has nothing left.
\<close>

section \<open>Reliable environments\<close>

definition reliable :: "pump_env \<Rightarrow> bool" where
  "reliable env \<longleftrightarrow> mono (env_clock env) \<and> (\<forall>t. \<exists>n. t \<le> env_clock env n) \<and>
     (\<forall>n. env_publish env n = Confirmed) \<and> (\<forall>n. \<not> env_stop env n) \<and> (\<forall>n. env_arrivals env n = [])"

lemma reliableD [simp]:
  assumes "reliable env"
  shows "env_publish env n = Confirmed" "\<not> env_stop env n" "env_arrivals env n = []"
  using assms unfolding reliable_def by blast+

lemma reliable_mono: "reliable env \<Longrightarrow> n \<le> m \<Longrightarrow> env_clock env n \<le> env_clock env m"
  unfolding reliable_def mono_def by blast

definition rows :: "DeliveryPump \<Rightarrow> nat" where
  "rows p = length (mq_rows (dp_queue p))"

definition pending :: "device_id \<Rightarrow> DeliveryPump \<Rightarrow> QueuedMessage list" where
  "pending d p = queue_view (dp_queue p) (d, dp_direction p)"

text \<open>The replay window and the send budget of a device, and the latest of the three deadlines it waits for.\<close>

definition timing :: "device_id \<Rightarrow> DeliveryPump \<Rightarrow> ReplayProgress option \<times> seconds option" where
  "timing d p = (dict_get (dp_replay_progress p) d, dict_get (dp_next_device_send_at p) d)"

definition blocked_until :: "device_id \<Rightarrow> DeliveryPump \<Rightarrow> seconds" where
  "blocked_until d p = max (dp_next_global_send_at p)
     (max (case snd (timing d p) of None \<Rightarrow> 0 | Some t \<Rightarrow> t) (case fst (timing d p) of None \<Rightarrow> 0 | Some g \<Rightarrow> rp_ready_at g))"

section \<open>Rows only leave\<close>

lemma rows_remove_le: "length (mq_rows (remove i q)) \<le> length (mq_rows q)"
  by (simp add: remove_def)

lemma rows_remove_less:
  assumes "queue_inv q" "peek_oldest q d dir prio = Some m"
  shows "length (mq_rows (remove (qm_id m) q)) < length (mq_rows q)"
proof -
  have "m \<in> set (queue_view q (d, dir))" using assms by (intro mq.peek_mem [where prio = prio]) (simp_all add: queue_peek_def)
  then obtain r where "r \<in> set (mq_rows q)" "m = queued_message r" by (auto simp: queue_view_def select_rows_def)
  then show ?thesis by (auto simp: remove_def intro!: length_filter_less)
qed

lemma rows_outcome:
  assumes "drain_outcome env target p sig p'" "\<And>n. env_arrivals env n = []" "queue_inv (dp_queue p)"
  shows "rows p' \<le> rows p" "sig = Continue \<Longrightarrow> rows p' < rows p"
  using assms rows_remove_less [OF assms(3)]
  by (cases rule: drain_outcome.cases, auto simp: rows_def less_imp_le)+

definition shrinking :: "pump_env \<Rightarrow> nat \<Rightarrow> DeliveryPump \<Rightarrow> bool" where
  "shrinking env k p \<longleftrightarrow> queue_inv (dp_queue p) \<and> ((\<forall>n. env_arrivals env n = []) \<longrightarrow> rows p \<le> k)"

interpretation shrink: pump_invariant env UNIV "shrinking env k" for env k
proof
  show "shrinking env k p'" if "pump_wf p" "shrinking env k p" "pt_device_id target \<in> UNIV" "drain_outcome env target p sig p'" for p target sig p'
    using that rows_outcome(1) [OF that(4)] queue_inv_outcome [OF that(4)] by (fastforce simp: shrinking_def)
  show "shrinking env k p'" if "shrinking env k p" "quiet_step p p'" for p p'
    using that by (simp add: shrinking_def quiet_step_def rows_def)
  show "shrinking env k (demote_device d p)" if "shrinking env k p" "d \<in> UNIV" for p d
    using that keeps_demote(4) [of p d] by (simp add: shrinking_def rows_def demote_device_def) (simp add: demote_live_messages_def)
qed

lemma rows_drain_loop:
  assumes "reliable env" "pump_wf p" "queue_inv (dp_queue p)" "drain_loop env target n delivered p = Some (b, p')"
  shows "rows p' \<le> rows p" "queue_inv (dp_queue p')" "pump_config p' = pump_config p"
  using shrink.drain_loop_keeps [of p env "rows p" target n delivered] assms by (auto simp: shrinking_def)

lemma rows_drain_device:
  assumes "reliable env" "pump_wf p" "queue_inv (dp_queue p)" "drain_device env target p = Some (b, p')"
  shows "rows p' \<le> rows p" "queue_inv (dp_queue p')" "pump_config p' = pump_config p"
  using shrink.drain_device_keeps [of p env "rows p" target] assms by (auto simp: shrinking_def)

lemma rows_drain_targets:
  assumes "reliable env" "pump_wf p" "queue_inv (dp_queue p)" "drain_targets env targets delivered p = Some (b, p')"
  shows "rows p' \<le> rows p" "queue_inv (dp_queue p')" "pump_config p' = pump_config p"
  using shrink.drain_targets_keeps [of p env "rows p" targets delivered] assms by (auto simp: shrinking_def)

section \<open>Stalled rounds\<close>

lemma timing_can_send:
  "e \<noteq> pt_device_id target \<Longrightarrow> timing e (snd (can_send_replay env target p)) = timing e p"
  "fst (timing e p) \<noteq> None \<Longrightarrow> timing e (snd (can_send_replay env target p)) = timing e p"
  by (auto simp: timing_def can_send_replay_def clock_def Let_def split: option.split)

lemma can_send_replay_ready:
  assumes "pt_replay_ready target"
  obtains g where "fst (timing (pt_device_id target) (snd (can_send_replay env target p))) = Some g"
    "fst (can_send_replay env target p) \<longleftrightarrow> rp_ready_at g \<le> env_clock env (dp_tick p) \<and>
      (case dict_get (dp_next_device_send_at p) (pt_device_id target) of None \<Rightarrow> 0 | Some t \<Rightarrow> t) \<le> env_clock env (dp_tick p) \<and>
      dp_next_global_send_at p \<le> env_clock env (dp_tick p)"
proof (cases "dict_get (dp_replay_progress p) (pt_device_id target)")
  case None
  with assms show ?thesis
    by (intro that [of "\<lparr>rp_scheduled_at = env_clock env (dp_tick p), rp_ready_at = env_clock env (dp_tick p) + dp_replay_start_delay_seconds p,
        rp_sent = 0, rp_expired = 0, rp_started = False\<rparr>"]) (simp_all add: can_send_replay_def clock_def timing_def Let_def not_less)
next
  case (Some g)
  with assms show ?thesis by (intro that [of g]) (simp_all add: can_send_replay_def clock_def timing_def Let_def not_less)
qed

lemma can_send_fields [simp]:
  "dp_next_device_send_at (snd (can_send_replay env target p)) = dp_next_device_send_at p"
  "dp_next_global_send_at (snd (can_send_replay env target p)) = dp_next_global_send_at p"
  by (simp_all add: can_send_replay_def clock_def Let_def split: option.split)

lemma can_send_blocked:
  assumes "pt_replay_ready target" "\<not> fst (can_send_replay env target p)"
  shows "fst (timing (pt_device_id target) (snd (can_send_replay env target p))) \<noteq> None"
    and "env_clock env (dp_tick p) < blocked_until (pt_device_id target) (snd (can_send_replay env target p))"
proof -
  obtain g where g: "fst (timing (pt_device_id target) (snd (can_send_replay env target p))) = Some g"
    "fst (can_send_replay env target p) \<longleftrightarrow> rp_ready_at g \<le> env_clock env (dp_tick p) \<and>
      (case dict_get (dp_next_device_send_at p) (pt_device_id target) of None \<Rightarrow> 0 | Some t \<Rightarrow> t) \<le> env_clock env (dp_tick p) \<and>
      dp_next_global_send_at p \<le> env_clock env (dp_tick p)"
    using assms(1) by (rule can_send_replay_ready)
  then show "fst (timing (pt_device_id target) (snd (can_send_replay env target p))) \<noteq> None" by simp
  have "snd (timing (pt_device_id target) (snd (can_send_replay env target p))) = dict_get (dp_next_device_send_at p) (pt_device_id target)"
    by (simp add: timing_def)
  with g assms(2) show "env_clock env (dp_tick p) < blocked_until (pt_device_id target) (snd (can_send_replay env target p))"
    by (auto simp: blocked_until_def less_max_iff_disj not_le)
qed

lemma timing_helpers [simp]:
  "timing e (increment target n p) = timing e p" "timing e (snd (stop_event_is_set env p)) = timing e p"
  "timing e (snd (is_expired env m p)) = timing e p" "timing e (p\<lparr>dp_offline_devices := ds\<rparr>) = timing e p"
  by (simp_all add: timing_def pump_ops is_expired_def Let_def split: option.split)

lemma timing_complete: "e \<noteq> pt_device_id target \<Longrightarrow> timing e (complete_replay_if_needed env target p) = timing e p"
  by (auto simp: timing_def complete_replay_if_needed_def clock_def Let_def)

lemma blocked_cong: "timing d p = timing d p' \<Longrightarrow> dp_next_global_send_at p = dp_next_global_send_at p' \<Longrightarrow> blocked_until d p = blocked_until d p'"
  by (simp add: blocked_until_def)

lemma blocked_increment [simp]: "blocked_until d (increment target n p) = blocked_until d p"
  by (rule blocked_cong) (simp_all add: increment_def emit_def timing_def)

text \<open>The two ways in which a round returns: nothing is pending, or the budgets refuse the message.\<close>

lemma drain_iteration_return:
  assumes env: "reliable env" and r: "drain_iteration env target p = Some (Return, p')"
  obtains (empty) "peek_oldest (dp_queue p) (pt_device_id target) (dp_direction p) (controlled_replay_enabled p) = None"
      "p' = complete_replay_if_needed env target (snd (stop_event_is_set env p))"
    | (refused) m p2 where "p2 = snd (is_expired env m (snd (stop_event_is_set env p)))" "\<not> fst (can_send_replay env target p2)"
      "p' = increment target ''replay_rate_limited'' (snd (can_send_replay env target p2))"
proof -
  have pub: "publish_and_account env target m replay p3 \<noteq> Some (Return, p')" for m replay p3
    using env by (auto simp: publish_and_account_def case_prod_beta Let_def)
  show thesis
  proof (cases "peek_oldest (dp_queue p) (pt_device_id target) (dp_direction p) (controlled_replay_enabled p)")
    case None
    then show thesis using r env empty by (simp add: drain_iteration_eq Let_def)
  next
    case (Some m)
    then show thesis using r env pub refused by (auto simp: drain_iteration_eq Let_def split: if_splits)
  qed
qed

text \<open>What a stalled step keeps for a device: its messages, the global budget and, once scheduled, its deadlines.\<close>

definition held :: "device_id \<Rightarrow> DeliveryPump \<Rightarrow> DeliveryPump \<Rightarrow> bool" where
  "held d p p' \<longleftrightarrow> dp_direction p' = dp_direction p \<and> pending d p' = pending d p \<and> dp_tick p \<le> dp_tick p' \<and>
     dp_next_global_send_at p' = dp_next_global_send_at p \<and> (fst (timing d p) \<noteq> None \<longrightarrow> timing d p' = timing d p)"

lemma held_trans: "held d p q \<Longrightarrow> held d q r \<Longrightarrow> held d p r"
  by (auto simp: held_def)

lemma held_keeps: "keeps_budget p p' \<Longrightarrow> dp_queue p' = dp_queue p \<Longrightarrow> (fst (timing d p) \<noteq> None \<Longrightarrow> timing d p' = timing d p) \<Longrightarrow> held d p p'"
  by (auto simp: held_def pending_def keeps_fields)

text \<open>The device is scheduled and its latest deadline lies after a time.\<close>

definition waits :: "device_id \<Rightarrow> seconds \<Rightarrow> DeliveryPump \<Rightarrow> bool" where
  "waits d t p \<longleftrightarrow> fst (timing d p) \<noteq> None \<and> t < blocked_until d p"

lemma waits_held: "waits d t p \<Longrightarrow> held d p p' \<Longrightarrow> waits d t p'"
  by (auto simp: waits_def held_def blocked_until_def)

lemma waits_earlier: "waits d t p \<Longrightarrow> s \<le> t \<Longrightarrow> waits d s p"
  by (auto simp: waits_def)

definition serves :: "device_id \<Rightarrow> PumpTarget list \<Rightarrow> bool" where
  "serves d targets \<longleftrightarrow> (\<exists>t\<in>set targets. pt_device_id t = d) \<and>
     (\<forall>t\<in>set targets. pt_device_id t = d \<longrightarrow> pt_connected t \<and> pt_replay_ready t)"

lemma stalled_round:
  assumes env: "reliable env" and q: "queue_inv (dp_queue p)" and r: "drain_iteration env target p = Some (Return, p')"
  shows "pt_device_id target \<noteq> d \<Longrightarrow> held d p p'"
    and "pt_device_id target = d \<Longrightarrow> pt_replay_ready target \<Longrightarrow> pending d p \<noteq> [] \<Longrightarrow> held d p p' \<and> waits d (env_clock env (dp_tick p)) p'"
proof -
  have k1: "keeps_budget p (snd (stop_event_is_set env p))" by (rule keeps_stop)
  show "held d p p'" if other: "pt_device_id target \<noteq> d"
    using env r
  proof (cases rule: drain_iteration_return)
    case empty
    with other show ?thesis by (auto intro!: held_keeps keeps_budget_trans [OF k1 keeps_complete] simp: timing_complete)
  next
    case (refused m p2)
    with other show ?thesis
      by (auto intro!: held_keeps keeps_budget_trans [OF k1 keeps_budget_trans [OF keeps_is_expired keeps_budget_trans [OF keeps_can_send keeps_increment]]]
        simp: timing_can_send)
  qed
  show "held d p p' \<and> waits d (env_clock env (dp_tick p)) p'" if own: "pt_device_id target = d" "pt_replay_ready target" "pending d p \<noteq> []"
    using env r
  proof (cases rule: drain_iteration_return)
    case empty
    with own q show ?thesis by (simp add: pending_def peek_oldest_None queue_view_def)
  next
    case (refused m p2)
    have k: "keeps_budget p p2" unfolding refused(1) by (rule keeps_budget_trans [OF k1 keeps_is_expired])
    from refused(1) have [simp]: "timing d p2 = timing d p" "dp_queue p2 = dp_queue p" by simp_all
    have "held d p p'" unfolding refused(3)
      by (rule held_keeps [OF keeps_budget_trans [OF k keeps_budget_trans [OF keeps_can_send keeps_increment]]])
        (simp_all add: timing_can_send)
    moreover have "waits d (env_clock env (dp_tick p2)) p'"
      using can_send_blocked [OF own(2) refused(2)] own(1) by (simp add: waits_def refused(3))
    moreover have "env_clock env (dp_tick p) \<le> env_clock env (dp_tick p2)" using keeps_fields(3) [OF k] env by (rule_tac reliable_mono)
    ultimately show ?thesis using waits_earlier by blast
  qed
qed

section \<open>Stalled passes\<close>

text \<open>When a whole drain removes no row, its loop left in the first round.\<close>

lemma stalled_drain:
  assumes env: "reliable env" and wf: "pump_wf p" and q: "queue_inv (dp_queue p)" and conn: "pt_connected target"
    and r: "drain_device env target p = Some (b, p')" "rows p' = rows p"
  shows "drain_iteration env target (p\<lparr>dp_offline_devices := removeAll (pt_device_id target) (dp_offline_devices p)\<rparr>) = Some (Return, p')"
proof -
  define p1 where "p1 = p\<lparr>dp_offline_devices := removeAll (pt_device_id target) (dp_offline_devices p)\<rparr>"
  have wf1: "pump_wf p1" "queue_inv (dp_queue p1)" "rows p1 = rows p"
    using wf q by (simp_all add: p1_def pump_wf_def rows_def)
  define n where "n = (if controlled_replay_enabled p1 then 0 else 49 :: nat)"
  have size: "(if controlled_replay_enabled p1 then 1 else LEGACY_DEVICE_BATCH_SIZE) = Suc n"
    by (simp add: n_def LEGACY_DEVICE_BATCH_SIZE_def)
  have "drain_device env target p = drain_loop env target (if controlled_replay_enabled p1 then 1 else LEGACY_DEVICE_BATCH_SIZE) False p1"
    using conn unfolding drain_device_def Let_def p1_def [symmetric] by (simp only: if_False not_True_eq_False)
  with r(1) have loop: "drain_loop env target (Suc n) False p1 = Some (b, p')" by (simp only: size)
  from drain_iteration_outcome [OF wf1(1)] obtain sig p2 where
    it: "drain_iteration env target p1 = Some (sig, p2)" "drain_outcome env target p1 sig p2" by metis
  show ?thesis
  proof (cases sig)
    case Return
    with loop it show ?thesis by (simp add: p1_def)
  next
    case Continue
    note less = rows_outcome(2) [OF it(2) _ wf1(2) Continue]
    from loop it Continue have rest: "drain_loop env target n True p2 = Some (b, p')" by simp
    have "rows p' \<le> rows p2"
      by (rule rows_drain_loop(1) [OF env _ _ rest]) (use wf_outcome(2) [OF it(2)] wf1 queue_inv_outcome [OF it(2)] in simp_all)
    with less env r(2) wf1(3) show ?thesis by simp
  qed
qed

lemma stalled_device:
  assumes env: "reliable env" and wf: "pump_wf p" and q: "queue_inv (dp_queue p)"
    and r: "drain_device env target p = Some (b, p')" "rows p' = rows p"
  shows "pt_device_id target \<noteq> d \<Longrightarrow> held d p p'"
    and "pt_device_id target = d \<Longrightarrow> pt_connected target \<Longrightarrow> pt_replay_ready target \<Longrightarrow> pending d p \<noteq> [] \<Longrightarrow>
      held d p p' \<and> waits d (env_clock env (dp_tick p)) p'"
proof -
  define p1 where "p1 = p\<lparr>dp_offline_devices := removeAll (pt_device_id target) (dp_offline_devices p)\<rparr>"
  have h1: "held d p p1" and q1: "queue_inv (dp_queue p1)" "pending d p1 = pending d p" "dp_tick p1 = dp_tick p" for d
    using q by (simp_all add: p1_def held_def pending_def)
  note it = stalled_drain [OF env wf q _ r, folded p1_def]
  show "held d p p'" if other: "pt_device_id target \<noteq> d"
  proof (cases "pt_connected target")
    case True
    from held_trans [OF h1 stalled_round(1) [OF env q1(1) it [OF True] other]] show ?thesis .
  next
    case False
    with r(1) other show ?thesis
      by (auto simp: drain_device_def Let_def pause_replay_def held_def pending_def timing_def view_demote_other split: if_splits)
  qed
  show "held d p p' \<and> waits d (env_clock env (dp_tick p)) p'"
    if own: "pt_device_id target = d" "pt_connected target" "pt_replay_ready target" "pending d p \<noteq> []"
    using stalled_round(2) [OF env q1(1) it [OF own(2)] own(1,3)] own(4) held_trans [OF h1] q1 by simp
qed

lemma stalled_targets:
  assumes env: "reliable env"
  shows "pump_wf p \<Longrightarrow> queue_inv (dp_queue p) \<Longrightarrow> drain_targets env targets delivered p = Some (b, p') \<Longrightarrow> rows p' = rows p \<Longrightarrow>
    pending d p \<noteq> [] \<Longrightarrow> \<forall>t\<in>set targets. pt_device_id t = d \<longrightarrow> pt_connected t \<and> pt_replay_ready t \<Longrightarrow>
    held d p p' \<and> ((\<exists>t\<in>set targets. pt_device_id t = d) \<longrightarrow> waits d (env_clock env (dp_tick p)) p')"
proof (induction targets arbitrary: delivered p)
  case Nil
  then show ?case by (simp add: held_def)
next
  case (Cons target targets)
  define p1 where "p1 = snd (stop_event_is_set env p)"
  have h1: "held d p p1" unfolding p1_def by (rule held_keeps [OF keeps_stop]) simp_all
  have wf1: "pump_wf p1" "queue_inv (dp_queue p1)" "rows p1 = rows p" "pending d p1 \<noteq> []"
    using Cons.prems wf_keeps [OF keeps_stop] h1 by (simp_all add: p1_def rows_def held_def)
  from Cons.prems(3) env obtain b1 p2 where dev: "drain_device env target p1 = Some (b1, p2)"
    and rest: "drain_targets env targets (delivered \<or> b1) p2 = Some (b, p')"
    by (auto simp: case_prod_beta Let_def p1_def split: option.splits)
  note d2 = rows_drain_device [OF env wf1(1,2) dev]
  have wf2: "pump_wf p2" using wf1(1) wf_config [OF d2(3)] by simp
  have "rows p' \<le> rows p2" by (rule rows_drain_targets(1) [OF env wf2 d2(2) rest])
  with d2(1) wf1(3) Cons.prems(4) have eq: "rows p2 = rows p1" "rows p' = rows p2" by simp_all
  have h2: "held d p1 p2 \<and> (pt_device_id target = d \<longrightarrow> waits d (env_clock env (dp_tick p1)) p2)"
    using stalled_device [OF env wf1(1,2) dev eq(1), of d] Cons.prems(6) wf1(4) by auto
  have "held d p2 p' \<and> ((\<exists>t\<in>set targets. pt_device_id t = d) \<longrightarrow> waits d (env_clock env (dp_tick p2)) p')"
    by (rule Cons.IH [OF wf2 d2(2) rest eq(2)]) (use h2 wf1(4) Cons.prems(6) in \<open>auto simp: held_def\<close>)
  moreover have "env_clock env (dp_tick p) \<le> env_clock env (dp_tick p1)" "env_clock env (dp_tick p) \<le> env_clock env (dp_tick p2)"
    using h1 h2 env by (auto simp: held_def intro: reliable_mono)
  ultimately show ?case
    using held_trans [OF h1 held_trans] h2 by (auto intro: waits_held waits_earlier)
qed

lemma dict_get_filter_key: "Q d \<Longrightarrow> dict_get (filter (\<lambda>e. Q (fst e)) xs) d = dict_get xs d"
  by (induction xs) auto

lemma forget_known: "d \<in> set ds \<Longrightarrow> timing d (forget_unknown ds p) = timing d p"
proof -
  assume "d \<in> set ds"
  then have "d \<notin> set (filter (\<lambda>d. d \<notin> set ds) (map fst (dp_replay_progress p)))" by simp
  note known = dict_get_filter_key [where Q = "\<lambda>x. x \<notin> set (filter (\<lambda>d. d \<notin> set ds) (map fst (dp_replay_progress p)))", OF this]
  show ?thesis by (simp add: timing_def forget_unknown_def Let_def known del: set_filter)
qed

text \<open>One turn of the thread's loop, without insertions.\<close>

abbreviation turn :: "pump_env \<Rightarrow> PumpTarget list \<Rightarrow> DeliveryPump \<Rightarrow> DeliveryPump option" where
  "turn env targets \<equiv> run_passes env [([], targets)]"

lemma turn_eq:
  assumes "reliable env"
  shows "turn env targets p = map_option (\<lambda>(delivered, p2). if delivered then p2 else snd (next_wait_seconds env p2))
    (run_once env targets (snd (stop_event_is_set env p)))"
  using assms by (simp add: case_prod_beta Let_def split: option.split)

lemma wait_fields [simp]:
  "dp_queue (snd (next_wait_seconds env p)) = dp_queue p" "dp_next_global_send_at (snd (next_wait_seconds env p)) = dp_next_global_send_at p"
  "dp_direction (snd (next_wait_seconds env p)) = dp_direction p" "timing d (snd (next_wait_seconds env p)) = timing d p"
  "dp_tick p \<le> dp_tick (snd (next_wait_seconds env p))"
  by (simp_all add: next_wait_seconds_def clock_def timing_def Let_def)

lemma stalled_turn:
  assumes env: "reliable env" and wf: "pump_wf p" "queue_inv (dp_queue p)" and t: "turn env targets p = Some p'" "rows p' = rows p"
    and d: "serves d targets" "pending d p \<noteq> []"
  shows "held d p p'" "waits d (env_clock env (dp_tick p)) p'" "dp_tick p < dp_tick p'"
proof -
  define p1 where "p1 = snd (stop_event_is_set env p)"
  define ts where "ts = fst (rotated_targets targets p1)"
  define p2 where "p2 = forget_unknown (map pt_device_id ts) (snd (rotated_targets targets p1))"
  have k: "keeps_budget p p2" unfolding p2_def p1_def by (intro keeps_budget_trans [OF keeps_stop keeps_budget_trans [OF keeps_rotate keeps_forget]])
  have q2: "dp_queue p2 = dp_queue p" by (simp add: p2_def p1_def)
  have ts: "set ts = set targets" by (simp add: ts_def set_rotated)
  have "timing d p2 = timing d (snd (rotated_targets targets p1))"
    unfolding p2_def by (rule forget_known) (use d(1) ts in \<open>auto simp: serves_def\<close>)
  also have "\<dots> = timing d p" by (simp add: rotated_targets_def p1_def timing_def stop_event_is_set_def Let_def)
  finally have h: "held d p p2" using held_keeps [OF k q2] by simp
  have wf2: "pump_wf p2" "queue_inv (dp_queue p2)" "rows p2 = rows p" "pending d p2 \<noteq> []"
    using wf wf_keeps [OF k] q2 h d(2) by (simp_all add: rows_def held_def)
  from t(1) [unfolded turn_eq [OF env]] obtain b p3 where p3: "drain_targets env ts False p2 = Some (b, p3)" "p' = (if b then p3 else snd (next_wait_seconds env p3))"
    by (auto simp: run_once_def case_prod_beta Let_def p1_def ts_def p2_def)
  have h3: "held d p3 p'" by (simp add: p3(2) held_def pending_def)
  have "rows p3 = rows p2" using t(2) wf2(3) by (simp add: p3(2) rows_def split: if_splits)
  from stalled_targets [OF env wf2(1,2) p3(1) this wf2(4), of] d(1) ts
  have st: "held d p2 p3" "waits d (env_clock env (dp_tick p2)) p3" by (auto simp: serves_def)
  show "held d p p'" using held_trans [OF h held_trans [OF st(1) h3]] .
  have "env_clock env (dp_tick p) \<le> env_clock env (dp_tick p2)" using h env by (auto simp: held_def intro: reliable_mono)
  then show "waits d (env_clock env (dp_tick p)) p'" using waits_earlier [OF waits_held [OF st(2) h3]] by blast
  have "dp_tick p2 = Suc (dp_tick p)" by (simp add: p2_def forget_unknown_def rotated_targets_def p1_def Let_def)
  then show "dp_tick p < dp_tick p'" using st(1) h3 by (simp add: held_def)
qed

lemma turn_keeps:
  assumes env: "reliable env" and wf: "pump_wf p" "queue_inv (dp_queue p)"
  obtains p' where "turn env targets p = Some p'" "pump_wf p'" "queue_inv (dp_queue p')" "rows p' \<le> rows p" "dp_direction p' = dp_direction p"
proof -
  define p1 where "p1 = snd (stop_event_is_set env p)"
  have wf1: "pump_wf p1" "shrinking env (rows p) p1" using wf wf_keeps [OF keeps_stop] by (simp_all add: p1_def shrinking_def rows_def)
  from shrink.run_once_keeps [OF wf1, of targets] obtain b p2 where
    p2: "run_once env targets p1 = Some (b, p2)" "shrinking env (rows p) p2" "pump_config p2 = pump_config p1" by auto
  define p3 where "p3 = (if b then p2 else snd (next_wait_seconds env p2))"
  have k3: "keeps_budget p2 p3" by (simp add: p3_def keeps_wait)
  show thesis
  proof (rule that [of p3])
    show "turn env targets p = Some p3" using p2(1) unfolding turn_eq [OF env] by (simp add: p1_def p3_def)
    show "pump_wf p3" using wf1(1) wf_config [OF p2(3)] wf_keeps [OF k3] by simp
    show "queue_inv (dp_queue p3)" "rows p3 \<le> rows p" using p2(2) env by (simp_all add: shrinking_def p3_def rows_def)
    show "dp_direction p3 = dp_direction p"
      using p2(3) keeps_fields(4) [OF k3] by (simp add: pump_config_def p1_def)
  qed
qed

section \<open>Runs\<close>

fun after :: "pump_env \<Rightarrow> (nat \<Rightarrow> PumpTarget list) \<Rightarrow> DeliveryPump \<Rightarrow> nat \<Rightarrow> DeliveryPump option" where
  "after env ts p 0 = Some p"
| "after env ts p (Suc n) = Option.bind (after env ts p n) (turn env (ts n))"

lemma run_passes_append: "reliable env \<Longrightarrow> run_passes env (xs @ ys) p = Option.bind (run_passes env xs p) (run_passes env ys)"
  by (induction xs arbitrary: p) (auto simp: case_prod_beta Let_def split: option.split)

lemma after_run_passes: "reliable env \<Longrightarrow> after env ts p n = run_passes env (map (\<lambda>i. ([], ts i)) [0..<n]) p"
  by (induction n) (simp_all add: run_passes_append del: run_passes.simps(2))

lemma after_add: "after env ts p n = Some q \<Longrightarrow> after env ts p (n + m) = after env (\<lambda>i. ts (n + i)) q m"
  by (induction m) simp_all

text \<open>Some pass removes a row: otherwise the deadlines of the device stand still while the clock goes on.\<close>

lemma removes_eventually:
  assumes env: "reliable env" and wf: "pump_wf p" "queue_inv (dp_queue p)" and d: "\<And>i. serves d (ts i)" "pending d p \<noteq> []"
  obtains n p' where "after env ts p n = Some p'" "pump_wf p'" "queue_inv (dp_queue p')" "dp_direction p' = dp_direction p" "rows p' < rows p"
proof (rule ccontr)
  assume no: "\<not> thesis"
  define P where "P n = the (after env ts p n)" for n
  have st: "after env ts p n = Some (P n) \<and> pump_wf (P n) \<and> queue_inv (dp_queue (P n)) \<and> dp_direction (P n) = dp_direction p \<and>
      rows (P n) = rows p \<and> pending d (P n) \<noteq> [] \<and> n \<le> dp_tick (P n)" for n
  proof (induction n)
    case (Suc n)
    obtain p' where t: "turn env (ts n) (P n) = Some p'" "pump_wf p'" "queue_inv (dp_queue p')" "rows p' \<le> rows (P n)" "dp_direction p' = dp_direction (P n)"
      using turn_keeps [OF env] Suc.IH by metis
    have a: "after env ts p (Suc n) = Some p'" using Suc.IH t(1) by (simp del: run_passes.simps)
    have "\<not> rows p' < rows p" using no that [OF a t(2,3)] t(5) Suc.IH by auto
    then have eq: "rows p' = rows (P n)" using t(4) Suc.IH by simp
    have P: "P (Suc n) = p'" unfolding P_def a by simp
    have "held d (P n) p'" "dp_tick (P n) < dp_tick p'" using stalled_turn(1,3) [OF env _ _ t(1) eq d(1)] Suc.IH by simp_all
    with Suc.IH t a eq P show ?case by (simp add: held_def del: after.simps)
  qed (use wf d in \<open>simp add: P_def\<close>)
  have step: "turn env (ts n) (P n) = Some (P (Suc n))" for n
    using st [of n] st [of "Suc n"] by (simp del: run_passes.simps)
  note stalled = stalled_turn [OF env _ _ step _ d(1)]
  have held: "held d (P n) (P (Suc n))" and waits: "waits d (env_clock env (dp_tick (P n))) (P (Suc n))" for n
    using stalled [of n] st [of n] st [of "Suc n"] by auto
  have const: "waits d t (P (Suc 0)) \<longleftrightarrow> waits d t (P (Suc n))" for t n
  proof (induction n)
    case (Suc n)
    have "timing d (P (Suc (Suc n))) = timing d (P (Suc n))" using held [of "Suc n"] waits [of n] by (simp add: held_def waits_def)
    with Suc held [of "Suc n"] show ?case by (simp add: waits_def blocked_until_def held_def)
  qed simp
  obtain n where n: "blocked_until d (P (Suc 0)) \<le> env_clock env n" using env unfolding reliable_def by blast
  have "n \<le> dp_tick (P n)" using st by blast
  with n reliable_mono [OF env this] have "blocked_until d (P (Suc 0)) \<le> env_clock env (dp_tick (P n))" by simp
  moreover have "waits d (env_clock env (dp_tick (P n))) (P (Suc 0))" using const waits by blast
  ultimately show False by (simp add: waits_def)
qed

lemma drains_eventually:
  assumes env: "reliable env"
  shows "pump_wf p \<Longrightarrow> queue_inv (dp_queue p) \<Longrightarrow> (\<And>i. serves d (ts i)) \<Longrightarrow>
    \<exists>n p'. after env ts p n = Some p' \<and> pending d p' = [] \<and> dp_direction p' = dp_direction p"
proof (induction "rows p" arbitrary: p ts rule: less_induct)
  case less
  show ?case
  proof (cases "pending d p = []")
    case True
    then show ?thesis by (intro exI [of _ 0]) simp
  next
    case False
    obtain n q where
      q: "after env ts p n = Some q" "pump_wf q" "queue_inv (dp_queue q)" "dp_direction q = dp_direction p" "rows q < rows p"
      by (rule removes_eventually [OF env less.prems False])
    have s: "serves d ((\<lambda>i. ts (n + i)) i)" for i using less.prems(3) by simp
    from less.hyps [of q "\<lambda>i. ts (n + i)", OF q(5,2,3) s] obtain m p' where
      m: "after env (\<lambda>i. ts (n + i)) q m = Some p'" "pending d p' = []" "dp_direction p' = dp_direction q" by blast
    from m(1) after_add [OF q(1), of m] have "after env ts p (n + m) = Some p'" by simp
    with m q(4) show ?thesis by (metis (no_types))
  qed
qed

text \<open>No message is lost on the way.\<close>

lemma kept_turn:
  assumes "reliable env" "pump_wf p" "kept_inv env k m p" "turn env targets p = Some p'"
  shows "kept_inv env k m p' \<and> pump_wf p'"
proof -
  define p1 where "p1 = snd (stop_event_is_set env p)"
  have "kept_inv env k m p1" "pump_wf p1"
    using kept_quiet [OF assms(3) quiet_stop] wf_keeps [OF keeps_stop] assms(2) by (simp_all add: p1_def)
  note p1 = this
  from kept.run_once_keeps [OF p1(2,1), of targets] obtain b p2 where
    c: "run_once env targets p1 = Some (b, p2)" "kept_inv env k m p2" "pump_config p2 = pump_config p1" by blast
  have p2: "run_once env targets p1 = Some (b, p2)" "kept_inv env k m p2" "pump_wf p2"
    using c wf_config [OF c(3)] p1(2) by simp_all
  have "quiet_step p2 (snd (next_wait_seconds env p2))"
    by (simp add: quiet_step_def keeps_wait) (simp add: next_wait_seconds_def clock_def published_def dropped_def Let_def)
  from kept_quiet [OF p2(2) this] wf_keeps [OF keeps_wait, of env p2] p2(3)
  have wait: "kept_inv env k m (snd (next_wait_seconds env p2)) \<and> pump_wf (snd (next_wait_seconds env p2))" by simp
  have "p' = (if b then p2 else snd (next_wait_seconds env p2))"
    using assms(4) p2(1) unfolding turn_eq [OF assms(1)] p1_def by simp
  with wait p2(2,3) show ?thesis by simp
qed

lemma kept_after:
  assumes "reliable env" "pump_wf p" "kept_inv env k m p"
  shows "after env ts p n = Some p' \<Longrightarrow> kept_inv env k m p' \<and> pump_wf p'"
  using assms
proof (induction n arbitrary: p')
  case (Suc n)
  then obtain q where "after env ts p n = Some q" "turn env (ts n) q = Some p'" by (auto simp: Option.bind_eq_Some_conv simp del: run_passes.simps)
  with Suc kept_turn show ?case by blast
qed simp

section \<open>Delivery\<close>

text \<open>
  C5: A device whose cloud session is up again gets everything: when publishes are confirmed, time goes on
  and nothing new is queued, the scheduler empties its queue after finitely many passes, whatever the
  other devices do, and every message that was pending was published to the device with confirmation or
  was dropped for it at a time at which its age limit had passed.
\<close>

theorem backlog_is_delivered:
  assumes "reliable env" "pump_wf p" "queue_inv (dp_queue p)" "\<forall>i. serves d (ts i)"
  shows "\<exists>n p'. run_passes env (map (\<lambda>i. ([], ts i)) [0..<n]) p = Some p' \<and> pending d p' = [] \<and>
    (\<forall>m\<in>set (pending d p). \<exists>m'. same_message m m' \<and>
       ((d, m', Confirmed) \<in> set (published p') \<or> (\<exists>k\<le>dp_tick p'. expired_at m' (env_clock env k) \<and> (d, m', env_clock env k) \<in> set (dropped p'))))"
proof -
  obtain n p' where a: "after env ts p n = Some p'" "pending d p' = []" "dp_direction p' = dp_direction p"
    using drains_eventually [OF assms(1-3), of d ts] assms(4) by blast
  have "\<exists>m'. same_message m m' \<and> ((d, m', Confirmed) \<in> set (published p') \<or> (\<exists>k\<le>dp_tick p'. expired_at m' (env_clock env k) \<and> (d, m', env_clock env k) \<in> set (dropped p')))"
    if "m \<in> set (pending d p)" for m
  proof -
    have "kept_inv env (d, dp_direction p) m p" using that assms(3) by (simp add: kept_inv_def accounted_here pending_def)
    from kept_after [OF assms(1,2) this a(1)] assms(1) a(2,3) show ?thesis by (simp add: kept_inv_def accounted_def pending_def)
  qed
  moreover from a(1) have "run_passes env (map (\<lambda>i. ([], ts i)) [0..<n]) p = Some p'" by (simp only: after_run_passes [OF assms(1)])
  ultimately show ?thesis using a(2) by blast
qed

definition ticking_env :: pump_env where
  "ticking_env = \<lparr>env_clock = of_nat, env_random = (\<lambda>n. 0), env_publish = (\<lambda>n. Confirmed), env_stop = (\<lambda>n. False), env_arrivals = (\<lambda>n. [])\<rparr>"

lemma ticking_reliable: "reliable ticking_env"
proof -
  have "\<exists>n. t \<le> (of_nat n :: rat)" for t by (rule real_arch_simple)
  then show ?thesis by (simp add: reliable_def ticking_env_def mono_def)
qed

definition up :: "device_id \<Rightarrow> PumpTarget" where
  "up d = \<lparr>pt_device_id = d, pt_connected = True, pt_replay_ready = True\<rparr>"

theorem backlog_is_delivered_witness:
  "\<exists>n p'. run_passes ticking_env (map (\<lambda>i. ([], [up ''F1'', (up ''F2'')\<lparr>pt_connected := even i\<rparr>])) [0..<n]) demo_pump = Some p' \<and> pending ''F1'' p' = [] \<and>
    (\<forall>m\<in>set (pending ''F1'' demo_pump). \<exists>m'. same_message m m' \<and>
       ((''F1'', m', Confirmed) \<in> set (published p') \<or> (\<exists>k\<le>dp_tick p'. expired_at m' (env_clock ticking_env k) \<and> (''F1'', m', env_clock ticking_env k) \<in> set (dropped p'))))"
  by (rule backlog_is_delivered [OF ticking_reliable]) (simp_all add: demo_pump_facts demo_queue_inv serves_def up_def)

section \<open>The rotation can lock\<close>

text \<open>
  Two devices with a backlog, a global rate that is lower than the rate per device. A pass that sends is
  followed at once by a pass that the global budget refuses, then by the wait for that budget: two passes
  for each message, so that with two devices the same one is first whenever the budget is free. The clock
  below stands still within such a cycle of 17 readings and advances by the half second of the wait.
\<close>

definition locked_env :: pump_env where
  "locked_env = \<lparr>env_clock = (\<lambda>n. 100 + of_nat (n div 17) / 2), env_random = (\<lambda>n. 0), env_publish = (\<lambda>n. Confirmed),
     env_stop = (\<lambda>n. False), env_arrivals = (\<lambda>n. [])\<rparr>"

definition locked_queue :: MessageQueue where
  "locked_queue = queue_run
     [Enqueue 10 ''F1'' ''up'' ''t/a'' ''1'' 1 None ''P'' None False, Enqueue 11 ''F2'' ''up'' ''t/b'' ''2'' 1 None ''P'' None False,
      Enqueue 12 ''F1'' ''up'' ''t/a'' ''3'' 1 None ''P'' None False, Enqueue 13 ''F1'' ''up'' ''t/a'' ''4'' 1 None ''P'' None False]
     (open_queue None 1 9)"

definition served :: "nat \<Rightarrow> device_id list option" where
  "served n = (case init_pump ''up'' locked_queue False (Some 4) (Some 2) 0 0 of
     Inl _ \<Rightarrow> None
   | Inr p \<Rightarrow> map_option (\<lambda>p'. map fst (published p'))
       (run_passes locked_env (replicate n ([], [up ''F1'', up ''F2''])) p))"

theorem rotation_can_lock: "served 5 = Some [''F1'', ''F1'', ''F1'']"
  by code_simp

end
