(* ===== verification/End_To_End.thy ===== *)
theory End_To_End
  imports Pump_Liveness Relay_Main
begin

text \<open>
  The way of one message through the whole relay: the bridge's callback (\<^verbatim>\<open>mqtt_bridge.py\<close>), the device's
  context and its replay policy (\<^verbatim>\<open>device_context.py\<close>, \<^verbatim>\<open>replay_policy.py\<close>), the durable queue
  (\<^verbatim>\<open>message_queue.py\<close>) and the delivery pump (\<^verbatim>\<open>delivery_pump.py\<close>) with the targets the bridge hands to it.
  The queue object is shared: what the context has stored is what the pump finds. In both directions a
  message that is not answered, dropped or suppressed is published to its own peer, unchanged, once the
  peer stays connected, unless the pump drops it at a time at which its age limit has passed. The
  statements are about a relay that is left to itself from then on: every publish is confirmed, time goes
  on, and no other message enters the queue, since a newer message with the same coalescing key replaces
  this one and a full queue evicts the oldest.
\<close>

section \<open>The targets of the bridge\<close>

lemma list_devices_id:
  assumes "manager_inv m" "dict_get (dm_contexts m) d = Some x" "y \<in> set (list_devices m)"
  shows "dx_device_id y = d \<longleftrightarrow> y = x"
proof -
  obtain e where "(e, y) \<in> set (dm_contexts m)" using assms(3) by (auto simp: list_devices_def)
  then have "dict_get (dm_contexts m) e = Some y" using assms(1) by (simp add: manager_inv_def dict_wf_mem)
  with assms show ?thesis by (auto simp: manager_inv_def)
qed

lemma list_devices_mem: "dict_get (dm_contexts m) d = Some x \<Longrightarrow> x \<in> set (list_devices m)"
  by (force simp: list_devices_def dest: dict_get_Some_mem)

text \<open>A device whose cloud session is up and fully subscribed.\<close>

definition cloud_ready :: "device_id \<Rightarrow> (nat \<Rightarrow> bool) \<Rightarrow> MqttBridge \<Rightarrow> bool" where
  "cloud_ready d is_up b \<longleftrightarrow> manager_inv (br_manager b) \<and>
     (case get_by_device_id d (br_manager b) of
       None \<Rightarrow> False
     | Some x \<Rightarrow> (case dx_upstream_client x of None \<Rightarrow> False | Some client \<Rightarrow> is_up client) \<and> upstream_replay_ready x)"

lemma cloud_ready_served:
  assumes "cloud_ready d is_up b"
  shows "serves d (upstream_targets is_up b)"
proof -
  obtain x k where x: "manager_inv (br_manager b)" "dict_get (dm_contexts (br_manager b)) d = Some x"
    "dx_upstream_client x = Some k" "is_up k" "upstream_replay_ready x"
    using assms by (auto simp: cloud_ready_def get_by_device_id_def split: option.splits)
  have "dx_device_id x = d" using x(1,2) by (simp add: manager_inv_def)
  with list_devices_id [OF x(1,2)] list_devices_mem [OF x(2)] x(3-5) show ?thesis
    by (force simp: serves_def upstream_targets_def map_filter_def)
qed

text \<open>The local broker serves every bridged device over one connection.\<close>

lemma broker_serves:
  assumes "manager_inv (br_manager b)" "get_by_device_id d (br_manager b) = Some x"
  shows "serves d (local_targets True b)"
  using assms list_devices_mem [of "br_manager b" d x]
  by (auto simp: serves_def local_targets_def get_by_device_id_def manager_inv_def)

section \<open>The stored row\<close>

definition stored :: "seconds \<Rightarrow> bool \<Rightarrow> string \<Rightarrow> bytes \<Rightarrow> int \<Rightarrow> MessageQueue \<Rightarrow> QueuedMessage \<Rightarrow> bool" where
  "stored now is_cloud_to_device topic payload qos q m \<longleftrightarrow>
     qm_id m = mq_next_id q \<and> qm_topic m = topic \<and> qm_payload m = payload \<and> qm_qos m = qos \<and> qm_created_at m = sql_now now \<and>
     qm_max_age_seconds m = max_age_seconds (policy_for is_cloud_to_device (extract_command payload))"

lemma stored_same: "stored now c t p qos q m \<Longrightarrow> same_message m m' \<Longrightarrow> stored now c t p qos q m'"
  by (cases m; cases m') (simp add: stored_def same_message_def)

lemma last_capped: "1 \<le> m \<Longrightarrow> r \<in> set (capped m (rs @ [r]))"
  by (simp add: capped_def)

lemma enqueued_is_pending:
  assumes "queue_inv q" "1 \<le> mq_max_size q"
  shows "queued_message (new_row (mq_next_id q) now d dir t p qos key prd age live)
    \<in> set (queue_view (snd (enqueue now d dir t p qos key prd age live q)) (d, dir))"
  using select_enqueue_same [OF assms(1), of now d dir t p qos key prd age live] last_capped [OF assms(2)]
  by (simp add: queue_view_def)

lemma queue_for_pending:
  assumes "queue_inv q" "1 \<le> mq_max_size q"
  shows "\<exists>m\<in>set (queue_view (queue_for_cloud now x t p qos q) (dx_device_id x, LOCAL_TO_UPSTREAM)). stored now False t p qos q m"
    "\<exists>m\<in>set (queue_view (queue_for_device now x t p qos q) (dx_device_id x, UPSTREAM_TO_LOCAL)). stored now True t p qos q m"
    "queue_inv (queue_for_cloud now x t p qos q)" "queue_inv (queue_for_device now x t p qos q)"
  using assms
  by (auto simp: queue_for_cloud_def queue_for_device_def Let_def stored_def new_row_def queue_inv_enqueue
      intro!: bexI [OF _ enqueued_is_pending])

text \<open>The policy tables: nothing from the cloud is dropped, and from the feeder only two kinds of report.\<close>

lemma commands_are_never_dropped: "should_enqueue (policy_for True command) online"
proof -
  have "\<forall>p\<in>snd ` set CLOUD_TO_DEVICE_POLICIES. \<not> drop_when_destination_offline p"
    by (simp add: CLOUD_TO_DEVICE_POLICIES_def relay_defs)
  then show ?thesis by (force simp: should_enqueue_def policy_for_def DURABLE_FIFO_def split: option.split dest: dict_get_Some_mem)
qed

lemma only_reports_are_dropped:
  "should_enqueue (policy_for False command) online \<longleftrightarrow> online \<or> command \<notin> {Some ''HEARTBEAT'', Some ''NTP''}"
proof -
  have t: "\<forall>cp\<in>set DEVICE_TO_CLOUD_POLICIES. drop_when_destination_offline (snd cp) \<longleftrightarrow> fst cp = ''HEARTBEAT'' \<or> fst cp = ''NTP''"
    "dict_get DEVICE_TO_CLOUD_POLICIES ''HEARTBEAT'' \<noteq> None" "dict_get DEVICE_TO_CLOUD_POLICIES ''NTP'' \<noteq> None"
    by code_simp+
  show ?thesis
  proof (cases command)
    case (Some c)
    then show ?thesis
    proof (cases "dict_get DEVICE_TO_CLOUD_POLICIES c")
      case None
      then have "c \<noteq> ''HEARTBEAT''" "c \<noteq> ''NTP''" using t(2,3) by metis+
      with Some None show ?thesis by (simp add: should_enqueue_def policy_for_def DURABLE_FIFO_def)
    next
      case (Some p)
      with dict_get_Some_mem [OF Some] t(1) \<open>command = Some c\<close> show ?thesis by (auto simp: should_enqueue_def policy_for_def)
    qed
  qed (simp add: should_enqueue_def policy_for_def DURABLE_FIFO_def)
qed

section \<open>Through the context\<close>

text \<open>The pump and the contexts hold the same queue object.\<close>

definition with_queue :: "MessageQueue \<Rightarrow> DeliveryPump \<Rightarrow> DeliveryPump" where
  "with_queue q p = p\<lparr>dp_queue := q\<rparr>"

lemma with_queue_simps [simp]:
  "dp_queue (with_queue q p) = q" "pump_wf (with_queue q p) = pump_wf p" "dp_direction (with_queue q p) = dp_direction p"
  by (simp_all add: with_queue_def pump_wf_def)

text \<open>The message was published with confirmation to its device, or dropped for it at a time at which its age limit had passed.\<close>

definition settled :: "pump_env \<Rightarrow> device_id \<Rightarrow> (QueuedMessage \<Rightarrow> bool) \<Rightarrow> DeliveryPump \<Rightarrow> bool" where
  "settled env d is_it p \<longleftrightarrow> (\<exists>m. is_it m \<and> ((d, m, Confirmed) \<in> set (published p) \<or>
     (\<exists>k\<le>dp_tick p. expired_at m (env_clock env k) \<and> (d, m, env_clock env k) \<in> set (dropped p))))"

lemma pending_is_settled:
  assumes "reliable env" "pump_wf p" "queue_inv q" "\<And>i. serves d (ts i)"
    and "\<exists>m\<in>set (queue_view q (d, dp_direction p)). stored now c t pl qos q0 m"
  shows "\<exists>n p'. run_passes env (map (\<lambda>i. ([], ts i)) [0..<n]) (with_queue q p) = Some p' \<and> settled env d (stored now c t pl qos q0) p'"
proof -
  have wf: "pump_wf (with_queue q p)" "queue_inv (dp_queue (with_queue q p))" using assms by simp_all
  obtain n p' where a: "after env ts (with_queue q p) n = Some p'" "pending d p' = []" "dp_direction p' = dp_direction p"
    using drains_eventually [OF assms(1) wf, of d ts] assms(4) by auto
  obtain m where m: "m \<in> set (queue_view q (d, dp_direction p))" "stored now c t pl qos q0 m" using assms(5) by blast
  have "kept_inv env (d, dp_direction p) m (with_queue q p)" using m(1) assms(3) by (simp add: kept_inv_def accounted_here)
  from kept_after [OF assms(1) wf(1) this a(1)] assms(1) a(2,3) have "settled env d (stored now c t pl qos q0) p'"
    using stored_same [OF m(2)] by (auto simp: kept_inv_def accounted_def pending_def settled_def)
  with a(1) show ?thesis unfolding after_run_passes [OF assms(1)] by blast
qed

lemma forwarded_queue:
  assumes "decision_on now i zone topic payload (x, dm_stores (br_manager b)) = Some action" "ra_decision action \<noteq> RESPOND_LOCAL"
    "ra_decision action \<noteq> IGNORE" "should_enqueue (policy_for False (extract_command payload)) (upstream_state x = UP_ONLINE)"
  obtains b' where "route_to_context now True i zone presence topic payload qos x b = Some b'"
    "sx_queue (dm_stores (br_manager b')) = queue_for_cloud now x topic payload qos (sx_queue (dm_stores (br_manager b)))"
proof -
  obtain x' s' where h: "handle_local_message now True i zone topic payload qos (x, dm_stores (br_manager b)) = Some (None, x', s')"
    "sx_queue s' = queue_for_cloud now x topic payload qos (sx_queue (dm_stores (br_manager b)))"
    using local_message_route [OF assms(1), of qos] assms(2-4) by auto
  have reg: "sx_queue (dm_stores (fold (\<lambda>(d, uid). register_camera_uid now presence d uid) us m)) = sx_queue (dm_stores m)" for us m
    by (induction us arbitrary: m) auto
  obtain b' where b': "route_to_context now True i zone presence topic payload qos x b = Some b'" "sx_queue (dm_stores (br_manager b')) = sx_queue s'"
    using h(1) by (simp add: route_to_context_def Let_def reg put_context_def)
  show thesis using that [OF b'(1)] b'(2) h(2) by simp
qed

lemma observe_ack_manager [simp]: "br_manager (snd (observe_ack d topic payload b)) = br_manager b"
  by (simp add: observe_ack_def split: option.split prod.split)

text \<open>The cloud's late answer to a request that the relay has answered itself.\<close>

definition late_answer :: "seconds \<Rightarrow> string \<Rightarrow> bytes \<Rightarrow> DeviceContext \<times> SharedStores \<Rightarrow> bool" where
  "late_answer now topic payload xs = (case xs of (x, s) \<Rightarrow> (case dx_responder x of
     None \<Rightarrow> False
   | Some r \<Rightarrow> fst (is_suppressed_cloud_response now (dx_device_id x) payload
       (snd (observe_cloud_message now (dx_device_id x) topic payload (r\<lparr>lr_shadow := sx_shadow s\<rparr>))))))"

text \<open>The database refuses what the responder wants to record of the message.\<close>

definition recording_raises :: "seconds \<Rightarrow> string \<Rightarrow> bytes \<Rightarrow> DeviceContext \<times> SharedStores \<Rightarrow> bool" where
  "recording_raises now topic payload xs = (case xs of (x, s) \<Rightarrow> (case dx_responder x of
     None \<Rightarrow> False
   | Some r \<Rightarrow> fst (observe_cloud_message now (dx_device_id x) topic payload (r\<lparr>lr_shadow := sx_shadow s\<rparr>))))"

lemma accepted_from_cloud:
  assumes "dx_upstream_client x = Some k" "\<not> late_answer now topic payload (x, s)" "\<not> recording_raises now topic payload (x, s)"
  shows "sx_queue (snd (snd (on_upstream_message now True k topic payload qos (x, s)))) = queue_for_device now x topic payload qos (sx_queue s)"
    "\<not> fst (on_upstream_message now True k topic payload qos (x, s))"
proof -
  have c: "queue_for_device now (observe_ntp payload ''cloud'' x) = queue_for_device now x"
    "queue_for_device now ((observe_ntp payload ''cloud'' x)\<lparr>dx_responder := r\<rparr>) = queue_for_device now x" for r
    by (rule queue_for_cong(2); simp)+
  show "sx_queue (snd (snd (on_upstream_message now True k topic payload qos (x, s)))) = queue_for_device now x topic payload qos (sx_queue s)"
    "\<not> fst (on_upstream_message now True k topic payload qos (x, s))"
    using assms
    by (cases "dx_responder x"; simp add: on_upstream_message_def is_stale_client_def late_answer_def recording_raises_def note_message_def
        with_responder_def Let_def case_prod_beta enqueue_message_queue commands_are_never_dropped c)+
qed

section \<open>Properties\<close>

text \<open>
  C1: A message of a bridged feeder is stored by the bridge's callback if it is not a control
  acknowledgement kept local, the cache file can be written, the responder does not raise and does not
  answer or ignore it, and it is no heartbeat or time request while the cloud is away. From then on, if the
  device's cloud session is up and subscribed in every pass, every publish is confirmed, time goes on and
  no other message enters the queue, the pump publishes it with confirmation for its own device after
  finitely many passes, with the topic, body and quality of service of the feeder, or drops it at a time at
  which its age limit has passed; a message without an age limit is published.
\<close>

theorem feeder_message_reaches_cloud:
  assumes "parse_topic topic = Some adr" "ta_is_post adr" "manager_inv (br_manager b)"
    "get_by_device_id (ta_device_id adr) (br_manager b) = Some x" "fst (observe_ack (ta_device_id adr) topic payload b) \<noteq> LOCAL_ONLY"
    "decision_on now i zone topic payload (x, dm_stores (br_manager b)) = Some action"
    "ra_decision action \<noteq> RESPOND_LOCAL" "ra_decision action \<noteq> IGNORE"
    "upstream_state x = UP_ONLINE \<or> extract_command payload \<notin> {Some ''HEARTBEAT'', Some ''NTP''}"
    "q = sx_queue (dm_stores (br_manager b))" "queue_inv q" "1 \<le> mq_max_size q"
    "reliable env" "pump_wf p" "dp_direction p = LOCAL_TO_UPSTREAM" "dp_log p = []" "\<forall>j. cloud_ready (ta_device_id adr) (is_up j) (later j)"
  shows "\<exists>b'. on_local_message now True i zone presence topic payload qos b = Some b' \<and>
    (\<exists>n p'. run_passes env (map (\<lambda>j. ([], upstream_targets (is_up j) (later j))) [0..<n])
        (with_queue (sx_queue (dm_stores (br_manager b'))) p) = Some p' \<and>
      settled env (ta_device_id adr) (stored now False topic payload qos q) p')"
proof -
  let ?b = "snd (observe_ack (ta_device_id adr) topic payload b)"
  have d: "dx_device_id x = ta_device_id adr" using assms(3,4) by (simp add: manager_inv_def get_by_device_id_def)
  obtain b' where b': "route_to_context now True i zone presence topic payload qos x ?b = Some b'"
    "sx_queue (dm_stores (br_manager b')) = queue_for_cloud now x topic payload qos q"
    using forwarded_queue [of now i zone topic payload x ?b action presence qos] assms(6-10) only_reports_are_dropped by auto
  have "on_local_message now True i zone presence topic payload qos b = Some b'"
    using assms(1,2,4,5) b'(1) by (simp add: on_local_message_def case_prod_beta)
  moreover have "\<exists>n p'. run_passes env (map (\<lambda>j. ([], upstream_targets (is_up j) (later j))) [0..<n])
      (with_queue (queue_for_cloud now x topic payload qos q) p) = Some p' \<and> settled env (ta_device_id adr) (stored now False topic payload qos q) p'"
    using queue_for_pending(1,3) [OF assms(11,12), of now x topic payload qos] assms(13-15,17) d
    by (intro pending_is_settled) (auto intro: cloud_ready_served)
  ultimately show ?thesis using b'(2) by auto
qed

text \<open>
  C2: A message of the cloud on the device's current session is stored by the device's context, which
  does not raise, if the cache file can be written, the database accepts what is recorded of it, and it is
  not the late answer to a request the relay has answered. From then on, if the broker is connected and
  the device bridged in every pass, every publish is confirmed, time goes on and no other message enters
  the queue, the pump publishes it with confirmation to the feeder, unchanged, after finitely many passes,
  or drops it at a time at which its age limit has passed; a message without an age limit is published.
\<close>

theorem cloud_message_reaches_feeder:
  assumes "dx_upstream_client x = Some k" "\<not> late_answer now topic payload (x, s)" "\<not> recording_raises now topic payload (x, s)"
    "queue_inv (sx_queue s)" "1 \<le> mq_max_size (sx_queue s)"
    "reliable env" "pump_wf p" "dp_direction p = UPSTREAM_TO_LOCAL" "dp_log p = []"
    "\<forall>j. manager_inv (br_manager (later j)) \<and> get_by_device_id (dx_device_id x) (br_manager (later j)) \<noteq> None"
  shows "\<not> fst (on_upstream_message now True k topic payload qos (x, s)) \<and>
    (\<exists>n p'. run_passes env (map (\<lambda>j. ([], local_targets True (later j))) [0..<n])
        (with_queue (sx_queue (snd (snd (on_upstream_message now True k topic payload qos (x, s))))) p) = Some p' \<and>
      settled env (dx_device_id x) (stored now True topic payload qos (sx_queue s)) p')"
proof
  show "\<exists>n p'. run_passes env (map (\<lambda>j. ([], local_targets True (later j))) [0..<n])
        (with_queue (sx_queue (snd (snd (on_upstream_message now True k topic payload qos (x, s))))) p) = Some p' \<and>
      settled env (dx_device_id x) (stored now True topic payload qos (sx_queue s)) p'"
    unfolding accepted_from_cloud(1) [OF assms(1-3)]
    using queue_for_pending(2,4) [OF assms(4,5)] assms(6-10) by (intro pending_is_settled) (auto intro: broker_serves)
qed (rule accepted_from_cloud(2) [OF assms(1-3)])

section \<open>Witnesses\<close>

text \<open>One bridged feeder without a responder; later its cloud session is up.\<close>

definition demo_bridge :: "nat option \<Rightarrow> MqttBridge" where
  "demo_bridge k = init_bridge [] ((init_manager demo_stores all_on 60 False)\<lparr>
     dm_contexts := [(''A'', demo_context\<lparr>dx_upstream_client := k\<rparr>)]\<rparr>)"

definition idle_pump :: "string \<Rightarrow> bool \<Rightarrow> DeliveryPump" where
  "idle_pump direction c2d = (case init_pump direction (open_queue None 1 10) c2d (if c2d then None else Some 2) (if c2d then None else Some 4) 3 0 of
     Inr p \<Rightarrow> p)"

lemma demo_bridge_facts:
  "manager_inv (br_manager (demo_bridge k))"
  "get_by_device_id ''A'' (br_manager (demo_bridge k)) = Some (demo_context\<lparr>dx_upstream_client := k\<rparr>)"
  "dm_stores (br_manager (demo_bridge k)) = demo_stores" "br_controller (demo_bridge k) = None"
  "queue_inv (sx_queue demo_stores)" "mq_max_size (sx_queue demo_stores) = 10"
  by (simp_all add: demo_bridge_def init_bridge_def init_manager_def manager_inv_def get_by_device_id_def demo_context_def
      init_context_def dx_device_id_def demo_stores_def fresh_queue)

lemma idle_pump_facts:
  "pump_wf (idle_pump dir c2d)" "dp_direction (idle_pump dir c2d) = dir" "dp_log (idle_pump dir c2d) = []"
  by (simp_all add: idle_pump_def init_pump_def pump_wf_def)

lemma demo_cloud_ready: "cloud_ready ''A'' (\<lambda>_. True) (demo_bridge (Some 0))"
  using demo_bridge_facts(1,2) [of "Some 0"]
  by (simp add: cloud_ready_def demo_context_def init_context_def upstream_replay_ready_def)

theorem feeder_message_reaches_cloud_witness:
  "\<exists>b'. on_local_message 5 True ''i'' (\<lambda>_. 0) (init_tracker 0) ''dl/PLAF203/A/device/event/post'' ''{}'' 1 (demo_bridge None) = Some b' \<and>
    (\<exists>n p'. run_passes ticking_env (map (\<lambda>j. ([], upstream_targets (\<lambda>_. True) (demo_bridge (Some 0)))) [0..<n])
        (with_queue (sx_queue (dm_stores (br_manager b'))) (idle_pump LOCAL_TO_UPSTREAM False)) = Some p' \<and>
      settled ticking_env ''A'' (stored 5 False ''dl/PLAF203/A/device/event/post'' ''{}'' 1 (sx_queue demo_stores)) p')"
proof -
  obtain adr where adr: "parse_topic ''dl/PLAF203/A/device/event/post'' = Some adr" "ta_is_post adr" "ta_device_id adr = ''A''"
  proof -
    have "case parse_topic ''dl/PLAF203/A/device/event/post'' of Some a \<Rightarrow> ta_is_post a \<and> ta_device_id a = ''A'' | None \<Rightarrow> False" by code_simp
    then show thesis using that by (auto split: option.splits)
  qed
  have "extract_command ''{}'' = None" by code_simp
  moreover have "decision_on 5 ''i'' (\<lambda>_. 0) ''dl/PLAF203/A/device/event/post'' ''{}'' (demo_context\<lparr>dx_upstream_client := None\<rparr>, demo_stores)
      = Some (plain_action FORWARD_ONLY)"
    by (simp add: decision_on_def demo_context_def init_context_def)
  ultimately show ?thesis
    using feeder_message_reaches_cloud [OF adr(1,2), of "demo_bridge None" "demo_context\<lparr>dx_upstream_client := None\<rparr>" "''{}''" 5 "''i''"
        "\<lambda>_. 0" "plain_action FORWARD_ONLY" _ ticking_env "idle_pump LOCAL_TO_UPSTREAM False" "\<lambda>_ _. True" "\<lambda>_. demo_bridge (Some 0)" "init_tracker 0" 1]
      adr(3) demo_bridge_facts demo_cloud_ready idle_pump_facts ticking_reliable
    by (simp add: plain_action_def observe_ack_def)
qed

theorem cloud_message_reaches_feeder_witness:
  "\<exists>n p'. run_passes ticking_env (map (\<lambda>j. ([], local_targets True (demo_bridge (Some 0)))) [0..<n])
      (with_queue (sx_queue (snd (snd (on_upstream_message 5 True 0 ''t'' ''{}'' 1 (demo_context\<lparr>dx_upstream_client := Some 0\<rparr>, demo_stores)))))
        (idle_pump UPSTREAM_TO_LOCAL True)) = Some p' \<and>
    settled ticking_env ''A'' (stored 5 True ''t'' ''{}'' 1 (sx_queue demo_stores)) p'"
proof -
  let ?x = "demo_context\<lparr>dx_upstream_client := Some 0\<rparr>"
  have "dx_device_id ?x = ''A''" "\<not> late_answer 5 ''t'' ''{}'' (?x, demo_stores)" "\<not> recording_raises 5 ''t'' ''{}'' (?x, demo_stores)"
    by (simp_all add: dx_device_id_def demo_context_def init_context_def late_answer_def recording_raises_def)
  then show ?thesis
    using cloud_message_reaches_feeder [of ?x 0 5 "''t''" "''{}''" demo_stores ticking_env
        "idle_pump UPSTREAM_TO_LOCAL True" "\<lambda>_. demo_bridge (Some 0)" 1] demo_bridge_facts idle_pump_facts ticking_reliable by simp
qed

end
