(* ===== verification/Host_Facts.thy ===== *)
theory Host_Facts
  imports Web_Api
begin

text \<open>
  The diagnostics page (\<open>system\<close> of \<^verbatim>\<open>web/context.py\<close>) and the two routes of \<^verbatim>\<open>web/app.py\<close> that serve the
  shell of a device's page and the log stream. What the operating system answers is an argument, a record
  \<open>Host\<close>; what the relay computes from it is modelled: the normalised paths of its databases and the memory
  facts it reads from the text of \<^verbatim>\<open>/proc/meminfo\<close>. A malformed line of that file raises, so the value is an
  option.
\<close>

section \<open>Text\<close>

fun split_where :: "('a \<Rightarrow> bool) \<Rightarrow> 'a list \<Rightarrow> 'a list list" where
  "split_where P [] = [[]]"
| "split_where P (x # xs) =
     (if P x then [] # split_where P xs
      else (case split_where P xs of [] \<Rightarrow> [[x]] | y # ys \<Rightarrow> (x # y) # ys))"

text \<open>\<open>str.split()\<close>, and \<open>str.splitlines()\<close> without its empty lines.\<close>

definition py_split :: "string \<Rightarrow> string list" where
  "py_split s = filter (\<lambda>w. w \<noteq> []) (split_where is_py_space s)"

definition is_line_break :: "char \<Rightarrow> bool" where
  "is_line_break c \<longleftrightarrow> c \<in> set [CHR 0x0A, CHR 0x0B, CHR 0x0C, CHR 0x0D, CHR 0x1C, CHR 0x1D, CHR 0x1E]"

definition full_lines :: "string \<Rightarrow> string list" where
  "full_lines s = filter (\<lambda>l. l \<noteq> []) (split_where is_line_break s)"

section \<open>Memory\<close>

definition meminfo_entry :: "string \<Rightarrow> (string \<times> int) option" where
  "meminfo_entry line = (case py_split line of
     _ # amount # _ \<Rightarrow> map_option (\<lambda>n. (takeWhile (\<lambda>c. c \<noteq> CHR '':'') line, n * 1024)) (python_int amount)
   | _ \<Rightarrow> None)"

definition meminfo_values :: "string \<Rightarrow> (string, int) dict option" where
  "meminfo_values content =
     map_option (\<lambda>es. dict_merge [] es) (those (map meminfo_entry (filter (\<lambda>l. CHR '':'' \<in> set l) (full_lines content))))"

definition memory_metadata :: "string option \<Rightarrow> view option" where
  "memory_metadata meminfo = (case meminfo of
     None \<Rightarrow> Some VNone
   | Some content \<Rightarrow> (case meminfo_values content of
       None \<Rightarrow> None
     | Some vals \<Rightarrow> Some (case (dict_get vals ''MemTotal'', dict_get vals ''MemAvailable'') of
         (Some mem_total, Some available) \<Rightarrow>
           VDict [(''total_bytes'', VJson (JInt mem_total)), (''used_bytes'', VJson (JInt (mem_total - available))),
             (''available_bytes'', VJson (JInt available))]
       | _ \<Rightarrow> VNone)))"

section \<open>Files and the host\<close>

record Host =
  ho_file_size :: "string \<Rightarrow> nat option"
  ho_disk_usage :: "string \<Rightarrow> (nat \<times> nat \<times> nat) option"
  ho_load_average :: "seconds option"
  ho_meminfo :: "string option"
  ho_git_commit :: "string option"
  ho_hostname :: string
  ho_python_version :: string
  ho_pid :: nat

text \<open>\<open>str(Path(p))\<close> and \<open>str(Path(p).parent)\<close> on a POSIX host.\<close>

definition path_root :: "string \<Rightarrow> string" where
  "path_root p = (case takeWhile (\<lambda>c. c = CHR ''/'') p of [] \<Rightarrow> '''' | [_, _] \<Rightarrow> ''//'' | _ \<Rightarrow> ''/'')"

definition path_parts :: "string \<Rightarrow> string list" where
  "path_parts p = filter (\<lambda>s. s \<noteq> [] \<and> s \<noteq> ''.'') (split_on CHR ''/'' p)"

definition path_str :: "string \<Rightarrow> string list \<Rightarrow> string" where
  "path_str r parts = (if r = [] \<and> parts = [] then ''.'' else r @ join ''/'' parts)"

definition normalized :: "string \<Rightarrow> string" where
  "normalized p = path_str (path_root p) (path_parts p)"

definition path_parent :: "string \<Rightarrow> string" where
  "path_parent p = path_str (path_root p) (butlast (path_parts p))"

definition file_metadata :: "Host \<Rightarrow> string \<Rightarrow> string \<Rightarrow> view" where
  "file_metadata h name path = VDict
     [(''name'', VStr name), (''path'', VStr (normalized path)),
      (''size_bytes'', VNat (case ho_file_size h (normalized path) of Some n \<Rightarrow> n | None \<Rightarrow> 0))]"

definition runtime_metadata :: "Host \<Rightarrow> string \<Rightarrow> view option" where
  "runtime_metadata h storage = (case ho_disk_usage h storage of
     None \<Rightarrow> None
   | Some (disk_total, used, free) \<Rightarrow> map_option (\<lambda>memory. VDict
       [(''cpu_load_1m'', vopt VNum (ho_load_average h)), (''memory'', memory),
        (''disk'', VDict [(''total_bytes'', VNat disk_total), (''used_bytes'', VNat used), (''free_bytes'', VNat free)])])
       (memory_metadata (ho_meminfo h)))"

definition system_view :: "Host \<Rightarrow> DashboardContext \<Rightarrow> view option" where
  "system_view h x = (let c = db_config x in
     map_option (\<lambda>runtime. VDict
       [(''version'', VStr ''0.1.0''), (''git_commit'', VStr (case ho_git_commit h of Some s \<Rightarrow> s | None \<Rightarrow> ''unknown'')),
        (''hostname'', VStr (ho_hostname h)), (''python_version'', VStr (ho_python_version h)), (''pid'', VNat (ho_pid h)),
        (''auto_enroll'', VBool (cf_auto_enroll c)),
        (''databases'', VList [file_metadata h ''registry'' (cf_device_registry_db_path c), file_metadata h ''queue'' (cf_queue_db_path c),
          file_metadata h ''state_shadow'' (cf_state_shadow_db_path c)]),
        (''runtime'', runtime)])
       (runtime_metadata h (path_parent (cf_state_shadow_db_path c))))"

section \<open>Routes\<close>

definition system_route :: "Host \<Rightarrow> DashboardContext \<Rightarrow> view http" where
  "system_route h x = (case system_view h x of None \<Rightarrow> ServerError | Some v \<Rightarrow> Http 200 v)"

definition device_dashboard :: "seconds \<Rightarrow> string \<Rightarrow> DashboardContext \<Rightarrow> string \<Rightarrow> string http" where
  "device_dashboard now DASHBOARD_HTML x device_id = (case known_device now x device_id of
     None \<Rightarrow> ServerError
   | Some False \<Rightarrow> HTTPException 404 (Detail ''Unknown device'')
   | Some True \<Rightarrow> Http 200 DASHBOARD_HTML)"

definition logs_stream :: "int \<Rightarrow> RingBufferLogHandler list \<Rightarrow> sse list http" where
  "logs_stream after hs = (if after < 0 then RequestValidationError else Http 200 (stream_logs (nat after) hs))"

section \<open>Reading the text of the kernel\<close>

lemma split_where_not_Nil [simp]: "split_where P xs \<noteq> []"
  by (induction xs) (auto split: list.split)

lemma split_where_append: "\<forall>x\<in>set xs. \<not> P x \<Longrightarrow> P c \<Longrightarrow> split_where P (xs @ c # ys) = xs # split_where P ys"
  by (induction xs) auto

lemma split_where_single: "\<forall>x\<in>set xs. \<not> P x \<Longrightarrow> split_where P xs = [xs]"
  by (induction xs) auto

lemma py_split_word: "\<forall>c\<in>set w. \<not> is_py_space c \<Longrightarrow> w \<noteq> [] \<Longrightarrow> py_split (w @ CHR '' '' # s) = w # py_split s"
  by (simp add: py_split_def split_where_append is_py_space_def)

lemma py_split_pad: "py_split (replicate n CHR '' '' @ s) = py_split s"
  by (induction n) (simp_all add: py_split_def is_py_space_def)

lemma full_lines_line: "\<forall>c\<in>set l. \<not> is_line_break c \<Longrightarrow> l \<noteq> [] \<Longrightarrow> full_lines (l @ CHR 0x0A # s) = l # full_lines s"
  by (simp add: full_lines_def split_where_append is_line_break_def)

lemma digits_tail_digits: "\<forall>c\<in>set s. is_digit c \<Longrightarrow> digits_tail s n = Some (foldl (\<lambda>n c. 10 * n + digit_val c) n s)"
  by (induction s arbitrary: n) auto

lemma show_nat_no_space: "c \<in> set (show_nat n) \<Longrightarrow> \<not> is_py_space c"
  using show_nat_digits [of c n] by (auto simp: is_digit_def is_py_space_def)

lemma strip_none: "\<forall>c\<in>set s. \<not> is_py_space c \<Longrightarrow> strip s = s"
proof -
  assume a: "\<forall>c\<in>set s. \<not> is_py_space c"
  have "dropWhile is_py_space s = s" "dropWhile is_py_space (rev s) = rev s"
    unfolding dropWhile_eq_self_iff using a by (cases "s = []"; simp add: hd_rev)+
  then show ?thesis by (simp add: strip_def lstrip_on_def rstrip_on_def)
qed

lemma python_int_show: "python_int (show_nat n) = Some (int n)"
proof -
  obtain c s where cs: "show_nat n = c # s" by (cases "show_nat n") auto
  have d: "\<forall>x\<in>set (show_nat n). is_digit x" using show_nat_digits by blast
  then have "is_digit c" using cs by simp
  then have "split_sign (show_nat n) = (False, show_nat n)" by (auto simp: split_sign_def cs is_digit_def)
  moreover have "read_digits (show_nat n) = Some (read_nat (show_nat n))"
    using d digits_tail_digits [OF d, of 0] cs by (simp add: read_digits_def read_nat_def)
  ultimately show ?thesis using strip_none [of "show_nat n"] show_nat_no_space by (auto simp: python_int_def)
qed

text \<open>The kernel's format: a name, a colon, padding, a number of kilobytes.\<close>

definition meminfo_line :: "string \<times> nat \<times> nat \<Rightarrow> string" where
  "meminfo_line e = (case e of (name, pad, kb) \<Rightarrow> name @ '':'' @ replicate (Suc pad) CHR '' '' @ show_nat kb @ '' kB'')"

definition meminfo_text :: "(string \<times> nat \<times> nat) list \<Rightarrow> string" where
  "meminfo_text es = concat (map (\<lambda>e. meminfo_line e @ [CHR 0x0A]) es)"

definition plain_name :: "string \<Rightarrow> bool" where
  "plain_name name \<longleftrightarrow> (\<forall>c\<in>set name. c \<noteq> CHR '':'' \<and> \<not> is_py_space c)"

lemma meminfo_entry_line:
  assumes "plain_name name"
  shows "meminfo_entry (meminfo_line (name, pad, kb)) = Some (name, int kb * 1024)"
proof -
  have "py_split (meminfo_line (name, pad, kb)) = (name @ '':'') # py_split (replicate pad CHR '' '' @ show_nat kb @ '' kB'')"
    using py_split_word [of "name @ '':''" "replicate pad CHR '' '' @ show_nat kb @ '' kB''"] assms
    by (auto simp: meminfo_line_def plain_name_def is_py_space_def)
  also have "\<dots> = [name @ '':'', show_nat kb, ''kB'']"
    using py_split_word [of "show_nat kb" "''kB''"] show_nat_no_space
    by (simp add: py_split_pad) (simp add: py_split_def is_py_space_def)
  finally show ?thesis using assms by (simp add: meminfo_entry_def python_int_show) (auto simp: meminfo_line_def plain_name_def takeWhile_append)
qed

lemma full_lines_text:
  assumes "\<forall>e\<in>set es. plain_name (fst e)"
  shows "full_lines (meminfo_text es) = map meminfo_line es"
  using assms
proof (induction es)
  case (Cons e es)
  obtain name pad kb where e: "e = (name, pad, kb)" by (cases e)
  have s: "\<not> is_line_break c" if "\<not> is_py_space c" for c using that by (auto simp: is_line_break_def is_py_space_def)
  have sub: "set (meminfo_line e) \<subseteq> set name \<union> set (show_nat kb) \<union> set '': kB''" by (auto simp: e meminfo_line_def)
  have punct: "\<forall>c\<in>set '': kB''. \<not> is_line_break c" by (simp add: is_line_break_def)
  have "\<forall>c\<in>set name. \<not> is_line_break c" using Cons.prems s by (simp add: e plain_name_def)
  with sub punct have "\<forall>c\<in>set (meminfo_line e). \<not> is_line_break c" using s show_nat_no_space by blast
  moreover have "meminfo_line e \<noteq> []" by (simp add: e meminfo_line_def)
  ultimately show ?case using Cons by (simp add: meminfo_text_def full_lines_line)
qed (simp add: meminfo_text_def full_lines_def)

text \<open>
  The memory facts are read back from the kernel's text: whatever other lines it has, the page shows the
  total and the available memory of their lines in bytes, and the difference as used.
\<close>

theorem memory_facts_read_back:
  assumes "\<forall>e\<in>set es. plain_name (fst e)" "distinct (map fst es)" "(''MemTotal'', pad, m) \<in> set es" "(''MemAvailable'', pad', a) \<in> set es"
  shows "memory_metadata (Some (meminfo_text es)) = Some (VDict
    [(''total_bytes'', VNat (m * 1024)), (''used_bytes'', VJson (JInt (int m * 1024 - int a * 1024))), (''available_bytes'', VNat (a * 1024))])"
proof -
  define vs where "vs = map (\<lambda>(name, _, kb). (name, int kb * 1024)) es"
  have "CHR '':'' \<in> set (meminfo_line e)" for e by (cases e) (simp add: meminfo_line_def)
  then have "filter (\<lambda>l. CHR '':'' \<in> set l) (full_lines (meminfo_text es)) = map meminfo_line es"
    by (simp add: full_lines_text [OF assms(1)] filter_map comp_def)
  moreover have "those (map (\<lambda>e. meminfo_entry (meminfo_line e)) es) = Some vs"
    unfolding vs_def using assms(1) by (induction es) (auto simp: meminfo_entry_line)
  ultimately have v: "meminfo_values (meminfo_text es) = Some (dict_merge [] vs)" by (simp add: meminfo_values_def comp_def)
  have "map fst vs = map fst es" by (simp add: vs_def case_prod_beta comp_def)
  then have wf: "dict_wf vs" using assms(2) by (simp add: dict_wf_def)
  have "dict_get vs ''MemTotal'' = Some (int m * 1024)" "dict_get vs ''MemAvailable'' = Some (int a * 1024)"
    using assms(3,4) dict_wf_mem [OF wf] by (force simp: vs_def)+
  then show ?thesis by (simp add: memory_metadata_def v dict_get_merge [OF wf])
qed

section \<open>Paths\<close>

lemma join_no_slash: "\<forall>p\<in>set parts. p \<noteq> [] \<and> CHR ''/'' \<notin> set p \<Longrightarrow> takeWhile (\<lambda>c. c = CHR ''/'') (join ''/'' parts) = []"
  by (cases "(''/'', parts)" rule: join.cases; cases "hd parts") auto

lemma path_parts_ok: "\<forall>p\<in>set (path_parts s). p \<noteq> [] \<and> p \<noteq> ''.'' \<and> CHR ''/'' \<notin> set p"
  using split_on_free [of _ "CHR ''/''" s] by (auto simp: path_parts_def)

lemma path_parts_str:
  assumes "\<forall>p\<in>set parts. p \<noteq> [] \<and> p \<noteq> ''.'' \<and> CHR ''/'' \<notin> set p" "r \<in> {[], ''/'', ''//''}"
  shows "path_parts (path_str r parts) = parts" "path_root (path_str r parts) = r"
proof -
  have f: "filter (\<lambda>s. s \<noteq> [] \<and> s \<noteq> ''.'') (split_on CHR ''/'' (join ''/'' parts)) = parts"
  proof (cases "parts = []")
    case False
    then show ?thesis using split_on_join [of parts "CHR ''/''"] assms(1) by (simp add: filter_id_conv)
  qed simp
  show "path_parts (path_str r parts) = parts"
    using assms(2) f by (auto simp: path_parts_def path_str_def)
  have "takeWhile (\<lambda>c. c = CHR ''/'') (join ''/'' parts) = []" using assms(1) by (intro join_no_slash) auto
  then show "path_root (path_str r parts) = r" using assms(2) by (auto simp: path_root_def path_str_def)
qed

lemma path_root_cases: "path_root p \<in> {[], ''/'', ''//''}"
  by (auto simp: path_root_def split: list.split)

text \<open>
  The path that is shown and whose size is read names the configured file: normalising it again changes
  nothing, and its parent is the parent of the configured path.
\<close>

theorem normalized_path_stable:
  "normalized (normalized p) = normalized p \<and> path_parent (normalized p) = path_parent p"
  unfolding normalized_def path_parent_def
  using path_parts_str [OF path_parts_ok path_root_cases] by simp

end
