(* ===== verification/Spec2Isabelle.thy ===== *)
theory Spec2Isabelle
  imports Capture_Proxy Web_Api Relay_Lifecycle State_Cache Mosquitto_Config Motion_Probe End_To_End Host_Facts
begin

text \<open>
  Verification of the PETLIBRO local relay (the Python package \<^verbatim>\<open>src/src/petlibro_relay\<close>): a process
  that sits between pet feeders and the vendor cloud, forwards and queues their MQTT traffic, answers the
  feeders itself while the cloud is unreachable, learns each feeder's state and credentials, and lets the
  owner change settings, feed and edit schedules locally.

  \<^bold>\<open>The program.\<close> A feeder connects through the capture proxy, which reads its CONNECT packet, stores the
  credentials in the device registry, counts open sessions for the presence tracker and pipes all bytes
  to the local broker. For every enrolled device the device manager keeps a device context with one cloud
  session while the device is present. A message published by a feeder goes through the context: the
  local responder may answer it, otherwise the durable queue stores it under the replay policy, and a
  delivery pump publishes it. Cloud messages take the opposite way and teach the state shadow.
  Interactive commands go directly to the feeder and wait for its acknowledgement.

  \<^bold>\<open>Theories and sources\<close> (files of \<^verbatim>\<open>src/src/petlibro_relay\<close>):

  \<^item> \<open>Relay_Prelude\<close>: Python dictionaries, results, string splitting, bounded deques, counters.
  \<^item> \<open>Json\<close>: the \<open>json\<close> module as the relay uses it, a parser with fuel (twice the length of the
    input, proved enough) and a printer, with their round trip.
  \<^item> \<open>Protocol\<close> (\<^verbatim>\<open>protocol.py\<close>): topics and commands. A parsed topic names exactly its parts.
  \<^item> \<open>Replay_Policy\<close> (\<^verbatim>\<open>replay_policy.py\<close>): what may be queued, for how long, and what supersedes what.
    Only ephemeral reports are dropped.
  \<^item> \<open>Message_Queue\<close> (\<^verbatim>\<open>message_queue.py\<close>): the SQLite table as a list of rows, its migrations, and a
    locale for a store of messages that the table implements. Order, bound, isolation of devices.
  \<^item> \<open>Delivery_Pump\<close> (\<^verbatim>\<open>delivery_pump.py\<close>): the pump's loop over an explicit clock. Rate limits, no
    loss without confirmation or expiry, no late publication, isolation, fairness of rotation.
  \<^item> \<open>Pump_Liveness\<close>: progress of the pump's loop. A device that stays connected has its backlog delivered
    after finitely many passes, whatever the other devices do; the order among devices can still lock.
  \<^item> \<open>Connect_Packet\<close> (\<^verbatim>\<open>mqtt_connect_packet.py\<close>): reading a CONNECT packet from a socket in segments.
    Round trip with an encoder; no byte is lost.
  \<^item> \<open>Device_Registry\<close> (\<^verbatim>\<open>device_registry.py\<close>): identities, enrollment, expiry, migrations.
  \<^item> \<open>Device_Presence\<close> (\<^verbatim>\<open>device_presence.py\<close>): local sessions with a grace period.
  \<^item> \<open>Capture_Proxy\<close> (\<^verbatim>\<open>credential_capture_proxy.py\<close>): capture, transparency also when sockets, registry
    or listener fail, and the session counter under interleaved connections.
  \<^item> \<open>State_Shadow\<close> (\<^verbatim>\<open>state_shadow.py\<close>): desired, reported and confirmed settings, schedules by owner.
  \<^item> \<open>Dst_Schedule\<close> (\<^verbatim>\<open>dst_schedule.py\<close>): search of daylight-saving changes, equal to the exhaustive one.
  \<^item> \<open>Local_Responder\<close> (\<^verbatim>\<open>local_responder.py\<close>, \<^verbatim>\<open>camera_uid.py\<close>): which requests are answered locally,
    with what, and which late cloud answers are withheld.
  \<^item> \<open>Device_Control\<close> (\<^verbatim>\<open>sound_switch_control.py\<close>): interactive transactions, split where the code takes
    its lock, with reachability over all interleavings; which acknowledgement decides; settings groups,
    portions, schedules.
  \<^item> \<open>Schedule_Resync\<close> (\<^verbatim>\<open>schedule_resync.py\<close>): one delayed restoration per connection generation, as
    long as reports of generations do not overtake each other.
  \<^item> \<open>Telemetry\<close> (\<^verbatim>\<open>observability/telemetry.py\<close>): the state machine of a cloud session and its outages.
  \<^item> \<open>Device_Context\<close> (\<^verbatim>\<open>device_context.py\<close>): cloud session lifecycle, callbacks and message routes.
  \<^item> \<open>Device_Manager\<close> (\<^verbatim>\<open>device_manager.py\<close>): contexts of all devices, reconciled with presence.
  \<^item> \<open>Sanitizer\<close> (\<^verbatim>\<open>observability/sanitizer.py\<close>): redaction and truncation of payload previews.
  \<^item> \<open>Log_Buffer\<close> (\<^verbatim>\<open>observability/log_buffer.py\<close>): the bounded buffer of log lines and its filters, and
    the handlers of \<^verbatim>\<open>logging_config.py\<close>.
  \<^item> \<open>Mqtt_Bridge\<close> (\<^verbatim>\<open>mqtt_bridge.py\<close>): subscriptions, callbacks and publications of both MQTT clients;
    once connected, the bridge does not hear its own publications.
  \<^item> \<open>Relay_Config\<close> (\<^verbatim>\<open>config.py\<close>): the settings read from the environment and their validation.
  \<^item> \<open>Relay_Main\<close> (\<^verbatim>\<open>__main__.py\<close>): the session listener, the start of the devices and runs of the whole
    relay, timers included.
  \<^item> \<open>End_To_End\<close>: one message through bridge, context, replay policy, queue and pump, in both directions,
    up to its confirmed publication or its removal after its age limit, while nothing else enters the queue.
  \<^item> \<open>Relay_Lifecycle\<close> (\<^verbatim>\<open>__main__.py\<close> and the start and stop methods of all parts): threads and resources from the
    start of the process to its end. A thread ends when its loop reads its stop event. A started relay shuts down;
    no database is closed under a thread that uses it, but for connection handlers and resync callbacks,
    which nothing waits for; and two failed starts leave the process hanging.
  \<^item> \<open>Dashboard\<close> (\<^verbatim>\<open>web/context.py\<close>): what the web interface shows of the relay's state, independent of every
    credential and, per device, of all other devices.
  \<^item> \<open>Web_Api\<close> (\<^verbatim>\<open>web/app.py\<close>): request models, routes and the log stream. Control requests are contained,
    refused without effect for unknown devices, and accepted values reach the feeder as requested and
    within their bounds.
  \<^item> \<open>Host_Facts\<close> (\<^verbatim>\<open>web/context.py\<close>, \<^verbatim>\<open>web/app.py\<close>): the diagnostics page; memory facts read back from the kernel's text, paths.
  \<^item> \<open>Camera_Service\<close> (\<^verbatim>\<open>camera.py\<close>): stream registration, viewer counting and delayed stops, with the
    sections between two uses of the lock interleaved in any order.
  \<^item> \<open>State_Cache\<close> (\<^verbatim>\<open>state_cache.py\<close>): the last payload of every topic in memory and in a file; what a restart
    finds, and that a file that is not UTF-8 stops the start.
  \<^item> \<open>Mosquitto_Config\<close> (\<^verbatim>\<open>mosquitto_config.py\<close>): the broker's configuration file, rendered from the shipped template.
  \<^item> \<open>Motion_Probe\<close> (\<^verbatim>\<open>src/tools/motion_detection_probe.py\<close>): an experiment that flips one setting of a feeder.
    What it publishes, that it restores the original value after a confirmed test, and that it ends.

  \<^bold>\<open>Conventions.\<close> State is passed explicitly in records named after the classes. Locks are modelled by
  making each critical section one step. Times are rational seconds; clock readings, fresh identifiers,
  random draws and results of the network library are arguments. Exceptions are values of a sum or
  option type. SQL tables are lists of rows in insertion order; a commit is the end of a step. A Python
  \<^verbatim>\<open>str\<close> is its UTF-8 encoding, one character per byte, and a payload a list of bytes.

  \<^bold>\<open>Not modelled.\<close> The pages of the web interface and the HTTP server that serves them: input and output around the
  parts above. What the operating system answers is an argument. Files are their decoded contents, and whether a
  write succeeds is an argument. Outcomes of HTTP requests, of the MQTT library and of pydantic's check of a
  request body are arguments of the definitions, and so are the options that argparse finds. The Go camera
  bridge is another program.
\<close>

end
